(* ===== verification/Prelude.thy ===== *)
theory Prelude
  imports Main "HOL-Library.Word"
begin

section \<open>Shared vocabulary of the development\<close>

text \<open>
  What every component of the model uses: the machine types of Go, the result
  of running Go code (a value, a run-time panic, or no return at all), the
  state-passing computations built from it, checked access to slices, and the
  collections of simplification rules the component theories extend.

  A Go function that only computes is a HOL function into
  \<open>'a outcome\<close>, or into \<open>'a\<close> when it cannot panic.  A Go function that
  reads or writes globals, or calls out of the process, is a \<open>('s, 'a) comp\<close>.
  The state survives a panic, because the HTTP server recovers from panics in
  its handlers and the process goes on with whatever the handler wrote.
\<close>

unbundle bit_operations_syntax

type_synonym byte = "8 word"
type_synonym bytes = "byte list"
type_synonym uint = "64 word"

named_theorems run_simps \<open>evaluation rules of the computation combinators\<close>

text \<open>Stepping a loop counter that is below its bound does not wrap around.\<close>

lemma unat_Suc_less: "i < n \<Longrightarrow> unat (i + 1) = Suc (unat (i :: 'a::len word))"
  by unat_arith

lemma unat_of_nat_uint: "m < 2 ^ 64 \<Longrightarrow> unat (of_nat m :: uint) = m"
  by (simp add: unat_of_nat take_bit_nat_eq_self_iff)

lemma unat_byte_less: "unat (b :: byte) < 256"
  using unsigned_less[of b] by simp

lemma uint_byte_less: "uint (b :: byte) < 256"
  using unsigned_less[of b, where ?'a = int] by simp

text \<open>Go's integer division and remainder truncate towards zero.\<close>

definition go_div :: "int \<Rightarrow> int \<Rightarrow> int" where
  "go_div a b = sgn a * sgn b * (\<bar>a\<bar> div \<bar>b\<bar>)"

definition go_mod :: "int \<Rightarrow> int \<Rightarrow> int" where
  "go_mod a b = a - b * go_div a b"

lemma go_div_nonneg [simp]: "0 \<le> a \<Longrightarrow> 0 < b \<Longrightarrow> go_div a b = a div b"
  by (cases "a = 0") (simp_all add: go_div_def)

lemma go_mod_nonneg [simp]: "0 \<le> a \<Longrightarrow> 0 < b \<Longrightarrow> go_mod a b = a mod b"
  by (simp add: go_mod_def minus_mult_div_eq_mod)

subsection \<open>Errors\<close>

text \<open>
  A Go \<open>error\<close> value: the text of \<open>errors.New\<close> and \<open>fmt.Errorf\<close>,
  and the two error types of \<open>encoding/json\<close>.  \<open>nil\<close> is the right
  summand of a result, or \<open>None\<close>.
\<close>

datatype gerror =
    Err string
  | JSONSyntaxError
  | JSONTypeError string string   \<comment> \<open>what was found, the Go type it was found for\<close>
  | Wrap string gerror            \<comment> \<open>\<open>fmt.Errorf\<close> of a text that ends with another error\<close>

subsection \<open>Outcomes\<close>

datatype 'a outcome =
    Ret 'a              \<comment> \<open>the call returned this value\<close>
  | Panic string        \<comment> \<open>run-time panic: index out of range, nil dereference, failed assertion\<close>
  | NoReturn            \<comment> \<open>the call never returns: retry budget used up, or blocked for ever\<close>

definition index_panic :: "'a outcome" where
  "index_panic = Panic ''runtime error: index out of range''"

definition nil_panic :: "'a outcome" where
  "nil_panic = Panic ''runtime error: invalid memory address or nil pointer dereference''"

definition make_panic :: "'a outcome" where
  "make_panic = Panic ''runtime error: makeslice: len out of range''"

fun bindO :: "'a outcome \<Rightarrow> ('a \<Rightarrow> 'b outcome) \<Rightarrow> 'b outcome" where
  "bindO (Ret a) f = f a"
| "bindO (Panic p) f = Panic p"
| "bindO NoReturn f = NoReturn"

fun returns :: "'a outcome \<Rightarrow> bool" where
  "returns (Ret a) = True"
| "returns (Panic p) = False"
| "returns NoReturn = False"

lemma returns_iff: "returns r \<longleftrightarrow> (\<exists>a. r = Ret a)"
  by (cases r) auto

lemma bindO_Ret_iff: "bindO r f = Ret b \<longleftrightarrow> (\<exists>a. r = Ret a \<and> f a = Ret b)"
  by (cases r) auto

lemma bindO_assoc: "bindO (bindO r f) g = bindO r (\<lambda>a. bindO (f a) g)"
  by (cases r) auto

lemma bindO_Ret [simp]: "bindO r Ret = r"
  by (cases r) auto

lemma panics_distinct [simp]:
  "index_panic \<noteq> Ret a" "nil_panic \<noteq> Ret a" "make_panic \<noteq> Ret a"
  "Ret a \<noteq> index_panic" "Ret a \<noteq> nil_panic" "Ret a \<noteq> make_panic"
  "\<not> returns (index_panic :: 'b outcome)" "\<not> returns (nil_panic :: 'b outcome)"
  "\<not> returns (make_panic :: 'b outcome)"
  by (simp_all add: index_panic_def nil_panic_def make_panic_def)

lemma bindO_panics [simp]:
  "bindO index_panic f = index_panic" "bindO nil_panic f = nil_panic"
  "bindO make_panic f = make_panic"
  by (simp_all add: index_panic_def nil_panic_def make_panic_def)

subsection \<open>Computations\<close>

type_synonym ('s, 'a) comp = "'s \<Rightarrow> 'a outcome \<times> 's"

definition retM :: "'a \<Rightarrow> ('s, 'a) comp" where
  "retM a = (\<lambda>s. (Ret a, s))"

definition liftO :: "'a outcome \<Rightarrow> ('s, 'a) comp" where
  "liftO r = (\<lambda>s. (r, s))"

definition bindM :: "('s, 'a) comp \<Rightarrow> ('a \<Rightarrow> ('s, 'b) comp) \<Rightarrow> ('s, 'b) comp" where
  "bindM m f = (\<lambda>s. case m s of
       (Ret a, s') \<Rightarrow> f a s'
     | (Panic p, s') \<Rightarrow> (Panic p, s')
     | (NoReturn, s') \<Rightarrow> (NoReturn, s'))"

definition thenM :: "('s, 'a) comp \<Rightarrow> ('s, 'b) comp \<Rightarrow> ('s, 'b) comp" where
  "thenM m n = bindM m (\<lambda>_. n)"

definition getM :: "('s \<Rightarrow> 'a) \<Rightarrow> ('s, 'a) comp" where
  "getM f = (\<lambda>s. (Ret (f s), s))"

definition modifyM :: "('s \<Rightarrow> 's) \<Rightarrow> ('s, unit) comp" where
  "modifyM f = (\<lambda>s. (Ret (), f s))"

text \<open>The same call several times in a row, with the results in order.\<close>

primrec repeatM :: "nat \<Rightarrow> ('s, 'a) comp \<Rightarrow> ('s, 'a list) comp" where
  "repeatM 0 m = retM []"
| "repeatM (Suc n) m = bindM m (\<lambda>a. bindM (repeatM n m) (\<lambda>as. retM (a # as)))"

lemma retM_run [run_simps]: "retM a s = (Ret a, s)"
  by (simp add: retM_def)

lemma liftO_run [run_simps]: "liftO r s = (r, s)"
  by (simp add: liftO_def)

lemma getM_run [run_simps]: "getM f s = (Ret (f s), s)"
  by (simp add: getM_def)

lemma modifyM_run [run_simps]: "modifyM f s = (Ret (), f s)"
  by (simp add: modifyM_def)

lemma bindM_run [run_simps]:
  "bindM m f s = (case m s of
       (Ret a, s') \<Rightarrow> f a s'
     | (Panic p, s') \<Rightarrow> (Panic p, s')
     | (NoReturn, s') \<Rightarrow> (NoReturn, s'))"
  by (simp add: bindM_def)

lemma thenM_run [run_simps]:
  "thenM m n s = (case m s of
       (Ret a, s') \<Rightarrow> n s'
     | (Panic p, s') \<Rightarrow> (Panic p, s')
     | (NoReturn, s') \<Rightarrow> (NoReturn, s'))"
  by (simp add: thenM_def bindM_def)

text \<open>
  \<open>if err != nil { return err }\<close> after a call that returns a value and an error,
  in a function that returns a value and an error, or an error only; and after a
  call that returns an error only.
\<close>

definition tryE :: "('s, gerror + 'a) comp \<Rightarrow> ('a \<Rightarrow> ('s, gerror + 'b) comp) \<Rightarrow> ('s, gerror + 'b) comp" where
  "tryE m f = bindM m (\<lambda>r. case r of Inl err \<Rightarrow> retM (Inl err) | Inr a \<Rightarrow> f a)"

definition tryM :: "('s, gerror + 'a) comp \<Rightarrow> ('a \<Rightarrow> ('s, gerror option) comp) \<Rightarrow> ('s, gerror option) comp" where
  "tryM m f = bindM m (\<lambda>r. case r of Inl err \<Rightarrow> retM (Some err) | Inr a \<Rightarrow> f a)"

definition guardM :: "('s, gerror option) comp \<Rightarrow> ('s, gerror option) comp \<Rightarrow> ('s, gerror option) comp" where
  "guardM m n = bindM m (\<lambda>e. case e of Some err \<Rightarrow> retM (Some err) | None \<Rightarrow> n)"

lemma tryE_run [run_simps]:
  "tryE m f s = (case m s of
       (Ret (Inr a), s') \<Rightarrow> f a s'
     | (Ret (Inl err), s') \<Rightarrow> (Ret (Inl err), s')
     | (Panic p, s') \<Rightarrow> (Panic p, s')
     | (NoReturn, s') \<Rightarrow> (NoReturn, s'))"
  by (auto simp: tryE_def bindM_run retM_run split: prod.splits outcome.splits sum.splits)

lemma tryM_run [run_simps]:
  "tryM m f s = (case m s of
       (Ret (Inr a), s') \<Rightarrow> f a s'
     | (Ret (Inl err), s') \<Rightarrow> (Ret (Some err), s')
     | (Panic p, s') \<Rightarrow> (Panic p, s')
     | (NoReturn, s') \<Rightarrow> (NoReturn, s'))"
  by (auto simp: tryM_def bindM_run retM_run split: prod.splits outcome.splits sum.splits)

lemma guardM_run [run_simps]:
  "guardM m n s = (case m s of
       (Ret None, s') \<Rightarrow> n s'
     | (Ret (Some err), s') \<Rightarrow> (Ret (Some err), s')
     | (Panic p, s') \<Rightarrow> (Panic p, s')
     | (NoReturn, s') \<Rightarrow> (NoReturn, s'))"
  by (auto simp: guardM_def bindM_run retM_run split: prod.splits outcome.splits option.splits)

lemma bindM_Ret: "m s = (Ret a, s') \<Longrightarrow> bindM m f s = f a s'"
  by (simp add: run_simps)

lemma thenM_Ret: "m s = (Ret a, s') \<Longrightarrow> thenM m n s = n s'"
  by (simp add: run_simps)

lemma bindM_cases:
  assumes "bindM m f s = (Ret b, t)"
  obtains a s' where "m s = (Ret a, s')" "f a s' = (Ret b, t)"
  using assms by (auto simp: run_simps split: prod.splits outcome.splits)

subsection \<open>Slices\<close>

text \<open>
  Go indexes a slice with an integer and panics outside of it.  \<open>slice_get\<close>
  and \<open>slice_set\<close> take the index as the integer the source computes, so a
  negative index panics too.
\<close>

definition slice_get :: "'a list \<Rightarrow> int \<Rightarrow> 'a outcome" where
  "slice_get xs i = (if 0 \<le> i \<and> i < int (length xs) then Ret (xs ! nat i) else index_panic)"

definition slice_set :: "'a list \<Rightarrow> int \<Rightarrow> 'a \<Rightarrow> 'a list outcome" where
  "slice_set xs i v = (if 0 \<le> i \<and> i < int (length xs) then Ret (xs[nat i := v]) else index_panic)"

text \<open>
  \<open>make([]byte, n)\<close>: a negative length panics, and so does one beyond the
  128 GiB the runtime can address.
\<close>

definition make_bytes :: "int \<Rightarrow> bytes outcome" where
  "make_bytes n = (if 0 \<le> n \<and> n < 2 ^ 37 then Ret (replicate (nat n) 0) else make_panic)"

text \<open>\<open>copy(dst, src)\<close> copies as many elements as fit and keeps the rest of \<open>dst\<close>.\<close>

definition go_copy :: "'a list \<Rightarrow> 'a list \<Rightarrow> 'a list" where
  "go_copy dst src = take (length dst) src @ drop (length src) dst"

lemma length_go_copy [simp]: "length (go_copy dst src) = length dst"
  by (simp add: go_copy_def)

lemma go_copy_same_length [simp]: "length dst = length src \<Longrightarrow> go_copy dst src = src"
  by (simp add: go_copy_def)

lemma go_copy_Nil [simp]: "go_copy dst [] = dst"
  by (simp add: go_copy_def)

lemma slice_get_Ret [simp]: "i < length xs \<Longrightarrow> slice_get xs (int i) = Ret (xs ! i)"
  by (simp add: slice_get_def)

lemma slice_set_Ret [simp]: "i < length xs \<Longrightarrow> slice_set xs (int i) v = Ret (xs[i := v])"
  by (simp add: slice_set_def)

lemma slice_get_panic: "i < 0 \<or> int (length xs) \<le> i \<Longrightarrow> slice_get xs i = index_panic"
  by (auto simp: slice_get_def)

lemma slice_set_panic: "i < 0 \<or> int (length xs) \<le> i \<Longrightarrow> slice_set xs i v = index_panic"
  by (auto simp: slice_set_def)

end
