(* ===== verification/BitArray.thy ===== *)
theory BitArray
  imports Prelude
begin

section \<open>Bit arrays (daemon/utils.go)\<close>

text \<open>
  The allocator both the address management (ipam.go) and the VLAN management
  (network.go) are built on: a byte slice read as an array of bits, position
  \<open>k\<close> being bit \<open>k % 8\<close> of byte \<open>k / 8\<close>.

  The operations are \<open>setBit\<close>, \<open>clearBit\<close>, \<open>testBit\<close> and
  \<open>testAndSetBit\<close>; the loop of the last is \<open>testAndSetBit_loop\<close>, with
  the loop counter kept at its 64-bit width.  The abstract view of a slice is
  the set \<open>bits_of\<close> of positions that are set; every operation is shown to
  implement the corresponding operation on sets.  The locale
  \<open>position_pool\<close> states what the callers rely on, and carries the facts
  about runs of allocations and releases that both of them use.
\<close>

subsection \<open>The operations\<close>

definition setBit :: "bytes \<Rightarrow> uint \<Rightarrow> bytes outcome" where
  "setBit a k = bindO (slice_get a (int (unat (k div 8))))
     (\<lambda>b. slice_set a (int (unat (k div 8))) (b OR push_bit (unat (k mod 8)) 1))"

definition clearBit :: "bytes \<Rightarrow> uint \<Rightarrow> bytes outcome" where
  "clearBit a k = bindO (slice_get a (int (unat (k div 8))))
     (\<lambda>b. slice_set a (int (unat (k div 8))) (b AND NOT (push_bit (unat (k mod 8)) 1)))"

definition testBit :: "bytes \<Rightarrow> uint \<Rightarrow> bool outcome" where
  "testBit a k = bindO (slice_get a (int (unat (k div 8))))
     (\<lambda>b. Ret (b AND push_bit (unat (k mod 8)) 1 \<noteq> 0))"

function testAndSetBit_loop :: "bytes \<Rightarrow> uint \<Rightarrow> uint \<Rightarrow> (uint \<times> bytes) outcome" where
  "testAndSetBit_loop a n i =
     (if i < n then
        bindO (testBit a i) (\<lambda>set.
          if \<not> set then bindO (setBit a i) (\<lambda>a'. Ret (i + 1, a'))
          else testAndSetBit_loop a n (i + 1))
      else Ret (i, a))"
  by pat_completeness auto
termination
  by (relation "measure (\<lambda>(a, n, i). unat n - unat i)")
     (auto simp: unat_Suc_less word_less_nat_alt)

declare testAndSetBit_loop.simps [simp del]

definition testAndSetBit :: "bytes \<Rightarrow> (uint \<times> bytes) outcome" where
  "testAndSetBit a = testAndSetBit_loop a (of_nat (length a * 8)) 0"

subsection \<open>The positions a slice marks as used\<close>

definition bit_at :: "bytes \<Rightarrow> nat \<Rightarrow> bool" where
  "bit_at a k \<longleftrightarrow> k < 8 * length a \<and> bit (a ! (k div 8)) (k mod 8)"

definition bits_of :: "bytes \<Rightarrow> nat set" where
  "bits_of a = {k. bit_at a k}"

lemma testBit_eq:
  "testBit a k = (if unat k < 8 * length a then Ret (bit_at a (unat k)) else index_panic)"
  by (auto simp: testBit_def slice_get_def bit_at_def unat_div unat_mod and_exp_eq_0_iff_not_bit)

lemma bit_at_update:
  assumes "k < 8 * length a" "j < 8 * length a"
  shows "bit_at (a[k div 8 := v]) j =
     (if j div 8 = k div 8 then bit v (j mod 8) else bit_at a j)"
proof -
  have "k div 8 < length a" using assms by (simp add: less_mult_imp_div_less mult.commute)
  then show ?thesis using assms by (auto simp: bit_at_def nth_list_update)
qed
lemma div_mod_eq: "j div 8 = k div 8 \<Longrightarrow> (j mod 8 = k mod 8) = (j = (k::nat))"
  by (metis div_mult_mod_eq)

lemma setBit_eq:
  "setBit a k = (if unat k < 8 * length a
     then Ret (a[unat k div 8 := a ! (unat k div 8) OR push_bit (unat k mod 8) 1]) else index_panic)"
  by (auto simp: setBit_def slice_get_def slice_set_def unat_div unat_mod)

lemma clearBit_eq:
  "clearBit a k = (if unat k < 8 * length a
     then Ret (a[unat k div 8 := a ! (unat k div 8) AND NOT (push_bit (unat k mod 8) 1)]) else index_panic)"
  by (auto simp: clearBit_def slice_get_def slice_set_def unat_div unat_mod)

lemma setBit_bits:
  assumes "setBit a k = Ret a'"
  shows "bits_of a' = insert (unat k) (bits_of a)" "length a' = length a"
proof -
  have k: "unat k < 8 * length a" and a': "a' = a[unat k div 8 := a ! (unat k div 8) OR push_bit (unat k mod 8) 1]"
    using assms by (auto simp: setBit_eq split: if_splits)
  show "length a' = length a" by (simp add: a')
  have "bit_at a' j \<longleftrightarrow> j = unat k \<or> bit_at a j" for j
  proof (cases "j < 8 * length a")
    case True
    have b: "j mod 8 < 8" by simp
    show ?thesis unfolding a' using bit_at_update[OF k True] True b k div_mod_eq[of j "unat k"]
      by (auto simp: bit_simps bit_at_def)
  next
    case False then show ?thesis using k by (auto simp: bit_at_def a')
  qed
  then show "bits_of a' = insert (unat k) (bits_of a)" by (auto simp: bits_of_def)
qed

lemma clearBit_bits:
  assumes "clearBit a k = Ret a'"
  shows "bits_of a' = bits_of a - {unat k}" "length a' = length a"
proof -
  have k: "unat k < 8 * length a" and a': "a' = a[unat k div 8 := a ! (unat k div 8) AND NOT (push_bit (unat k mod 8) 1)]"
    using assms by (auto simp: clearBit_eq split: if_splits)
  show "length a' = length a" by (simp add: a')
  have "bit_at a' j \<longleftrightarrow> j \<noteq> unat k \<and> bit_at a j" for j
  proof (cases "j < 8 * length a")
    case True
    have b: "j mod 8 < 8" by simp
    show ?thesis unfolding a' using bit_at_update[OF k True] True b k div_mod_eq[of j "unat k"]
      by (auto simp: bit_simps bit_at_def)
  next
    case False then show ?thesis using k by (auto simp: bit_at_def a')
  qed
  then show "bits_of a' = bits_of a - {unat k}" by (auto simp: bits_of_def)
qed

text \<open>
  The loop started at \<open>i\<close> takes the least position from \<open>i\<close> on that is
  not marked, and leaves the slice alone when there is none.
\<close>

lemma testAndSetBit_loop_spec:
  assumes "unat n = 8 * length a" "unat i \<le> unat n"
  shows "testAndSetBit_loop a n i =
     (if \<exists>k. unat i \<le> k \<and> k < 8 * length a \<and> k \<notin> bits_of a
      then let k = (LEAST k. unat i \<le> k \<and> k < 8 * length a \<and> k \<notin> bits_of a) in
           bindO (setBit a (of_nat k)) (\<lambda>a'. Ret (of_nat (Suc k), a'))
      else Ret (n, a))"
  using assms
proof (induction a n i rule: testAndSetBit_loop.induct)
  case (1 a n i)
  show ?case
  proof (cases "i < n")
    case False
    with 1 have "i = n" "unat i = 8 * length a" by (auto simp: word_less_nat_alt word_unat_eq_iff)
    then show ?thesis by (auto simp: testAndSetBit_loop.simps[of a n n])
  next
    case True
    then have lt: "unat i < 8 * length a" using 1 by (simp add: word_less_nat_alt)
    show ?thesis
    proof (cases "bit_at a (unat i)")
      case False
      then have ni: "unat i \<notin> bits_of a" by (simp add: bits_of_def)
      have L: "(LEAST k. unat i \<le> k \<and> k < 8 * length a \<and> k \<notin> bits_of a) = unat i"
        using lt ni by (intro Least_equality) auto
      show ?thesis unfolding L
        using True False lt ni by (auto simp: testAndSetBit_loop.simps[of a n i] testBit_eq Let_def add.commute)
    next
      case bit: True
      have e: "(unat i \<le> k \<and> k < 8 * length a \<and> k \<notin> bits_of a) =
            (unat (i + 1) \<le> k \<and> k < 8 * length a \<and> k \<notin> bits_of a)" for k
        using bit True by (auto simp: unat_Suc_less bits_of_def Suc_le_eq le_less)
      have le: "unat (i + 1) \<le> unat n" using True by (simp add: unat_Suc_less word_less_nat_alt)
      have IH: "testAndSetBit_loop a n (i + 1) =
     (if \<exists>k. unat (i + 1) \<le> k \<and> k < 8 * length a \<and> k \<notin> bits_of a
      then let k = (LEAST k. unat (i + 1) \<le> k \<and> k < 8 * length a \<and> k \<notin> bits_of a) in
           bindO (setBit a (of_nat k)) (\<lambda>a'. Ret (of_nat (Suc k), a'))
      else Ret (n, a))" using 1(1)[OF True _ _ le] 1(2) bit by simp
      show ?thesis unfolding e using IH True lt bit
        by (simp add: testAndSetBit_loop.simps[of a n i] testBit_eq)
    qed
  qed
qed

lemma bits_of_subset: "bits_of a \<subseteq> {..<8 * length a}"
  by (auto simp: bits_of_def bit_at_def)

lemma finite_bits_of [simp]: "finite (bits_of a)"
  using bits_of_subset finite_subset by blast

lemma bits_of_zero [simp]: "bits_of (replicate n 0) = {}"
  by (auto simp: bits_of_def bit_at_def)

lemma testAndSetBit_eq:
  assumes "8 * length a < 2 ^ 64"
  shows "testAndSetBit a =
     (if bits_of a = {..<8 * length a} then Ret (of_nat (8 * length a), a)
      else let k = (LEAST k. k \<notin> bits_of a) in
           bindO (setBit a (of_nat k)) (\<lambda>a'. Ret (of_nat (Suc k), a')))"
proof -
  let ?n = "of_nat (length a * 8) :: uint"
  have n: "unat ?n = 8 * length a"
    using unat_of_nat_uint[of "length a * 8"] assms by (simp add: mult.commute)
  have full: "(\<exists>k. k < 8 * length a \<and> k \<notin> bits_of a) \<longleftrightarrow> bits_of a \<noteq> {..<8 * length a}"
    using bits_of_subset[of a] by auto
  have least: "(LEAST k. k < 8 * length a \<and> k \<notin> bits_of a) = (LEAST k. k \<notin> bits_of a)"
    if "k < 8 * length a" "k \<notin> bits_of a" for k
  proof (rule Least_equality)
    show "(LEAST k. k \<notin> bits_of a) < 8 * length a \<and> (LEAST k. k \<notin> bits_of a) \<notin> bits_of a"
      using that by (metis LeastI Least_le le_less_trans)
  qed (simp add: Least_le)
  show ?thesis
    unfolding testAndSetBit_def
    using testAndSetBit_loop_spec[OF n, of 0] full least by (auto simp: mult.commute)
qed

lemma testAndSetBit_free:
  assumes "8 * length a < 2 ^ 64" "bits_of a \<noteq> {..<8 * length a}"
  obtains k a' where "testAndSetBit a = Ret (of_nat (Suc k), a')" "k < 8 * length a"
    "k \<notin> bits_of a" "{..<k} \<subseteq> bits_of a" "bits_of a' = insert k (bits_of a)"
    "length a' = length a"
proof -
  define k where "k = (LEAST k. k \<notin> bits_of a)"
  obtain j where j: "j < 8 * length a" "j \<notin> bits_of a" using assms bits_of_subset by blast
  have nk: "k \<notin> bits_of a" unfolding k_def by (rule LeastI[of _ j]) (rule j(2))
  have "k \<le> j" unfolding k_def by (rule Least_le) (rule j(2))
  then have lk: "k < 8 * length a" using j(1) by simp
  have bk: "{..<k} \<subseteq> bits_of a" unfolding k_def by (auto dest: not_less_Least)
  have u: "unat (of_nat k :: uint) = k" using lk assms(1) unat_of_nat_uint by simp
  obtain a' where a': "setBit a (of_nat k) = Ret a'" using lk u by (simp add: setBit_eq)
  have "testAndSetBit a = Ret (of_nat (Suc k), a')"
    using testAndSetBit_eq[OF assms(1)] assms(2) a' by (simp add: Let_def k_def[symmetric])
  then show ?thesis using nk lk bk setBit_bits[OF a'] u by (intro that[of k a']) simp_all
qed

lemma testAndSetBit_full:
  assumes "8 * length a < 2 ^ 64" "bits_of a = {..<8 * length a}"
  shows "testAndSetBit a = Ret (of_nat (8 * length a), a)"
  using assms by (simp add: testAndSetBit_eq)

lemma clearBit_Ret:
  assumes "unat k < 8 * length a"
  obtains a' where "clearBit a k = Ret a'" "bits_of a' = bits_of a - {unat k}" "length a' = length a"
proof -
  from assms obtain a' where a': "clearBit a k = Ret a'" by (simp add: clearBit_eq)
  then show ?thesis using clearBit_bits[OF a'] by (rule that)
qed

subsection \<open>What an allocator of positions promises\<close>

text \<open>
  Positions are handed out one-based, as \<open>testAndSetBit\<close> does, and taken
  back zero-based, as \<open>clearBit\<close> does; \<open>used\<close> is zero-based.
\<close>

primrec take_positions :: "('a \<Rightarrow> (uint \<times> 'a) outcome) \<Rightarrow> nat \<Rightarrow> 'a \<Rightarrow> (uint list \<times> 'a) outcome" where
  "take_positions alloc 0 a = Ret ([], a)"
| "take_positions alloc (Suc n) a = bindO (alloc a) (\<lambda>(p, a').
     bindO (take_positions alloc n a') (\<lambda>(ps, a''). Ret (p # ps, a'')))"

locale position_pool =
  fixes used :: "'a \<Rightarrow> nat set"
    and cap :: "'a \<Rightarrow> nat"
    and alloc :: "'a \<Rightarrow> (uint \<times> 'a) outcome"
    and release :: "'a \<Rightarrow> uint \<Rightarrow> 'a outcome"
  assumes used_cap: "used a \<subseteq> {..<cap a}"
    and alloc_free: "\<lbrakk>cap a < 2 ^ 64; used a \<noteq> {..<cap a}\<rbrakk> \<Longrightarrow>
      \<exists>k a'. alloc a = Ret (of_nat (Suc k), a') \<and> k < cap a \<and> k \<notin> used a \<and> {..<k} \<subseteq> used a \<and>
        used a' = insert k (used a) \<and> cap a' = cap a"
    and alloc_full: "\<lbrakk>cap a < 2 ^ 64; used a = {..<cap a}\<rbrakk> \<Longrightarrow> alloc a = Ret (of_nat (cap a), a)"
    and release_in: "unat k < cap a \<Longrightarrow>
      \<exists>a'. release a k = Ret a' \<and> used a' = used a - {unat k} \<and> cap a' = cap a"
    and release_out: "cap a \<le> unat k \<Longrightarrow> \<not> returns (release a k)"
begin

lemma finite_used: "finite (used a)"
  using used_cap finite_subset by blast

lemma unat_position: "\<lbrakk>cap a < 2 ^ 64; k < cap a\<rbrakk> \<Longrightarrow> unat (of_nat (Suc k) :: uint) = Suc k"
  using unat_of_nat_uint[of "Suc k"] by linarith

text \<open>While there is room, allocation hands out positions nobody holds, each once.\<close>

lemma take_positions_distinct:
  assumes "cap a < 2 ^ 64" "card (used a) + n \<le> cap a"
  shows "\<exists>ps a'. take_positions alloc n a = Ret (ps, a') \<and> length ps = n \<and> distinct ps \<and>
    (\<forall>p\<in>set ps. 1 \<le> unat p \<and> unat p \<le> cap a \<and> unat p - 1 \<notin> used a) \<and>
    used a' = used a \<union> (\<lambda>p. unat p - 1) ` set ps \<and> cap a' = cap a"
  using assms
proof (induction n arbitrary: a)
  case 0
  then show ?case by simp
next
  case (Suc n)
  have "used a \<noteq> {..<cap a}"
  proof
    assume "used a = {..<cap a}"
    then have "card (used a) = cap a" by simp
    then show False using Suc.prems(2) by simp
  qed
  from alloc_free[OF Suc.prems(1) this] obtain k b where k: "alloc a = Ret (of_nat (Suc k), b)" "k < cap a" "k \<notin> used a"
    "used b = insert k (used a)" "cap b = cap a"
    by (elim exE conjE)
  have u: "unat (of_nat (Suc k) :: uint) = Suc k" by (rule unat_position[OF Suc.prems(1) k(2)])
  have "card (used b) + n \<le> cap b" using Suc.prems(2) k finite_used by simp
  then obtain ps c where ps: "take_positions alloc n b = Ret (ps, c)" "length ps = n" "distinct ps"
    "\<forall>p\<in>set ps. 1 \<le> unat p \<and> unat p \<le> cap a \<and> unat p - 1 \<notin> used b"
    "used c = used b \<union> (\<lambda>p. unat p - 1) ` set ps" "cap c = cap a"
    using Suc.IH[of b] Suc.prems(1) unfolding k(5) by blast
  have new: "of_nat (Suc k) \<notin> set ps"
  proof
    assume "of_nat (Suc k) \<in> set ps"
    with ps(4) have "unat (of_nat (Suc k) :: uint) - 1 \<notin> used b" by blast
    then show False unfolding u k(4) by simp
  qed
  have "take_positions alloc (Suc n) a = Ret (of_nat (Suc k) # ps, c)"
    using k(1) ps(1) by (simp del: of_nat_Suc)
  then show ?case
    using ps k u new by (intro exI[of _ "of_nat (Suc k) # ps"] exI[of _ c]) (auto simp del: of_nat_Suc)
qed

text \<open>A released position is the next one handed out when everything below it is held.\<close>

lemma release_alloc:
  assumes "cap a < 2 ^ 64" "unat k < cap a" "{..<unat k} \<subseteq> used a"
  shows "\<exists>b c. release a k = Ret b \<and> alloc b = Ret (k + 1, c) \<and> used c = insert (unat k) (used a)"
proof -
  obtain b where b: "release a k = Ret b" "used b = used a - {unat k}" "cap b = cap a"
    using release_in assms(2) by blast
  have "used b \<noteq> {..<cap b}" using b assms(2) by auto
  moreover have "cap b < 2 ^ 64" using assms(1) b(3) by simp
  ultimately obtain j c where j: "alloc b = Ret (of_nat (Suc j), c)" "j \<notin> used b" "{..<j} \<subseteq> used b"
    "used c = insert j (used b)"
    using alloc_free[of b] by (elim meta_impE exE conjE)
  have "\<not> j < unat k" using j(2) b(2) assms(3) by auto
  moreover have "\<not> unat k < j" using j(3) b(2) by auto
  ultimately have "j = unat k" by simp
  then show ?thesis using b j by (auto simp: add.commute)
qed

end

interpretation bit_pool: position_pool bits_of "\<lambda>a. 8 * length a" testAndSetBit clearBit
proof (unfold_locales, goal_cases)
  case 1 show ?case by (rule bits_of_subset)
next
  case (2 a)
  then obtain k a' where "testAndSetBit a = Ret (of_nat (Suc k), a')" "k < 8 * length a"
    "k \<notin> bits_of a" "{..<k} \<subseteq> bits_of a" "bits_of a' = insert k (bits_of a)" "length a' = length a"
    by (rule testAndSetBit_free)
  then show ?case by (intro exI[of _ k] exI[of _ a']) simp
next
  case (3 a) then show ?case by (rule testAndSetBit_full)
next
  case (4 k a)
  then obtain a' where "clearBit a k = Ret a'" "bits_of a' = bits_of a - {unat k}" "length a' = length a"
    by (rule clearBit_Ret)
  then show ?case by simp
next
  case (5 a k) then show ?case by (simp add: clearBit_eq)
qed

subsection \<open>Properties\<close>

text \<open>C14. \<open>setBit\<close>, \<open>clearBit\<close> and \<open>testBit\<close> are insertion, removal and
  membership on the set of positions the slice marks, and each of them panics
  exactly for a position past the end of the slice.\<close>

theorem bit_operations_refine:
  "map_outcome bits_of (setBit a k) =
     (if unat k < 8 * length a then Ret (insert (unat k) (bits_of a)) else index_panic) \<and>
   map_outcome bits_of (clearBit a k) =
     (if unat k < 8 * length a then Ret (bits_of a - {unat k}) else index_panic) \<and>
   testBit a k = (if unat k < 8 * length a then Ret (unat k \<in> bits_of a) else index_panic)"
proof (cases "unat k < 8 * length a")
  case True
  obtain a1 where 1: "setBit a k = Ret a1" using True by (simp add: setBit_eq)
  obtain a2 where 2: "clearBit a k = Ret a2" using True by (simp add: clearBit_eq)
  show ?thesis
    using True setBit_bits[OF 1] clearBit_bits[OF 2] 1 2 by (simp add: testBit_eq bits_of_def)
next
  case False
  then show ?thesis by (simp add: setBit_eq clearBit_eq testBit_eq index_panic_def)
qed

text \<open>C15. \<open>testAndSetBit\<close> takes the least position that is not marked, marks it and
  nothing else, and returns it plus one; on a slice that is full it changes
  nothing and returns the number of positions.\<close>

theorem testAndSetBit_takes_least:
  assumes "8 * length a < 2 ^ 64"
  shows "\<exists>pos a'. testAndSetBit a = Ret (pos, a') \<and> length a' = length a \<and>
    (if bits_of a = {..<8 * length a} then unat pos = 8 * length a \<and> a' = a
     else \<exists>k < 8 * length a. unat pos = k + 1 \<and> k \<notin> bits_of a \<and> {..<k} \<subseteq> bits_of a \<and>
            bits_of a' = insert k (bits_of a))"
proof (cases "bits_of a = {..<8 * length a}")
  case True
  then show ?thesis
    using testAndSetBit_full[OF assms True] unat_of_nat_uint[OF assms] by simp
next
  case False
  then obtain k a' where k: "testAndSetBit a = Ret (of_nat (Suc k), a')" "k < 8 * length a"
    "k \<notin> bits_of a" "{..<k} \<subseteq> bits_of a" "bits_of a' = insert k (bits_of a)" "length a' = length a"
    using testAndSetBit_free[OF assms] by blast
  have "unat (of_nat (Suc k) :: uint) = k + 1"
    using unat_of_nat_uint[of "Suc k"] k(2) assms by linarith
  then show ?thesis using k False by auto
qed

theorem testAndSetBit_takes_least_witness:
  "testAndSetBit [0xFF, 0x05] = Ret (10, [0xFF, 0x07]) \<and> 9 \<notin> bits_of [0xFF, 0x05] \<and>
   {..<9} \<subseteq> bits_of [0xFF, 0x05] \<and> bits_of [0xFF, 0x07] = insert 9 (bits_of [0xFF, 0x05])"
proof -
  have run: "testAndSetBit [0xFF, 0x05] = Ret (10, [0xFF, 0x07])"
    by (simp add: testAndSetBit_def testAndSetBit_loop.simps testBit_def setBit_def slice_get_def slice_set_def)
  moreover have "9 \<notin> bits_of [0xFF, 0x05 :: byte]"
    by (simp add: bits_of_def bit_at_def bit_numeral_rec)
  ultimately show ?thesis
    using testAndSetBit_takes_least[of "[0xFF, 0x05]"] by (auto split: if_splits)
qed

text \<open>As long as there is room, any number of allocations in a row succeed; the
  positions are between one and the number of positions, pairwise different, held by
  nobody before, and exactly they are marked afterwards.\<close>

theorem allocations_distinct:
  assumes "8 * length a < 2 ^ 64" "card (bits_of a) + n \<le> 8 * length a"
  shows "\<exists>ps a'. take_positions testAndSetBit n a = Ret (ps, a') \<and> length ps = n \<and> distinct ps \<and>
    (\<forall>p\<in>set ps. 1 \<le> unat p \<and> unat p \<le> 8 * length a \<and> unat p - 1 \<notin> bits_of a) \<and>
    bits_of a' = bits_of a \<union> (\<lambda>p. unat p - 1) ` set ps \<and> 8 * length a' = 8 * length a"
  using assms by (rule bit_pool.take_positions_distinct)

theorem allocations_distinct_witness:
  "\<exists>ps a'. take_positions testAndSetBit 5 [0] = Ret (ps, a') \<and> length ps = 5 \<and> distinct ps"
proof -
  have "card (bits_of [0]) + 5 \<le> 8 * length [0 :: byte]" using bits_of_zero[of 1] by simp
  then show ?thesis using allocations_distinct[of "[0]" 5] by auto
qed

text \<open>A position that was released is the next one handed out when all positions
  below it are held.\<close>

theorem released_position_reused:
  assumes "8 * length a < 2 ^ 64" "unat k < 8 * length a" "{..<unat k} \<subseteq> bits_of a"
  shows "\<exists>b c. clearBit a k = Ret b \<and> testAndSetBit b = Ret (k + 1, c) \<and>
    bits_of c = insert (unat k) (bits_of a)"
  using assms by (rule bit_pool.release_alloc)

theorem released_position_reused_witness:
  "\<exists>b c. clearBit [0x07] 2 = Ret b \<and> testAndSetBit b = Ret (3, c) \<and> bits_of c = insert 2 (bits_of [0x07])"
proof -
  have "x < 2 \<Longrightarrow> x \<in> bits_of [0x07 :: byte]" for x :: nat
    by (cases x) (simp_all add: bits_of_def bit_at_def bit_numeral_rec less_Suc_eq)
  then have "{..<unat (2 :: uint)} \<subseteq> bits_of [0x07 :: byte]" by auto
  then show ?thesis using released_position_reused[of "[0x07]" 2] by simp
qed

end
