(* ===== verification/GoNet.thy ===== *)
theory GoNet
  imports Prelude BitArray
begin

section \<open>The parts of Go's package net the daemon uses\<close>

text \<open>
  Addresses, masks and networks of Go's \<open>net\<close> package (release 1.4, the one
  the repository is built with), as far as ipam.go, utils.go, bridge.go and
  network.go call them.  An address and a mask are byte slices; \<open>nil\<close> is the
  empty slice.  The parsers work on what is left of the string, where the Go
  code keeps an index into it.

  The second half relates the byte slices to bits and numbers: \<open>ip_bit a i\<close>
  is bit \<open>i\<close> of the address, counted from the right, and \<open>ip_nat\<close> is
  its value in network byte order.
\<close>

subsection \<open>Numbers in text\<close>

definition is_digit :: "char \<Rightarrow> bool" where
  "is_digit c \<longleftrightarrow> 48 \<le> (of_char c :: int) \<and> (of_char c :: int) \<le> 57"

definition digit_val :: "char \<Rightarrow> int" where
  "digit_val c = of_char c - 48"

definition digit_char :: "nat \<Rightarrow> char" where
  "digit_char d = char_of (48 + d)"

fun itod :: "nat \<Rightarrow> string" where
  "itod n = (if n < 10 then [digit_char n] else itod (n div 10) @ [digit_char (n mod 10)])"

declare itod.simps [simp del]

definition big :: int where
  "big = 0xFFFFFF"

fun dtoi_loop :: "int \<Rightarrow> string \<Rightarrow> (int \<times> string) option" where
  "dtoi_loop n [] = Some (n, [])"
| "dtoi_loop n (c # cs) =
     (if is_digit c then
        (if n * 10 + digit_val c \<ge> big then None else dtoi_loop (n * 10 + digit_val c) cs)
      else Some (n, c # cs))"

definition dtoi :: "string \<Rightarrow> (int \<times> string) option" where
  "dtoi s = (case s of [] \<Rightarrow> None | c # cs \<Rightarrow> if is_digit c then dtoi_loop 0 s else None)"

definition hex_val :: "char \<Rightarrow> int option" where
  "hex_val c = (let k = of_char c :: int in
     if 48 \<le> k \<and> k \<le> 57 then Some (k - 48)
     else if 97 \<le> k \<and> k \<le> 102 then Some (k - 97 + 10)
     else if 65 \<le> k \<and> k \<le> 70 then Some (k - 65 + 10)
     else None)"

fun xtoi_loop :: "int \<Rightarrow> string \<Rightarrow> (int \<times> string) option" where
  "xtoi_loop n [] = Some (n, [])"
| "xtoi_loop n (c # cs) =
     (case hex_val c of
        None \<Rightarrow> Some (n, c # cs)
      | Some d \<Rightarrow> if n * 16 + d \<ge> big then None else xtoi_loop (n * 16 + d) cs)"

definition xtoi :: "string \<Rightarrow> (int \<times> string) option" where
  "xtoi s = (case s of [] \<Rightarrow> None | c # cs \<Rightarrow> if hex_val c = None then None else xtoi_loop 0 s)"

subsection \<open>Addresses and masks\<close>

record IPNet =
  IP :: bytes
  Mask :: bytes

definition v4InV6Prefix :: bytes where
  "v4InV6Prefix = replicate 10 0 @ [0xFF, 0xFF]"

definition IPv4 :: "byte \<Rightarrow> byte \<Rightarrow> byte \<Rightarrow> byte \<Rightarrow> bytes" where
  "IPv4 a b c d = v4InV6Prefix @ [a, b, c, d]"

definition To4 :: "bytes \<Rightarrow> bytes" where
  "To4 ip =
     (if length ip = 4 then ip
      else if length ip = 16 \<and> take 12 ip = v4InV6Prefix then drop 12 ip
      else [])"

definition ip_Mask :: "bytes \<Rightarrow> bytes \<Rightarrow> bytes" where
  "ip_Mask ip m =
     (let m' = (if length m = 16 \<and> length ip = 4 \<and> take 12 m = replicate 12 0xFF
                then drop 12 m else m);
          ip' = (if length m' = 4 \<and> length ip = 16 \<and> take 12 ip = v4InV6Prefix
                 then drop 12 ip else ip)
      in if length ip' \<noteq> length m' then [] else map2 (AND) ip' m')"

fun cidr_bytes :: "nat \<Rightarrow> nat \<Rightarrow> bytes" where
  "cidr_bytes n 0 = []"
| "cidr_bytes n (Suc l) =
     (if n \<ge> 8 then 0xFF # cidr_bytes (n - 8) l else NOT (drop_bit n 0xFF) # cidr_bytes 0 l)"

definition CIDRMask :: "nat \<Rightarrow> nat \<Rightarrow> bytes" where
  "CIDRMask ones bits =
     (if bits \<noteq> 32 \<and> bits \<noteq> 128 then [] else if ones > bits then [] else cidr_bytes ones (bits div 8))"

fun leading_ones :: "nat \<Rightarrow> byte \<Rightarrow> nat \<times> byte" where
  "leading_ones 0 v = (0, v)"
| "leading_ones (Suc k) v =
     (if v AND 0x80 \<noteq> 0 then (let (n, w) = leading_ones k (push_bit 1 v) in (Suc n, w)) else (0, v))"

text \<open>\<open>-1\<close>, the mask that is not a prefix, is \<open>None\<close>.\<close>

fun simpleMaskLength :: "bytes \<Rightarrow> nat option" where
  "simpleMaskLength [] = Some 0"
| "simpleMaskLength (v # vs) =
     (if v = 0xFF then map_option ((+) 8) (simpleMaskLength vs)
      else (let (n, w) = leading_ones 8 v in
            if w \<noteq> 0 then None else if \<exists>x\<in>set vs. x \<noteq> 0 then None else Some n))"

definition mask_Size :: "bytes \<Rightarrow> nat \<times> nat" where
  "mask_Size m = (case simpleMaskLength m of None \<Rightarrow> (0, 0) | Some ones \<Rightarrow> (ones, length m * 8))"

definition networkNumberAndMask :: "IPNet \<Rightarrow> bytes \<times> bytes" where
  "networkNumberAndMask n =
     (let ip4 = To4 (IP n); ip = (if ip4 = [] then IP n else ip4); m = Mask n
      in if ip4 = [] \<and> length (IP n) \<noteq> 16 then ([], [])
         else if length m = 4 then (if length ip \<noteq> 4 then ([], []) else (ip, m))
         else if length m = 16 then (ip, if length ip = 4 then drop 12 m else m)
         else ([], []))"

definition Contains :: "IPNet \<Rightarrow> bytes \<Rightarrow> bool" where
  "Contains n ip =
     (let (nn, m) = networkNumberAndMask n; ip' = (if To4 ip = [] then ip else To4 ip)
      in length ip' = length nn \<and> map2 (AND) nn m = map2 (AND) ip' m)"

subsection \<open>Printing\<close>

definition hex_char :: "nat \<Rightarrow> char" where
  "hex_char d = (if d < 10 then char_of (48 + d) else char_of (97 + (d - 10)))"

definition hexString :: "bytes \<Rightarrow> string" where
  "hexString b = concat (map (\<lambda>x. [hex_char (unat x div 16), hex_char (unat x mod 16)]) b)"

fun to_hex :: "nat \<Rightarrow> string" where
  "to_hex n = (if n < 16 then [hex_char n] else to_hex (n div 16) @ [hex_char (n mod 16)])"

declare to_hex.simps [simp del]

fun zero_run :: "bytes \<Rightarrow> nat" where
  "zero_run (a # b # p) = (if a = 0 \<and> b = 0 then 2 + zero_run p else 0)"
| "zero_run p = 0"

text \<open>The longest run of zero groups: its first and one past its last index.\<close>

fun longest_zeros :: "nat \<Rightarrow> bytes \<Rightarrow> nat \<times> nat \<Rightarrow> nat \<times> nat" where
  "longest_zeros i (a # b # p) (e0, e1) =
     (let r = zero_run (a # b # p)
      in longest_zeros (i + 2) p (if r > e1 - e0 then (i, i + r) else (e0, e1)))"
| "longest_zeros i p e = e"

function print_groups :: "bytes \<Rightarrow> nat option \<Rightarrow> nat \<Rightarrow> nat \<Rightarrow> string" where
  "print_groups p e0 e1 i =
     (if i \<ge> 16 then []
      else if e0 = Some i \<and> i < e1 then
        ''::'' @ (if e1 \<ge> 16 then [] else
           to_hex (256 * unat (p ! e1) + unat (p ! (e1 + 1))) @ print_groups p e0 e1 (e1 + 2))
      else (if i > 0 then '':'' else []) @
           to_hex (256 * unat (p ! i) + unat (p ! (i + 1))) @ print_groups p e0 e1 (i + 2))"
  by pat_completeness auto
termination
  by (relation "measure (\<lambda>(p, e0, e1, i). 16 - i)") auto

definition dotted :: "bytes \<Rightarrow> string" where
  "dotted p = itod (unat (p ! 0)) @ ''.'' @ itod (unat (p ! 1)) @ ''.'' @
              itod (unat (p ! 2)) @ ''.'' @ itod (unat (p ! 3))"

definition ip_String :: "bytes \<Rightarrow> string" where
  "ip_String ip =
     (if length ip = 0 then ''<nil>''
      else if length (To4 ip) = 4 then dotted (To4 ip)
      else if length ip \<noteq> 16 then ''?''
      else (let (e0, e1) = longest_zeros 0 ip (0, 0)
            in print_groups ip (if e1 - e0 \<le> 2 then None else Some e0) e1 0))"

definition mask_String :: "bytes \<Rightarrow> string" where
  "mask_String m = (if length m = 0 then ''<nil>'' else hexString m)"

definition ipnet_String :: "IPNet \<Rightarrow> string" where
  "ipnet_String n =
     (let (nn, m) = networkNumberAndMask n
      in if nn = [] \<or> m = [] then ''<nil>''
         else (case simpleMaskLength m of
             None \<Rightarrow> ip_String nn @ ''/'' @ mask_String m
           | Some l \<Rightarrow> ip_String nn @ ''/'' @ itod l))"

subsection \<open>Parsing\<close>

function parseIPv4_from :: "nat \<Rightarrow> string \<Rightarrow> bytes option" where
  "parseIPv4_from j s =
     (if j \<ge> 4 then (if s = [] then Some [] else None)
      else if s = [] then None
      else if j > 0 \<and> hd s \<noteq> CHR ''.'' then None
      else (case dtoi (if j > 0 then tl s else s) of
          None \<Rightarrow> None
        | Some (n, r) \<Rightarrow> if n > 0xFF then None
            else map_option ((#) (of_int n)) (parseIPv4_from (Suc j) r)))"
  by pat_completeness auto
termination
  by (relation "measure (\<lambda>(j, s). 4 - j)") auto

declare parseIPv4_from.simps [simp del]

definition parseIPv4 :: "string \<Rightarrow> bytes" where
  "parseIPv4 s = (case parseIPv4_from 0 s of None \<Rightarrow> [] | Some p \<Rightarrow> IPv4 (p ! 0) (p ! 1) (p ! 2) (p ! 3))"

function parseIPv6_loop :: "bytes \<Rightarrow> nat option \<Rightarrow> string \<Rightarrow> (bytes \<times> nat option \<times> string) option" where
  "parseIPv6_loop ip ellipsis s =
     (if length ip \<ge> 16 then Some (ip, ellipsis, s)
      else (case xtoi s of
          None \<Rightarrow> None
        | Some (n, s1) \<Rightarrow>
            if n > 0xFFFF then None
            else if s1 \<noteq> [] \<and> hd s1 = CHR ''.'' then
              (if ellipsis = None \<and> length ip \<noteq> 12 then None
               else if length ip + 4 > 16 then None
               else if parseIPv4 s = [] then None
               else Some (ip @ drop 12 (parseIPv4 s), ellipsis, []))
            else (let ip' = ip @ [of_int (n div 256), of_int n] in
              if s1 = [] then Some (ip', ellipsis, [])
              else if hd s1 \<noteq> CHR '':'' \<or> tl s1 = [] then None
              else if hd (tl s1) = CHR '':'' then
                (if ellipsis \<noteq> None then None
                 else if tl (tl s1) = [] then Some (ip', Some (length ip'), [])
                 else parseIPv6_loop ip' (Some (length ip')) (tl (tl s1)))
              else parseIPv6_loop ip' ellipsis (tl s1))))"
  by pat_completeness auto
termination
  by (relation "measure (\<lambda>(ip, e, s). 16 - length ip)") auto

declare parseIPv6_loop.simps [simp del]

definition parseIPv6 :: "string \<Rightarrow> bytes" where
  "parseIPv6 s =
     (if s = ''::'' then replicate 16 0
      else (case (if take 2 s = ''::'' then parseIPv6_loop [] (Some 0) (drop 2 s)
                  else parseIPv6_loop [] None s) of
          None \<Rightarrow> []
        | Some (ip, ellipsis, r) \<Rightarrow>
            if r \<noteq> [] then []
            else if length ip < 16 then
              (case ellipsis of
                 None \<Rightarrow> []
               | Some e \<Rightarrow> take e ip @ replicate (16 - length ip) 0 @ drop e ip)
            else ip))"

definition ParseIP :: "string \<Rightarrow> bytes" where
  "ParseIP s = (if parseIPv4 s \<noteq> [] then parseIPv4 s else parseIPv6 s)"

definition cidr_error :: "string \<Rightarrow> gerror" where
  "cidr_error s = Err (''invalid CIDR address: '' @ s)"

definition ParseCIDR :: "string \<Rightarrow> gerror + (bytes \<times> IPNet)" where
  "ParseCIDR s =
     (if CHR ''/'' \<notin> set s then Inl (cidr_error s)
      else (let addr = takeWhile (\<lambda>c. c \<noteq> CHR ''/'') s;
                masklen = tl (dropWhile (\<lambda>c. c \<noteq> CHR ''/'') s);
                iplen = (if parseIPv4 addr \<noteq> [] then 4 else 16);
                ip = ParseIP addr
            in (case dtoi masklen of
                  None \<Rightarrow> Inl (cidr_error s)
                | Some (n, r) \<Rightarrow>
                    if ip = [] \<or> r \<noteq> [] \<or> n > int (8 * iplen) then Inl (cidr_error s)
                    else (let m = CIDRMask (nat n) (8 * iplen)
                          in Inr (ip, \<lparr>IP = ip_Mask ip m, Mask = m\<rparr>)))))"
lemma cidr_bytes_numeral [simp]:
  "cidr_bytes n (numeral v) = (if n \<ge> 8 then 0xFF # cidr_bytes (n - 8) (pred_numeral v)
     else NOT (drop_bit n 0xFF) # cidr_bytes 0 (pred_numeral v))"
  by (simp add: numeral_eq_Suc)


subsection \<open>Addresses as bits and as numbers\<close>

definition ip_bit :: "bytes \<Rightarrow> nat \<Rightarrow> bool" where
  "ip_bit a i \<longleftrightarrow> bit_at (rev a) i"

fun ip_nat :: "bytes \<Rightarrow> nat" where
  "ip_nat [] = 0"
| "ip_nat (b # bs) = unat b * 256 ^ length bs + ip_nat bs"

lemma ip_bit_length: "ip_bit a i \<Longrightarrow> i < 8 * length a"
  by (simp add: ip_bit_def bit_at_def)

lemma bit_at_Cons: "bit_at (b # a) i = (if i < 8 then bit b i else bit_at a (i - 8))"
proof (cases "i < 8")
  case False
  then obtain j where "i = j + 8" by (metis add.commute le_Suc_ex not_less)
  moreover have "(j + 8) div 8 = Suc (j div 8)" by simp
  ultimately show ?thesis by (auto simp: bit_at_def simp del: div_add_self2)
qed (simp add: bit_at_def)

lemma bit_at_append: "bit_at (a @ b) i = (if i < 8 * length a then bit_at a i else bit_at b (i - 8 * length a))"
proof (induction a arbitrary: i)
  case Nil then show ?case by simp
next
  case (Cons x a)
  show ?case using Cons[of "i - 8"] by (auto simp: bit_at_Cons)
qed

lemma ip_bit_Cons: "ip_bit (b # a) i = (if i < 8 * length a then ip_bit a i else i < 8 * length a + 8 \<and> bit b (i - 8 * length a))"
  by (auto simp: ip_bit_def bit_at_append bit_at_Cons) (auto simp: bit_at_def)

lemma ip_bit_Nil [simp]: "\<not> ip_bit [] i"
  by (simp add: ip_bit_def bit_at_def)

lemma ip_nat_less: "ip_nat a < 256 ^ length a"
proof (induction a)
  case (Cons b a)
  have "unat b < 256" by (rule unat_byte_less)
  then have "(unat b + 1) * 256 ^ length a \<le> 256 * 256 ^ length a"
    by (intro mult_le_mono1) simp
  moreover have "ip_nat (b # a) < (unat b + 1) * 256 ^ length a" using Cons by simp
  ultimately show ?case unfolding length_Cons power_Suc by (rule less_le_trans[rotated])
qed simp

lemma ip_nat_bit: "bit (ip_nat a) i = ip_bit a i"
proof (induction a arbitrary: i)
  case Nil then show ?case by simp
next
  case (Cons b a)
  have p: "(256::nat) ^ length a = 2 ^ (8 * length a)" by (simp add: power_mult)
  have tb: "ip_nat a = take_bit (8 * length a) (ip_nat a)"
    using ip_nat_less[of a] p by (simp add: take_bit_nat_eq_self)
  have "ip_nat (b # a) = push_bit (8 * length a) (unat b) + take_bit (8 * length a) (ip_nat a)"
    using tb by (simp add: p push_bit_eq_mult)
  also have "\<dots> = (push_bit (8 * length a) (unat b)) OR (take_bit (8 * length a) (ip_nat a))"
    by (rule disjunctive_add) (simp add: bit_simps)
  finally have "bit (ip_nat (b # a)) i = ((8 * length a \<le> i \<and> bit (unat b) (i - 8 * length a)) \<or>
      (i < 8 * length a \<and> ip_bit a i))"
    by (simp add: bit_or_iff bit_push_bit_iff_nat bit_take_bit_iff Cons.IH)
  then show ?case
    using bit_imp_le_length[of b "i - 8 * length a"]
    by (cases "i < 8 * length a") (auto simp: ip_bit_Cons bit_unsigned_iff)
qed

lemma ip_nat_inj: "length a = length b \<Longrightarrow> ip_nat a = ip_nat b \<Longrightarrow> a = b"
proof (induction a b rule: list_induct2)
  case (Cons x xs y ys)
  have l: "256 ^ length xs = (256::nat) ^ length ys" using Cons by simp
  have "(unat x * 256 ^ length xs + ip_nat xs) div 256 ^ length xs = unat x"
    using ip_nat_less[of xs] by simp
  moreover have "(unat y * 256 ^ length ys + ip_nat ys) div 256 ^ length ys = unat y"
    using ip_nat_less[of ys] by simp
  ultimately have "unat x = unat y" using Cons.prems l unfolding ip_nat.simps by metis
  then show ?case using Cons l by (simp add: word_unat_eq_iff)
qed simp

lemma ip_eqI: "length a = length b \<Longrightarrow> (\<And>i. ip_bit a i = ip_bit b i) \<Longrightarrow> a = b"
  by (rule ip_nat_inj) (auto simp: bit_eq_iff ip_nat_bit)

lemma ip_bit_map2_and:
  "length a = length m \<Longrightarrow> ip_bit (map2 (AND) a m) i = (ip_bit a i \<and> ip_bit m i)"
  by (induction a m arbitrary: i rule: list_induct2) (auto simp: ip_bit_Cons bit_simps)

lemma length_cidr_bytes [simp]: "length (cidr_bytes n l) = l"
  by (induction n l rule: cidr_bytes.induct) auto

lemma ip_bit_cidr_bytes: "n \<le> 8 * l \<Longrightarrow> ip_bit (cidr_bytes n l) i \<longleftrightarrow> 8 * l - n \<le> i \<and> i < 8 * l"
proof (induction n l arbitrary: i rule: cidr_bytes.induct)
  case (2 n l)
  have ff: "(0xFF :: byte) = mask 8" by (simp add: mask_eq_exp_minus_1)
  show ?case
  proof (cases "n \<ge> 8")
    case True
    with 2 show ?thesis by (auto simp: ip_bit_Cons ff bit_mask_iff)
  next
    case False
    with 2(2)[of i] show ?thesis by (auto simp: ip_bit_Cons ff bit_simps)
  qed
qed simp

lemma leading_ones_numeral [simp]:
  "leading_ones (numeral k) v =
     (if v AND 0x80 \<noteq> 0 then (let (n, w) = leading_ones (pred_numeral k) (push_bit 1 v) in (Suc n, w)) else (0, v))"
  by (simp add: numeral_eq_Suc)

lemma cidr_bytes_0: "cidr_bytes 0 l = replicate l 0"
  by (induction l) simp_all

lemma simpleMaskLength_cidr_bytes: "n \<le> 8 * l \<Longrightarrow> simpleMaskLength (cidr_bytes n l) = Some n"
proof (induction n l rule: cidr_bytes.induct)
  case (2 n l)
  show ?case
  proof (cases "n \<ge> 8")
    case True with 2 show ?thesis by simp
  next
    case False
    then consider "n = 0" | "n = 1" | "n = 2" | "n = 3" | "n = 4" | "n = 5" | "n = 6" | "n = 7" by linarith
    then show ?thesis by cases (simp_all add: cidr_bytes_0 Let_def)
  qed
qed simp
subsection \<open>Printing and parsing are inverse\<close>

lemma of_char_char_of: "k < 256 \<Longrightarrow> (of_char (char_of k :: char) :: int) = int k"
proof -
  assume "k < 256"
  then have "(of_char (char_of k :: char) :: nat) = k" by (simp add: of_char_of take_bit_eq_mod)
  then show ?thesis by (metis of_nat_of_char)
qed

lemma of_char_digit_char: "d < 10 \<Longrightarrow> (of_char (digit_char d) :: int) = 48 + int d"
  using of_char_char_of[of "48 + d"] by (simp add: digit_char_def)

lemma digit_char [simp]: "d < 10 \<Longrightarrow> is_digit (digit_char d)" "d < 10 \<Longrightarrow> digit_val (digit_char d) = int d"
  by (simp_all add: is_digit_def digit_val_def of_char_digit_char)

lemma dtoi_loop_itod:
  "m * 10 ^ length (itod n) + int n < big \<Longrightarrow> 0 \<le> m \<Longrightarrow>
   dtoi_loop m (itod n @ r) = dtoi_loop (m * 10 ^ length (itod n) + int n) r"
proof (induction n arbitrary: m r rule: itod.induct)
  case (1 n)
  show ?case
  proof (cases "n < 10")
    case True
    then show ?thesis using 1(2) by (simp add: itod.simps[of n])
  next
    case False
    let ?k = "length (itod (n div 10))"
    have it: "itod n = itod (n div 10) @ [digit_char (n mod 10)]" using False by (simp add: itod.simps[of n])
    have e: "(m * 10 ^ ?k + int (n div 10)) * 10 + int (n mod 10) = m * 10 ^ length (itod n) + int n"
      unfolding it by (simp add: algebra_simps) presburger
    have "m * 10 ^ ?k + int (n div 10) < big"
    proof -
      have "0 \<le> m * 10 ^ ?k + int (n div 10)" using 1(3) by simp
      moreover have "x \<le> x * 10 + int y" if "0 \<le> x" for x :: int and y using that by simp
      ultimately have "m * 10 ^ ?k + int (n div 10) \<le> (m * 10 ^ ?k + int (n div 10)) * 10 + int (n mod 10)" by blast
      then show ?thesis using e 1(2) by linarith
    qed
    with 1(1)[OF False, of m "digit_char (n mod 10) # r"] 1(3)
    have "dtoi_loop m (itod n @ r) = dtoi_loop (m * 10 ^ ?k + int (n div 10)) (digit_char (n mod 10) # r)"
      by (simp add: it)
    also have "\<dots> = dtoi_loop (m * 10 ^ length (itod n) + int n) r"
      using e 1(2) by simp
    finally show ?thesis .
  qed
qed

lemma itod_Cons: "\<exists>c cs. itod n = c # cs \<and> is_digit c"
proof (induction n rule: itod.induct)
  case (1 n)
  show ?case
  proof (cases "n < 10")
    case True then show ?thesis by (subst itod.simps) simp
  next
    case False
    then obtain c cs where "itod (n div 10) = c # cs" "is_digit c" using 1 by blast
    then show ?thesis using False by (subst itod.simps) simp
  qed
qed

definition stops_digits :: "string \<Rightarrow> bool" where
  "stops_digits r \<longleftrightarrow> (case r of [] \<Rightarrow> True | c # cs \<Rightarrow> \<not> is_digit c)"

lemma dtoi_itod: "int n < big \<Longrightarrow> stops_digits r \<Longrightarrow> dtoi (itod n @ r) = Some (int n, r)"
proof -
  assume a: "int n < big" "stops_digits r"
  obtain c cs where c: "itod n = c # cs" "is_digit c" using itod_Cons by blast
  have "dtoi (itod n @ r) = dtoi_loop 0 (itod n @ r)" using c by (simp add: dtoi_def)
  also have "\<dots> = dtoi_loop (int n) r" using dtoi_loop_itod[of 0 n r] a by simp
  also have "\<dots> = Some (int n, r)" using a by (cases r) (auto simp: stops_digits_def)
  finally show ?thesis .
qed

lemma int_unat_byte_big: "int (unat (b :: byte)) < big"
  using uint_byte_less[of b] by (simp add: big_def)

lemma stops_digits_dot [simp]: "stops_digits (CHR ''.'' # r)" "stops_digits (CHR ''/'' # r)" "stops_digits []"
  by (simp_all add: stops_digits_def is_digit_def)

lemma itod_not_Nil [simp]: "itod n \<noteq> []"
  using itod_Cons[of n] by auto

lemma dtoi_byte: "stops_digits r \<Longrightarrow> dtoi (itod (unat (b :: byte)) @ r) = Some (int (unat b), r)"
  by (rule dtoi_itod) (rule int_unat_byte_big)

lemma parseIPv4_dotted:
  fixes a b c d :: byte
  shows "parseIPv4 (dotted [a, b, c, d]) = IPv4 a b c d"
proof -
  have le: "uint x \<le> 255" for x :: byte using uint_byte_less[of x] by simp
  have "parseIPv4_from 3 (''.'' @ itod (unat d)) = Some [d]"
    using dtoi_byte[of "[]" d] le[of d] by (simp add: parseIPv4_from.simps)
  then have "parseIPv4_from 2 (''.'' @ itod (unat c) @ ''.'' @ itod (unat d)) = Some [c, d]"
    using dtoi_byte[of "''.'' @ itod (unat d)" c] le[of c] by (simp add: parseIPv4_from.simps[of 2])
  then have "parseIPv4_from 1 (''.'' @ itod (unat b) @ ''.'' @ itod (unat c) @ ''.'' @ itod (unat d)) = Some [b, c, d]"
    using dtoi_byte[of "''.'' @ itod (unat c) @ ''.'' @ itod (unat d)" b] le[of b]
    by (simp add: parseIPv4_from.simps[of "Suc 0"] numeral_2_eq_2)
  then have "parseIPv4_from 0 (dotted [a, b, c, d]) = Some [a, b, c, d]"
    using dtoi_byte[of "''.'' @ itod (unat b) @ ''.'' @ itod (unat c) @ ''.'' @ itod (unat d)" a] le[of a]
    by (simp add: parseIPv4_from.simps[of 0] dotted_def)
  then show ?thesis by (simp add: parseIPv4_def)
qed

lemma length4E:
  assumes "length a = 4"
  obtains w x y z where "a = [w, x, y, z]"
  using assms by (auto simp: numeral_eq_Suc length_Suc_conv)

lemma To4_IPv4 [simp]: "To4 (IPv4 a b c d) = [a, b, c, d]"
  by (simp add: To4_def IPv4_def v4InV6Prefix_def)

lemma To4_length4 [simp]: "length a = 4 \<Longrightarrow> To4 a = a"
  by (simp add: To4_def)

lemma ip_String_v4: "length a = 4 \<Longrightarrow> ip_String a = dotted a"
  by (simp add: ip_String_def)

lemma parseIPv4_ip_String: "length a = 4 \<Longrightarrow> parseIPv4 (ip_String a) = v4InV6Prefix @ a"
  by (erule length4E) (simp add: ip_String_v4 parseIPv4_dotted IPv4_def)

lemma ParseIP_ip_String: "length a = 4 \<Longrightarrow> ParseIP (ip_String a) = v4InV6Prefix @ a"
  by (simp add: ParseIP_def parseIPv4_ip_String v4InV6Prefix_def)

lemma To4_mapped [simp]: "length a = 4 \<Longrightarrow> To4 (v4InV6Prefix @ a) = a"
  by (simp add: To4_def v4InV6Prefix_def)

lemma itod_no_slash: "CHR ''/'' \<notin> set (itod n)"
proof (induction n rule: itod.induct)
  case (1 n)
  have d: "CHR ''/'' \<noteq> digit_char d" if "d < 10" for d
  proof
    assume e: "CHR ''/'' = digit_char d"
    have "(of_char CHR ''/'' :: int) = 48 + int d" unfolding e by (rule of_char_digit_char[OF that])
    then show False by simp
  qed
  have "CHR ''/'' \<noteq> digit_char (n mod 10)" by (rule d) simp
  with 1 d show ?case by (subst itod.simps) simp
qed

lemma dotted_no_slash: "CHR ''/'' \<notin> set (dotted a)"
  by (simp add: dotted_def itod_no_slash)

lemma takeWhile_slash: "CHR ''/'' \<notin> set s \<Longrightarrow> takeWhile (\<lambda>c. c \<noteq> CHR ''/'') (s @ CHR ''/'' # t) = s"
  by (induction s) auto

lemma dropWhile_slash: "CHR ''/'' \<notin> set s \<Longrightarrow> dropWhile (\<lambda>c. c \<noteq> CHR ''/'') (s @ CHR ''/'' # t) = CHR ''/'' # t"
  by (induction s) auto

subsection \<open>IPv4 networks in CIDR form\<close>

text \<open>
  What \<open>ParseCIDR\<close> makes of an IPv4 network with a prefix of \<open>p\<close> bits:
  four address bytes, the prefix mask, no host bit set.
\<close>

definition v4_net :: "nat \<Rightarrow> IPNet \<Rightarrow> bool" where
  "v4_net p n \<longleftrightarrow> p \<le> 32 \<and> length (IP n) = 4 \<and> Mask n = CIDRMask p 32 \<and>
     ip_Mask (IP n) (Mask n) = IP n"

lemma CIDRMask_v4: "p \<le> 32 \<Longrightarrow> CIDRMask p 32 = cidr_bytes p 4"
  by (simp add: CIDRMask_def)

lemma length_CIDRMask_v4 [simp]: "p \<le> 32 \<Longrightarrow> length (CIDRMask p 32) = 4"
  by (simp add: CIDRMask_v4 del: cidr_bytes_numeral)

lemma mask_Size_CIDRMask: "p \<le> 32 \<Longrightarrow> mask_Size (CIDRMask p 32) = (p, 32)"
  by (simp add: mask_Size_def CIDRMask_v4 simpleMaskLength_cidr_bytes del: cidr_bytes_numeral)

lemma ip_Mask_v4: "length a = 4 \<Longrightarrow> length m = 4 \<Longrightarrow> ip_Mask a m = map2 (AND) a m"
  by (simp add: ip_Mask_def)

lemma ip_bit_CIDRMask: "p \<le> 32 \<Longrightarrow> ip_bit (CIDRMask p 32) i \<longleftrightarrow> 32 - p \<le> i \<and> i < 32"
  by (simp add: CIDRMask_v4 ip_bit_cidr_bytes del: cidr_bytes_numeral)

lemma v4_net_host_bits: "v4_net p n \<Longrightarrow> i < 32 - p \<Longrightarrow> \<not> ip_bit (IP n) i"
  using ip_bit_map2_and[of "IP n" "CIDRMask p 32" i]
  by (auto simp: v4_net_def ip_Mask_v4 ip_bit_CIDRMask)

lemma networkNumberAndMask_v4: "v4_net p n \<Longrightarrow> networkNumberAndMask n = (IP n, CIDRMask p 32)"
  by (auto simp: networkNumberAndMask_def v4_net_def Let_def)

lemma ipnet_String_v4:
  assumes "v4_net p n"
  shows "ipnet_String n = dotted (IP n) @ ''/'' @ itod p"
proof -
  have l: "length (IP n) = 4" and p: "p \<le> 32" using assms by (auto simp: v4_net_def)
  have "IP n \<noteq> []" "CIDRMask p 32 \<noteq> []" using l length_CIDRMask_v4[OF p] by auto
  moreover have "simpleMaskLength (CIDRMask p 32) = Some p"
    using p by (simp add: CIDRMask_v4 simpleMaskLength_cidr_bytes del: cidr_bytes_numeral)
  ultimately show ?thesis
    by (simp add: ipnet_String_def networkNumberAndMask_v4[OF assms] ip_String_v4[OF l])
qed

lemma ParseCIDR_ipnet_String:
  assumes "v4_net p n"
  shows "ParseCIDR (ipnet_String n) = Inr (v4InV6Prefix @ IP n, n)"
proof -
  have l: "length (IP n) = 4" and p: "p \<le> 32" and m: "Mask n = CIDRMask p 32"
    and net: "ip_Mask (IP n) (Mask n) = IP n"
    using assms by (auto simp: v4_net_def)
  have pi: "parseIPv4 (dotted (IP n)) = v4InV6Prefix @ IP n"
    using parseIPv4_ip_String[OF l] by (simp add: ip_String_v4 l)
  have dt: "dtoi (itod p) = Some (int p, [])"
    using dtoi_itod[of p "[]"] p by (simp add: big_def)
  have mk: "ip_Mask (v4InV6Prefix @ IP n) (CIDRMask p 32) = IP n"
    using net p l m by (simp add: ip_Mask_def v4InV6Prefix_def)
  have ne: "v4InV6Prefix @ IP n \<noteq> []" by (simp add: v4InV6Prefix_def)
  have "\<lparr>IP = IP n, Mask = CIDRMask p 32\<rparr> = n" using m by simp
  then show ?thesis
    using pi dt mk p ne
    by (simp add: ParseCIDR_def Let_def ipnet_String_v4[OF assms] takeWhile_slash dropWhile_slash
        dotted_no_slash ParseIP_def)
qed

lemma Contains_v4:
  assumes "v4_net p n" "length a = 4"
  shows "Contains n a \<longleftrightarrow> (\<forall>i. 32 - p \<le> i \<longrightarrow> ip_bit a i = ip_bit (IP n) i)"
proof -
  have l: "length (IP n) = 4" and p: "p \<le> 32" using assms(1) by (auto simp: v4_net_def)
  have ne: "a \<noteq> []" using assms(2) by auto
  have "Contains n a \<longleftrightarrow> map2 (AND) (IP n) (CIDRMask p 32) = map2 (AND) a (CIDRMask p 32)"
    using assms l ne by (simp add: Contains_def networkNumberAndMask_v4[OF assms(1)])
  also have "\<dots> \<longleftrightarrow> (\<forall>i. ip_bit (map2 (AND) (IP n) (CIDRMask p 32)) i = ip_bit (map2 (AND) a (CIDRMask p 32)) i)"
    using assms(2) l p by (intro iffI) (simp, rule ip_eqI, simp_all)
  also have "\<dots> \<longleftrightarrow> (\<forall>i. 32 - p \<le> i \<longrightarrow> ip_bit a i = ip_bit (IP n) i)"
    using assms(2) l p ip_bit_length[of a] ip_bit_length[of "IP n"]
    by (auto simp: ip_bit_map2_and ip_bit_CIDRMask)
  finally show ?thesis .
qed

lemma parseIPv4_from_length: "parseIPv4_from j s = Some p \<Longrightarrow> j \<le> 4 \<Longrightarrow> length p = 4 - j"
proof (induction j s arbitrary: p rule: parseIPv4_from.induct)
  case (1 j s)
  show ?case
  proof (cases "j \<ge> 4")
    case True
    with 1 show ?thesis by (auto simp: parseIPv4_from.simps[of j] split: if_splits)
  next
    case False
    with 1(2) obtain n r q where "dtoi (if j > 0 then tl s else s) = Some (n, r)" "\<not> n > 0xFF"
      "s \<noteq> []" "\<not> (j > 0 \<and> hd s \<noteq> CHR ''.'')"
      "parseIPv4_from (Suc j) r = Some q" "p = of_int n # q"
      by (auto simp: parseIPv4_from.simps[of j] split: if_splits option.splits prod.splits)
    then show ?thesis using 1(1)[of "(n, r)" n r q] False by auto
  qed
qed

lemma parseIPv4_shape: "parseIPv4 s \<noteq> [] \<Longrightarrow> \<exists>q. parseIPv4 s = v4InV6Prefix @ q \<and> length q = 4"
  by (auto simp: parseIPv4_def IPv4_def split: option.splits)

lemma map2_and_idem: "map2 (AND) (map2 (AND) a m) m = map2 (AND) a (m :: bytes)"
proof (induction a arbitrary: m)
  case (Cons x a)
  then show ?case by (cases m) (auto simp: and.assoc)
qed simp

text \<open>Every IPv4 network \<open>ParseCIDR\<close> returns is in this form.\<close>

lemma ParseCIDR_v4_net:
  assumes "ParseCIDR s = Inr (a, n)" "length (Mask n) = 4"
  obtains p where "v4_net p n"
proof -
  define addr where "addr = takeWhile (\<lambda>c. c \<noteq> CHR ''/'') s"
  define iplen where "iplen = (if parseIPv4 addr \<noteq> [] then 4 else 16 :: nat)"
  obtain k where "dtoi (tl (dropWhile (\<lambda>c. c \<noteq> CHR ''/'') s)) = Some (k, [])"
    and k: "k \<le> int (8 * iplen)" "a = ParseIP addr" "Mask n = CIDRMask (nat k) (8 * iplen)"
    "IP n = ip_Mask a (Mask n)"
    using assms(1) unfolding ParseCIDR_def addr_def[symmetric] iplen_def[symmetric] Let_def
    by (auto split: if_splits option.splits)
  have kb: "nat k \<le> 8 * iplen" using k(1) by simp
  have lm: "length (Mask n) = iplen"
    using kb unfolding k(3) by (auto simp: CIDRMask_def iplen_def simp del: cidr_bytes_numeral split: if_splits)
  have v4: "parseIPv4 addr \<noteq> []"
    using lm assms(2) by (auto simp: iplen_def)
  then obtain q where q: "a = v4InV6Prefix @ q" "length q = 4"
    using parseIPv4_shape k(2) by (metis ParseIP_def)
  have m: "Mask n = CIDRMask (nat k) 32" "nat k \<le> 32" using k(3) kb v4 by (simp_all add: iplen_def)
  have "IP n = map2 (AND) q (Mask n)"
    using k(4) q m by (simp add: ip_Mask_def v4InV6Prefix_def)
  then have "v4_net (nat k) n"
    using m q by (simp add: v4_net_def ip_Mask_v4 map2_and_idem)
  then show ?thesis by (rule that)
qed

end
