(* ===== verification/Addressing.thy ===== *)
theory Addressing
  imports Complex_Main GoNet
begin

section \<open>Positions and addresses (daemon/ipam.go)\<close>

text \<open>
  The arithmetic half of the address management: \<open>bitCount\<close>, the number of
  addresses of a subnet, \<open>poolBytes\<close>, the length of the bit array
  \<open>IPAMRequest\<close> makes for it, \<open>getIP\<close>, from a one-based position to an
  address, and \<open>getBitPosition\<close>, from an address back to its position.

  The numbers the source computes in \<open>float64\<close> are powers of two, which
  \<open>float64\<close> holds exactly, and are rationals here; converting one that does
  not fit an \<open>int\<close> gives the least \<open>int\<close>, as on the 64-bit machines the
  daemon is built for.
\<close>

definition pow2_float :: "int \<Rightarrow> rat" where
  "pow2_float e = (if 0 \<le> e then 2 ^ nat e else 1 / 2 ^ nat (- e))"

definition float_to_int :: "rat \<Rightarrow> int" where
  "float_to_int r = (let t = (if 0 \<le> r then \<lfloor>r\<rfloor> else \<lceil>r\<rceil>)
     in if - (2 ^ 63) \<le> t \<and> t < 2 ^ 63 then t else - (2 ^ 63))"

definition float_mod :: "rat \<Rightarrow> rat \<Rightarrow> rat" where
  "float_mod x y = x - y * of_int \<lfloor>x / y\<rfloor>"

definition bitCount :: "IPNet \<Rightarrow> rat" where
  "bitCount addr =
     (let (m, _) = mask_Size (Mask addr)
      in if To4 (IP addr) \<noteq> [] then pow2_float (32 - int m) else pow2_float (128 - int m))"

text \<open>The first lines of \<open>IPAMRequest\<close>: \<open>bc\<close>, the bytes of a new array.\<close>

definition poolBytes :: "IPNet \<Rightarrow> int" where
  "poolBytes subnet =
     (let bits = bitCount subnet; bc = float_to_int (bits / 8); partial = float_to_int (float_mod bits 8)
      in if partial \<noteq> 0 then bc + 1 else bc)"

definition maskLen :: "int \<Rightarrow> int \<Rightarrow> int \<Rightarrow> int" where
  "maskLen byteCount bits i =
     (if i = byteCount then (if bits \<noteq> 0 then float_to_int (pow2_float bits) - 1 else 0) else 0xFF)"

fun getBitPosition_loop :: "bytes \<Rightarrow> int \<Rightarrow> int \<Rightarrow> int \<Rightarrow> int list \<Rightarrow> uint \<Rightarrow> uint outcome" where
  "getBitPosition_loop address tb byteCount bits [] pos = Ret pos"
| "getBitPosition_loop address tb byteCount bits (i # is) pos =
     bindO (slice_get address (tb - i - 1)) (\<lambda>b.
       getBitPosition_loop address tb byteCount bits is
         (pos + push_bit (nat (8 * i)) (ucast b AND of_int (0xFF AND maskLen byteCount bits i))))"

definition getBitPosition :: "bytes \<Rightarrow> IPNet \<Rightarrow> uint outcome" where
  "getBitPosition address subnet =
     (let (m, size) = mask_Size (Mask subnet);
          address' = (if To4 address \<noteq> [] then To4 address else address);
          tb = go_div (int size) 8;
          byteCount = go_div (int size - int m) 8;
          bits = go_mod (int size - int m) 8
      in getBitPosition_loop address' tb byteCount bits [0..byteCount] 0)"

fun getIP_loop :: "uint \<Rightarrow> int \<Rightarrow> int \<Rightarrow> int \<Rightarrow> int list \<Rightarrow> bytes \<Rightarrow> bytes outcome" where
  "getIP_loop pos tb byteCount bits [] retAddr = Ret retAddr"
| "getIP_loop pos tb byteCount bits (i # is) retAddr =
     (let masked = pos AND push_bit (nat (8 * i)) (of_int (0xFF AND maskLen byteCount bits i))
      in bindO (slice_get retAddr (tb - i - 1)) (\<lambda>b.
         bindO (slice_set retAddr (tb - i - 1) (b OR ucast (drop_bit (nat (8 * i)) masked)))
           (getIP_loop pos tb byteCount bits is)))"

definition getIP :: "IPNet \<Rightarrow> uint \<Rightarrow> bytes outcome" where
  "getIP subnet pos =
     (let (m, _) = mask_Size (Mask subnet);
          (tb, width) = (if To4 (IP subnet) \<noteq> [] then (4, 32) else (16, 128));
          byteCount = go_div (width - int m) 8;
          bits = go_mod (width - int m) 8
      in getIP_loop pos tb byteCount bits [0..byteCount] (IP subnet))"

subsection \<open>What the loops compute\<close>

lemma upto_int: "[0..int n] = map int [0..<Suc n]"
proof (induction n)
  case (Suc n)
  have "[0..int (Suc n)] = [0..int n] @ [int (Suc n)]"
    using upto_rec2[of 0 "int (Suc n)"] by simp
  then show ?case using Suc by simp
qed simp

lemma ip_bit_update:
  assumes "k < length r" "t < 8 * length r"
  shows "ip_bit (r[length r - 1 - k := v]) t = (if t div 8 = k then bit v (t mod 8) else ip_bit r t)"
proof -
  have "rev (r[length r - 1 - k := v]) = (rev r)[k := v]"
    using assms by (simp add: rev_update)
  then show ?thesis
    using bit_at_update[of "8 * k" "rev r" t v] assms by (simp add: ip_bit_def)
qed

lemma float_to_int_pow2: "0 \<le> e \<Longrightarrow> e < 63 \<Longrightarrow> float_to_int (pow2_float e) = 2 ^ nat e"
proof -
  assume e: "0 \<le> e" "e < 63"
  have "(2::int) ^ nat e < 2 ^ 63" by (rule power_strict_increasing) (use e in auto)
  moreover have "(2::rat) ^ nat e = of_int (2 ^ nat e)" by simp
  moreover have "- (2 ^ 63) \<le> (2::int) ^ nat e" by (rule order_trans[of _ 0]) auto
  ultimately show ?thesis using e by (simp add: float_to_int_def pow2_float_def Let_def del: of_int_power)
qed

text \<open>Bit \<open>j\<close> of the mask for byte \<open>i\<close> says whether bit \<open>8 * i + j\<close> is a host bit.\<close>

lemma bit_maskLen:
  assumes "i \<le> h div 8"
  shows "bit (of_int (0xFF AND maskLen (int h div 8) (int h mod 8) (int i)) :: uint) j \<longleftrightarrow>
    j < 8 \<and> 8 * i + j < h"
proof -
  have ff: "(0xFF :: int) = mask 8" by (simp add: mask_eq_exp_minus_1)
  have hm: "int h mod 8 = int (h mod 8)" "int h div 8 = int (h div 8)" by (simp_all add: zmod_int zdiv_int)
  show ?thesis
  proof (cases "i = h div 8")
    case True
    have m: "maskLen (int h div 8) (int h mod 8) (int i) = mask (h mod 8)"
    proof (cases "h mod 8 = 0")
      case False
      have "float_to_int (pow2_float (int (h mod 8))) = 2 ^ (h mod 8)"
        using float_to_int_pow2[of "int (h mod 8)"] by simp
      then show ?thesis using False True hm by (simp add: maskLen_def mask_eq_exp_minus_1)
    qed (use True hm in \<open>simp add: maskLen_def\<close>)
    have "8 * i + j < h \<longleftrightarrow> j < h mod 8" using True mult_div_mod_eq[of 8 h] by linarith
    then show ?thesis
      unfolding m ff by (auto simp: bit_of_int_iff bit_simps)
  next
    case False
    then have "i < h div 8" using assms by simp
    then have "j < 8 \<Longrightarrow> 8 * i + j < h" using mult_div_mod_eq[of 8 h] by linarith
    moreover have "maskLen (int h div 8) (int h mod 8) (int i) = mask 8"
      using False hm by (simp add: maskLen_def mask_eq_exp_minus_1)
    ultimately show ?thesis unfolding ff by (auto simp: bit_of_int_iff bit_simps)
  qed
qed

lemma getIP_loop_bits:
  assumes "h < 8 * l" "length r = l"
  shows "\<exists>a. getIP_loop pos (int l) (int h div 8) (int h mod 8) (map int [k..<Suc (h div 8)]) r = Ret a \<and>
    length a = l \<and> (\<forall>t. ip_bit a t \<longleftrightarrow> ip_bit r t \<or> (8 * k \<le> t \<and> t < h \<and> bit pos t))"
  using assms(2)
proof (induction "Suc (h div 8) - k" arbitrary: k r)
  case 0
  then have "[k..<Suc (h div 8)] = []" by simp
  moreover have "h < 8 * k" using 0 mult_div_mod_eq[of 8 h] by linarith
  ultimately show ?case using 0 by auto
next
  case (Suc x)
  have k: "k \<le> h div 8" and x: "x = Suc (h div 8) - Suc k" using Suc(2) by simp_all
  have kl: "k < l" using k assms(1) mult_div_mod_eq[of 8 h] by linarith
  have dom: "[k..<Suc (h div 8)] = k # [Suc k..<Suc (h div 8)]" using k by (simp add: upt_conv_Cons)
  define m where "m = (of_int (0xFF AND maskLen (int h div 8) (int h mod 8) (int k)) :: uint)"
  define v where "v = r ! (l - 1 - k) OR ucast (drop_bit (8 * k) (pos AND push_bit (8 * k) m))"
  have idx: "int l - int k - 1 = int (l - 1 - k)" using kl by simp
  have n8: "nat (8 * int k) = 8 * k" by simp
  have sg: "slice_get r (int (l - 1 - k)) = Ret (r ! (l - 1 - k))"
    and ss: "slice_set r (int (l - 1 - k)) w = Ret (r[l - 1 - k := w])" for w
    using kl Suc.prems by (intro slice_get_Ret slice_set_Ret; simp)+
  have step: "getIP_loop pos (int l) (int h div 8) (int h mod 8) (map int [k..<Suc (h div 8)]) r =
      getIP_loop pos (int l) (int h div 8) (int h mod 8) (map int [Suc k..<Suc (h div 8)]) (r[l - 1 - k := v])"
    unfolding dom v_def m_def
    by (simp only: list.map getIP_loop.simps Let_def idx n8 sg ss bindO.simps)
  obtain a where a: "getIP_loop pos (int l) (int h div 8) (int h mod 8) (map int [Suc k..<Suc (h div 8)]) (r[l - 1 - k := v]) = Ret a"
    "length a = l"
    "\<forall>t. ip_bit a t \<longleftrightarrow> ip_bit (r[l - 1 - k := v]) t \<or> (8 * Suc k \<le> t \<and> t < h \<and> bit pos t)"
    using Suc(1)[OF x, of "r[l - 1 - k := v]"] Suc.prems by (auto simp del: upt_Suc)
  have "ip_bit (r[l - 1 - k := v]) t \<longleftrightarrow> ip_bit r t \<or> (8 * k \<le> t \<and> t < 8 * Suc k \<and> t < h \<and> bit pos t)" for t
  proof (cases "t < 8 * l")
    case True
    have bv: "bit v j \<longleftrightarrow> bit (r ! (l - 1 - k)) j \<or> (8 * k + j < h \<and> bit pos (8 * k + j))" if "j < 8" for j
      unfolding v_def using that bit_maskLen[OF k, of j] bit_imp_le_length[of pos "8 * k + j"]
      by (auto simp: bit_simps m_def[symmetric])
    have "ip_bit r t = bit (r ! (l - 1 - k)) (t mod 8)" if "t div 8 = k"
      using that True Suc.prems kl by (simp add: ip_bit_def bit_at_def rev_nth)
    moreover have "8 * k + t mod 8 = t" if "t div 8 = k" using that by auto
    moreover have "t div 8 = k \<longleftrightarrow> 8 * k \<le> t \<and> t < 8 * Suc k"
      using mult_div_mod_eq[of 8 t] by auto
    ultimately show ?thesis
      using ip_bit_update[of k r t v] True Suc.prems kl bv[of "t mod 8"] by auto
  next
    case False
    then show ?thesis using assms(1) Suc.prems
      by (auto dest: ip_bit_length)
  qed
  then have "ip_bit a t \<longleftrightarrow> ip_bit r t \<or> (8 * k \<le> t \<and> t < h \<and> bit pos t)" for t
    using a(3) by (cases "t < 8 * Suc k") simp_all
  then show ?case unfolding step using a(1,2) by blast
qed

lemma getBitPosition_loop_bits:
  assumes "h < 8 * l" "h < 64" "length a = l" "\<And>t. bit pos t \<Longrightarrow> t < 8 * k"
  shows "\<exists>q. getBitPosition_loop a (int l) (int h div 8) (int h mod 8) (map int [k..<Suc (h div 8)]) pos = Ret q \<and>
    (\<forall>t. bit q t \<longleftrightarrow> bit pos t \<or> (8 * k \<le> t \<and> t < h \<and> ip_bit a t))"
  using assms(4)
proof (induction "Suc (h div 8) - k" arbitrary: k pos)
  case 0
  then have "[k..<Suc (h div 8)] = []" by simp
  moreover have "h < 8 * k" using 0 mult_div_mod_eq[of 8 h] by linarith
  ultimately show ?case using 0 by auto
next
  case (Suc x)
  have k: "k \<le> h div 8" and x: "x = Suc (h div 8) - Suc k" using Suc(2) by simp_all
  have kl: "k < l" using k assms(1) mult_div_mod_eq[of 8 h] by linarith
  have dom: "[k..<Suc (h div 8)] = k # [Suc k..<Suc (h div 8)]" using k by (simp add: upt_conv_Cons)
  define m where "m = (of_int (0xFF AND maskLen (int h div 8) (int h mod 8) (int k)) :: uint)"
  define y where "y = push_bit (8 * k) (ucast (a ! (l - 1 - k)) AND m)"
  have idx: "int l - int k - 1 = int (l - 1 - k)" using kl by simp
  have n8: "nat (8 * int k) = 8 * k" by simp
  have sg: "slice_get a (int (l - 1 - k)) = Ret (a ! (l - 1 - k))"
    using kl assms(3) by (intro slice_get_Ret) simp
  have step: "getBitPosition_loop a (int l) (int h div 8) (int h mod 8) (map int [k..<Suc (h div 8)]) pos =
      getBitPosition_loop a (int l) (int h div 8) (int h mod 8) (map int [Suc k..<Suc (h div 8)]) (pos + y)"
    unfolding dom y_def m_def
    by (simp only: list.map getBitPosition_loop.simps idx n8 sg bindO.simps)
  have bity: "bit y t \<longleftrightarrow> 8 * k \<le> t \<and> t < 8 * Suc k \<and> t < h \<and> ip_bit a t" for t
  proof -
    have "ip_bit a t = bit (a ! (l - 1 - k)) (t - 8 * k)" if "8 * k \<le> t" "t < 8 * Suc k"
    proof -
      have d: "t div 8 = k" using that mult_div_mod_eq[of 8 t] by auto
      moreover have "t mod 8 = t - 8 * k" unfolding d[symmetric] by (simp add: minus_mult_div_eq_mod)
      ultimately show ?thesis using kl assms(3) that by (simp add: ip_bit_def bit_at_def rev_nth)
    qed
    then show ?thesis
      unfolding y_def using bit_maskLen[OF k, of "t - 8 * k"] assms(2)
      by (auto simp: bit_simps m_def[symmetric])
  qed
  have "pos + y = pos OR y"
    by (rule disjunctive_add_eq_or) (use Suc.prems bity in \<open>fastforce simp: bit_eq_iff bit_simps\<close>)
  then have bq: "bit (pos + y) t \<longleftrightarrow> bit pos t \<or> bit y t" for t by (simp add: bit_or_iff)
  have "t < 8 * Suc k" if "bit (pos + y) t" for t
    using that Suc.prems[of t] bity[of t] bq[of t] by auto
  then obtain q where "getBitPosition_loop a (int l) (int h div 8) (int h mod 8) (map int [Suc k..<Suc (h div 8)]) (pos + y) = Ret q"
    "\<forall>t. bit q t \<longleftrightarrow> bit (pos + y) t \<or> (8 * Suc k \<le> t \<and> t < h \<and> ip_bit a t)"
    using Suc(1)[OF x, of "pos + y"] by (auto simp del: upt_Suc)
  moreover from this(2) have "bit q t \<longleftrightarrow> bit pos t \<or> (8 * k \<le> t \<and> t < h \<and> ip_bit a t)" for t
    using bq[of t] bity[of t] by (cases "t < 8 * Suc k") auto
  ultimately show ?case unfolding step by blast
qed

subsection \<open>IPv4 subnets\<close>

lemma getIP_v4:
  assumes "v4_net p n" "1 \<le> p"
  obtains a where "getIP n pos = Ret a" "length a = 4"
    "\<And>t. ip_bit a t \<longleftrightarrow> (if t < 32 - p then bit pos t else ip_bit (IP n) t)"
proof -
  have p: "p \<le> 32" and l: "length (IP n) = 4" and m: "Mask n = CIDRMask p 32"
    using assms(1) by (auto simp: v4_net_def)
  have ne: "IP n \<noteq> []" using l by auto
  have h: "32 - int p = int (32 - p)" using p by simp
  have "getIP n pos = getIP_loop pos (int 4) (int (32 - p) div 8) (int (32 - p) mod 8)
      (map int [0..<Suc ((32 - p) div 8)]) (IP n)"
    using upto_int[of "(32 - p) div 8"]
    by (simp add: getIP_def m mask_Size_CIDRMask[OF p] l ne h zdiv_int del: upt_Suc)
  then obtain a where a: "getIP n pos = Ret a" "length a = 4"
    "\<forall>t. ip_bit a t \<longleftrightarrow> ip_bit (IP n) t \<or> (8 * 0 \<le> t \<and> t < 32 - p \<and> bit pos t)"
    using getIP_loop_bits[of "32 - p" 4 "IP n" pos 0] assms(2) l by (auto simp del: upt_Suc)
  have "ip_bit a t \<longleftrightarrow> (if t < 32 - p then bit pos t else ip_bit (IP n) t)" for t
    using a(3) v4_net_host_bits[OF assms(1), of t] by auto
  with a(1,2) show ?thesis by (rule that)
qed

lemma getBitPosition_v4:
  assumes "v4_net p n" "1 \<le> p" "length (To4 a) = 4"
  obtains q where "getBitPosition a n = Ret q" "\<And>t. bit q t \<longleftrightarrow> t < 32 - p \<and> ip_bit (To4 a) t"
proof -
  have p: "p \<le> 32" and m: "Mask n = CIDRMask p 32" using assms(1) by (auto simp: v4_net_def)
  have ne: "To4 a \<noteq> []" using assms(3) by auto
  have h: "32 - int p = int (32 - p)" using p by simp
  have "getBitPosition a n = getBitPosition_loop (To4 a) (int 4) (int (32 - p) div 8) (int (32 - p) mod 8)
      (map int [0..<Suc ((32 - p) div 8)]) 0"
    using upto_int[of "(32 - p) div 8"]
    by (simp add: getBitPosition_def m mask_Size_CIDRMask[OF p] ne h zdiv_int del: upt_Suc)
  moreover have "32 - p < 64" by simp
  ultimately obtain q where "getBitPosition a n = Ret q"
    "\<forall>t. bit q t \<longleftrightarrow> bit (0 :: uint) t \<or> (8 * 0 \<le> t \<and> t < 32 - p \<and> ip_bit (To4 a) t)"
    using getBitPosition_loop_bits[of "32 - p" 4 "To4 a" 0 0] assms(2,3) by (auto simp del: upt_Suc)
  then show ?thesis by (intro that[of q]) simp_all
qed

lemma getIP_network_bits:
  assumes "v4_net p n" "1 \<le> p" "getIP n pos = Ret a"
  shows "length a = 4" "Contains n a" "ip_nat a = ip_nat (IP n) + unat pos mod 2 ^ (32 - p)"
proof -
  obtain b where "getIP n pos = Ret b" "length b = 4"
    "\<And>t. ip_bit b t \<longleftrightarrow> (if t < 32 - p then bit pos t else ip_bit (IP n) t)"
    using getIP_v4[OF assms(1,2)] by blast
  with assms(3) have a: "length a = 4" "\<And>t. ip_bit a t \<longleftrightarrow> (if t < 32 - p then bit pos t else ip_bit (IP n) t)"
    by simp_all
  show "length a = 4" by (rule a)
  show "Contains n a" unfolding Contains_v4[OF assms(1) a(1)] using a(2) by simp
  have "ip_nat (IP n) + take_bit (32 - p) (unat pos) = ip_nat (IP n) OR take_bit (32 - p) (unat pos)"
    by (rule disjunctive_add_eq_or)
       (use v4_net_host_bits[OF assms(1)] in \<open>auto simp: bit_eq_iff bit_simps ip_nat_bit\<close>)
  moreover have "ip_nat a = ip_nat (IP n) OR take_bit (32 - p) (unat pos)"
    using a(2) v4_net_host_bits[OF assms(1)] bit_imp_le_length[of pos]
    by (auto simp: bit_eq_iff bit_simps ip_nat_bit bit_unsigned_iff)
  ultimately show "ip_nat a = ip_nat (IP n) + unat pos mod 2 ^ (32 - p)"
    by (simp add: take_bit_eq_mod)
qed

lemma getBitPosition_getIP:
  assumes "v4_net p n" "1 \<le> p"
  shows "bindO (getIP n pos) (\<lambda>a. getBitPosition a n) = Ret (take_bit (32 - p) pos)"
proof -
  obtain a where a: "getIP n pos = Ret a" "length a = 4"
    "\<And>t. ip_bit a t \<longleftrightarrow> (if t < 32 - p then bit pos t else ip_bit (IP n) t)"
    using getIP_v4[OF assms] by blast
  obtain q where q: "getBitPosition a n = Ret q" "\<And>t. bit q t \<longleftrightarrow> t < 32 - p \<and> ip_bit (To4 a) t"
    using getBitPosition_v4[OF assms] a(2) by (metis To4_length4)
  have "q = take_bit (32 - p) pos"
    using q(2) a(2,3) by (auto simp: bit_eq_iff bit_simps)
  then show ?thesis using a(1) q(1) by simp
qed

lemma getIP_eq_iff:
  assumes "v4_net p n" "1 \<le> p"
  shows "getIP n x = getIP n y \<longleftrightarrow> unat x mod 2 ^ (32 - p) = unat y mod 2 ^ (32 - p)"
proof -
  obtain a where a: "getIP n x = Ret a" using getIP_v4[OF assms] by blast
  obtain b where b: "getIP n y = Ret b" using getIP_v4[OF assms] by blast
  have "getIP n x = getIP n y \<longleftrightarrow> a = b" using a b by simp
  also have "\<dots> \<longleftrightarrow> ip_nat a = ip_nat b"
    using getIP_network_bits(1)[OF assms a] getIP_network_bits(1)[OF assms b] ip_nat_inj[of a b] by metis
  also have "\<dots> \<longleftrightarrow> unat x mod 2 ^ (32 - p) = unat y mod 2 ^ (32 - p)"
    using getIP_network_bits(3)[OF assms a] getIP_network_bits(3)[OF assms b] by simp
  finally show ?thesis .
qed

lemma poolBytes_v4:
  assumes "v4_net p n"
  shows "poolBytes n = (if p \<le> 29 then 2 ^ (29 - p) else 1)"
proof -
  have p: "p \<le> 32" and l: "length (IP n) = 4" and m: "Mask n = CIDRMask p 32"
    using assms by (auto simp: v4_net_def)
  have ne: "IP n \<noteq> []" using l by auto
  have h: "0 \<le> 32 - int p" "nat (32 - int p) = 32 - p" using p by simp_all
  have bc: "bitCount n = 2 ^ (32 - p)"
    using h by (simp add: bitCount_def m mask_Size_CIDRMask[OF p] l ne pow2_float_def)
  show ?thesis
  proof (cases "p \<le> 29")
    case True
    define k where "k = 29 - p"
    have k: "32 - p = k + 3" "k \<le> 29" using True by (auto simp: k_def)
    have b: "bitCount n = of_int (2 ^ k * 8)" using bc k by (simp add: power_add)
    have d: "bitCount n / 8 = pow2_float (int k)" "float_mod (bitCount n) 8 = 0"
      unfolding b by (simp_all add: float_mod_def pow2_float_def)
    have "float_to_int (bitCount n / 8) = 2 ^ k"
      using float_to_int_pow2[of "int k"] k(2) unfolding d(1) by simp
    then show ?thesis
      using True d(2) by (simp add: poolBytes_def Let_def k_def float_to_int_def)
  next
    case False
    then consider "p = 30" | "p = 31" | "p = 32" using p by linarith
    moreover have "\<lfloor>1 / 2 :: rat\<rfloor> = 0" "\<lfloor>1 / 4 :: rat\<rfloor> = 0" "\<lfloor>1 / 8 :: rat\<rfloor> = 0"
      by (simp_all add: floor_eq_iff)
    ultimately show ?thesis
      by cases (simp_all add: poolBytes_def bc Let_def float_to_int_def float_mod_def)
  qed
qed

lemma getIP_prefix_0:
  assumes "v4_net 0 n"
  shows "getIP n pos = index_panic"
proof -
  have l: "length (IP n) = 4" and m: "Mask n = CIDRMask 0 32" using assms by (auto simp: v4_net_def)
  obtain w x y z where ip: "IP n = [w, x, y, z]" using l by (rule length4E)
  show ?thesis
    by (simp add: getIP_def m mask_Size_CIDRMask ip To4_def Let_def upto_rec1 slice_get_def slice_set_def)
qed

subsection \<open>Properties\<close>

text \<open>C26. The address of a position lies in the subnet, and is the network address plus
  the position modulo the size of the subnet.\<close>

theorem getIP_in_subnet:
  assumes "v4_net p n" "1 \<le> p"
  shows "\<exists>a. getIP n pos = Ret a \<and> length a = 4 \<and> Contains n a \<and>
    ip_nat a = ip_nat (IP n) + unat pos mod 2 ^ (32 - p)"
proof -
  obtain a where "getIP n pos = Ret a" using getIP_v4[OF assms] by blast
  then show ?thesis using getIP_network_bits[OF assms] by blast
qed

lemma v4_net_10: "v4_net 24 \<lparr>IP = [10, 1, 2, 0], Mask = CIDRMask 24 32\<rparr>"
  by (simp add: v4_net_def CIDRMask_def ip_Mask_def)

theorem getIP_in_subnet_witness:
  "\<exists>a. getIP \<lparr>IP = [10, 1, 2, 0], Mask = CIDRMask 24 32\<rparr> 7 = Ret a \<and>
     Contains \<lparr>IP = [10, 1, 2, 0], Mask = CIDRMask 24 32\<rparr> a \<and> ip_nat a = ip_nat [10, 1, 2, 0] + 7"
  using getIP_in_subnet[OF v4_net_10, of 7] by auto

text \<open>C16. \<open>getBitPosition\<close> undoes \<open>getIP\<close>: it gives back the position modulo the
  size of the subnet, hence the position itself for the positions of the subnet.\<close>

theorem getBitPosition_inverts_getIP:
  assumes "v4_net p n" "1 \<le> p"
  shows "bindO (getIP n pos) (\<lambda>a. getBitPosition a n) = Ret (take_bit (32 - p) pos)"
  using assms by (rule getBitPosition_getIP)

theorem getBitPosition_inverts_getIP_witness:
  "bindO (getIP \<lparr>IP = [10, 1, 2, 0], Mask = CIDRMask 24 32\<rparr> 200)
     (\<lambda>a. getBitPosition a \<lparr>IP = [10, 1, 2, 0], Mask = CIDRMask 24 32\<rparr>) = Ret 200"
  using getBitPosition_inverts_getIP[OF v4_net_10, of 200] by simp

text \<open>Two positions are given the same address exactly when they agree modulo the
  size of the subnet.\<close>

lemma getIP_collision:
  assumes "v4_net p n" "1 \<le> p"
  shows "getIP n x = getIP n y \<longleftrightarrow> unat x mod 2 ^ (32 - p) = unat y mod 2 ^ (32 - p)"
  using assms by (rule getIP_eq_iff)

lemma getIP_collision_example:
  "getIP \<lparr>IP = [10, 1, 2, 0], Mask = CIDRMask 24 32\<rparr> 3 = getIP \<lparr>IP = [10, 1, 2, 0], Mask = CIDRMask 24 32\<rparr> 259 \<and>
   getIP \<lparr>IP = [10, 1, 2, 0], Mask = CIDRMask 24 32\<rparr> 3 \<noteq> getIP \<lparr>IP = [10, 1, 2, 0], Mask = CIDRMask 24 32\<rparr> 4"
  using getIP_collision[OF v4_net_10, of 3 259] getIP_collision[OF v4_net_10, of 3 4] by simp

text \<open>A new bit array has one bit per address of the subnet, but never fewer than
  eight.\<close>

theorem pool_size:
  assumes "v4_net p n"
  shows "8 * poolBytes n = max 8 (2 ^ (32 - p))"
proof (cases "p \<le> 29")
  case True
  then have d: "32 - p = (29 - p) + 3" by simp
  have e: "(2::int) ^ (32 - p) = 8 * 2 ^ (29 - p)" unfolding d power_add by simp
  have "1 \<le> (2::int) ^ (29 - p)" by simp
  with e show ?thesis using poolBytes_v4[OF assms] True by (simp add: max_def)
next
  case False
  then have "(2::int) ^ (32 - p) \<le> 2 ^ 3" by (intro power_increasing) auto
  then show ?thesis using poolBytes_v4[OF assms] False by simp
qed

theorem pool_size_witness: "8 * poolBytes \<lparr>IP = [10, 1, 2, 0], Mask = CIDRMask 24 32\<rparr> = 256"
  using pool_size[OF v4_net_10] by simp

text \<open>For the subnet of all addresses, whose prefix has length zero, the loop of
  \<open>getIP\<close> runs one byte too far and panics for every position.\<close>

theorem getIP_all_addresses_panics:
  assumes "v4_net 0 n"
  shows "getIP n pos = index_panic"
  using assms by (rule getIP_prefix_0)

theorem getIP_all_addresses_panics_witness:
  "getIP \<lparr>IP = [0, 0, 0, 0], Mask = CIDRMask 0 32\<rparr> 1 = index_panic"
  by (rule getIP_all_addresses_panics) (simp add: v4_net_def CIDRMask_def ip_Mask_def)

end
