(* ===== verification/GoJson.thy ===== *)
theory GoJson
  imports GoNet
begin

section \<open>The parts of Go's package encoding/json the daemon uses\<close>

text \<open>
  The daemon stores its networks as JSON documents, talks JSON over HTTP and
  reads Consul's answers as JSON.  This theory models \<open>json.Marshal\<close> and
  \<open>json.Unmarshal\<close> (release 1.4) for the values that occur: text and its
  UTF-8 coercion, the document grammar, and storing a document into a struct
  whose fields are looked up exactly first and without regard to case second.

  The reader spends one unit of fuel per nested call; the text gets shorter
  at least every second call, so more fuel than twice the length of the text
  changes nothing (\<open>read_fuel\<close>).
\<close>

subsection \<open>UTF-8\<close>

definition code :: "char \<Rightarrow> nat" where
  "code c = of_char c"

definition runeError :: nat where
  "runeError = 0xFFFD"

definition is_cont :: "nat \<Rightarrow> bool" where
  "is_cont c \<longleftrightarrow> 0x80 \<le> c \<and> c < 0xC0"

text \<open>The rune at the head of a non-empty text and the bytes it takes.\<close>

definition DecodeRune :: "string \<Rightarrow> nat \<times> nat" where
  "DecodeRune s =
     (let b = (\<lambda>i. if i < length s then Some (code (s ! i)) else None);
          cont = (\<lambda>i. case b i of None \<Rightarrow> False | Some c \<Rightarrow> is_cont c);
          low = (\<lambda>i. the (b i) mod 0x40);
          bad = (runeError, 1)
      in case b 0 of
           None \<Rightarrow> (runeError, 0)
         | Some c0 \<Rightarrow>
             if c0 < 0x80 then (c0, 1)
             else if c0 < 0xC0 then bad
             else if \<not> cont 1 then bad
             else if c0 < 0xE0 then
               (let r = (c0 mod 0x20) * 0x40 + low 1 in if r \<le> 0x7F then bad else (r, 2))
             else if \<not> cont 2 then bad
             else if c0 < 0xF0 then
               (let r = (c0 mod 0x10) * 0x1000 + low 1 * 0x40 + low 2
                in if r \<le> 0x7FF then bad else if 0xD800 \<le> r \<and> r \<le> 0xDFFF then bad else (r, 3))
             else if \<not> cont 3 then bad
             else if c0 < 0xF8 then
               (let r = (c0 mod 8) * 0x40000 + low 1 * 0x1000 + low 2 * 0x40 + low 3
                in if r \<le> 0xFFFF \<or> 0x10FFFF < r then bad else (r, 4))
             else bad)"

definition EncodeRune :: "nat \<Rightarrow> string" where
  "EncodeRune r0 =
     (let r = (if r0 > 0x10FFFF \<or> (0xD800 \<le> r0 \<and> r0 \<le> 0xDFFF) then runeError else r0)
      in if r \<le> 0x7F then [char_of r]
         else if r \<le> 0x7FF then [char_of (0xC0 + r div 0x40), char_of (0x80 + r mod 0x40)]
         else if r \<le> 0xFFFF then
           [char_of (0xE0 + r div 0x1000), char_of (0x80 + r div 0x40 mod 0x40), char_of (0x80 + r mod 0x40)]
         else
           [char_of (0xF0 + r div 0x40000), char_of (0x80 + r div 0x1000 mod 0x40),
            char_of (0x80 + r div 0x40 mod 0x40), char_of (0x80 + r mod 0x40)])"

lemma DecodeRune_size: "s \<noteq> [] \<Longrightarrow> 1 \<le> snd (DecodeRune s)"
  by (auto simp: DecodeRune_def Let_def split: option.splits)

lemma DecodeRune_shorter: "(r, k) = DecodeRune (c # s) \<Longrightarrow> Suc (length s) - k < Suc (length s)"
  using DecodeRune_size[of "c # s"] by (cases "DecodeRune (c # s)") auto

subsection \<open>Text values\<close>

definition hex4 :: "char \<Rightarrow> char \<Rightarrow> char \<Rightarrow> char \<Rightarrow> nat option" where
  "hex4 a b c d = (case (hex_val a, hex_val b, hex_val c, hex_val d) of
       (Some w, Some x, Some y, Some z) \<Rightarrow> Some (nat (((w * 16 + x) * 16 + y) * 16 + z))
     | _ \<Rightarrow> None)"

text \<open>\<open>getu4\<close>: the value of a \<open>\u\<close> escape at the head of the text.\<close>

fun getu4 :: "string \<Rightarrow> nat option" where
  "getu4 (e # u # a # b # c # d # r) =
     (if e = CHR 0x5C \<and> u = CHR ''u'' then hex4 a b c d else None)"
| "getu4 r = None"

definition is_surrogate :: "nat \<Rightarrow> bool" where
  "is_surrogate r \<longleftrightarrow> 0xD800 \<le> r \<and> r < 0xE000"

definition utf16_DecodeRune :: "nat \<Rightarrow> nat \<Rightarrow> nat" where
  "utf16_DecodeRune r1 r2 =
     (if 0xD800 \<le> r1 \<and> r1 < 0xDC00 \<and> 0xDC00 \<le> r2 \<and> r2 < 0xE000
      then (r1 - 0xD800) * 0x400 + (r2 - 0xDC00) + 0x10000 else runeError)"

definition simple_escape :: "char \<Rightarrow> char option" where
  "simple_escape c =
     (if c = CHR 0x22 \<or> c = CHR 0x5C \<or> c = CHR ''/'' then Some c
      else if c = CHR ''b'' then Some (CHR 0x08)
      else if c = CHR ''f'' then Some (CHR 0x0C)
      else if c = CHR ''n'' then Some (CHR 0x0A)
      else if c = CHR ''r'' then Some (CHR 0x0D)
      else if c = CHR ''t'' then Some (CHR 0x09)
      else None)"

text \<open>
  The text after an opening quote: its value and what follows the closing
  quote.  An escape, a control character and the end of the input that the
  grammar does not allow give \<open>None\<close>.
\<close>

function read_string :: "string \<Rightarrow> (string \<times> string) option" where
  "read_string s =
     (case s of
        [] \<Rightarrow> None
      | c # r \<Rightarrow>
          if c = CHR 0x22 then Some ([], r)
          else if code c < 0x20 then None
          else if c = CHR 0x5C then
            (case r of
               [] \<Rightarrow> None
             | e # r' \<Rightarrow>
                 if e = CHR ''u'' then
                   (case getu4 s of
                      None \<Rightarrow> None
                    | Some rr \<Rightarrow>
                        if is_surrogate rr then
                          (case getu4 (drop 6 s) of
                             None \<Rightarrow> map_option (apfst ((@) (EncodeRune runeError))) (read_string (drop 6 s))
                           | Some rr1 \<Rightarrow>
                               if utf16_DecodeRune rr rr1 \<noteq> runeError
                               then map_option (apfst ((@) (EncodeRune (utf16_DecodeRune rr rr1))))
                                      (read_string (drop 12 s))
                               else map_option (apfst ((@) (EncodeRune runeError))) (read_string (drop 6 s)))
                        else map_option (apfst ((@) (EncodeRune rr))) (read_string (drop 6 s)))
                 else (case simple_escape e of
                      None \<Rightarrow> None
                    | Some x \<Rightarrow> map_option (apfst ((#) x)) (read_string r')))
          else if code c < 0x80 then map_option (apfst ((#) c)) (read_string r)
          else (let (rr, k) = DecodeRune s
                in map_option (apfst ((@) (EncodeRune rr))) (read_string (drop k s))))"
  by pat_completeness auto
termination
  by (relation "measure length") (auto dest: DecodeRune_shorter)

declare read_string.simps [simp del]


text \<open>The encoder of texts, between the quotes.\<close>

definition escape_char :: "char \<Rightarrow> string" where
  "escape_char c =
     (if 0x20 \<le> code c \<and> c \<noteq> CHR 0x5C \<and> c \<noteq> CHR 0x22 \<and>
         c \<noteq> CHR ''<'' \<and> c \<noteq> CHR ''>'' \<and> c \<noteq> CHR ''&'' then [c]
      else if c = CHR 0x5C \<or> c = CHR 0x22 then [CHR 0x5C, c]
      else if c = CHR 0x0A then [CHR 0x5C, CHR ''n'']
      else if c = CHR 0x0D then [CHR 0x5C, CHR ''r'']
      else [CHR 0x5C, CHR ''u'', CHR ''0'', CHR ''0'', hex_char (code c div 16), hex_char (code c mod 16)])"

function escape :: "string \<Rightarrow> string" where
  "escape s =
     (case s of
        [] \<Rightarrow> []
      | c # r \<Rightarrow>
          if code c < 0x80 then escape_char c @ escape r
          else (let (rr, k) = DecodeRune s
                in if rr = runeError \<and> k = 1 then [CHR 0x5C] @ ''ufffd'' @ escape (drop k s)
                   else if rr = 0x2028 \<or> rr = 0x2029
                   then [CHR 0x5C] @ ''u202'' @ [hex_char (rr mod 16)] @ escape (drop k s)
                   else take k s @ escape (drop k s)))"
  by pat_completeness auto
termination
  by (relation "measure length") (auto dest: DecodeRune_shorter)

declare escape.simps [simp del]

definition quote_string :: "string \<Rightarrow> string" where
  "quote_string s = [CHR 0x22] @ escape s @ [CHR 0x22]"

definition ascii :: "string \<Rightarrow> bool" where
  "ascii s \<longleftrightarrow> (\<forall>c\<in>set s. code c < 0x80)"

lemma ascii_simps [simp]: "ascii []" "ascii (c # s) \<longleftrightarrow> code c < 0x80 \<and> ascii s"
  "ascii (s @ t) \<longleftrightarrow> ascii s \<and> ascii t"
  by (auto simp: ascii_def)

lemma escape_ascii: "ascii s \<Longrightarrow> escape s = concat (map escape_char s)"
  by (induction s) (simp_all add: escape.simps)

lemma code_less: "code c < 256"
  by (simp add: code_def)

lemma hex_val_hex_char: "d < 16 \<Longrightarrow> hex_val (hex_char d) = Some (int d)"
proof -
  assume d: "d < 16"
  show ?thesis using d by (auto simp: hex_val_def hex_char_def of_char_char_of Let_def)
qed

lemma char_of_code [simp]: "char_of (code c) = c"
  by (simp add: code_def)

lemma hex4_low: "k < 256 \<Longrightarrow> hex4 (CHR ''0'') (CHR ''0'') (hex_char (k div 16)) (hex_char (k mod 16)) = Some k"
proof -
  assume k: "k < 256"
  have "hex_val (CHR ''0'') = Some 0" by (simp add: hex_val_def)
  moreover have "hex_val (hex_char (k div 16)) = Some (int (k div 16))" "hex_val (hex_char (k mod 16)) = Some (int (k mod 16))"
    using k by (auto intro!: hex_val_hex_char)
  moreover have "int (k div 16) * 16 + int (k mod 16) = int k"
    using arg_cong[OF div_mult_mod_eq[of k 16], of int] by (simp only: of_nat_add of_nat_mult of_nat_numeral)
  ultimately show ?thesis by (simp add: hex4_def)
qed

lemma read_string_escape_char:
  assumes "code c < 0x80"
  shows "read_string (escape_char c @ s) = map_option (apfst ((#) c)) (read_string s)"
proof -
  have cc: "code (CHR 0x5C) = 0x5C" "code (CHR 0x22) = 0x22" by (simp_all add: code_def)
  consider (plain) "0x20 \<le> code c" "c \<noteq> CHR 0x5C" "c \<noteq> CHR 0x22" "c \<noteq> CHR ''<''" "c \<noteq> CHR ''>''" "c \<noteq> CHR ''&''"
    | (two) "c = CHR 0x5C \<or> c = CHR 0x22"
    | (nl) "c = CHR 0x0A" | (cr) "c = CHR 0x0D"
    | (u) "\<not> (0x20 \<le> code c \<and> c \<noteq> CHR ''<'' \<and> c \<noteq> CHR ''>'' \<and> c \<noteq> CHR ''&'')"
       "c \<noteq> CHR 0x5C" "c \<noteq> CHR 0x22" "c \<noteq> CHR 0x0A" "c \<noteq> CHR 0x0D"
    by blast
  then show ?thesis
  proof cases
    case plain
    then show ?thesis using assms by (subst read_string.simps) (simp add: escape_char_def)
  next
    case two
    then show ?thesis
      using cc by (subst read_string.simps) (auto simp: escape_char_def simple_escape_def)
  next
    case nl
    then show ?thesis
      using cc by (subst read_string.simps) (auto simp: escape_char_def simple_escape_def code_def)
  next
    case cr
    then show ?thesis
      using cc by (subst read_string.simps) (auto simp: escape_char_def simple_escape_def code_def)
  next
    case u
    have e: "escape_char c = [CHR 0x5C, CHR ''u'', CHR ''0'', CHR ''0'', hex_char (code c div 16), hex_char (code c mod 16)]"
      using u by (auto simp: escape_char_def)
    have g: "getu4 (escape_char c @ s) = Some (code c)"
      unfolding e using hex4_low[OF code_less] by simp
    have "\<not> is_surrogate (code c)" "EncodeRune (code c) = [c]"
      using assms by (auto simp: is_surrogate_def EncodeRune_def Let_def)
    moreover have "(@) [c] = (#) c" by (simp add: fun_eq_iff)
    ultimately show ?thesis
      using cc g by (subst read_string.simps) (simp add: e)
  qed
qed

lemma read_string_escape:
  "ascii s \<Longrightarrow> read_string (escape s @ [CHR 0x22] @ r) = Some (s, r)"
proof (induction s)
  case Nil
  then show ?case by (simp add: escape_ascii read_string.simps[of "CHR 0x22 # r"])
next
  case (Cons c s)
  then show ?case
    using read_string_escape_char[of c "escape s @ CHR 0x22 # r"] by (simp add: escape_ascii)
qed

subsection \<open>Documents\<close>

datatype json =
    JNull
  | JBool bool
  | JNum string             \<comment> \<open>a number literal, kept as text\<close>
  | JStr string
  | JArr "json list"
  | JObj "(string \<times> json) list"

fun print_json :: "json \<Rightarrow> string"
  and print_elems :: "json list \<Rightarrow> string"
  and print_members :: "(string \<times> json) list \<Rightarrow> string" where
  "print_json JNull = ''null''"
| "print_json (JBool b) = (if b then ''true'' else ''false'')"
| "print_json (JNum n) = n"
| "print_json (JStr s) = quote_string s"
| "print_json (JArr js) = ''['' @ print_elems js @ '']''"
| "print_json (JObj ms) = ''{'' @ print_members ms @ ''}''"
| "print_elems [] = []"
| "print_elems (j # js) = print_json j @ (if js = [] then [] else '','' @ print_elems js)"
| "print_members [] = []"
| "print_members ((k, j) # ms) =
     quote_string k @ '':'' @ print_json j @ (if ms = [] then [] else '','' @ print_members ms)"

definition is_ws :: "char \<Rightarrow> bool" where
  "is_ws c \<longleftrightarrow> c = CHR '' '' \<or> c = CHR 0x09 \<or> c = CHR 0x0A \<or> c = CHR 0x0D"

definition skip_ws :: "string \<Rightarrow> string" where
  "skip_ws s = dropWhile is_ws s"

text \<open>
  The number grammar: an optional minus, an integer part without superfluous
  zeros, an optional fraction, an optional exponent.
\<close>

definition digits1 :: "string \<Rightarrow> (string \<times> string) option" where
  "digits1 s = (case takeWhile is_digit s of [] \<Rightarrow> None | ds \<Rightarrow> Some (ds, dropWhile is_digit s))"

definition read_int_part :: "string \<Rightarrow> (string \<times> string) option" where
  "read_int_part s = (case s of
       [] \<Rightarrow> None
     | c # r \<Rightarrow> if c = CHR ''0'' then Some (''0'', r) else digits1 s)"

definition read_fraction :: "string \<Rightarrow> (string \<times> string) option" where
  "read_fraction s = (case s of
       c # r \<Rightarrow> if c = CHR ''.'' then map_option (apfst ((#) c)) (digits1 r) else Some ([], s)
     | [] \<Rightarrow> Some ([], s))"

definition read_exponent :: "string \<Rightarrow> (string \<times> string) option" where
  "read_exponent s = (case s of
       c # r \<Rightarrow>
         if c = CHR ''e'' \<or> c = CHR ''E'' then
           (case r of
              d # r' \<Rightarrow> if d = CHR ''+'' \<or> d = CHR ''-''
                then map_option (apfst (\<lambda>x. c # d # x)) (digits1 r')
                else map_option (apfst ((#) c)) (digits1 r)
            | [] \<Rightarrow> None)
         else Some ([], s)
     | [] \<Rightarrow> Some ([], s))"

definition read_number :: "string \<Rightarrow> (string \<times> string) option" where
  "read_number s =
     (let (sign, s0) = (if s \<noteq> [] \<and> hd s = CHR ''-'' then (''-'', tl s) else ([], s))
      in case read_int_part s0 of
           None \<Rightarrow> None
         | Some (i, s1) \<Rightarrow> (case read_fraction s1 of
             None \<Rightarrow> None
           | Some (f, s2) \<Rightarrow> (case read_exponent s2 of
               None \<Rightarrow> None
             | Some (e, s3) \<Rightarrow> Some (sign @ i @ f @ e, s3))))"

definition read_literal :: "string \<Rightarrow> json \<Rightarrow> string \<Rightarrow> (json \<times> string) option" where
  "read_literal w j s = (if take (length w) s = w then Some (j, drop (length w) s) else None)"

fun read_value :: "nat \<Rightarrow> string \<Rightarrow> (json \<times> string) option"
  and read_elems :: "nat \<Rightarrow> string \<Rightarrow> (json list \<times> string) option"
  and read_members :: "nat \<Rightarrow> string \<Rightarrow> ((string \<times> json) list \<times> string) option" where
  "read_value 0 s = None"
| "read_value (Suc f) s =
     (case skip_ws s of
        [] \<Rightarrow> None
      | c # r \<Rightarrow>
          if c = CHR ''{'' then
            (if skip_ws r \<noteq> [] \<and> hd (skip_ws r) = CHR ''}'' then Some (JObj [], tl (skip_ws r))
             else map_option (apfst JObj) (read_members f r))
          else if c = CHR ''['' then
            (if skip_ws r \<noteq> [] \<and> hd (skip_ws r) = CHR '']'' then Some (JArr [], tl (skip_ws r))
             else map_option (apfst JArr) (read_elems f r))
          else if c = CHR 0x22 then map_option (apfst JStr) (read_string r)
          else if c = CHR ''t'' then read_literal ''true'' (JBool True) (c # r)
          else if c = CHR ''f'' then read_literal ''false'' (JBool False) (c # r)
          else if c = CHR ''n'' then read_literal ''null'' JNull (c # r)
          else map_option (apfst JNum) (read_number (c # r)))"
| "read_elems 0 s = None"
| "read_elems (Suc f) s =
     (case read_value f s of
        None \<Rightarrow> None
      | Some (j, r) \<Rightarrow>
          (case skip_ws r of
             [] \<Rightarrow> None
           | c # r' \<Rightarrow>
               if c = CHR '','' then map_option (apfst ((#) j)) (read_elems f r')
               else if c = CHR '']'' then Some ([j], r') else None))"
| "read_members 0 s = None"
| "read_members (Suc f) s =
     (case skip_ws s of
        [] \<Rightarrow> None
      | q # r \<Rightarrow>
          if q \<noteq> CHR 0x22 then None
          else (case read_string r of
             None \<Rightarrow> None
           | Some (k, r1) \<Rightarrow>
               if skip_ws r1 = [] \<or> hd (skip_ws r1) \<noteq> CHR '':'' then None
               else (case read_value f (tl (skip_ws r1)) of
                  None \<Rightarrow> None
                | Some (j, r2) \<Rightarrow>
                    (case skip_ws r2 of
                       [] \<Rightarrow> None
                     | c # r' \<Rightarrow>
                         if c = CHR '','' then map_option (apfst ((#) (k, j))) (read_members f r')
                         else if c = CHR ''}'' then Some ([(k, j)], r') else None))))"

subsection \<open>The reader inverts the printer\<close>

definition stops_num :: "string \<Rightarrow> bool" where
  "stops_num r \<longleftrightarrow> (case r of [] \<Rightarrow> True
     | c # _ \<Rightarrow> \<not> is_digit c \<and> c \<noteq> CHR ''.'' \<and> c \<noteq> CHR ''e'' \<and> c \<noteq> CHR ''E'')"

definition num_literal :: "string \<Rightarrow> bool" where
  "num_literal n \<longleftrightarrow> n \<noteq> [] \<and> (is_digit (hd n) \<or> hd n = CHR ''-'') \<and>
     (\<forall>r. stops_num r \<longrightarrow> read_number (n @ r) = Some (n, r))"

fun wf_json :: "json \<Rightarrow> bool"
  and wf_elems :: "json list \<Rightarrow> bool"
  and wf_members :: "(string \<times> json) list \<Rightarrow> bool" where
  "wf_json JNull = True"
| "wf_json (JBool b) = True"
| "wf_json (JNum n) = num_literal n"
| "wf_json (JStr s) = ascii s"
| "wf_json (JArr js) = wf_elems js"
| "wf_json (JObj ms) = wf_members ms"
| "wf_elems [] = True"
| "wf_elems (j # js) = (wf_json j \<and> wf_elems js)"
| "wf_members [] = True"
| "wf_members ((k, j) # ms) = (ascii k \<and> wf_json j \<and> wf_members ms)"

lemma stops_num_simps [simp]:
  "stops_num []" "stops_num (CHR '','' # r)" "stops_num (CHR '']'' # r)" "stops_num (CHR ''}'' # r)"
  by (simp_all add: stops_num_def is_digit_def)

lemma skip_ws_stop: "\<not> is_ws c \<Longrightarrow> skip_ws (c # s) = c # s"
  by (simp add: skip_ws_def)

lemma not_ws [simp]: "\<not> is_ws CHR '',''" "\<not> is_ws CHR '']''" "\<not> is_ws CHR ''}''" "\<not> is_ws CHR '':''"
  "\<not> is_ws CHR 0x22" "\<not> is_ws CHR ''{''" "\<not> is_ws CHR ''[''" "\<not> is_ws CHR ''n''" "\<not> is_ws CHR ''t''"
  "\<not> is_ws CHR ''f''" "\<not> is_ws CHR ''-''"
  by (simp_all add: is_ws_def)

lemma digit_not: "is_digit c \<Longrightarrow> \<not> is_ws c \<and> c \<noteq> CHR '']'' \<and> c \<noteq> CHR ''}'' \<and> c \<noteq> CHR ''{'' \<and> c \<noteq> CHR ''['' \<and>
  c \<noteq> CHR 0x22 \<and> c \<noteq> CHR ''t'' \<and> c \<noteq> CHR ''f'' \<and> c \<noteq> CHR ''n''"
  by (auto simp: is_digit_def is_ws_def)

lemma print_json_head:
  "wf_json j \<Longrightarrow> \<exists>c cs. print_json j = c # cs \<and> \<not> is_ws c \<and> c \<noteq> CHR '']''"
proof (cases j)
  case (JNum n)
  moreover assume "wf_json j"
  ultimately show ?thesis by (cases n) (auto simp: num_literal_def dest: digit_not)
qed (auto simp: quote_string_def)

lemma read_print:
  "wf_json j \<Longrightarrow> length (print_json j) \<le> f \<Longrightarrow> stops_num r \<Longrightarrow>
     read_value f (print_json j @ r) = Some (j, r)"
  "wf_elems js \<Longrightarrow> js \<noteq> [] \<Longrightarrow> length (print_elems js) < f \<Longrightarrow>
     read_elems f (print_elems js @ CHR '']'' # r) = Some (js, r)"
  "wf_members ms \<Longrightarrow> ms \<noteq> [] \<Longrightarrow> length (print_members ms) < f \<Longrightarrow>
     read_members f (print_members ms @ CHR ''}'' # r) = Some (ms, r)"
proof (induction j and js and ms arbitrary: f r and f r and f r
    rule: print_json_print_elems_print_members.induct)
  case 1
  then obtain g where "f = Suc g" by (cases f) auto
  then show ?case by (simp add: skip_ws_stop read_literal_def)
next
  case (2 b)
  then obtain g where "f = Suc g" by (cases f) (auto split: if_splits)
  then show ?case by (simp add: skip_ws_stop read_literal_def)
next
  case (3 n)
  then obtain g where f: "f = Suc g" by (cases f) (auto simp: num_literal_def)
  obtain c cs where n: "n = c # cs" using 3 by (cases n) (auto simp: num_literal_def)
  with 3 have "is_digit c \<or> c = CHR ''-''" "read_number (c # cs @ r) = Some (n, r)"
    by (auto simp: num_literal_def)
  then show ?case using f n digit_not[of c] by (auto simp: skip_ws_stop)
next
  case (4 s)
  then obtain g where f: "f = Suc g" by (cases f) (auto simp: quote_string_def)
  then show ?case using 4 read_string_escape[of s r] by (simp add: quote_string_def skip_ws_stop)
next
  case (5 js)
  then obtain g where f: "f = Suc g" "length (print_elems js) < g" by (cases f) auto
  show ?case
  proof (cases js)
    case Nil
    then show ?thesis using f by (simp add: skip_ws_stop)
  next
    case (Cons j js')
    then obtain c cs where "print_elems js @ CHR '']'' # r = c # cs" "\<not> is_ws c" "c \<noteq> CHR '']''"
      using print_json_head[of j] 5(2) by auto
    moreover have "read_elems g (print_elems js @ CHR '']'' # r) = Some (js, r)"
      using 5 Cons f by simp
    ultimately show ?thesis using f by (simp add: skip_ws_stop)
  qed
next
  case (6 ms)
  then obtain g where f: "f = Suc g" "length (print_members ms) < g" by (cases f) auto
  show ?case
  proof (cases ms)
    case Nil
    then show ?thesis using f by (simp add: skip_ws_stop)
  next
    case (Cons m ms')
    then obtain cs where "print_members ms @ CHR ''}'' # r = CHR 0x22 # cs"
      by (cases m) (simp add: quote_string_def)
    moreover have "read_members g (print_members ms @ CHR ''}'' # r) = Some (ms, r)"
      using 6 Cons f by simp
    ultimately show ?thesis using f by (simp add: skip_ws_stop)
  qed
next
  case (8 j js)
  then obtain g where f: "f = Suc g" by (cases f) auto
  show ?case
  proof (cases "js = []")
    case True
    then show ?thesis using 8 f by (simp add: skip_ws_stop)
  next
    case False
    then have "read_value g (print_json j @ CHR '','' # print_elems js @ CHR '']'' # r) =
        Some (j, CHR '','' # print_elems js @ CHR '']'' # r)"
      using 8 f by simp
    moreover have "read_elems g (print_elems js @ CHR '']'' # r) = Some (js, r)"
      using 8 f False by simp
    ultimately show ?thesis using f False by (simp add: skip_ws_stop)
  qed
next
  case (10 k j ms)
  then obtain g where f: "f = Suc g" by (cases f) auto
  define rest where "rest = (if ms = [] then [] else '','' @ print_members ms) @ CHR ''}'' # r"
  have rs: "read_string (escape k @ CHR 0x22 # CHR '':'' # print_json j @ rest) =
      Some (k, CHR '':'' # print_json j @ rest)"
    using read_string_escape[of k "CHR '':'' # print_json j @ rest"] 10 by simp
  have "stops_num rest" by (simp add: rest_def)
  then have rv: "read_value g (print_json j @ rest) = Some (j, rest)"
    using 10 f by (simp add: quote_string_def)
  have "read_members g (print_members ms @ CHR ''}'' # r) = Some (ms, r)" if "ms \<noteq> []"
    using 10 f that by (simp add: quote_string_def)
  then show ?case
    using rs rv f by (auto simp: rest_def quote_string_def skip_ws_stop)
qed simp_all

subsection \<open>The fuel of the reader\<close>

lemma length_skip_ws: "length (skip_ws s) \<le> length s"
  by (simp add: skip_ws_def length_dropWhile_le)

definition shorter_read :: "string \<Rightarrow> (string \<times> string) option \<Rightarrow> bool" where
  "shorter_read s x \<longleftrightarrow> x = None \<or> (\<exists>r. x = Some ([], r) \<and> length r < length s) \<or>
     (\<exists>g u. length u < length s \<and> x = map_option (apfst g) (read_string u))"

lemma shorter_read_intros:
  "shorter_read s None"
  "length r < length s \<Longrightarrow> shorter_read s (Some ([], r))"
  "length u < length s \<Longrightarrow> shorter_read s (map_option (apfst g) (read_string u))"
  by (auto simp: shorter_read_def)

lemma read_string_step: "shorter_read s (read_string s)"
proof (cases s)
  case Nil
  then show ?thesis by (simp add: read_string.simps shorter_read_intros)
next
  case (Cons c r)
  obtain rr k where d: "DecodeRune s = (rr, k)" by (cases "DecodeRune s")
  then have k: "length s - k < length s" using DecodeRune_shorter[of rr k c r] Cons by simp
  show ?thesis
    apply (subst read_string.simps)
    using k
    by (simp add: Cons d[unfolded Cons] shorter_read_intros split: option.split list.split if_split)
qed

lemma read_string_shorter: "read_string s = Some (t, r) \<Longrightarrow> length r < length s"
proof (induction "length s" arbitrary: s t rule: less_induct)
  case less
  from read_string_step[of s] less(2)
  consider "length r < length s"
    | g u where "length u < length s" "Some (t, r) = map_option (apfst g) (read_string u)"
    unfolding shorter_read_def by auto
  then show ?case
  proof cases
    case (2 g u)
    then obtain t' where "read_string u = Some (t', r)" by (cases "read_string u") auto
    with less(1) 2(1) show ?thesis by force
  qed
qed
lemma digits1_shorter: "digits1 s = Some (t, r) \<Longrightarrow> length r < length s"
  by (cases s) (auto simp: digits1_def length_dropWhile_le less_Suc_eq_le split: if_splits list.splits)

lemma read_number_shorter: "read_number s = Some (t, r) \<Longrightarrow> length r < length s"
proof -
  have i: "read_int_part s = Some (t, r) \<Longrightarrow> length r < length s" for s t r
    by (auto simp: read_int_part_def dest: digits1_shorter split: list.splits if_splits)
  have f: "read_fraction s = Some (t, r) \<Longrightarrow> length r \<le> length s" for s t r
    by (auto simp: read_fraction_def dest: digits1_shorter split: list.splits if_splits)
  have e: "read_exponent s = Some (t, r) \<Longrightarrow> length r \<le> length s" for s t r
    by (auto simp: read_exponent_def dest: digits1_shorter split: list.splits if_splits)
  assume "read_number s = Some (t, r)"
  then show ?thesis
    by (fastforce simp: read_number_def dest!: i f e split: if_splits option.splits prod.splits)
qed

lemma read_literal_shorter: "read_literal w j s = Some (j', r) \<Longrightarrow> w \<noteq> [] \<Longrightarrow> length r < length s"
  by (cases s; cases w) (auto simp: read_literal_def split: if_splits)

lemma skip_ws_Cons: "skip_ws s = c # r \<Longrightarrow> length r < length s"
  using length_skip_ws[of s] by simp

lemma length_tl_skip_ws: "skip_ws s \<noteq> [] \<Longrightarrow> length (tl (skip_ws s)) < length s"
  by (cases "skip_ws s") (auto dest: skip_ws_Cons)

lemma read_shorter:
  "(\<forall>s j r. read_value f s = Some (j, r) \<longrightarrow> length r < length s) \<and>
   (\<forall>s js r. read_elems f s = Some (js, r) \<longrightarrow> length r < length s) \<and>
   (\<forall>s ms r. read_members f s = Some (ms, r) \<longrightarrow> length r < length s)"
proof (induction f)
  case (Suc f)
  have v: "length r < length s" if rv: "read_value (Suc f) s = Some (j, r)" for s j r
  proof -
    obtain c u where u: "skip_ws s = c # u" using rv by (cases "skip_ws s") auto
    note l = skip_ws_Cons[OF u] length_skip_ws[of s]
    have "length r < length (c # u)"
      using rv u Suc length_tl_skip_ws[of u]
      by (fastforce split: if_splits dest: read_string_shorter read_literal_shorter read_number_shorter)
    with l u show ?thesis by simp
  qed
  have e: "length r < length s" if "read_elems (Suc f) s = Some (js, r)" for s js r
    using that Suc by (fastforce split: option.splits list.splits if_splits dest: skip_ws_Cons)
  have m: "length r < length s" if m: "read_members (Suc f) s = Some (ms, r)" for s ms r
  proof -
    from m obtain c u k r1 j r2 d r3 where *: "skip_ws s = c # u" "read_string u = Some (k, r1)"
      "skip_ws r1 \<noteq> []" "read_value f (tl (skip_ws r1)) = Some (j, r2)" "skip_ws r2 = d # r3"
      and r: "r = r3 \<or> (\<exists>ms'. read_members f r3 = Some (ms', r))"
      by (auto split: option.splits list.splits if_splits)
    have "length r2 < length (tl (skip_ws r1))" "length r \<le> length r3"
      using Suc *(4) r by (blast, auto simp: le_less)
    with skip_ws_Cons[OF *(1)] read_string_shorter[OF *(2)] length_tl_skip_ws[OF *(3)]
      skip_ws_Cons[OF *(5)] show ?thesis by linarith
  qed
  show ?case using v e m by blast
qed simp

lemma read_fuel_Suc:
  "(\<forall>s. 2 * length s < f \<longrightarrow> read_value (Suc f) s = read_value f s) \<and>
   (\<forall>s. 2 * length s + 1 < f \<longrightarrow> read_elems (Suc f) s = read_elems f s) \<and>
   (\<forall>s. 2 * length s + 1 < f \<longrightarrow> read_members (Suc f) s = read_members f s)"
proof (induction f)
  case (Suc f)
  have v: "read_value (Suc (Suc f)) s = read_value (Suc f) s" if "2 * length s < Suc f" for s
  proof (cases "skip_ws s")
    case (Cons c u)
    then have "2 * length u + 1 < f" using skip_ws_Cons[of s c u] that by simp
    then have "read_elems (Suc f) u = read_elems f u" "read_members (Suc f) u = read_members f u"
      using Suc by auto
    with Cons show ?thesis by (simp only: read_value.simps list.case)
  qed simp
  have e: "read_elems (Suc (Suc f)) s = read_elems (Suc f) s" if "2 * length s + 1 < Suc f" for s
  proof -
    have 1: "read_value (Suc f) s = read_value f s" using Suc that by simp
    have 2: "read_elems (Suc f) r' = read_elems f r'"
      if "read_value f s = Some (j, r)" "skip_ws r = c # r'" for j r c r'
    proof -
      have "length r < length s" "length r' < length r"
        using that read_shorter[of f] skip_ws_Cons by blast+
      then show ?thesis using Suc \<open>2 * length s + 1 < Suc f\<close> by simp
    qed
    show ?thesis
      unfolding read_elems.simps(2)[of "Suc f" s] read_elems.simps(2)[of f s] 1
      by (auto split: option.split list.split simp: 2 simp del: read_elems.simps)
  qed
  have m: "read_members (Suc (Suc f)) s = read_members (Suc f) s" if "2 * length s + 1 < Suc f" for s
  proof -
    have 1: "read_value (Suc f) (tl (skip_ws r1)) = read_value f (tl (skip_ws r1))"
      if "skip_ws s = c # u" "read_string u = Some (k, r1)" for c u k r1
    proof -
      have "length (tl (skip_ws r1)) < length s"
        using skip_ws_Cons[OF that(1)] read_string_shorter[OF that(2)] length_skip_ws[of r1] by simp
      then show ?thesis using Suc \<open>2 * length s + 1 < Suc f\<close> by simp
    qed
    have 2: "read_members (Suc f) r' = read_members f r'"
      if "skip_ws s = c # u" "read_string u = Some (k, r1)"
        "read_value f (tl (skip_ws r1)) = Some (j, r2)" "skip_ws r2 = d # r'" for c u k r1 j r2 d r'
    proof -
      have "length r2 < length (tl (skip_ws r1))" using that(3) read_shorter[of f] by blast
      then have "length r' < length s"
        using skip_ws_Cons[OF that(1)] read_string_shorter[OF that(2)] length_skip_ws[of r1]
          skip_ws_Cons[OF that(4)] by simp
      then show ?thesis using Suc \<open>2 * length s + 1 < Suc f\<close> by simp
    qed
    show ?thesis
      unfolding read_members.simps(2)[of "Suc f" s] read_members.simps(2)[of f s]
      by (auto split: option.split list.split simp: 1 2 simp del: read_members.simps read_value.simps)
  qed
  show ?case using v e m by blast
qed simp

lemma read_fuel: "2 * length s < f \<Longrightarrow> read_value f s = read_value (Suc (2 * length s)) s"
proof (induction f)
  case (Suc f)
  then show ?case using read_fuel_Suc[of f] by (cases "2 * length s = f") auto
qed simp

subsection \<open>Reading a whole text and reading the first value of a stream\<close>

definition str :: "bytes \<Rightarrow> string" where
  "str b = map (\<lambda>x. char_of (unat x)) b"

definition unstr :: "string \<Rightarrow> bytes" where
  "unstr s = map (\<lambda>c. of_nat (of_char c)) s"

definition parse_json :: "string \<Rightarrow> json option" where
  "parse_json s = (case read_value (Suc (2 * length s)) s of
       Some (j, r) \<Rightarrow> if skip_ws r = [] then Some j else None
     | None \<Rightarrow> None)"

definition first_json :: "string \<Rightarrow> json option" where
  "first_json s = map_option fst (read_value (Suc (2 * length s)) s)"

lemma str_unstr [simp]: "str (unstr s) = s"
proof -
  have "char_of (unat (of_nat (of_char c) :: byte)) = c" for c
  proof -
    have "(of_char c :: nat) < 2 ^ 8" by simp
    then have "unat (of_nat (of_char c) :: byte) = of_char c" by (simp add: unat_of_nat take_bit_nat_eq_self_iff)
    then show ?thesis by simp
  qed
  then show ?thesis by (simp add: str_def unstr_def map_idI)
qed

lemma unstr_str [simp]: "unstr (str b) = b"
proof -
  have "of_nat (of_char (char_of (unat (x :: byte)) :: char)) = x" for x
    using unat_byte_less[of x] by (simp add: of_char_of take_bit_eq_mod)
  then show ?thesis by (simp add: str_def unstr_def map_idI)
qed

lemma length_str [simp]: "length (str b) = length b" "length (unstr s) = length s"
  by (simp_all add: str_def unstr_def)

lemma parse_print: "wf_json j \<Longrightarrow> parse_json (print_json j) = Some j"
  using read_print(1)[of j "Suc (2 * length (print_json j))" "[]"] by (simp add: parse_json_def skip_ws_def)

lemma first_print: "wf_json j \<Longrightarrow> stops_num r \<Longrightarrow> first_json (print_json j @ r) = Some j"
  using read_print(1)[of j "Suc (2 * length (print_json j @ r))" r] by (simp add: first_json_def)

subsection \<open>Storing a document into a struct\<close>

text \<open>
  A store function puts a document into a Go variable; the error it reports
  does not stop the decoding, and of several errors the first is returned.
\<close>

type_synonym 's store = "json \<Rightarrow> 's \<Rightarrow> gerror option \<times> 's"

definition first_error :: "gerror option \<Rightarrow> gerror option \<Rightarrow> gerror option" where
  "first_error e e' = (if e = None then e' else e)"

fun kind :: "json \<Rightarrow> string" where
  "kind JNull = ''null''"
| "kind (JBool b) = ''bool''"
| "kind (JNum n) = ''number''"
| "kind (JStr s) = ''string''"
| "kind (JArr js) = ''array''"
| "kind (JObj ms) = ''object''"

definition store_string :: "(string \<Rightarrow> 's \<Rightarrow> 's) \<Rightarrow> 's store" where
  "store_string upd j s = (case j of
       JNull \<Rightarrow> (None, s)
     | JStr v \<Rightarrow> (None, upd v s)
     | _ \<Rightarrow> (Some (JSONTypeError (kind j) ''string''), s))"

definition decimal :: "string \<Rightarrow> nat" where
  "decimal = foldl (\<lambda>n c. n * 10 + nat (digit_val c)) 0"

definition ParseUint :: "string \<Rightarrow> uint option" where
  "ParseUint s = (if s \<noteq> [] \<and> list_all is_digit s \<and> decimal s < 2 ^ 64 then Some (of_nat (decimal s)) else None)"

definition ParseInt :: "string \<Rightarrow> int option" where
  "ParseInt s =
     (let neg = (s \<noteq> [] \<and> hd s = CHR ''-'');
          ds = (if s \<noteq> [] \<and> (hd s = CHR ''-'' \<or> hd s = CHR ''+'') then tl s else s);
          v = (if neg then - int (decimal ds) else int (decimal ds))
      in if ds \<noteq> [] \<and> list_all is_digit ds \<and> - (2 ^ 63) \<le> v \<and> v < 2 ^ 63 then Some v else None)"

definition store_uint :: "(uint \<Rightarrow> 's \<Rightarrow> 's) \<Rightarrow> 's store" where
  "store_uint upd j s = (case j of
       JNull \<Rightarrow> (None, s)
     | JNum n \<Rightarrow> (case ParseUint n of
           Some v \<Rightarrow> (None, upd v s)
         | None \<Rightarrow> (Some (JSONTypeError (''number '' @ n) ''uint''), s))
     | _ \<Rightarrow> (Some (JSONTypeError (kind j) ''uint''), s))"

definition store_int :: "(int \<Rightarrow> 's \<Rightarrow> 's) \<Rightarrow> 's store" where
  "store_int upd j s = (case j of
       JNull \<Rightarrow> (None, s)
     | JNum n \<Rightarrow> (case ParseInt n of
           Some v \<Rightarrow> (None, upd v s)
         | None \<Rightarrow> (Some (JSONTypeError (''number '' @ n) ''int''), s))
     | _ \<Rightarrow> (Some (JSONTypeError (kind j) ''int''), s))"

text \<open>
  A key of the document names the field of that name, or else the first field
  equal to it up to case; the two characters outside ASCII that fold to a
  letter are U+017F and U+212A.
\<close>

definition lower :: "char \<Rightarrow> char" where
  "lower c = (if 65 \<le> code c \<and> code c \<le> 90 then char_of (code c + 32) else c)"

fun fold_key :: "string \<Rightarrow> string" where
  "fold_key (a # b # c # s) =
     (if a = CHR 0xC5 \<and> b = CHR 0xBF then CHR ''s'' # fold_key (c # s)
      else if a = CHR 0xE2 \<and> b = CHR 0x84 \<and> c = CHR 0xAA then CHR ''k'' # fold_key s
      else lower a # fold_key (b # c # s))"
| "fold_key [a, b] = (if a = CHR 0xC5 \<and> b = CHR 0xBF then ''s'' else [lower a, lower b])"
| "fold_key [a] = [lower a]"
| "fold_key [] = []"

definition find_field :: "(string \<times> 'f) list \<Rightarrow> string \<Rightarrow> 'f option" where
  "find_field fs k = (case find (\<lambda>(n, _). n = k) fs of
       Some (_, f) \<Rightarrow> Some f
     | None \<Rightarrow> map_option snd (find (\<lambda>(n, _). fold_key n = fold_key k) fs))"

fun store_members :: "(string \<times> 's store) list \<Rightarrow> (string \<times> json) list \<Rightarrow> 's \<Rightarrow> gerror option \<times> 's" where
  "store_members fs [] s = (None, s)"
| "store_members fs ((k, j) # ms) s =
     (case find_field fs k of
        None \<Rightarrow> store_members fs ms s
      | Some f \<Rightarrow>
          (let (e, s') = f j s; (e', s'') = store_members fs ms s' in (first_error e e', s'')))"

definition store_struct :: "string \<Rightarrow> (string \<times> 's store) list \<Rightarrow> 's store" where
  "store_struct ty fs j s = (case j of
       JNull \<Rightarrow> (None, s)
     | JObj ms \<Rightarrow> store_members fs ms s
     | _ \<Rightarrow> (Some (JSONTypeError (kind j) ty), s))"

fun store_elems :: "'e \<Rightarrow> 'e store \<Rightarrow> json list \<Rightarrow> gerror option \<times> 'e list" where
  "store_elems z st [] = (None, [])"
| "store_elems z st (j # js) =
     (let (e, x) = st j z; (e', xs) = store_elems z st js in (first_error e e', x # xs))"

text \<open>A nil slice of elements whose zero value is \<open>z\<close>.\<close>

definition store_slice :: "string \<Rightarrow> 'e \<Rightarrow> 'e store \<Rightarrow> json \<Rightarrow> gerror option \<times> 'e list" where
  "store_slice ty z st j = (case j of
       JNull \<Rightarrow> (None, [])
     | JArr js \<Rightarrow> store_elems z st js
     | _ \<Rightarrow> (Some (JSONTypeError (kind j) ty), []))"

definition Unmarshal :: "'s store \<Rightarrow> string \<Rightarrow> 's \<Rightarrow> gerror option \<times> 's" where
  "Unmarshal st text s = (case parse_json text of None \<Rightarrow> (Some JSONSyntaxError, s) | Some j \<Rightarrow> st j s)"

definition Decode :: "'s store \<Rightarrow> string \<Rightarrow> 's \<Rightarrow> gerror option \<times> 's" where
  "Decode st text s = (case first_json text of None \<Rightarrow> (Some JSONSyntaxError, s) | Some j \<Rightarrow> st j s)"

subsection \<open>Numbers survive printing and reading\<close>

lemma list_all_is_digit_itod: "list_all is_digit (itod n)"
proof (induction n rule: itod.induct)
  case (1 n)
  then show ?case by (subst itod.simps) (simp add: list_all_append)
qed

lemma decimal_snoc: "decimal (s @ [c]) = decimal s * 10 + nat (digit_val c)"
  by (simp add: decimal_def)

lemma decimal_itod [simp]: "decimal (itod n) = n"
proof (induction n rule: itod.induct)
  case (1 n)
  show ?case
  proof (cases "n < 10")
    case True
    then show ?thesis by (subst itod.simps) (simp add: decimal_def)
  next
    case False
    then show ?thesis using 1 by (subst itod.simps) (simp add: decimal_snoc)
  qed
qed

lemma ParseUint_itod: "ParseUint (itod (unat u)) = Some u"
  using unsigned_less[of u] by (simp add: ParseUint_def list_all_is_digit_itod)

lemma is_digit_sign [simp]: "\<not> is_digit CHR ''-''" "\<not> is_digit CHR ''+''"
  by (simp_all add: is_digit_def)

lemma ParseInt_itod: "n < 2 ^ 63 \<Longrightarrow> ParseInt (itod n) = Some (int n)"
proof -
  assume n: "n < 2 ^ 63"
  obtain c cs where c: "itod n = c # cs" "is_digit c" using itod_Cons by blast
  then have s: "c \<noteq> CHR ''-''" "c \<noteq> CHR ''+''" by auto
  have "list_all is_digit (c # cs)" "decimal (c # cs) = n"
    using list_all_is_digit_itod[of n] decimal_itod[of n] unfolding c by auto
  moreover have "int n < 2 ^ 63" using n by (metis of_nat_less_iff of_nat_numeral of_nat_power)
  ultimately show ?thesis using s by (simp add: ParseInt_def c)
qed

lemma itod_zero: "n \<noteq> 0 \<Longrightarrow> hd (itod n) \<noteq> CHR ''0''"
proof (induction n rule: itod.induct)
  case (1 n)
  show ?case
  proof (cases "n < 10")
    case True
    then have "(of_char (digit_char n) :: int) \<noteq> of_char (CHR ''0'')"
      using of_char_digit_char[of n] 1 by simp
    then have "digit_char n \<noteq> CHR ''0''" by metis
    then show ?thesis using True by (subst itod.simps) simp
  next
    case False
    then show ?thesis using 1 by (subst itod.simps) simp
  qed
qed

lemma num_literal_itod: "num_literal (itod n)"
proof -
  obtain c cs where c: "itod n = c # cs" "is_digit c" using itod_Cons by blast
  have all: "list_all is_digit (c # cs)" using list_all_is_digit_itod[of n] c by simp
  have s: "c \<noteq> CHR ''-''" using c(2) by auto
  have "read_number (c # cs @ r) = Some (c # cs, r)" if r: "stops_num r" for r
  proof -
    have stop: "r = [] \<or> \<not> is_digit (hd r)" "read_fraction r = Some ([], r)" "read_exponent r = Some ([], r)"
      using r by (auto simp: stops_num_def read_fraction_def read_exponent_def split: list.splits)
    have tw: "takeWhile is_digit (cs @ r) = cs" "dropWhile is_digit (cs @ r) = r"
      using all stop(1) by (induction cs) (auto, (cases r; simp)+)
    have "read_int_part (c # cs @ r) = Some (c # cs, r)"
    proof (cases "c = CHR ''0''")
      case True
      then have "n = 0" using itod_zero[of n] c by auto
      then have "cs = []" using c by (simp add: itod.simps)
      then show ?thesis using True by (simp add: read_int_part_def)
    next
      case False
      then show ?thesis using c(2) tw by (simp add: read_int_part_def digits1_def)
    qed
    then show ?thesis using s stop by (simp add: read_number_def)
  qed
  then show ?thesis using c by (simp add: num_literal_def)
qed

end
