(* ===== verification/Base64.thy ===== *)
theory Base64
  imports GoJson
begin

section \<open>Go's base64.StdEncoding\<close>

text \<open>
  Consul prints the values of its entries in base64 and the client in ecc.go
  reads them back.  \<open>encode64\<close> is \<open>EncodeToString\<close>; \<open>decode64\<close> is
  \<open>DecodeString\<close>, which returns what it decoded up to the first error and
  whether there was none.
\<close>

definition b64_char :: "nat \<Rightarrow> char" where
  "b64_char n =
     (if n < 26 then char_of (65 + n)
      else if n < 52 then char_of (97 + (n - 26))
      else if n < 62 then char_of (48 + (n - 52))
      else if n = 62 then CHR ''+'' else CHR ''/'')"

definition b64_val :: "char \<Rightarrow> nat option" where
  "b64_val c = (let k = code c in
     if 65 \<le> k \<and> k \<le> 90 then Some (k - 65)
     else if 97 \<le> k \<and> k \<le> 122 then Some (k - 97 + 26)
     else if 48 \<le> k \<and> k \<le> 57 then Some (k - 48 + 52)
     else if k = 43 then Some 62
     else if k = 47 then Some 63
     else None)"

fun encode64 :: "bytes \<Rightarrow> string" where
  "encode64 [] = []"
| "encode64 [a] =
     [b64_char (unat a div 4), b64_char (unat a mod 4 * 16), CHR ''='', CHR ''='']"
| "encode64 [a, b] =
     [b64_char (unat a div 4), b64_char (unat a mod 4 * 16 + unat b div 16),
      b64_char (unat b mod 16 * 4), CHR ''='']"
| "encode64 (a # b # c # r) =
     [b64_char (unat a div 4), b64_char (unat a mod 4 * 16 + unat b div 16),
      b64_char (unat b mod 16 * 4 + unat c div 64), b64_char (unat c mod 64)] @ encode64 r"

fun decode64_quanta :: "string \<Rightarrow> bytes \<times> bool" where
  "decode64_quanta [] = ([], True)"
| "decode64_quanta (c0 # c1 # c2 # c3 # r) =
     (case (b64_val c0, b64_val c1) of
        (Some v0, Some v1) \<Rightarrow>
          (let b0 = of_nat (v0 * 4 + v1 div 16) in
           if c2 = CHR ''='' then (if c3 = CHR ''='' then ([b0], r = []) else ([], False))
           else (case b64_val c2 of
               None \<Rightarrow> ([], False)
             | Some v2 \<Rightarrow>
                 (let b1 = of_nat (v1 mod 16 * 16 + v2 div 4) in
                  if c3 = CHR ''='' then ([b0, b1], r = [])
                  else (case b64_val c3 of
                      None \<Rightarrow> ([], False)
                    | Some v3 \<Rightarrow>
                        (let (bs, ok) = decode64_quanta r
                         in (b0 # b1 # of_nat (v2 mod 4 * 64 + v3) # bs, ok))))))
      | _ \<Rightarrow> ([], False))"
| "decode64_quanta _ = ([], False)"

definition decode64 :: "string \<Rightarrow> bytes \<times> bool" where
  "decode64 s = decode64_quanta (filter (\<lambda>c. c \<noteq> CHR 0x0D \<and> c \<noteq> CHR 0x0A) s)"

lemma code_char_of: "k < 256 \<Longrightarrow> code (char_of k) = k"
  by (simp add: code_def of_char_of take_bit_eq_mod)

lemma b64_val_char: "n < 64 \<Longrightarrow> b64_val (b64_char n) = Some n"
proof -
  assume n: "n < 64"
  consider "n < 26" | "26 \<le> n" "n < 52" | "52 \<le> n" "n < 62" | "n = 62" | "n = 63" using n by linarith
  then show ?thesis
  proof cases
    case 3
    then have "code (b64_char n) = n - 4" by (simp add: b64_char_def code_char_of)
    then show ?thesis using 3 by (simp add: b64_val_def Let_def; linarith)
  qed (simp_all add: b64_val_def b64_char_def Let_def code_char_of, simp_all add: code_def)
qed

lemma b64_char_plain: "n < 64 \<Longrightarrow> b64_char n \<noteq> CHR ''='' \<and> b64_char n \<noteq> CHR 0x0D \<and> b64_char n \<noteq> CHR 0x0A \<and> code (b64_char n) < 0x80"
proof -
  assume n: "n < 64"
  have "b64_val CHR ''='' = None" "b64_val CHR 0x0D = None" "b64_val CHR 0x0A = None"
    by (simp_all add: b64_val_def code_def)
  moreover have "b64_val c = Some n \<Longrightarrow> code c < 0x80" for c by (auto simp: b64_val_def Let_def split: if_splits)
  ultimately show ?thesis using b64_val_char[OF n] by auto
qed

lemma sextets:
  fixes a b c :: byte
  shows "unat a div 4 < 64" "unat a mod 4 * 16 < 64" "unat a mod 4 * 16 + unat b div 16 < 64"
    "unat b mod 16 * 4 < 64" "unat b mod 16 * 4 + unat c div 64 < 64" "unat c mod 64 < 64"
  using unat_byte_less[of a] unat_byte_less[of b] unat_byte_less[of c] by linarith+

lemma octets:
  fixes a b c :: byte
  shows "unat a div 4 * 4 + unat a mod 4 * 16 div 16 = unat a"
    "unat a div 4 * 4 + (unat a mod 4 * 16 + unat b div 16) div 16 = unat a"
    "(unat a mod 4 * 16 + unat b div 16) mod 16 * 16 + unat b mod 16 * 4 div 4 = unat b"
    "(unat a mod 4 * 16 + unat b div 16) mod 16 * 16 + (unat b mod 16 * 4 + unat c div 64) div 4 = unat b"
    "(unat b mod 16 * 4 + unat c div 64) mod 4 * 64 + unat c mod 64 = unat c"
proof -
  have d: "unat b div 16 < 16" "unat c div 64 < 4"
    using unat_byte_less[of b] unat_byte_less[of c] by linarith+
  show "unat a div 4 * 4 + unat a mod 4 * 16 div 16 = unat a" by simp
  show "unat a div 4 * 4 + (unat a mod 4 * 16 + unat b div 16) div 16 = unat a" using d by simp
  show "(unat a mod 4 * 16 + unat b div 16) mod 16 * 16 + unat b mod 16 * 4 div 4 = unat b" using d by simp
  show "(unat a mod 4 * 16 + unat b div 16) mod 16 * 16 + (unat b mod 16 * 4 + unat c div 64) div 4 = unat b"
    using d by simp
  show "(unat b mod 16 * 4 + unat c div 64) mod 4 * 64 + unat c mod 64 = unat c" using d by simp
qed

lemma word_octets:
  fixes a b c :: byte
  shows "of_nat (unat a div 4 * 4 + unat a mod 4 * 16 div 16) = a"
    "of_nat (unat a div 4 * 4 + (unat a mod 4 * 16 + unat b div 16) div 16) = a"
    "of_nat ((unat a mod 4 * 16 + unat b div 16) mod 16 * 16 + unat b mod 16 * 4 div 4) = b"
    "of_nat ((unat a mod 4 * 16 + unat b div 16) mod 16 * 16 + (unat b mod 16 * 4 + unat c div 64) div 4) = b"
    "of_nat ((unat b mod 16 * 4 + unat c div 64) mod 4 * 64 + unat c mod 64) = c"
  unfolding octets by simp_all

lemma decode_quanta_encode: "decode64_quanta (encode64 b) = (b, True)"
proof (induction b rule: encode64.induct)
  case (2 a)
  show ?case
    by (simp only: encode64.simps decode64_quanta.simps b64_val_char sextets b64_char_plain
      option.case prod.case Let_def if_True if_False simp_thms word_octets)
next
  case (3 a b)
  show ?case
    by (simp only: encode64.simps decode64_quanta.simps b64_val_char sextets b64_char_plain
      option.case prod.case Let_def if_True if_False simp_thms word_octets)
next
  case (4 a b c r)
  show ?case
    by (simp only: encode64.simps append.simps decode64_quanta.simps b64_val_char sextets b64_char_plain
      option.case prod.case Let_def if_True if_False simp_thms word_octets 4)
qed simp

lemma encode64_plain: "c \<in> set (encode64 b) \<Longrightarrow> c \<noteq> CHR 0x0D \<and> c \<noteq> CHR 0x0A \<and> code c < 0x80"
proof (induction b rule: encode64.induct)
  case (2 a)
  then show ?case using b64_char_plain[OF sextets(1)[of a]] b64_char_plain[OF sextets(2)[of a]]
    by (auto simp: code_def)
next
  case (3 a b)
  then show ?case
    using b64_char_plain[OF sextets(1)[of a]] b64_char_plain[OF sextets(3)[of a b]] b64_char_plain[OF sextets(4)[of b]]
    by (auto simp: code_def)
next
  case (4 a b c' r)
  then show ?case
    using b64_char_plain[OF sextets(1)[of a]] b64_char_plain[OF sextets(3)[of a b]]
      b64_char_plain[OF sextets(5)[of b c']] b64_char_plain[OF sextets(6)[of c']]
    by auto
qed simp

lemma ascii_encode64: "ascii (encode64 b)"
  by (auto simp: ascii_def dest: encode64_plain)

lemma decode_encode64: "decode64 (encode64 b) = (b, True)"
proof -
  have "filter (\<lambda>c. c \<noteq> CHR 0x0D \<and> c \<noteq> CHR 0x0A) (encode64 b) = encode64 b"
    by (rule filter_True) (use encode64_plain in blast)
  then show ?thesis by (simp add: decode64_def decode_quanta_encode)
qed

end
