(* ===== verification/Ecc.thy ===== *)
theory Ecc
  imports Base64 "HOL-Library.AList"
begin

section \<open>The embedded Consul client (socketplane/ecc)\<close>

text \<open>
  The key-value operations of ecc.go: \<open>Get\<close>, \<open>GetAll\<close>, \<open>Put\<close> and
  \<open>Delete\<close> against the Consul agent of the host, and the local cache that
  stands in for it until the node has joined a cluster.

  The HTTP exchange is the function \<open>http\<close> of the environment: method, URL
  and body to the status and body of the response, or \<open>None\<close> when the
  exchange fails.  The order in which Go ranges over a map is the function
  \<open>range_order\<close>.  The package variables are the record \<open>ecc_state\<close>, with
  the outside world as its first field.

  A slice that \<open>Get\<close> returns from the cache is the cached slice itself, so a
  caller that writes its elements writes the cache; the callers of the model say
  so with \<open>write_through\<close>.

  The locale \<open>kv_service\<close> is what the client relies on of the agent, and
  carries the facts about the operations on a node that is online.  The locale
  \<open>datastore\<close> is what the rest of the daemon relies on; it is interpreted for
  the cache here, and for the agent in \<open>Consul\<close>.
\<close>

subsection \<open>URLs\<close>

definition CONSUL_KV_BASE_URL :: string where
  "CONSUL_KV_BASE_URL = ''http://localhost:8500/v1/kv/''"

text \<open>\<open>%d\<close> of an \<open>int\<close>.\<close>

definition fmt_d :: "int \<Rightarrow> string" where
  "fmt_d i = (if i < 0 then CHR ''-'' # itod (nat (- i)) else itod (nat i))"

text \<open>
  \<open>url.Parse\<close> refuses a path or fragment with a percent sign that is not
  followed by two hexadecimal digits.
\<close>

fun escapes_ok :: "string \<Rightarrow> bool" where
  "escapes_ok [] = True"
| "escapes_ok (c # s) =
     (if c = CHR ''%'' then
        (case s of a # b # r \<Rightarrow> hex_val a \<noteq> None \<and> hex_val b \<noteq> None \<and> escapes_ok r | _ \<Rightarrow> False)
      else escapes_ok s)"

definition url_ok :: "string \<Rightarrow> bool" where
  "url_ok u =
     (let front = takeWhile (\<lambda>c. c \<noteq> CHR ''#'') u; frag = dropWhile (\<lambda>c. c \<noteq> CHR ''#'') u
      in escapes_ok (takeWhile (\<lambda>c. c \<noteq> CHR ''?'') front) \<and> escapes_ok frag)"

subsection \<open>State and environment\<close>

record 'w http_env =
  http :: "string \<Rightarrow> string \<Rightarrow> bytes \<Rightarrow> 'w \<Rightarrow> (int \<times> bytes) option \<times> 'w"
  range_order :: "string list \<Rightarrow> string list"

type_synonym kv_cache = "(string \<times> (string \<times> bytes) list) list"

record 'w ecc_state =
  world :: 'w
  started :: bool
  OfflineSupport :: bool
  ecc_cache :: kv_cache
  spawned :: "(string \<times> string \<times> bytes) list"   \<comment> \<open>goroutines \<open>Put(store, key, val, nil)\<close> that have not run yet\<close>

definition offline :: "('w, 'z) ecc_state_scheme \<Rightarrow> bool" where
  "offline s \<longleftrightarrow> OfflineSupport s \<and> \<not> started s"

definition HasStarted :: "('w, 'z) ecc_state_scheme \<Rightarrow> bool" where
  "HasStarted s = started s"

definition http_do :: "('w, 'x) http_env_scheme \<Rightarrow> string \<Rightarrow> string \<Rightarrow> bytes \<Rightarrow>
    (('w, 'z) ecc_state_scheme, (int \<times> bytes) option) comp" where
  "http_do E method url body =
     (\<lambda>s. let (r, w) = http E method url body (world s) in (Ret r, s\<lparr>world := w\<rparr>))"

text \<open>\<open>http.Get\<close> returns an error for a URL that does not parse.\<close>

definition http_Get :: "('w, 'x) http_env_scheme \<Rightarrow> string \<Rightarrow>
    (('w, 'z) ecc_state_scheme, (int \<times> bytes) option) comp" where
  "http_Get E url = (if url_ok url then http_do E ''GET'' url [] else retM None)"

text \<open>
  \<open>client.Do\<close> of the request \<open>http.NewRequest\<close> made; the error of the
  latter is dropped, and the request is \<open>nil\<close> then.
\<close>

definition client_Do :: "('w, 'x) http_env_scheme \<Rightarrow> string \<Rightarrow> string \<Rightarrow> bytes \<Rightarrow>
    (('w, 'z) ecc_state_scheme, (int \<times> bytes) option) comp" where
  "client_Do E method url body = (if url_ok url then http_do E method url body else liftO nil_panic)"

subsection \<open>Consul's entries as JSON\<close>

record consulBody =
  cb_CreateIndex :: int
  cb_ModifyIndex :: int
  cb_Key :: string
  cb_Flags :: int
  cb_Value :: string

definition consulBody_zero :: consulBody where
  "consulBody_zero = \<lparr>cb_CreateIndex = 0, cb_ModifyIndex = 0, cb_Key = [], cb_Flags = 0, cb_Value = []\<rparr>"

definition consulBody_store :: "consulBody store" where
  "consulBody_store = store_struct ''ecc.consulBody''
     [(''CreateIndex'', store_int (\<lambda>v b. b\<lparr>cb_CreateIndex := v\<rparr>)),
      (''ModifyIndex'', store_int (\<lambda>v b. b\<lparr>cb_ModifyIndex := v\<rparr>)),
      (''Key'', store_string (\<lambda>v b. b\<lparr>cb_Key := v\<rparr>)),
      (''Flags'', store_int (\<lambda>v b. b\<lparr>cb_Flags := v\<rparr>)),
      (''Value'', store_string (\<lambda>v b. b\<lparr>cb_Value := v\<rparr>))]"

text \<open>
  \<open>json.Unmarshal(body, &jsonBody)\<close>, whose error all callers drop: a text that
  is not JSON leaves the slice \<open>nil\<close>.
\<close>

definition unmarshal_bodies :: "bytes \<Rightarrow> consulBody list" where
  "unmarshal_bodies body = (case parse_json (str body) of
       None \<Rightarrow> []
     | Some j \<Rightarrow> snd (store_slice ''[]ecc.consulBody'' consulBody_zero consulBody_store j))"

subsection \<open>The cache\<close>

definition getAllFromCache :: "('w, 'x) http_env_scheme \<Rightarrow> string \<Rightarrow> kv_cache \<Rightarrow> bytes list \<times> int list \<times> bool" where
  "getAllFromCache E storeName c = (case map_of c storeName of
       None \<Rightarrow> ([], [], False)
     | Some st \<Rightarrow> (List.map_filter (map_of st) (range_order E (map fst st)), [], True))"

definition getFromCache :: "string \<Rightarrow> string \<Rightarrow> kv_cache \<Rightarrow> bytes \<times> int \<times> bool" where
  "getFromCache storeName key c = (case map_of c storeName of
       None \<Rightarrow> ([], 0, False)
     | Some st \<Rightarrow> (case map_of st key of None \<Rightarrow> ([], 0, False) | Some v \<Rightarrow> (v, 0, True)))"

definition putInCache :: "string \<Rightarrow> string \<Rightarrow> bytes \<Rightarrow> kv_cache \<Rightarrow> kv_cache" where
  "putInCache storeName key value c =
     (let st = (case map_of c storeName of None \<Rightarrow> [] | Some st \<Rightarrow> st)
      in AList.update storeName (AList.update key value st) c)"

definition deleteFromCache :: "string \<Rightarrow> string \<Rightarrow> kv_cache \<Rightarrow> kv_cache" where
  "deleteFromCache storeName key c = (case map_of c storeName of
       None \<Rightarrow> c
     | Some st \<Rightarrow> AList.update storeName (AList.delete key st) c)"

subsection \<open>The operations\<close>

datatype eccerror = OK | OUTDATED | ERROR

definition GetAll :: "('w, 'x) http_env_scheme \<Rightarrow> string \<Rightarrow>
    (('w, 'z) ecc_state_scheme, bytes list \<times> int list \<times> bool) comp" where
  "GetAll E store = bindM (getM offline) (\<lambda>off.
     if off then getM (\<lambda>s. getAllFromCache E store (ecc_cache s))
     else bindM (http_Get E (CONSUL_KV_BASE_URL @ store @ ''?recurse'')) (\<lambda>resp.
       case resp of
         None \<Rightarrow> retM ([], [], False)
       | Some (status, body) \<Rightarrow>
           if 400 \<le> status \<and> status < 500 then retM ([], [], False)
           else if 200 \<le> status \<and> status < 300 then
             (let bs = unmarshal_bodies body
              in retM (map (\<lambda>b. fst (decode64 (cb_Value b))) bs, map cb_ModifyIndex bs, True))
           else retM ([], [], False)))"

definition Get :: "('w, 'x) http_env_scheme \<Rightarrow> string \<Rightarrow> string \<Rightarrow>
    (('w, 'z) ecc_state_scheme, bytes \<times> int \<times> bool) comp" where
  "Get E store key = bindM (getM offline) (\<lambda>off.
     if off then getM (\<lambda>s. getFromCache store key (ecc_cache s))
     else bindM (http_Get E (CONSUL_KV_BASE_URL @ store @ ''/'' @ key)) (\<lambda>resp.
       case resp of
         None \<Rightarrow> retM ([], 0, False)
       | Some (status, body) \<Rightarrow>
           if 400 \<le> status \<and> status < 500 then retM ([], 0, False)
           else if 200 \<le> status \<and> status < 300 then
             bindM (liftO (slice_get (unmarshal_bodies body) 0)) (\<lambda>b.
               let (existingValue, ok) = decode64 (cb_Value b)
               in if \<not> ok then retM ([], cb_ModifyIndex b, False)
                  else retM (existingValue, cb_ModifyIndex b, True))
           else retM ([], 0, False)))"

text \<open>The second half of \<open>Put\<close>: the write that the agent accepts only for the given index.\<close>

definition Put_cas :: "('w, 'x) http_env_scheme \<Rightarrow> string \<Rightarrow> string \<Rightarrow> bytes \<Rightarrow> int \<Rightarrow>
    (('w, 'z) ecc_state_scheme, eccerror) comp" where
  "Put_cas E store key value casIndex =
     bindM (client_Do E ''PUT'' (CONSUL_KV_BASE_URL @ store @ ''/'' @ key @ ''?cas='' @ fmt_d casIndex) value)
       (\<lambda>resp. case resp of
          None \<Rightarrow> retM ERROR
        | Some (status, body) \<Rightarrow> if str body = ''false'' then retM OUTDATED else retM OK)"

definition Put :: "('w, 'x) http_env_scheme \<Rightarrow> string \<Rightarrow> string \<Rightarrow> bytes \<Rightarrow> bytes \<Rightarrow>
    (('w, 'z) ecc_state_scheme, eccerror) comp" where
  "Put E store key value oldValue = bindM (getM offline) (\<lambda>off.
     if off then thenM (modifyM (\<lambda>s. s\<lparr>ecc_cache := putInCache store key value (ecc_cache s)\<rparr>)) (retM OK)
     else bindM (Get E store key) (\<lambda>(existingValue, casIndex, ok).
       if ok \<and> oldValue \<noteq> existingValue then retM OUTDATED
       else Put_cas E store key value casIndex))"

definition Delete :: "('w, 'x) http_env_scheme \<Rightarrow> string \<Rightarrow> string \<Rightarrow>
    (('w, 'z) ecc_state_scheme, eccerror) comp" where
  "Delete E store key = bindM (getM offline) (\<lambda>off.
     if off then thenM (modifyM (\<lambda>s. s\<lparr>ecc_cache := deleteFromCache store key (ecc_cache s)\<rparr>)) (retM OK)
     else bindM (client_Do E ''DELETE'' (CONSUL_KV_BASE_URL @ store @ ''/'' @ key) [])
       (\<lambda>resp. case resp of None \<Rightarrow> retM ERROR | Some _ \<Rightarrow> retM OK))"

text \<open>Writing the elements of a slice that came from the cache.\<close>

definition write_through :: "string \<Rightarrow> string \<Rightarrow> bool \<Rightarrow> bytes \<Rightarrow> (('w, 'z) ecc_state_scheme, unit) comp" where
  "write_through store key ok arr = modifyM (\<lambda>s.
     if offline s \<and> ok then s\<lparr>ecc_cache := putInCache store key arr (ecc_cache s)\<rparr> else s)"

text \<open>
  When the first node is seen, the cache is handed over: a goroutine per entry
  puts it, unless the key has a value by then.
\<close>

definition populateKVStoreFromCache :: "('w, 'x) http_env_scheme \<Rightarrow> (('w, 'z) ecc_state_scheme, unit) comp" where
  "populateKVStoreFromCache E = modifyM (\<lambda>s.
     if \<not> OfflineSupport s \<or> started s then s
     else s\<lparr>started := True, ecc_cache := [],
       spawned := spawned s @ concat (map (\<lambda>storeName.
           let st = (case map_of (ecc_cache s) storeName of None \<Rightarrow> [] | Some st \<Rightarrow> st)
           in List.map_filter (\<lambda>key. map_option (\<lambda>v. (storeName, key, v)) (map_of st key))
                (range_order E (map fst st)))
         (range_order E (map fst (ecc_cache s))))\<rparr>)"

text \<open>One of the goroutines runs.\<close>

definition run_spawned :: "('w, 'x) http_env_scheme \<Rightarrow> nat \<Rightarrow> (('w, 'z) ecc_state_scheme, unit) comp" where
  "run_spawned E n = (\<lambda>s.
     if n < length (spawned s) then
       (let (store, key, v) = spawned s ! n;
            s' = s\<lparr>spawned := take n (spawned s) @ drop (Suc n) (spawned s)\<rparr>
        in thenM (Put E store key v []) (retM ()) s')
     else (Ret (), s))"


subsection \<open>What the daemon relies on\<close>

text \<open>
  \<open>view s store key\<close> is the value of a key.  The room \<open>n\<close> counts the
  updates the store can still take.  \<open>same_but_store\<close> says that an operation
  wrote nothing but the store.
\<close>

definition maxKVSize :: nat where
  "maxKVSize = 512 * 1024"

definition same_but_store :: "('w, 'z) ecc_state_scheme \<Rightarrow> ('w, 'z) ecc_state_scheme \<Rightarrow> bool" where
  "same_but_store s s' \<longleftrightarrow> s' = s\<lparr>world := world s', ecc_cache := ecc_cache s'\<rparr>"

lemma same_but_store_refl [simp, intro]: "same_but_store s s"
  by (simp add: same_but_store_def)

lemma same_but_store_trans: "same_but_store s t \<Longrightarrow> same_but_store t u \<Longrightarrow> same_but_store s u"
  unfolding same_but_store_def by (metis ecc_state.surjective ecc_state.update_convs(1,4))

lemma same_but_store_fields:
  "same_but_store s t \<Longrightarrow> started t = started s \<and> OfflineSupport t = OfflineSupport s \<and>
     spawned t = spawned s \<and> ecc_state.more t = ecc_state.more s \<and> offline t = offline s"
  unfolding same_but_store_def offline_def by (metis ecc_state.select_convs(2-6) ecc_state.surjective ecc_state.update_convs(1,4))

locale datastore =
  fixes E :: "('w, 'x) http_env_scheme"
    and view :: "('w, 'z) ecc_state_scheme \<Rightarrow> string \<Rightarrow> string \<Rightarrow> bytes option"
    and room :: "nat \<Rightarrow> ('w, 'z) ecc_state_scheme \<Rightarrow> bool"
    and good_key :: "string \<Rightarrow> string \<Rightarrow> bool"
  assumes Get_view: "\<lbrakk>room n s; good_key store key\<rbrakk> \<Longrightarrow>
      \<exists>i. Get E store key s = (Ret (case view s store key of None \<Rightarrow> ([], i, False) | Some v \<Rightarrow> (v, i, True)), s)"
    and Put_view: "\<lbrakk>room (Suc n) s; good_key store key; length value \<le> maxKVSize;
        view s store key = (if ok then Some old else None)\<rbrakk> \<Longrightarrow>
      \<exists>s'. thenM (write_through store key ok value) (Put E store key value old) s = (Ret OK, s') \<and>
        view s' = (view s)(store := (view s store)(key \<mapsto> value)) \<and> room n s' \<and> same_but_store s s'"
    and Delete_view: "\<lbrakk>room (Suc n) s; good_key store key\<rbrakk> \<Longrightarrow>
      \<exists>s'. Delete E store key s = (Ret OK, s') \<and>
        view s' = (view s)(store := (view s store)(key := None)) \<and> room n s' \<and> same_but_store s s'"
    and room_less: "room (Suc n) s \<Longrightarrow> room n s"
begin

lemma room_le: "room n s \<Longrightarrow> m \<le> n \<Longrightarrow> room m s"
  by (induction n) (auto simp: le_Suc_eq intro: room_less)

lemma Get_present:
  assumes "room n s" "good_key store key" "view s store key = Some v"
  obtains i where "Get E store key s = (Ret (v, i, True), s)"
  using Get_view[OF assms(1,2)] assms(3) by auto

lemma Get_absent:
  assumes "room n s" "good_key store key" "view s store key = None"
  obtains i where "Get E store key s = (Ret ([], i, False), s)"
  using Get_view[OF assms(1,2)] assms(3) by auto

lemma Put_new:
  assumes "room (Suc n) s" "good_key store key" "length value \<le> maxKVSize" "view s store key = None"
  obtains s' where "Put E store key value old s = (Ret OK, s')"
    "view s' = (view s)(store := (view s store)(key \<mapsto> value))" "room n s'" "same_but_store s s'"
proof -
  have "thenM (write_through store key False value) (Put E store key value old) s = Put E store key value old s"
    by (simp add: thenM_Ret[of _ _ "()" s] write_through_def run_simps)
  with Put_view[OF assms(1-3), of False old] assms(4) that show ?thesis by auto
qed

text \<open>What was put is what is read, under every other key nothing changes.\<close>

lemma Get_after_Put:
  assumes "room (Suc n) s" "good_key store key" "length value \<le> maxKVSize"
    "view s store key = (if ok then Some old else None)"
  shows "\<exists>s' i. thenM (write_through store key ok value) (Put E store key value old) s = (Ret OK, s') \<and>
    Get E store key s' = (Ret (value, i, True), s') \<and>
    (\<forall>store' key'. (store', key') \<noteq> (store, key) \<longrightarrow> view s' store' key' = view s store' key')"
proof -
  from Put_view[OF assms] obtain s' where
    s': "thenM (write_through store key ok value) (Put E store key value old) s = (Ret OK, s')"
    "view s' = (view s)(store := (view s store)(key \<mapsto> value))" "room n s'" by blast
  then have v: "view s' store key = Some value" by simp
  obtain i where "Get E store key s' = (Ret (value, i, True), s')"
    using Get_present[OF s'(3) assms(2) v] by blast
  then show ?thesis using s'(1,2) by (intro exI[of _ s'] exI[of _ i]) auto
qed

end

subsection \<open>The cache keeps the contract\<close>

definition cache_view :: "('w, 'z) ecc_state_scheme \<Rightarrow> string \<Rightarrow> string \<Rightarrow> bytes option" where
  "cache_view s store key = (case map_of (ecc_cache s) store of None \<Rightarrow> None | Some st \<Rightarrow> map_of st key)"

lemma cache_view_put: "cache_view (s\<lparr>ecc_cache := putInCache store key value (ecc_cache s)\<rparr>) =
    (cache_view s)(store := (cache_view s store)(key \<mapsto> value))"
  by (auto simp: cache_view_def putInCache_def fun_eq_iff update_conv' Let_def split: option.splits)

lemma cache_view_delete: "cache_view (s\<lparr>ecc_cache := deleteFromCache store key (ecc_cache s)\<rparr>) =
    (cache_view s)(store := (cache_view s store)(key := None))"
  by (auto simp: cache_view_def deleteFromCache_def fun_eq_iff update_conv' delete_conv' split: option.splits)

lemma offline_cache [simp]: "offline (s\<lparr>ecc_cache := c\<rparr>) = offline s" "offline (s\<lparr>world := w\<rparr>) = offline s"
  by (simp_all add: offline_def)

interpretation cache: datastore E cache_view "\<lambda>_. offline" "\<lambda>_ _. True"
proof (unfold_locales, goal_cases)
  case (1 n s store key)
  then show ?case
    by (auto simp: Get_def run_simps getFromCache_def cache_view_def split: option.splits)
next
  case (2 n s store key "value" ok old)
  define t where "t = (if ok then s\<lparr>ecc_cache := putInCache store key value (ecc_cache s)\<rparr> else s)"
  have t: "offline t" "cache_view (t\<lparr>ecc_cache := putInCache store key value (ecc_cache t)\<rparr>) =
      (cache_view s)(store := (cache_view s store)(key \<mapsto> value))" "same_but_store s (t\<lparr>ecc_cache := c\<rparr>)" for c
    using 2 by (auto simp: t_def cache_view_put same_but_store_def fun_eq_iff)
  have "thenM (write_through store key ok value) (Put E store key value old) s =
      (Ret OK, t\<lparr>ecc_cache := putInCache store key value (ecc_cache t)\<rparr>)"
    using 2 t(1) by (auto simp: write_through_def Put_def run_simps t_def)
  then show ?case using t by auto
next
  case (3 n s store key)
  then show ?case
    by (auto simp: Delete_def run_simps cache_view_delete same_but_store_def)
qed


subsection \<open>What the client relies on of the agent\<close>

text \<open>
  \<open>kv w k\<close> is the value of a key of the agent and the index of its last
  modification.  A compare-and-set with index zero creates, any other replaces
  the value that was written with this index.
\<close>

definition cas_matches :: "(bytes \<times> nat) option \<Rightarrow> nat \<Rightarrow> bool" where
  "cas_matches e i = (case e of None \<Rightarrow> i = 0 | Some (_, j) \<Rightarrow> i = j \<and> 0 < j)"

locale kv_service =
  fixes E :: "('w, 'x) http_env_scheme"
    and kv :: "'w \<Rightarrow> string \<Rightarrow> (bytes \<times> nat) option"
    and kv_room :: "nat \<Rightarrow> 'w \<Rightarrow> bool"
    and plain :: "string \<Rightarrow> bool"
  assumes plain_url: "plain k \<Longrightarrow> url_ok (CONSUL_KV_BASE_URL @ k)"
    and plain_cas_url: "plain k \<Longrightarrow> url_ok (CONSUL_KV_BASE_URL @ k @ ''?cas='' @ itod i)"
    and kv_room_less: "kv_room (Suc n) w \<Longrightarrow> kv_room n w"
    and index_pos: "\<lbrakk>kv_room n w; kv w k = Some (v, i)\<rbrakk> \<Longrightarrow> 0 < i"
    and GET_present: "\<lbrakk>kv_room n w; plain k; kv w k = Some (v, i)\<rbrakk> \<Longrightarrow>
      \<exists>status body b bs. http E ''GET'' (CONSUL_KV_BASE_URL @ k) [] w = (Some (status, body), w) \<and>
        200 \<le> status \<and> status < 300 \<and> unmarshal_bodies body = b # bs \<and>
        cb_ModifyIndex b = int i \<and> decode64 (cb_Value b) = (v, True)"
    and GET_absent: "\<lbrakk>kv_room n w; plain k; kv w k = None\<rbrakk> \<Longrightarrow>
      \<exists>status body. http E ''GET'' (CONSUL_KV_BASE_URL @ k) [] w = (Some (status, body), w) \<and>
        400 \<le> status \<and> status < 500"
    and PUT_matching: "\<lbrakk>kv_room (Suc n) w; plain k; length v \<le> maxKVSize; cas_matches (kv w k) i\<rbrakk> \<Longrightarrow>
      \<exists>status body w' j. http E ''PUT'' (CONSUL_KV_BASE_URL @ k @ ''?cas='' @ itod i) v w = (Some (status, body), w') \<and>
        str body \<noteq> ''false'' \<and> kv w' = (kv w)(k \<mapsto> (v, j)) \<and> kv_room n w'"
    and PUT_stale: "\<lbrakk>kv_room (Suc n) w; plain k; length v \<le> maxKVSize; i < 2 ^ 64; \<not> cas_matches (kv w k) i\<rbrakk> \<Longrightarrow>
      \<exists>status body w'. http E ''PUT'' (CONSUL_KV_BASE_URL @ k @ ''?cas='' @ itod i) v w = (Some (status, body), w') \<and>
        str body = ''false'' \<and> kv w' = kv w \<and> kv_room n w'"
    and DELETE_any: "\<lbrakk>kv_room (Suc n) w; plain k\<rbrakk> \<Longrightarrow>
      \<exists>status body w'. http E ''DELETE'' (CONSUL_KV_BASE_URL @ k) [] w = (Some (status, body), w') \<and>
        kv w' = (kv w)(k := None) \<and> kv_room n w'"
begin

lemma http_Get_plain: "plain k \<Longrightarrow> http_Get E (CONSUL_KV_BASE_URL @ k) s = http_do E ''GET'' (CONSUL_KV_BASE_URL @ k) [] s"
  by (simp add: http_Get_def plain_url)

lemma Get_online_present:
  assumes "kv_room n (world s)" "\<not> offline s" "plain (store @ ''/'' @ key)"
    "kv (world s) (store @ ''/'' @ key) = Some (v, i)"
  shows "Get E store key s = (Ret (v, int i, True), s)"
proof -
  from GET_present[OF assms(1,3,4)] obtain status body b bs where g:
    "http E ''GET'' (CONSUL_KV_BASE_URL @ store @ ''/'' @ key) [] (world s) = (Some (status, body), world s)"
    "200 \<le> status" "status < 300" "unmarshal_bodies body = b # bs"
    "cb_ModifyIndex b = int i" "decode64 (cb_Value b) = (v, True)" by blast
  have "http_do E ''GET'' (CONSUL_KV_BASE_URL @ store @ ''/'' @ key) [] s = (Ret (Some (status, body)), s)"
    using g(1) by (simp add: http_do_def)
  then show ?thesis
    using g(2-) assms(2) http_Get_plain[OF assms(3), of s] by (simp add: Get_def run_simps slice_get_def)
qed

lemma Get_online_absent:
  assumes "kv_room n (world s)" "\<not> offline s" "plain (store @ ''/'' @ key)"
    "kv (world s) (store @ ''/'' @ key) = None"
  shows "Get E store key s = (Ret ([], 0, False), s)"
proof -
  from GET_absent[OF assms(1,3,4)] obtain status body where g:
    "http E ''GET'' (CONSUL_KV_BASE_URL @ store @ ''/'' @ key) [] (world s) = (Some (status, body), world s)"
    "400 \<le> status" "status < 500" by blast
  have "http_do E ''GET'' (CONSUL_KV_BASE_URL @ store @ ''/'' @ key) [] s = (Ret (Some (status, body)), s)"
    using g(1) by (simp add: http_do_def)
  then show ?thesis
    using g(2-) assms(2) http_Get_plain[OF assms(3), of s] by (simp add: Get_def run_simps)
qed

text \<open>A put succeeds when the key is absent or holds the old value.\<close>

lemma Put_online_fresh:
  assumes "kv_room (Suc n) (world s)" "\<not> offline s" "plain (store @ ''/'' @ key)" "length v \<le> maxKVSize"
    "kv (world s) (store @ ''/'' @ key) = None \<or> (\<exists>i. kv (world s) (store @ ''/'' @ key) = Some (old, i))"
  shows "\<exists>w j. Put E store key v old s = (Ret OK, s\<lparr>world := w\<rparr>) \<and>
    kv w = (kv (world s))(store @ ''/'' @ key \<mapsto> (v, j)) \<and> kv_room n w"
proof -
  let ?k = "store @ ''/'' @ key"
  define i where "i = (case kv (world s) ?k of None \<Rightarrow> 0 | Some (_, i) \<Rightarrow> i)"
  have room: "kv_room n (world s)" by (rule kv_room_less[OF assms(1)])
  have get: "\<exists>x ok. Get E store key s = (Ret (x, int i, ok), s) \<and> \<not> (ok \<and> old \<noteq> x)"
    using Get_online_absent[OF room assms(2,3)] Get_online_present[OF room assms(2,3)] assms(5)
    by (auto simp: i_def)
  have m: "cas_matches (kv (world s) ?k) i"
    using assms(5) index_pos[OF assms(1)] by (auto simp: i_def cas_matches_def)
  from PUT_matching[OF assms(1,3,4) m] obtain status body w j where p:
    "http E ''PUT'' (CONSUL_KV_BASE_URL @ ?k @ ''?cas='' @ itod i) v (world s) = (Some (status, body), w)"
    "str body \<noteq> ''false''" "kv w = (kv (world s))(?k \<mapsto> (v, j))" "kv_room n w" by blast
  have "client_Do E ''PUT'' (CONSUL_KV_BASE_URL @ ?k @ ''?cas='' @ fmt_d (int i)) v s =
      (Ret (Some (status, body)), s\<lparr>world := w\<rparr>)"
    using p(1) plain_cas_url[OF assms(3)] by (simp add: client_Do_def http_do_def fmt_d_def)
  then have "Put E store key v old s = (Ret OK, s\<lparr>world := w\<rparr>)"
    using get assms(2) p(2) by (auto simp: Put_def Put_cas_def run_simps)
  with p(3,4) show ?thesis by blast
qed

text \<open>A put is refused when the key holds anything but the old value.\<close>

lemma Put_online_outdated:
  assumes "kv_room n (world s)" "\<not> offline s" "plain (store @ ''/'' @ key)"
    "kv (world s) (store @ ''/'' @ key) = Some (x, i)" "x \<noteq> old"
  shows "Put E store key v old s = (Ret OUTDATED, s)"
  using Get_online_present[OF assms(1-4)] assms(2,5) by (simp add: Put_def run_simps)

lemma Delete_online:
  assumes "kv_room (Suc n) (world s)" "\<not> offline s" "plain (store @ ''/'' @ key)"
  shows "\<exists>w. Delete E store key s = (Ret OK, s\<lparr>world := w\<rparr>) \<and>
    kv w = (kv (world s))(store @ ''/'' @ key := None) \<and> kv_room n w"
proof -
  let ?k = "store @ ''/'' @ key"
  from DELETE_any[OF assms(1,3)] obtain status body w where d:
    "http E ''DELETE'' (CONSUL_KV_BASE_URL @ ?k) [] (world s) = (Some (status, body), w)"
    "kv w = (kv (world s))(?k := None)" "kv_room n w" by blast
  then have "Delete E store key s = (Ret OK, s\<lparr>world := w\<rparr>)"
    using assms(2) plain_url[OF assms(3)] by (simp add: Delete_def run_simps client_Do_def http_do_def)
  with d show ?thesis by blast
qed

end

text \<open>Store names have no slash, so the key of an entry determines its store.\<close>

definition agent_view :: "('w \<Rightarrow> string \<Rightarrow> (bytes \<times> nat) option) \<Rightarrow>
    ('w, 'z) ecc_state_scheme \<Rightarrow> string \<Rightarrow> string \<Rightarrow> bytes option" where
  "agent_view kv s store key =
     (if CHR ''/'' \<in> set store then None else map_option fst (kv (world s) (store @ ''/'' @ key)))"

lemma store_key_inj:
  assumes "CHR ''/'' \<notin> set a" "CHR ''/'' \<notin> set b" "a @ CHR ''/'' # x = b @ CHR ''/'' # y"
  shows "a = b \<and> x = y"
  using assms
proof (induction a arbitrary: b)
  case Nil
  then show ?case by (cases b) auto
next
  case (Cons c a)
  then show ?case by (cases b) auto
qed

lemma agent_view_upd:
  assumes "CHR ''/'' \<notin> set store" "kv w = (kv (world s))(store @ ''/'' @ key := e)"
  shows "agent_view kv (s\<lparr>world := w\<rparr>) =
    (agent_view kv s)(store := (agent_view kv s store)(key := map_option fst e))"
proof (intro ext)
  fix a x
  show "agent_view kv (s\<lparr>world := w\<rparr>) a x =
    ((agent_view kv s)(store := (agent_view kv s store)(key := map_option fst e))) a x"
    using assms store_key_inj[of a store x key] by (auto simp: agent_view_def)
qed

sublocale kv_service \<subseteq> online: datastore E "agent_view kv" "\<lambda>n s. \<not> offline s \<and> kv_room n (world s)"
  "\<lambda>store key. plain (store @ ''/'' @ key) \<and> CHR ''/'' \<notin> set store"
proof (unfold_locales, goal_cases)
  case (1 n s store key)
  show ?case
  proof (cases "kv (world s) (store @ ''/'' @ key)")
    case None
    then show ?thesis using 1 Get_online_absent[of n s store key] by (auto simp: agent_view_def)
  next
    case (Some vi)
    then show ?thesis using 1 Get_online_present[of n s store key] by (cases vi) (auto simp: agent_view_def)
  qed
next
  case (2 n s store key "value" ok old)
  have w: "thenM (write_through store key ok value) (Put E store key value old) s = Put E store key value old s"
    using 2(1) by (auto simp: write_through_def run_simps)
  have "kv (world s) (store @ ''/'' @ key) = None \<or> (\<exists>i. kv (world s) (store @ ''/'' @ key) = Some (old, i))"
    using 2(2,4) by (auto simp: agent_view_def split: if_splits)
  then obtain w' j where "Put E store key value old s = (Ret OK, s\<lparr>world := w'\<rparr>)"
    "kv w' = (kv (world s))(store @ ''/'' @ key \<mapsto> (value, j))" "kv_room n w'"
    using Put_online_fresh[of n s store key "value" old] 2 by blast
  then show ?case
    using 2(1,2) agent_view_upd[of store kv w' s key] w by (intro exI[of _ "s\<lparr>world := w'\<rparr>"]) (simp add: same_but_store_def)
next
  case (3 n s store key)
  then obtain w' where "Delete E store key s = (Ret OK, s\<lparr>world := w'\<rparr>)"
    "kv w' = (kv (world s))(store @ ''/'' @ key := None)" "kv_room n w'"
    using Delete_online[of n s store key] by blast
  then show ?case
    using 3 agent_view_upd[of store kv w' s key] by (intro exI[of _ "s\<lparr>world := w'\<rparr>"]) (simp add: same_but_store_def)
qed (auto intro: kv_room_less)

end
