(* ===== verification/Consul.thy ===== *)
theory Consul
  imports Ecc "HOL-Library.Char_ord" "HOL-Library.List_Lexorder"
begin

section \<open>The key-value store of the Consul agent\<close>

text \<open>
  The vendored Consul server as far as ecc.go uses it: the HTTP handlers of
  command/agent/kvs_endpoint.go, the request dispatch of consul/kvs_endpoint.go
  and consul/fsm.go, and the table operations of consul/state_store.go.

  The table is the list of its rows in the order of the \<open>id\<close> index.  Raft is
  a counter: every operation that is applied gets the next index.  Indices are
  \<open>uint64\<close> in the source and natural numbers here; the client reads them as
  \<open>int\<close>, so the store has room for \<open>n\<close> more operations as long as the counter
  stays below \<open>2 ^ 63\<close>.  Access control, other data centres, blocking queries and
  consistency modes are not used by the client, which never sends their
  parameters; a request that has one, a key listing, and a URL with characters that
  need escaping go to the function \<open>other\<close>.
\<close>

subsection \<open>Tables\<close>

record DirEntry =
  de_CreateIndex :: nat
  de_ModifyIndex :: nat
  de_LockIndex :: nat
  de_Key :: string
  de_Flags :: nat
  de_Value :: bytes
  de_Session :: string

text \<open>\<open>DefaultIndexFunc\<close> and \<open>DefaultIndexPrefixFunc\<close> on one part.\<close>

definition DefaultIndexFunc :: "string \<Rightarrow> string" where
  "DefaultIndexFunc k = ''_'' @ k @ ''||''"

definition DefaultIndexPrefixFunc :: "string \<Rightarrow> string" where
  "DefaultIndexPrefixFunc k = ''_'' @ k"

fun insertRow :: "DirEntry \<Rightarrow> DirEntry list \<Rightarrow> DirEntry list" where
  "insertRow d [] = [d]"
| "insertRow d (e # t) =
     (if DefaultIndexFunc (de_Key d) < DefaultIndexFunc (de_Key e) then d # e # t else e # insertRow d t)"

text \<open>\<open>InsertTxn\<close>: a row with the same primary key is deleted first.\<close>

definition InsertTxn :: "DirEntry \<Rightarrow> DirEntry list \<Rightarrow> DirEntry list" where
  "InsertTxn d t = insertRow d (filter (\<lambda>e. de_Key e \<noteq> de_Key d) t)"

text \<open>
  A lookup scans the index for the rows whose index key starts with the one
  searched for.  Keys have no bar, so for the index \<open>id\<close> this is the row with the
  key itself.
\<close>

definition get_id :: "string \<Rightarrow> DirEntry list \<Rightarrow> DirEntry list" where
  "get_id k t = filter (\<lambda>e. DefaultIndexFunc (de_Key e) = DefaultIndexFunc k) t"

definition get_prefix :: "string \<Rightarrow> DirEntry list \<Rightarrow> DirEntry list" where
  "get_prefix p t = filter (\<lambda>e. take (length (DefaultIndexPrefixFunc p)) (DefaultIndexFunc (de_Key e)) = DefaultIndexPrefixFunc p) t"

record kvs_store =
  kvsTable :: "DirEntry list"
  tombstoneTable :: "DirEntry list"
  sessionTable :: "string list"
  lockDelay :: "string list"       \<comment> \<open>keys whose lock delay has not expired\<close>
  kvsLastIndex :: nat
  raft_index :: nat

subsection \<open>The state store\<close>

datatype kvMode = kvSet | kvCAS | kvLock | kvUnlock

definition KVSGet :: "string \<Rightarrow> 'x kvs_store_scheme \<Rightarrow> DirEntry option" where
  "KVSGet key w = (case get_id key (kvsTable w) of [] \<Rightarrow> None | d # _ \<Rightarrow> Some d)"

definition KVSList :: "string \<Rightarrow> 'x kvs_store_scheme \<Rightarrow> DirEntry list" where
  "KVSList prefix w = get_prefix prefix (kvsTable w)"

text \<open>The last part of \<open>kvsSet\<close>: set the create and modify times and insert.\<close>

definition kvsCommit :: "nat \<Rightarrow> DirEntry \<Rightarrow> DirEntry option \<Rightarrow> 'x kvs_store_scheme \<Rightarrow> (gerror + bool) \<times> 'x kvs_store_scheme" where
  "kvsCommit index d exist w =
     (let d' = (case exist of
           None \<Rightarrow> d\<lparr>de_CreateIndex := index\<rparr>
         | Some e \<Rightarrow> d\<lparr>de_CreateIndex := de_CreateIndex e, de_LockIndex := de_LockIndex e, de_Session := de_Session e\<rparr>)
      in (Inr True, w\<lparr>kvsTable := InsertTxn (d'\<lparr>de_ModifyIndex := index\<rparr>) (kvsTable w), kvsLastIndex := index\<rparr>))"

definition kvsSet :: "nat \<Rightarrow> DirEntry \<Rightarrow> kvMode \<Rightarrow> 'x kvs_store_scheme \<Rightarrow> (gerror + bool) \<times> 'x kvs_store_scheme" where
  "kvsSet index d mode w =
     (let exist = KVSGet (de_Key d) w in
      case mode of
        kvSet \<Rightarrow> kvsCommit index d exist w
      | kvCAS \<Rightarrow>
          if de_ModifyIndex d = 0 \<and> exist \<noteq> None then (Inr False, w)
          else if de_ModifyIndex d > 0 \<and>
              (case exist of None \<Rightarrow> True | Some e \<Rightarrow> de_ModifyIndex e \<noteq> de_ModifyIndex d) then (Inr False, w)
          else kvsCommit index d exist w
      | kvLock \<Rightarrow>
          if de_Session d = [] then (Inl (Err ''Missing session''), w)
          else if (case exist of None \<Rightarrow> False | Some e \<Rightarrow> de_Session e \<noteq> []) then (Inr False, w)
          else if de_Session d \<notin> set (sessionTable w) then (Inl (Err ''Invalid session''), w)
          else (case exist of
              None \<Rightarrow> kvsCommit index (d\<lparr>de_LockIndex := 1\<rparr>) None w
            | Some e \<Rightarrow> kvsCommit index d
                (Some (e\<lparr>de_LockIndex := de_LockIndex e + 1, de_Session := de_Session d\<rparr>)) w)
      | kvUnlock \<Rightarrow>
          (case exist of
             None \<Rightarrow> (Inr False, w)
           | Some e \<Rightarrow>
               if de_Session e \<noteq> de_Session d then (Inr False, w)
               else kvsCommit index d (Some (e\<lparr>de_Session := []\<rparr>)) w))"

text \<open>
  \<open>kvsDeleteWithIndexTxn\<close>: rows are deleted in batches of at most 128, each
  leaving a tombstone.  \<open>sel\<close> picks rows of the table, so every batch makes it
  shorter.
\<close>

function kvsDelete_loop :: "nat \<Rightarrow> (DirEntry list \<Rightarrow> DirEntry list) \<Rightarrow> DirEntry list \<Rightarrow> DirEntry list \<Rightarrow> nat \<Rightarrow>
    DirEntry list \<times> DirEntry list \<times> nat" where
  "kvsDelete_loop index sel table tombs num =
     (let pairs = take 128 (sel table);
          table' = filter (\<lambda>e. de_Key e \<notin> de_Key ` set pairs) table
      in if pairs = [] \<or> length table' \<ge> length table then (table, tombs, num)
         else kvsDelete_loop index sel table'
           (foldl (\<lambda>t d. InsertTxn (d\<lparr>de_ModifyIndex := index, de_Value := [], de_Session := []\<rparr>) t) tombs pairs)
           (num + length pairs))"
  by pat_completeness auto
termination
  by (relation "measure (\<lambda>(index, sel, table, tombs, num). length table)") auto

declare kvsDelete_loop.simps [simp del]

definition kvsDeleteWithIndex :: "nat \<Rightarrow> (DirEntry list \<Rightarrow> DirEntry list) \<Rightarrow> 'x kvs_store_scheme \<Rightarrow> 'x kvs_store_scheme" where
  "kvsDeleteWithIndex index sel w =
     (let (table, tombs, num) = kvsDelete_loop index sel (kvsTable w) (tombstoneTable w) 0
      in w\<lparr>kvsTable := table, tombstoneTable := tombs, kvsLastIndex := if num > 0 then index else kvsLastIndex w\<rparr>)"

definition KVSDelete :: "nat \<Rightarrow> string \<Rightarrow> 'x kvs_store_scheme \<Rightarrow> 'x kvs_store_scheme" where
  "KVSDelete index key w = kvsDeleteWithIndex index (get_id key) w"

definition KVSDeleteTree :: "nat \<Rightarrow> string \<Rightarrow> 'x kvs_store_scheme \<Rightarrow> 'x kvs_store_scheme" where
  "KVSDeleteTree index prefix w =
     (if prefix = [] then kvsDeleteWithIndex index (\<lambda>t. t) w else kvsDeleteWithIndex index (get_prefix prefix) w)"

definition KVSDeleteCheckAndSet :: "nat \<Rightarrow> string \<Rightarrow> nat \<Rightarrow> 'x kvs_store_scheme \<Rightarrow> bool \<times> 'x kvs_store_scheme" where
  "KVSDeleteCheckAndSet index key casIndex w =
     (let exist = KVSGet key w in
      if casIndex = 0 then (exist = None, w)
      else if (case exist of None \<Rightarrow> True | Some e \<Rightarrow> de_ModifyIndex e \<noteq> casIndex) then (False, w)
      else (True, kvsDeleteWithIndex index (get_id key) w))"

subsection \<open>Applying a request\<close>

datatype KVSOp = KVSSet | KVSDelete_op | KVSDeleteCAS | KVSDeleteTree_op | KVSCAS | KVSLock | KVSUnlock

text \<open>\<open>Inr None\<close> is the result \<open>nil\<close>.\<close>

definition lift_bool :: "(gerror + bool) \<times> 'w \<Rightarrow> (gerror + bool option) \<times> 'w" where
  "lift_bool r = (case r of (Inl e, w) \<Rightarrow> (Inl e, w) | (Inr b, w) \<Rightarrow> (Inr (Some b), w))"

definition applyKVSOperation :: "nat \<Rightarrow> KVSOp \<Rightarrow> DirEntry \<Rightarrow> 'x kvs_store_scheme \<Rightarrow> (gerror + bool option) \<times> 'x kvs_store_scheme" where
  "applyKVSOperation index Op d w =
     (case Op of
        KVSSet \<Rightarrow> (case kvsSet index d kvSet w of (Inl e, w') \<Rightarrow> (Inl e, w') | (Inr _, w') \<Rightarrow> (Inr None, w'))
      | KVSDelete_op \<Rightarrow> (Inr None, KVSDelete index (de_Key d) w)
      | KVSDeleteCAS \<Rightarrow> (let (act, w') = KVSDeleteCheckAndSet index (de_Key d) (de_ModifyIndex d) w in (Inr (Some act), w'))
      | KVSDeleteTree_op \<Rightarrow> (Inr None, KVSDeleteTree index (de_Key d) w)
      | KVSCAS \<Rightarrow> lift_bool (kvsSet index d kvCAS w)
      | KVSLock \<Rightarrow> lift_bool (kvsSet index d kvLock w)
      | KVSUnlock \<Rightarrow> lift_bool (kvsSet index d kvUnlock w))"

text \<open>Raft appends the request to its log and applies it with the index of the entry.\<close>

definition raftApply :: "KVSOp \<Rightarrow> DirEntry \<Rightarrow> 'x kvs_store_scheme \<Rightarrow> (gerror + bool option) \<times> 'x kvs_store_scheme" where
  "raftApply Op d w = applyKVSOperation (raft_index w + 1) Op d (w\<lparr>raft_index := raft_index w + 1\<rparr>)"

definition Apply :: "KVSOp \<Rightarrow> DirEntry \<Rightarrow> 'x kvs_store_scheme \<Rightarrow> (gerror + bool) \<times> 'x kvs_store_scheme" where
  "Apply Op d w =
     (if de_Key d = [] \<and> Op \<noteq> KVSDeleteTree_op then (Inl (Err ''Must provide key''), w)
      else if Op = KVSLock \<and> de_Key d \<in> set (lockDelay w) then (Inr False, w)
      else (case raftApply Op d w of
          (Inl e, w') \<Rightarrow> (Inl e, w')
        | (Inr None, w') \<Rightarrow> (Inr False, w')
        | (Inr (Some b), w') \<Rightarrow> (Inr b, w')))"

subsection \<open>The HTTP handlers\<close>

record kv_request =
  req_Method :: string
  req_Key :: string
  req_params :: "(string \<times> string) list"
  req_Body :: bytes

text \<open>
  What a handler does: write the response itself, return an object for
  \<open>wrap\<close> to print, or return an error.
\<close>

datatype reply = Wrote int string | Obj json | Failed string

definition has_param :: "string \<Rightarrow> kv_request \<Rightarrow> bool" where
  "has_param p r \<longleftrightarrow> map_of (req_params r) p \<noteq> None"

definition param :: "string \<Rightarrow> kv_request \<Rightarrow> string" where
  "param p r = (case map_of (req_params r) p of None \<Rightarrow> [] | Some v \<Rightarrow> v)"

definition missingKey :: "kv_request \<Rightarrow> reply option" where
  "missingKey r = (if req_Key r = [] then Some (Wrote 400 ''Missing key name'') else None)"

definition dirEntry_json :: "DirEntry \<Rightarrow> json" where
  "dirEntry_json d = JObj
     ([(''CreateIndex'', JNum (itod (de_CreateIndex d))), (''ModifyIndex'', JNum (itod (de_ModifyIndex d))),
       (''LockIndex'', JNum (itod (de_LockIndex d))), (''Key'', JStr (de_Key d)),
       (''Flags'', JNum (itod (de_Flags d))),
       (''Value'', if de_Value d = [] then JNull else JStr (encode64 (de_Value d)))] @
      (if de_Session d = [] then [] else [(''Session'', JStr (de_Session d))]))"

definition KVSGet_handler :: "kv_request \<Rightarrow> 'x kvs_store_scheme \<Rightarrow> reply" where
  "KVSGet_handler r w =
     (case (if has_param ''recurse'' r then None else missingKey r) of
        Some rep \<Rightarrow> rep
      | None \<Rightarrow>
          (let entries = (if has_param ''recurse'' r then KVSList (req_Key r) w
                          else (case KVSGet (req_Key r) w of None \<Rightarrow> [] | Some d \<Rightarrow> [d]))
           in case entries of
                [] \<Rightarrow> Wrote 404 []
              | d # _ \<Rightarrow>
                  if has_param ''raw'' r \<and> \<not> has_param ''recurse'' r then Wrote 200 (str (de_Value d))
                  else Obj (JArr (map dirEntry_json entries))))"

definition bool_reply :: "(gerror + bool) \<Rightarrow> (bool \<Rightarrow> bool) \<Rightarrow> reply" where
  "bool_reply res f = (case res of
       Inr b \<Rightarrow> Obj (JBool (f b))
     | Inl (Err e) \<Rightarrow> Failed e
     | Inl _ \<Rightarrow> Failed [])"

text \<open>The text of the error of \<open>strconv.ParseUint\<close>.\<close>

definition parseUint_error :: "string \<Rightarrow> string" where
  "parseUint_error v = ''strconv.ParseUint: parsing '' @ [CHR 0x22] @ v @ [CHR 0x22] @ '': '' @
     (if v \<noteq> [] \<and> list_all is_digit v then ''value out of range'' else ''invalid syntax'')"

definition KVSPut_handler :: "kv_request \<Rightarrow> 'x kvs_store_scheme \<Rightarrow> reply \<times> 'x kvs_store_scheme" where
  "KVSPut_handler r w =
     (case missingKey r of
        Some rep \<Rightarrow> (rep, w)
      | None \<Rightarrow>
          if has_param ''flags'' r \<and> ParseUint (param ''flags'' r) = None then (Failed (parseUint_error (param ''flags'' r)), w)
          else if has_param ''cas'' r \<and> ParseUint (param ''cas'' r) = None then (Failed (parseUint_error (param ''cas'' r)), w)
          else
            (let flags = (if has_param ''flags'' r then unat (the (ParseUint (param ''flags'' r))) else 0);
                 cas = (if has_param ''cas'' r then unat (the (ParseUint (param ''cas'' r))) else 0);
                 session = (if has_param ''release'' r then param ''release'' r
                            else if has_param ''acquire'' r then param ''acquire'' r else []);
                 Op = (if has_param ''release'' r then KVSUnlock
                       else if has_param ''acquire'' r then KVSLock
                       else if has_param ''cas'' r then KVSCAS else KVSSet);
                 d = \<lparr>de_CreateIndex = 0, de_ModifyIndex = cas, de_LockIndex = 0, de_Key = req_Key r,
                      de_Flags = flags, de_Value = req_Body r, de_Session = session\<rparr>
             in if length (req_Body r) > maxKVSize
                then (Wrote 413 (''Value exceeds '' @ itod maxKVSize @ '' byte limit''), w)
                else (let (res, w') = Apply Op d w in (bool_reply res (\<lambda>out. if Op = KVSSet then True else out), w'))))"

definition KVSDelete_handler :: "kv_request \<Rightarrow> 'x kvs_store_scheme \<Rightarrow> reply \<times> 'x kvs_store_scheme" where
  "KVSDelete_handler r w =
     (case (if has_param ''recurse'' r then None else missingKey r) of
        Some rep \<Rightarrow> (rep, w)
      | None \<Rightarrow>
          if has_param ''cas'' r \<and> ParseUint (param ''cas'' r) = None then (Failed (parseUint_error (param ''cas'' r)), w)
          else
            (let cas = (if has_param ''cas'' r then unat (the (ParseUint (param ''cas'' r))) else 0);
                 Op = (if has_param ''cas'' r then KVSDeleteCAS
                       else if has_param ''recurse'' r then KVSDeleteTree_op else KVSDelete_op);
                 d = \<lparr>de_CreateIndex = 0, de_ModifyIndex = cas, de_LockIndex = 0, de_Key = req_Key r,
                      de_Flags = 0, de_Value = [], de_Session = []\<rparr>;
                 (res, w') = Apply Op d w
             in (bool_reply res (\<lambda>out. if Op = KVSDeleteCAS then out else True), w')))"

definition KVSEndpoint :: "kv_request \<Rightarrow> 'x kvs_store_scheme \<Rightarrow> reply \<times> 'x kvs_store_scheme" where
  "KVSEndpoint r w =
     (if req_Method r = ''GET'' then (KVSGet_handler r w, w)
      else if req_Method r = ''PUT'' then KVSPut_handler r w
      else if req_Method r = ''DELETE'' then KVSDelete_handler r w
      else (Wrote 405 [], w))"

fun contains_text :: "string \<Rightarrow> string \<Rightarrow> bool" where
  "contains_text p [] = (p = [])"
| "contains_text p (c # s) = (take (length p) (c # s) = p \<or> contains_text p s)"

definition wrap :: "reply \<Rightarrow> int \<times> bytes" where
  "wrap rep = (case rep of
       Wrote status body \<Rightarrow> (status, unstr body)
     | Obj j \<Rightarrow> (200, unstr (print_json j))
     | Failed e \<Rightarrow> (if contains_text ''Permission denied'' e \<or> contains_text ''ACL not found'' e then 403 else 500, unstr e))"

subsection \<open>Routing\<close>

text \<open>
  Keys that stand for themselves in a URL: no character needs escaping, and no
  segment makes the server's router redirect.
\<close>

definition plain_char :: "char \<Rightarrow> bool" where
  "plain_char c = (let k = code c in 48 \<le> k \<and> k \<le> 57 \<or> 65 \<le> k \<and> k \<le> 90 \<or> 97 \<le> k \<and> k \<le> 122 \<or>
     c = CHR ''-'' \<or> c = CHR ''.'' \<or> c = CHR ''_'' \<or> c = CHR ''~'' \<or> c = CHR '':'' \<or> c = CHR ''/'')"

fun split_on :: "char \<Rightarrow> string \<Rightarrow> string list" where
  "split_on d [] = [[]]"
| "split_on d (c # s) = (if c = d then [] # split_on d s
     else (case split_on d s of x # xs \<Rightarrow> (c # x) # xs | [] \<Rightarrow> [[c]]))"

definition plain_key :: "string \<Rightarrow> bool" where
  "plain_key k \<longleftrightarrow> list_all plain_char k \<and>
     list_all (\<lambda>x. x \<noteq> [] \<and> x \<noteq> ''.'' \<and> x \<noteq> ''..'') (butlast (split_on (CHR ''/'') k)) \<and>
     last (split_on (CHR ''/'') k) \<noteq> ''.'' \<and> last (split_on (CHR ''/'') k) \<noteq> ''..''"

definition parse_query :: "string \<Rightarrow> (string \<times> string) list" where
  "parse_query q = map (\<lambda>p. (takeWhile (\<lambda>c. c \<noteq> CHR ''='') p, drop 1 (dropWhile (\<lambda>c. c \<noteq> CHR ''='') p)))
     (filter (\<lambda>p. p \<noteq> []) (split_on (CHR ''&'') q))"

definition plain_query :: "string \<Rightarrow> bool" where
  "plain_query q \<longleftrightarrow> list_all (\<lambda>c. plain_char c \<or> c = CHR ''='' \<or> c = CHR ''&'') q \<and>
     list_all (\<lambda>(p, _). p \<in> {''recurse'', ''raw'', ''flags'', ''cas'', ''acquire'', ''release''}) (parse_query q)"

definition kv_request_of :: "string \<Rightarrow> string \<Rightarrow> bytes \<Rightarrow> kv_request option" where
  "kv_request_of method url body =
     (let n = length CONSUL_KV_BASE_URL;
          key = takeWhile (\<lambda>c. c \<noteq> CHR ''?'') (drop n url);
          q = drop 1 (dropWhile (\<lambda>c. c \<noteq> CHR ''?'') (drop n url))
      in if take n url = CONSUL_KV_BASE_URL \<and> plain_key key \<and> plain_query q
         then Some \<lparr>req_Method = method, req_Key = key, req_params = parse_query q, req_Body = body\<rparr> else None)"

definition consul_http :: "(string \<Rightarrow> string \<Rightarrow> bytes \<Rightarrow> 'x kvs_store_scheme \<Rightarrow> (int \<times> bytes) option \<times> 'x kvs_store_scheme) \<Rightarrow>
    string \<Rightarrow> string \<Rightarrow> bytes \<Rightarrow> 'x kvs_store_scheme \<Rightarrow> (int \<times> bytes) option \<times> 'x kvs_store_scheme" where
  "consul_http other method url body w =
     (case kv_request_of method url body of
        None \<Rightarrow> other method url body w
      | Some r \<Rightarrow> (let (rep, w') = KVSEndpoint r w in (Some (wrap rep), w')))"


subsection \<open>Facts about tables\<close>

lemma DefaultIndexFunc_inj [simp]: "DefaultIndexFunc a = DefaultIndexFunc b \<longleftrightarrow> a = b"
  by (simp add: DefaultIndexFunc_def)

lemma get_id_filter: "get_id k t = filter (\<lambda>e. de_Key e = k) t"
  by (simp add: get_id_def)

lemma set_insertRow [simp]: "set (insertRow d t) = insert d (set t)"
  by (induction t) auto

lemma distinct_insertRow: "distinct (map de_Key (insertRow d t)) \<longleftrightarrow> de_Key d \<notin> de_Key ` set t \<and> distinct (map de_Key t)"
  by (induction t) auto

lemma filter_insertRow_other: "de_Key d \<noteq> k \<Longrightarrow> filter (\<lambda>e. de_Key e = k) (insertRow d t) = filter (\<lambda>e. de_Key e = k) t"
  by (induction t) auto

lemma filter_insertRow_same: "\<forall>e\<in>set t. de_Key e \<noteq> de_Key d \<Longrightarrow> filter (\<lambda>e. de_Key e = de_Key d) (insertRow d t) = [d]"
  by (induction t) (auto simp: filter_empty_conv)

lemma set_InsertTxn: "set (InsertTxn d t) = insert d {e \<in> set t. de_Key e \<noteq> de_Key d}"
  by (auto simp: InsertTxn_def)

lemma distinct_InsertTxn: "distinct (map de_Key t) \<Longrightarrow> distinct (map de_Key (InsertTxn d t))"
  by (auto simp: InsertTxn_def distinct_insertRow distinct_map_filter)

lemma get_id_InsertTxn: "get_id k (InsertTxn d t) = (if k = de_Key d then [d] else get_id k t)"
proof (cases "k = de_Key d")
  case True
  then show ?thesis by (simp add: InsertTxn_def get_id_filter filter_insertRow_same)
next
  case False
  then have "filter (\<lambda>e. de_Key e = k) (filter (\<lambda>e. de_Key e \<noteq> de_Key d) t) = filter (\<lambda>e. de_Key e = k) t"
    by (induction t) auto
  then show ?thesis using False by (simp add: InsertTxn_def get_id_filter filter_insertRow_other)
qed

lemma KVSGet_insert: "KVSGet k (w\<lparr>kvsTable := InsertTxn d (kvsTable w), kvsLastIndex := i\<rparr>) = (if k = de_Key d then Some d else KVSGet k w)"
  by (simp add: KVSGet_def get_id_InsertTxn)

lemma KVSGet_Some: "KVSGet k w = Some d \<Longrightarrow> d \<in> set (kvsTable w) \<and> de_Key d = k"
proof -
  assume "KVSGet k w = Some d"
  then have "d \<in> set (get_id k (kvsTable w))" by (auto simp: KVSGet_def split: list.splits)
  then show ?thesis by (simp add: get_id_filter)
qed

text \<open>Deleting in batches deletes everything the selection picks.\<close>

lemma kvsDelete_loop_table:
  "fst (kvsDelete_loop index (filter (\<lambda>e :: DirEntry. P (de_Key e))) table tombs num) = filter (\<lambda>e. \<not> P (de_Key e)) table"
proof (induction index "filter (\<lambda>e :: DirEntry. P (de_Key e))" table tombs num rule: kvsDelete_loop.induct)
  case (1 index table tombs num)
  define pairs where "pairs = take 128 (filter (\<lambda>e :: DirEntry. P (de_Key e)) table)"
  define table' where "table' = filter (\<lambda>e. de_Key e \<notin> de_Key ` set pairs) table"
  show ?case
  proof (cases "pairs = []")
    case True
    then have "filter (\<lambda>e :: DirEntry. P (de_Key e)) table = []" by (simp add: pairs_def)
    then have "filter (\<lambda>e. \<not> P (de_Key e)) table = table" by (simp add: filter_empty_conv)
    then show ?thesis using True by (subst kvsDelete_loop.simps) (simp add: pairs_def[symmetric])
  next
    case False
    then have "hd pairs \<in> set pairs" by simp
    moreover from this have "hd pairs \<in> set (filter (\<lambda>e :: DirEntry. P (de_Key e)) table)"
      unfolding pairs_def by (rule in_set_takeD)
    ultimately obtain d where d: "d \<in> set pairs" "d \<in> set table" "P (de_Key d)" by auto
    have "length table' < length table"
      unfolding table'_def by (rule length_filter_less[of d]) (use d in auto)
    moreover have "filter (\<lambda>e. \<not> P (de_Key e)) table' = filter (\<lambda>e. \<not> P (de_Key e)) table"
    proof -
      have "\<forall>e\<in>set pairs. P (de_Key e)" by (auto simp: pairs_def dest: in_set_takeD)
      then show ?thesis unfolding table'_def by (auto simp: filter_filter intro!: filter_cong)
    qed
    ultimately show ?thesis
      using False 1[OF pairs_def table'_def]
      by (subst kvsDelete_loop.simps) (simp add: pairs_def[symmetric] table'_def[symmetric] Let_def)
  qed
qed

lemma kvsTable_KVSDelete: "kvsTable (KVSDelete index key w) = filter (\<lambda>e. de_Key e \<noteq> key) (kvsTable w)"
proof -
  have "get_id key = filter (\<lambda>e. de_Key e = key)" by (simp add: fun_eq_iff get_id_filter)
  then show ?thesis
    using kvsDelete_loop_table[of index "\<lambda>k. k = key" "kvsTable w" "tombstoneTable w" 0]
    by (auto simp: KVSDelete_def kvsDeleteWithIndex_def split: prod.splits)
qed

lemma KVSDelete_fields [simp]:
  "raft_index (KVSDelete index key w) = raft_index w"
  by (simp add: KVSDelete_def kvsDeleteWithIndex_def split: prod.splits)

lemma KVSGet_KVSDelete: "KVSGet k (KVSDelete index key w) = (if k = key then None else KVSGet k w)"
proof -
  have "get_id k (filter (\<lambda>e. de_Key e \<noteq> key) t) = (if k = key then [] else get_id k t)" for t
    by (induction t) (auto simp: get_id_filter)
  then show ?thesis by (simp add: KVSGet_def kvsTable_KVSDelete)
qed

subsection \<open>The abstract view\<close>

definition consul_kv :: "'x kvs_store_scheme \<Rightarrow> string \<Rightarrow> (bytes \<times> nat) option" where
  "consul_kv w k = map_option (\<lambda>d. (de_Value d, de_ModifyIndex d)) (KVSGet k w)"

definition row_ok :: "nat \<Rightarrow> DirEntry \<Rightarrow> bool" where
  "row_ok i d \<longleftrightarrow> 0 < de_ModifyIndex d \<and> de_ModifyIndex d \<le> i \<and> ascii (de_Key d) \<and> ascii (de_Session d)"

definition consul_room :: "nat \<Rightarrow> 'x kvs_store_scheme \<Rightarrow> bool" where
  "consul_room n w \<longleftrightarrow> raft_index w + n < 2 ^ 63 \<and> distinct (map de_Key (kvsTable w)) \<and>
     list_all (row_ok (raft_index w)) (kvsTable w)"

lemma row_ok_mono: "row_ok i d \<Longrightarrow> i \<le> j \<Longrightarrow> row_ok j d"
  by (auto simp: row_ok_def)

lemma consul_room_raft: "consul_room (Suc n) w \<Longrightarrow> consul_room n (w\<lparr>raft_index := raft_index w + 1\<rparr>)"
  by (auto simp: consul_room_def list_all_iff intro: row_ok_mono)

lemma consul_room_insert:
  assumes "consul_room n w" "row_ok (raft_index w) d"
  shows "consul_room n (w\<lparr>kvsTable := InsertTxn d (kvsTable w), kvsLastIndex := i\<rparr>)"
  using assms by (auto simp: consul_room_def distinct_InsertTxn set_InsertTxn list_all_iff)

lemma consul_room_delete:
  assumes "consul_room n w"
  shows "consul_room n (KVSDelete index key w)"
  using assms by (auto simp: consul_room_def kvsTable_KVSDelete list_all_iff distinct_map_filter)

text \<open>The compare-and-set: it replaces exactly when the index matches.\<close>

lemma kvsSet_CAS:
  assumes "consul_room n w" "raft_index w = index" "0 < index" "ascii (de_Key d)" "ascii (de_Session d)"
  shows "\<exists>w'. kvsSet index d kvCAS w = (Inr (cas_matches (consul_kv w (de_Key d)) (de_ModifyIndex d)), w') \<and>
    consul_room n w' \<and> raft_index w' = raft_index w \<and>
    consul_kv w' = (if cas_matches (consul_kv w (de_Key d)) (de_ModifyIndex d)
      then (consul_kv w)(de_Key d \<mapsto> (de_Value d, index)) else consul_kv w)"
proof (cases "cas_matches (consul_kv w (de_Key d)) (de_ModifyIndex d)")
  case True
  define d' where "d' = (case KVSGet (de_Key d) w of
           None \<Rightarrow> d\<lparr>de_CreateIndex := index\<rparr>
         | Some e \<Rightarrow> d\<lparr>de_CreateIndex := de_CreateIndex e, de_LockIndex := de_LockIndex e, de_Session := de_Session e\<rparr>)"
  have k: "de_Key d' = de_Key d" "de_Value d' = de_Value d" by (simp_all add: d'_def split: option.splits)
  have "ascii (de_Session d')"
    using assms(1,5) by (auto simp: d'_def consul_room_def list_all_iff row_ok_def dest!: KVSGet_Some split: option.splits)
  then have ok: "row_ok (raft_index w) (d'\<lparr>de_ModifyIndex := index\<rparr>)"
    using assms k by (simp add: row_ok_def)
  have "kvsSet index d kvCAS w = kvsCommit index d (KVSGet (de_Key d) w) w"
    using True by (auto simp: kvsSet_def cas_matches_def consul_kv_def split: option.splits)
  also have "\<dots> = (Inr True, w\<lparr>kvsTable := InsertTxn (d'\<lparr>de_ModifyIndex := index\<rparr>) (kvsTable w), kvsLastIndex := index\<rparr>)"
    by (simp add: kvsCommit_def d'_def)
  finally show ?thesis
    using True consul_room_insert[OF assms(1) ok] k
    by (auto simp: consul_kv_def KVSGet_insert fun_eq_iff)
next
  case False
  have "0 < de_ModifyIndex e" if "KVSGet (de_Key d) w = Some e" for e
    using assms(1) that by (auto simp: consul_room_def list_all_iff row_ok_def dest!: KVSGet_Some)
  then have "kvsSet index d kvCAS w = (Inr False, w)"
    using False by (auto simp: kvsSet_def cas_matches_def consul_kv_def Let_def split: option.splits)
  then show ?thesis using False assms(1) by simp
qed


subsection \<open>Reading back what the agent prints\<close>

lemma code_Char [simp]: "code (Char a b c d e f g h) = of_char (Char a b c d e f g h)"
  by (simp add: code_def)

lemma wf_dirEntry_json: "row_ok i d \<Longrightarrow> wf_json (dirEntry_json d)"
  by (simp add: dirEntry_json_def row_ok_def num_literal_itod ascii_encode64)

lemma wf_elems_all: "wf_elems js \<longleftrightarrow> list_all wf_json js"
  by (induction js) auto

lemma find_field_simps:
  "find_field ((n, f) # fs) k = (if n = k then Some f
     else case find (\<lambda>(n, _). n = k) fs of Some (_, g) \<Rightarrow> Some g
       | None \<Rightarrow> if fold_key n = fold_key k then Some f
           else map_option snd (find (\<lambda>(n, _). fold_key n = fold_key k) fs))"
  by (auto simp: find_field_def split: option.splits)

lemma consulBody_of_entry:
  assumes "de_ModifyIndex d < 2 ^ 63"
  shows "\<exists>e c f. consulBody_store (dirEntry_json d) consulBody_zero =
    (e, \<lparr>cb_CreateIndex = c, cb_ModifyIndex = int (de_ModifyIndex d), cb_Key = de_Key d, cb_Flags = f,
         cb_Value = encode64 (de_Value d)\<rparr>)"
  using ParseInt_itod[OF assms]
  by (cases "ParseInt (itod (de_CreateIndex d))"; cases "ParseInt (itod (de_Flags d))")
     (simp_all add: consulBody_store_def dirEntry_json_def store_struct_def find_field_def lower_def
        store_int_def store_string_def consulBody_zero_def)

lemma unmarshal_printed_entries:
  assumes "list_all (row_ok i) (d # ds)" "i < 2 ^ 63"
  shows "\<exists>b bs. unmarshal_bodies (unstr (print_json (JArr (map dirEntry_json (d # ds))))) = b # bs \<and>
    cb_ModifyIndex b = int (de_ModifyIndex d) \<and> decode64 (cb_Value b) = (de_Value d, True)"
proof -
  have "wf_json (JArr (map dirEntry_json (d # ds)))"
    using assms(1) by (auto simp: wf_elems_all list_all_iff intro: wf_dirEntry_json)
  from parse_print[OF this] have p:
    "parse_json (print_json (JArr (map dirEntry_json (d # ds)))) = Some (JArr (map dirEntry_json (d # ds)))" .
  have "de_ModifyIndex d < 2 ^ 63" using assms by (simp add: row_ok_def)
  from consulBody_of_entry[OF this] obtain e c f where c: "consulBody_store (dirEntry_json d) consulBody_zero =
    (e, \<lparr>cb_CreateIndex = c, cb_ModifyIndex = int (de_ModifyIndex d), cb_Key = de_Key d, cb_Flags = f,
         cb_Value = encode64 (de_Value d)\<rparr>)" by blast
  show ?thesis
    unfolding unmarshal_bodies_def str_unstr p
    by (simp add: store_slice_def c decode_encode64 split: prod.split)
qed

subsection \<open>Requests of the client\<close>

lemma takeWhile_stop: "x \<notin> set k \<Longrightarrow> takeWhile (\<lambda>c. c \<noteq> x) (k @ x # r) = k"
  by (induction k) auto

lemma dropWhile_stop: "x \<notin> set k \<Longrightarrow> dropWhile (\<lambda>c. c \<noteq> x) (k @ x # r) = x # r"
  by (induction k) auto

lemma plain_key_chars: "plain_key k \<Longrightarrow> CHR ''?'' \<notin> set k \<and> CHR ''#'' \<notin> set k \<and> CHR ''%'' \<notin> set k \<and> ascii k"
  by (auto simp: plain_key_def list_all_iff plain_char_def Let_def ascii_def)

lemma itod_chars: "c \<in> set (itod n) \<Longrightarrow> is_digit c"
  using list_all_is_digit_itod[of n] by (simp add: list_all_iff)

lemma escapes_ok_no_percent: "CHR ''%'' \<notin> set s \<Longrightarrow> escapes_ok s"
  by (induction s) auto

lemma plain_key_url: "plain_key k \<Longrightarrow> url_ok (CONSUL_KV_BASE_URL @ k)"
proof -
  assume "plain_key k"
  from plain_key_chars[OF this] have "CHR ''#'' \<notin> set (CONSUL_KV_BASE_URL @ k)" "CHR ''%'' \<notin> set (CONSUL_KV_BASE_URL @ k)"
    by (auto simp: CONSUL_KV_BASE_URL_def)
  then show ?thesis
    by (auto simp: url_ok_def Let_def intro!: escapes_ok_no_percent dest!: set_takeWhileD set_dropWhileD)
qed

lemma plain_key_cas_url: "plain_key k \<Longrightarrow> url_ok (CONSUL_KV_BASE_URL @ k @ ''?cas='' @ itod i)"
proof -
  assume "plain_key k"
  from plain_key_chars[OF this]
  have "CHR ''#'' \<notin> set (CONSUL_KV_BASE_URL @ k @ ''?cas='' @ itod i)"
    "CHR ''%'' \<notin> set (CONSUL_KV_BASE_URL @ k @ ''?cas='' @ itod i)"
    by (auto simp: CONSUL_KV_BASE_URL_def is_digit_def dest!: itod_chars)
  then show ?thesis
    by (auto simp: url_ok_def Let_def intro!: escapes_ok_no_percent dest!: set_takeWhileD set_dropWhileD)
qed

lemma kv_request_plain:
  assumes "plain_key k"
  shows "kv_request_of m (CONSUL_KV_BASE_URL @ k) body = Some \<lparr>req_Method = m, req_Key = k, req_params = [], req_Body = body\<rparr>"
proof -
  have q: "takeWhile (\<lambda>c. c \<noteq> CHR ''?'') k = k" "dropWhile (\<lambda>c. c \<noteq> CHR ''?'') k = []"
    using plain_key_chars[OF assms] by (auto simp: takeWhile_eq_all_conv dropWhile_eq_Nil_conv)
  show ?thesis using assms by (simp add: q kv_request_of_def parse_query_def plain_query_def Let_def)
qed

lemma split_on_absent: "d \<notin> set s \<Longrightarrow> split_on d s = [s]"
  by (induction s) auto

lemma kv_request_cas:
  assumes "plain_key k"
  shows "kv_request_of m (CONSUL_KV_BASE_URL @ k @ ''?cas='' @ itod i) body =
    Some \<lparr>req_Method = m, req_Key = k, req_params = [(''cas'', itod i)], req_Body = body\<rparr>"
proof -
  have q: "takeWhile (\<lambda>c. c \<noteq> CHR ''?'') (k @ ''?cas='' @ itod i) = k"
    "dropWhile (\<lambda>c. c \<noteq> CHR ''?'') (k @ ''?cas='' @ itod i) = ''?cas='' @ itod i"
    using plain_key_chars[OF assms] by (auto simp: takeWhile_stop dropWhile_stop)
  have "split_on (CHR ''&'') (''cas='' @ itod i) = [''cas='' @ itod i]"
    by (rule split_on_absent) (auto simp: is_digit_def dest!: itod_chars)
  then have p: "parse_query (''cas='' @ itod i) = [(''cas'', itod i)]"
    by (simp add: parse_query_def)
  have "plain_char c" if "is_digit c" for c
  proof -
    have "int (code c) = of_char c" unfolding code_def by (rule of_nat_of_char)
    then show ?thesis using that by (simp add: plain_char_def is_digit_def Let_def)
  qed
  then have "plain_query (''cas='' @ itod i)"
    using p list_all_is_digit_itod[of i] by (auto simp: plain_query_def list_all_iff plain_char_def)
  then show ?thesis using assms q p by (simp add: kv_request_of_def Let_def)
qed

lemma KVSEndpoint_cas:
  assumes "plain_key k" "k \<noteq> []" "length v \<le> maxKVSize" "i < 2 ^ 64"
  shows "consul_http other ''PUT'' (CONSUL_KV_BASE_URL @ k @ ''?cas='' @ itod i) v w =
    (case Apply KVSCAS \<lparr>de_CreateIndex = 0, de_ModifyIndex = i, de_LockIndex = 0, de_Key = k,
        de_Flags = 0, de_Value = v, de_Session = []\<rparr> w of
      (res, w') \<Rightarrow> (Some (wrap (bool_reply res (\<lambda>out. out))), w'))"
proof -
  have "unat (of_nat i :: uint) = i" by (rule unat_of_nat_uint[OF assms(4)])
  then have "ParseUint (itod i) = Some (of_nat i)" "unat (of_nat i :: uint) = i"
    using ParseUint_itod[of "of_nat i"] by simp_all
  moreover have "If False True = (\<lambda>out. out)" by (simp add: fun_eq_iff)
  ultimately show ?thesis
    using assms by (simp add: consul_http_def kv_request_cas[simplified] KVSEndpoint_def KVSPut_handler_def missingKey_def
      has_param_def param_def Let_def split: prod.split)
qed

text \<open>The agent keeps the contract of \<open>kv_service\<close>.\<close>

lemma consul_PUT:
  assumes "consul_room (Suc n) w" "plain_key k" "k \<noteq> []" "length v \<le> maxKVSize" "i < 2 ^ 64"
  shows "\<exists>body w'. consul_http other ''PUT'' (CONSUL_KV_BASE_URL @ k @ ''?cas='' @ itod i) v w = (Some (200, body), w') \<and>
    str body = (if cas_matches (consul_kv w k) i then ''true'' else ''false'') \<and> consul_room n w' \<and>
    raft_index w' = raft_index w + 1 \<and>
    consul_kv w' = (if cas_matches (consul_kv w k) i
      then (consul_kv w)(k \<mapsto> (v, raft_index w + 1)) else consul_kv w)"
proof -
  define d where "d = \<lparr>de_CreateIndex = 0, de_ModifyIndex = i, de_LockIndex = 0, de_Key = k,
        de_Flags = 0, de_Value = v, de_Session = []\<rparr>"
  define w1 where "w1 = w\<lparr>raft_index := raft_index w + 1\<rparr>"
  have r1: "consul_room n w1" unfolding w1_def by (rule consul_room_raft[OF assms(1)])
  have kv1: "consul_kv w1 = consul_kv w" by (simp add: w1_def consul_kv_def KVSGet_def fun_eq_iff)
  obtain w' where w': "kvsSet (raft_index w + 1) d kvCAS w1 = (Inr (cas_matches (consul_kv w k) i), w')"
    "consul_room n w'" "consul_kv w' = (if cas_matches (consul_kv w k) i
      then (consul_kv w)(k \<mapsto> (v, raft_index w + 1)) else consul_kv w)" "raft_index w' = raft_index w + 1"
    using kvsSet_CAS[OF r1, of "raft_index w + 1" d] plain_key_chars[OF assms(2)] kv1
    by (auto simp: d_def w1_def)
  have "Apply KVSCAS d w = (Inr (cas_matches (consul_kv w k) i), w')"
    using w'(1) assms(3) by (simp add: Apply_def raftApply_def applyKVSOperation_def lift_bool_def d_def w1_def)
  then show ?thesis
    using w'(2-4) KVSEndpoint_cas[OF assms(2-5), of other w]
    by (auto simp: d_def bool_reply_def wrap_def)
qed

lemma consul_GET:
  assumes "consul_room n w" "plain_key k" "k \<noteq> []"
  shows "consul_http other ''GET'' (CONSUL_KV_BASE_URL @ k) [] w =
    (Some (case KVSGet k w of None \<Rightarrow> (404, []) | Some d \<Rightarrow> (200, unstr (print_json (JArr [dirEntry_json d])))), w)"
  using assms by (simp add: consul_http_def kv_request_plain KVSEndpoint_def KVSGet_handler_def missingKey_def
      has_param_def wrap_def unstr_def split: option.split)

lemma consul_DELETE:
  assumes "consul_room (Suc n) w" "plain_key k" "k \<noteq> []"
  shows "\<exists>body w'. consul_http other ''DELETE'' (CONSUL_KV_BASE_URL @ k) [] w = (Some (200, body), w') \<and>
    consul_kv w' = (consul_kv w)(k := None) \<and> consul_room n w'"
proof -
  let ?w = "KVSDelete (raft_index w + 1) k (w\<lparr>raft_index := raft_index w + 1\<rparr>)"
  have "consul_http other ''DELETE'' (CONSUL_KV_BASE_URL @ k) [] w = (Some (wrap (Obj (JBool True))), ?w)"
    using assms by (simp add: consul_http_def kv_request_plain KVSEndpoint_def KVSDelete_handler_def missingKey_def
      has_param_def Apply_def raftApply_def applyKVSOperation_def bool_reply_def)
  moreover have "consul_room n ?w" by (intro consul_room_delete consul_room_raft assms)
  moreover have "consul_kv ?w = (consul_kv w)(k := None)"
    by (auto simp: consul_kv_def KVSGet_KVSDelete fun_eq_iff) (simp add: KVSGet_def)
  ultimately show ?thesis by (simp add: wrap_def)
qed

locale consul_backed =
  fixes E :: "('x kvs_store_scheme, 'y) http_env_scheme"
    and other :: "string \<Rightarrow> string \<Rightarrow> bytes \<Rightarrow> 'x kvs_store_scheme \<Rightarrow> (int \<times> bytes) option \<times> 'x kvs_store_scheme"
  assumes agent: "http E = consul_http other"

definition agent_key :: "string \<Rightarrow> bool" where
  "agent_key k \<longleftrightarrow> plain_key k \<and> k \<noteq> []"

sublocale consul_backed \<subseteq> kv_service E consul_kv consul_room agent_key
proof (unfold_locales, goal_cases)
  case (1 k) then show ?case by (simp add: agent_key_def plain_key_url)
next
  case (2 k i) then show ?case using plain_key_cas_url[of k i] by (simp add: agent_key_def)
next
  case (3 n w) then show ?case by (simp add: consul_room_def)
next
  case (4 n w k v i)
  then show ?case by (auto simp: consul_room_def consul_kv_def list_all_iff row_ok_def dest!: KVSGet_Some)
next
  case (5 n w k v i)
  then obtain d where d: "KVSGet k w = Some d" "v = de_Value d" "i = de_ModifyIndex d" by (auto simp: consul_kv_def)
  have "list_all (row_ok (raft_index w)) [d]" "raft_index w < 2 ^ 63"
    using 5 KVSGet_Some[OF d(1)] by (auto simp: consul_room_def list_all_iff)
  from unmarshal_printed_entries[OF this] show ?case
    using consul_GET[of n w k other] 5 d by (simp add: agent agent_key_def)
next
  case (6 n w k)
  then show ?case using consul_GET[of n w k other] by (auto simp: agent agent_key_def consul_kv_def)
next
  case (7 n w k v i)
  have "i < 2 ^ 64"
  proof (cases "consul_kv w k")
    case None
    then show ?thesis using 7 by (simp add: cas_matches_def)
  next
    case (Some vi)
    then obtain d where "KVSGet k w = Some d" "i = de_ModifyIndex d" using 7 by (auto simp: cas_matches_def consul_kv_def)
    then have "i \<le> raft_index w" "raft_index w < 2 ^ 63"
      using 7(1) by (auto simp: consul_room_def list_all_iff row_ok_def dest!: KVSGet_Some)
    then show ?thesis by simp
  qed
  with 7 show ?case using consul_PUT[of n w k v i other] by (auto simp: agent agent_key_def)
next
  case (8 n w k v i)
  then show ?case using consul_PUT[of n w k v i other] by (auto simp: agent agent_key_def)
next
  case (9 n w k)
  then show ?case using consul_DELETE[of n w k other] by (auto simp: agent agent_key_def)
qed

definition consul_env :: "('x kvs_store_scheme) http_env" where
  "consul_env = \<lparr>http = consul_http (\<lambda>m url body w. (None, w)), range_order = (\<lambda>ks. ks)\<rparr>"

interpretation consul: consul_backed consul_env "\<lambda>m url body w. (None, w)"
  by unfold_locales (simp add: consul_env_def)

context consul_backed
begin

lemma is_datastore: "datastore E (agent_view consul_kv) (\<lambda>n s. \<not> offline s \<and> consul_room n (world s))
  (\<lambda>store key. agent_key (store @ ''/'' @ key) \<and> CHR ''/'' \<notin> set store)"
  by (rule online.datastore_axioms)

lemmas agent_absent = Get_online_absent
lemmas agent_present = Get_online_present

end

lemma consul_datastore:
  "http E = consul_http other \<Longrightarrow> datastore E (agent_view consul_kv) (\<lambda>n s. \<not> offline s \<and> consul_room n (world s))
    (\<lambda>store key. agent_key (store @ ''/'' @ key) \<and> CHR ''/'' \<notin> set store)"
  by (rule consul_backed.is_datastore[OF consul_backed.intro])

end
