(* ===== verification/Ipam.thy ===== *)
theory Ipam
  imports Addressing Consul
begin

section \<open>Address management (daemon/ipam.go)\<close>

text \<open>
  \<open>IPAMRequest\<close> and \<open>IPAMRelease\<close>: read the bit array of the subnet from the
  datastore, change it, write it back unless somebody else did in between, and
  start over if so.  The retry is the recursion of the source; the first argument
  is the number of attempts, and no attempt left is \<open>NoReturn\<close>.  A datastore
  nobody else writes needs one attempt; the interleavings of several nodes are the
  subject of \<open>Ipam_Concurrent\<close>.
\<close>

subsection \<open>The operations\<close>

definition dataStore :: string where
  "dataStore = ''ipam''"

fun IPAMRequest :: "nat \<Rightarrow> ('w, 'x) http_env_scheme \<Rightarrow> IPNet \<Rightarrow> (('w, 'z) ecc_state_scheme, bytes) comp" where
  "IPAMRequest 0 E subnet = liftO NoReturn"
| "IPAMRequest (Suc attempts) E subnet =
     bindM (Get E dataStore (ipnet_String subnet)) (\<lambda>(addrArray, _, ok).
     let currVal = go_copy (replicate (length addrArray) 0) addrArray in
     bindM (if \<not> ok then liftO (make_bytes (poolBytes subnet)) else retM addrArray) (\<lambda>addrArray.
     bindM (liftO (testAndSetBit addrArray)) (\<lambda>(pos, addrArray).
     bindM (thenM (write_through dataStore (ipnet_String subnet) ok addrArray)
              (Put E dataStore (ipnet_String subnet) addrArray currVal)) (\<lambda>eccerr.
     if eccerr = OUTDATED then IPAMRequest attempts E subnet
     else liftO (getIP subnet pos)))))"

fun IPAMRelease :: "nat \<Rightarrow> ('w, 'x) http_env_scheme \<Rightarrow> bytes \<Rightarrow> IPNet \<Rightarrow> (('w, 'z) ecc_state_scheme, bool) comp" where
  "IPAMRelease 0 E address subnet = liftO NoReturn"
| "IPAMRelease (Suc attempts) E address subnet =
     bindM (Get E dataStore (ipnet_String subnet)) (\<lambda>(addrArray, _, ok).
     let currVal = go_copy (replicate (length addrArray) 0) addrArray in
     if \<not> ok then retM False
     else
       bindM (liftO (getBitPosition address subnet)) (\<lambda>pos.
       bindM (liftO (clearBit addrArray (pos - 1))) (\<lambda>addrArray.
       bindM (thenM (write_through dataStore (ipnet_String subnet) ok addrArray)
                (Put E dataStore (ipnet_String subnet) addrArray currVal)) (\<lambda>eccerr.
       if eccerr = OUTDATED then IPAMRelease attempts E address subnet
       else retM True))))"

declare IPAMRequest.simps [simp del] IPAMRelease.simps [simp del]

subsection \<open>The pool of a subnet\<close>

text \<open>The bit array a request works on: the stored one, or a new one.\<close>

definition pool :: "IPNet \<Rightarrow> bytes option \<Rightarrow> bytes" where
  "pool n v = (case v of None \<Rightarrow> replicate (nat (poolBytes n)) 0 | Some a \<Rightarrow> a)"

lemma pool_simps [simp]: "pool n (Some a) = a" "pool n None = replicate (nat (poolBytes n)) 0"
  by (simp_all add: pool_def)

text \<open>The position of an address is its host part.\<close>

lemma getBitPosition_host:
  assumes "v4_net p n" "1 \<le> p" "length (To4 a) = 4"
  obtains q where "getBitPosition a n = Ret q" "unat q = ip_nat (To4 a) mod 2 ^ (32 - p)"
proof -
  obtain q where q: "getBitPosition a n = Ret q" "\<And>t. bit q t \<longleftrightarrow> t < 32 - p \<and> ip_bit (To4 a) t"
    using getBitPosition_v4[OF assms] by blast
  have "unat q = take_bit (32 - p) (ip_nat (To4 a))"
    using q(2) by (auto simp: bit_eq_iff bit_simps ip_nat_bit bit_unsigned_iff dest: bit_imp_le_length)
  then show ?thesis using q(1) that by (simp add: take_bit_eq_mod)
qed

lemma unat_minus_1_uint: "unat (q - 1 :: uint) = (if unat q = 0 then 2 ^ 64 - 1 else unat q - 1)"
proof (cases "unat q = 0")
  case True
  then have "q - 1 = - 1" by (simp add: unat_eq_0)
  then show ?thesis using True unsigned_minus_1_eq_mask[where ?'a = nat and ?'b = 64] by (simp add: mask_eq_exp_minus_1)
next
  case False
  then have "1 \<le> q" by (simp add: word_le_nat_alt)
  then show ?thesis using False by (simp add: unat_sub)
qed

lemma poolBytes_pos: "v4_net p n \<Longrightarrow> 0 < poolBytes n"
  by (simp add: poolBytes_v4)

lemma poolBytes_bound: "v4_net p n \<Longrightarrow> poolBytes n \<le> 2 ^ 29"
proof -
  assume a: "v4_net p n"
  have "(2::int) ^ (29 - p) \<le> 2 ^ 29" by (rule power_increasing) auto
  then show ?thesis using poolBytes_v4[OF a] by simp
qed

lemma make_pool: "v4_net p n \<Longrightarrow> make_bytes (poolBytes n) = Ret (pool n None)"
  using poolBytes_pos[of p n] poolBytes_bound[of p n] by (simp add: make_bytes_def pool_def)

lemma maxKVSize_bits: "length a \<le> maxKVSize \<Longrightarrow> 8 * length a < 2 ^ 64"
  by (simp add: maxKVSize_def)

lemma testAndSetBit_Ret:
  assumes "8 * length a < 2 ^ 64"
  obtains pos a' where "testAndSetBit a = Ret (pos, a')" "length a' = length a"
proof (cases "bits_of a = {..<8 * length a}")
  case True
  then show ?thesis using testAndSetBit_full[OF assms True] that by blast
next
  case False
  then show ?thesis using testAndSetBit_free[OF assms False] that by metis
qed

context datastore
begin

lemma IPAMRequest_run:
  assumes net: "v4_net p n" "1 \<le> p" and room: "room (Suc m) s" and key: "good_key dataStore (ipnet_String n)"
    and size: "length (pool n (view s dataStore (ipnet_String n))) \<le> maxKVSize"
  obtains pos a a' s' where
    "testAndSetBit (pool n (view s dataStore (ipnet_String n))) = Ret (pos, a')"
    "length a' = length (pool n (view s dataStore (ipnet_String n)))"
    "getIP n pos = Ret a"
    "\<And>f. IPAMRequest (Suc f) E n s = (Ret a, s')"
    "view s' = (view s)(dataStore := (view s dataStore)(ipnet_String n \<mapsto> a'))"
    "room m s'" "same_but_store s s'"
proof -
  let ?k = "ipnet_String n" and ?v = "view s dataStore (ipnet_String n)"
  define ok where "ok \<longleftrightarrow> ?v \<noteq> None"
  define old where "old = (case ?v of None \<Rightarrow> [] | Some a \<Rightarrow> a)"
  obtain i where g: "Get E dataStore ?k s = (Ret (old, i, ok), s)"
    using Get_view[OF room key] by (auto simp: ok_def old_def split: option.splits)
  have arr: "(if \<not> ok then liftO (make_bytes (poolBytes n)) else retM old) = retM (pool n ?v)"
    using make_pool[OF net(1)] by (auto simp: ok_def old_def pool_def liftO_def retM_def split: option.splits)
  obtain pos a' where t: "testAndSetBit (pool n ?v) = Ret (pos, a')" "length a' = length (pool n ?v)"
    using testAndSetBit_Ret[OF maxKVSize_bits[OF size]] by blast
  have v: "?v = (if ok then Some old else None)" by (auto simp: ok_def old_def split: option.splits)
  from Put_view[OF room key _ v, of a'] t(2) size obtain s' where p:
    "thenM (write_through dataStore ?k ok a') (Put E dataStore ?k a' old) s = (Ret OK, s')"
    "view s' = (view s)(dataStore := (view s dataStore)(?k \<mapsto> a'))" "room m s'" "same_but_store s s'"
    by auto
  obtain a where a: "getIP n pos = Ret a" using getIP_v4[OF net] by blast
  have "IPAMRequest (Suc f) E n s = (Ret a, s')" for f
    by (simp add: IPAMRequest.simps bindM_run retM_run liftO_run g arr p(1) t(1) a)
  with t a p that show ?thesis by blast
qed

text \<open>As many requests in a row as there are free positions.\<close>

lemma IPAMRequests_distinct:
  assumes net: "v4_net p n" "1 \<le> p" and key: "good_key dataStore (ipnet_String n)"
    and "room (k + m) s" "length (pool n (view s dataStore (ipnet_String n))) \<le> maxKVSize"
    and "8 * length (pool n (view s dataStore (ipnet_String n))) = cap"
    and "card (bits_of (pool n (view s dataStore (ipnet_String n)))) + k \<le> cap"
  shows "\<exists>as ks s' a'. repeatM k (IPAMRequest (Suc f) E n) s = (Ret as, s') \<and>
    length ks = k \<and> distinct ks \<and> set ks \<subseteq> {..<cap} - bits_of (pool n (view s dataStore (ipnet_String n))) \<and>
    list_all2 (\<lambda>a j. Contains n a \<and> length a = 4 \<and> ip_nat a = ip_nat (IP n) + Suc j mod 2 ^ (32 - p)) as ks \<and>
    (0 < k \<longrightarrow> view s' = (view s)(dataStore := (view s dataStore)(ipnet_String n \<mapsto> a'))) \<and>
    (0 < k \<longrightarrow> bits_of a' = bits_of (pool n (view s dataStore (ipnet_String n))) \<union> set ks) \<and>
    room m s' \<and> same_but_store s s'"
  using assms(4-)
proof (induction k arbitrary: s)
  case 0
  then show ?case by (simp add: run_simps)
next
  case (Suc k)
  let ?P = "\<lambda>s. pool n (view s dataStore (ipnet_String n))"
  have room: "room (Suc (k + m)) s" using Suc.prems(1) by simp
  have size: "length (?P s) \<le> maxKVSize" and len: "8 * length (?P s) = cap"
    and card: "card (bits_of (?P s)) + Suc k \<le> cap" using Suc.prems by simp_all
  have "bits_of (?P s) \<noteq> {..<8 * length (?P s)}"
  proof
    assume full: "bits_of (?P s) = {..<8 * length (?P s)}"
    then have "card (bits_of (?P s)) = 8 * length (?P s)" by (metis card_lessThan)
    then show False using card len by linarith
  qed
  then obtain j a' where j: "testAndSetBit (?P s) = Ret (of_nat (Suc j), a')" "j < 8 * length (?P s)"
    "j \<notin> bits_of (?P s)" "bits_of a' = insert j (bits_of (?P s))" "length a' = length (?P s)"
    using testAndSetBit_free[OF maxKVSize_bits[OF size]] by metis
  obtain a s' where r: "getIP n (of_nat (Suc j)) = Ret a" "\<And>f. IPAMRequest (Suc f) E n s = (Ret a, s')"
    "view s' = (view s)(dataStore := (view s dataStore)(ipnet_String n \<mapsto> a'))" "room (k + m) s'" "same_but_store s s'"
  proof (rule IPAMRequest_run[OF net room key size])
    fix pos b c t
    assume "testAndSetBit (?P s) = Ret (pos, c)" "getIP n pos = Ret b" "\<And>f. IPAMRequest (Suc f) E n s = (Ret b, t)"
      "view t = (view s)(dataStore := (view s dataStore)(ipnet_String n \<mapsto> c))" "room (k + m) t" "same_but_store s t"
    with j(1) that[of b t] show ?thesis by simp
  qed
  have "Suc j < 2 ^ 64" using j(2) maxKVSize_bits[OF size] by linarith
  then have u: "unat (of_nat (Suc j) :: uint) = Suc j" by (rule unat_of_nat_uint)
  have P': "?P s' = a'" using r(3) by (simp add: pool_def)
  have prem: "length a' \<le> maxKVSize" "8 * length a' = cap" "card (bits_of a') + k \<le> cap"
    using size len card j(3-5) by simp_all
  from Suc.IH[of s', unfolded P', OF r(4) prem] obtain as ks t b where t:
    "repeatM k (IPAMRequest (Suc f) E n) s' = (Ret as, t)" "length ks = k" "distinct ks"
    "set ks \<subseteq> {..<cap} - bits_of a'"
    "list_all2 (\<lambda>a j. Contains n a \<and> length a = 4 \<and> ip_nat a = ip_nat (IP n) + Suc j mod 2 ^ (32 - p)) as ks"
    "0 < k \<longrightarrow> view t = (view s')(dataStore := (view s' dataStore)(ipnet_String n \<mapsto> b))"
    "0 < k \<longrightarrow> bits_of b = bits_of a' \<union> set ks" "room m t" "same_but_store s' t"
    by (elim exE conjE)
  define c where "c = (if 0 < k then b else a')"
  have run: "repeatM (Suc k) (IPAMRequest (Suc f) E n) s = (Ret (a # as), t)"
    using r(2) t(1) by (simp add: run_simps)
  have adr: "Contains n a \<and> length a = 4 \<and> ip_nat a = ip_nat (IP n) + Suc j mod 2 ^ (32 - p)"
    using getIP_network_bits[OF net r(1)] u by simp
  have vt: "view t = (view s)(dataStore := (view s dataStore)(ipnet_String n \<mapsto> c))"
    using t(6) t(1) r(3) by (cases k) (auto simp: c_def run_simps)
  have bc: "bits_of c = bits_of (?P s) \<union> set (j # ks)"
    using t(2,7) j(4) by (cases k) (auto simp: c_def)
  have "distinct (j # ks)" "length (j # ks) = Suc k"
    "set (j # ks) \<subseteq> {..<cap} - bits_of (?P s)"
    using t(2-4) j(2-4) len by auto
  moreover have "list_all2 (\<lambda>a j. Contains n a \<and> length a = 4 \<and> ip_nat a = ip_nat (IP n) + Suc j mod 2 ^ (32 - p)) (a # as) (j # ks)"
    using adr t(5) by simp
  ultimately show ?case
    using run vt bc t(8) same_but_store_trans[OF r(5) t(9)]
    by (intro exI[of _ "a # as"] exI[of _ "j # ks"] exI[of _ t] exI[of _ c] conjI impI)
qed

text \<open>A full pool gives out the network address, again and again, and is not changed.\<close>

lemma IPAMRequest_exhausted:
  assumes net: "v4_net p n" "1 \<le> p" "p \<le> 29" and room: "room (Suc m) s" and key: "good_key dataStore (ipnet_String n)"
    and v: "view s dataStore (ipnet_String n) = Some a" "length a \<le> maxKVSize" "8 * length a = 2 ^ (32 - p)"
    and full: "bits_of a = {..<8 * length a}"
  shows "\<exists>s'. IPAMRequest (Suc f) E n s = (Ret (IP n), s') \<and> view s' = view s \<and> room m s' \<and> same_but_store s s'"
proof -
  have P: "pool n (view s dataStore (ipnet_String n)) = a" by (simp add: v pool_def)
  have t: "testAndSetBit a = Ret (of_nat (8 * length a), a)"
    by (rule testAndSetBit_full[OF maxKVSize_bits[OF v(2)] full])
  obtain b s' where r: "getIP n (of_nat (8 * length a)) = Ret b" "\<And>f. IPAMRequest (Suc f) E n s = (Ret b, s')"
    "view s' = (view s)(dataStore := (view s dataStore)(ipnet_String n \<mapsto> a))" "room m s'" "same_but_store s s'"
  proof (rule IPAMRequest_run[OF net(1,2) room key])
    show "length (pool n (view s dataStore (ipnet_String n))) \<le> maxKVSize" using v by (simp add: P)
  next
    fix pos b c t'
    assume x: "testAndSetBit (pool n (view s dataStore (ipnet_String n))) = Ret (pos, c)" "getIP n pos = Ret b"
      "\<And>f. IPAMRequest (Suc f) E n s = (Ret b, t')"
      "view t' = (view s)(dataStore := (view s dataStore)(ipnet_String n \<mapsto> c))" "room m t'" "same_but_store s t'"
    have pc: "pos = of_nat (8 * length a)" "c = a" using x(1) t by (auto simp: P)
    from x(2-)[unfolded pc] show ?thesis by (rule that)
  qed
  have l: "length (IP n) = 4" using net(1) by (simp add: v4_net_def)
  have "unat (of_nat (8 * length a) :: uint) = 2 ^ (32 - p)"
    using unat_of_nat_uint[OF maxKVSize_bits[OF v(2)]] v(3) by simp
  then have "ip_nat b = ip_nat (IP n)" "length b = 4"
    using getIP_network_bits[OF net(1,2) r(1)] by simp_all
  then have "b = IP n" using ip_nat_inj[of b "IP n"] l by simp
  moreover have "view s' = view s" using r(3) v(1) by (auto simp: fun_eq_iff)
  ultimately show ?thesis using r by blast
qed

text \<open>
  A release clears the position of the host part of the address.  The network
  address has the host part zero, whose position minus one wraps around; it and a
  host part beyond the array end in a panic, which leaves the store alone.
\<close>

lemma IPAMRelease_run:
  assumes net: "v4_net p n" "1 \<le> p" and room: "room (Suc m) s" and key: "good_key dataStore (ipnet_String n)"
    and v: "view s dataStore (ipnet_String n) = Some arr" "length arr \<le> maxKVSize" and a: "length (To4 a) = 4"
    and h: "h = ip_nat (To4 a) mod 2 ^ (32 - p)" "1 \<le> h" "h \<le> 8 * length arr"
  obtains arr' s' where "\<And>f. IPAMRelease (Suc f) E a n s = (Ret True, s')"
    "bits_of arr' = bits_of arr - {h - 1}" "length arr' = length arr"
    "view s' = (view s)(dataStore := (view s dataStore)(ipnet_String n \<mapsto> arr'))"
    "room m s'" "same_but_store s s'"
proof -
  let ?k = "ipnet_String n"
  obtain i where g: "Get E dataStore ?k s = (Ret (arr, i, True), s)"
    using Get_present[OF room key v(1)] by blast
  obtain q where q: "getBitPosition a n = Ret q" "unat q = h"
    using getBitPosition_host[OF net a] h(1) by metis
  then have "unat (q - 1) = h - 1" using h(2) by (simp add: unat_minus_1_uint)
  moreover from this have "unat (q - 1) < 8 * length arr" using h(2,3) by simp
  ultimately obtain arr' where c: "clearBit arr (q - 1) = Ret arr'" "bits_of arr' = bits_of arr - {h - 1}"
    "length arr' = length arr"
    using clearBit_Ret by metis
  from Put_view[OF room key, of arr' True arr] c(3) v obtain s' where p:
    "thenM (write_through dataStore ?k True arr') (Put E dataStore ?k arr' arr) s = (Ret OK, s')"
    "view s' = (view s)(dataStore := (view s dataStore)(?k \<mapsto> arr'))" "room m s'" "same_but_store s s'"
    by auto
  have "IPAMRelease (Suc f) E a n s = (Ret True, s')" for f
    by (simp add: IPAMRelease.simps bindM_run retM_run liftO_run g q(1) c(1) p(1))
  with c p that show ?thesis by blast
qed

lemma IPAMRelease_panics:
  assumes net: "v4_net p n" "1 \<le> p" and room: "room m s" and key: "good_key dataStore (ipnet_String n)"
    and v: "view s dataStore (ipnet_String n) = Some arr" "length arr \<le> maxKVSize" and a: "length (To4 a) = 4"
    and h: "h = ip_nat (To4 a) mod 2 ^ (32 - p)" "h = 0 \<or> 8 * length arr < h"
  shows "IPAMRelease (Suc f) E a n s = (index_panic, s)"
proof -
  obtain i where g: "Get E dataStore (ipnet_String n) s = (Ret (arr, i, True), s)"
    using Get_present[OF room key v(1)] by blast
  obtain q where q: "getBitPosition a n = Ret q" "unat q = h"
    using getBitPosition_host[OF net a] h(1) by metis
  have "\<not> unat (q - 1) < 8 * length arr"
    using h(2) q(2) maxKVSize_bits[OF v(2)] by (auto simp: unat_minus_1_uint)
  then have "clearBit arr (q - 1) = index_panic" by (simp add: clearBit_eq)
  then show ?thesis
    by (simp add: IPAMRelease.simps bindM_run retM_run liftO_run g q(1) index_panic_def)
qed

lemma IPAMRelease_no_pool:
  assumes "room m s" "good_key dataStore (ipnet_String n)" "view s dataStore (ipnet_String n) = None"
  shows "IPAMRelease (Suc f) E a n s = (Ret False, s)"
proof -
  obtain i where "Get E dataStore (ipnet_String n) s = (Ret ([], i, False), s)"
    using Get_absent[OF assms] by blast
  then show ?thesis by (simp add: IPAMRelease.simps bindM_run retM_run)
qed

end

subsection \<open>The keys of pools\<close>

lemma split_on_append: "d \<notin> set a \<Longrightarrow> split_on d (a @ d # r) = a # split_on d r"
  by (induction a) auto

lemma is_digit_plain: "is_digit c \<Longrightarrow> plain_char c"
proof -
  assume "is_digit c"
  moreover have "int (code c) = of_char c" unfolding code_def by (rule of_nat_of_char)
  ultimately show ?thesis by (simp add: plain_char_def is_digit_def Let_def)
qed

lemma plain_char_simps [simp]: "plain_char CHR ''.''" "plain_char CHR ''/''"
  by (simp_all add: plain_char_def)

lemma plain_itod: "list_all plain_char (itod n)"
  using itod_chars by (auto simp: list_all_iff intro: is_digit_plain)

lemma dotted_Cons: "\<exists>c cs. dotted a = c # cs \<and> is_digit c"
  using itod_Cons[of "unat (a ! 0)"] by (auto simp: dotted_def)

lemma plain_dotted: "list_all plain_char (dotted a)"
  by (simp add: dotted_def plain_itod)

lemma agent_key_subnet:
  assumes "v4_net p n"
  shows "agent_key (dataStore @ ''/'' @ ipnet_String n) \<and> CHR ''/'' \<notin> set dataStore"
proof -
  have k: "dataStore @ ''/'' @ ipnet_String n = ''ipam'' @ CHR ''/'' # dotted (IP n) @ CHR ''/'' # itod p"
    by (simp add: dataStore_def ipnet_String_v4[OF assms])
  have sp: "split_on (CHR ''/'') (dataStore @ ''/'' @ ipnet_String n) = [''ipam'', dotted (IP n), itod p]"
    unfolding k using dotted_no_slash itod_no_slash
    by (simp add: split_on_append split_on_absent del: split_on.simps append.simps)
  obtain c cs where "dotted (IP n) = c # cs" "is_digit c" using dotted_Cons by blast
  moreover obtain d ds where "itod p = d # ds" "is_digit d" using itod_Cons by blast
  moreover have "list_all plain_char (dataStore @ ''/'' @ ipnet_String n)"
    unfolding k using plain_dotted[of "IP n"] plain_itod[of p] by simp (simp add: plain_char_def)
  ultimately show ?thesis
    unfolding agent_key_def plain_key_def sp by (auto simp: dataStore_def is_digit_def)
qed


lemma v4_net_aligned: "v4_net p n \<Longrightarrow> ip_nat (IP n) mod 2 ^ (32 - p) = 0"
proof -
  assume "v4_net p n"
  then have "take_bit (32 - p) (ip_nat (IP n)) = 0"
    using v4_net_host_bits by (auto simp: bit_eq_iff bit_simps ip_nat_bit)
  then show ?thesis by (simp add: take_bit_eq_mod)
qed

lemma v4_net_host_part: "v4_net p n \<Longrightarrow> h < 2 ^ (32 - p) \<Longrightarrow> (ip_nat (IP n) + h) mod 2 ^ (32 - p) = h"
  by (subst mod_add_eq[symmetric]) (simp add: v4_net_aligned)

lemma Suc_mod_inj: "i < M \<Longrightarrow> j < M \<Longrightarrow> Suc i mod M = Suc j mod M \<longleftrightarrow> i = j"
  by (cases "Suc i = M"; cases "Suc j = M") auto

lemma list_all2_set1: "list_all2 P xs ys \<Longrightarrow> x \<in> set xs \<Longrightarrow> \<exists>y\<in>set ys. P x y"
  by (induction rule: list_all2_induct) auto

lemma addresses_distinct:
  assumes "list_all2 (\<lambda>a j. Contains n a \<and> length a = 4 \<and> ip_nat a = b + Suc j mod M) as ks"
    "distinct ks" "set ks \<subseteq> {..<M} - U" "U \<subseteq> {..<M}"
  shows "distinct as \<and> (\<forall>a\<in>set as. Contains n a \<and> (\<forall>j\<in>U. ip_nat a \<noteq> b + Suc j mod M))"
  using assms(1-3)
proof (induction rule: list_all2_induct)
  case (Cons a as k ks)
  have k: "k < M" "k \<notin> U" using Cons.prems by auto
  have "a \<notin> set as"
  proof
    assume "a \<in> set as"
    then obtain j where "j \<in> set ks" "ip_nat a = b + Suc j mod M"
      using list_all2_set1[OF Cons.hyps(2)] by blast
    then show False using Cons.hyps(1) Cons.prems k Suc_mod_inj[of k M j] by auto
  qed
  moreover have "ip_nat a \<noteq> b + Suc j mod M" if "j \<in> U" for j
    using Cons.hyps(1) k that assms(4) Suc_mod_inj[of k M j] by auto
  ultimately show ?case using Cons by auto
qed simp

text \<open>The pool of a subnet a node that is online works on, and one that is not.\<close>

definition agent_pool :: "('x kvs_store_scheme, 'z) ecc_state_scheme \<Rightarrow> IPNet \<Rightarrow> bytes" where
  "agent_pool s n = pool n (agent_view consul_kv s dataStore (ipnet_String n))"

definition cache_pool :: "('w, 'z) ecc_state_scheme \<Rightarrow> IPNet \<Rightarrow> bytes" where
  "cache_pool s n = pool n (cache_view s dataStore (ipnet_String n))"

lemma pool_fits:
  assumes "10 \<le> p" "p \<le> (29 :: nat)" "8 * l = 2 ^ (32 - p)"
  shows "l \<le> maxKVSize"
proof -
  have "(2::nat) ^ (32 - p) \<le> 2 ^ 22" by (rule power_increasing) (use assms in auto)
  then show ?thesis using assms(3) by (simp add: maxKVSize_def)
qed

context datastore
begin

text \<open>What the two properties below say of the datastore they are about.\<close>

lemma IPAMRequests_fresh_addresses:
  assumes net: "v4_net p n" "10 \<le> p" "p \<le> 29" and key: "good_key dataStore (ipnet_String n)"
    and room: "room (k + m) s" and P: "P = pool n (view s dataStore (ipnet_String n))"
    and len: "8 * length P = 2 ^ (32 - p)" and free: "card (bits_of P) + k \<le> 2 ^ (32 - p)"
  shows "\<exists>as s'. repeatM k (IPAMRequest (Suc f) E n) s = (Ret as, s') \<and> length as = k \<and> distinct as \<and>
    (\<forall>a\<in>set as. Contains n a \<and> (\<forall>j\<in>bits_of P. ip_nat a \<noteq> ip_nat (IP n) + Suc j mod 2 ^ (32 - p))) \<and>
    card (bits_of (pool n (view s' dataStore (ipnet_String n)))) = card (bits_of P) + k \<and> room m s'"
proof -
  have "length P \<le> maxKVSize" using pool_fits[OF net(2,3) len] .
  with IPAMRequests_distinct[OF net(1) _ key room, of "2 ^ (32 - p)" f] net P len free
  obtain as ks s' a' where *: "repeatM k (IPAMRequest (Suc f) E n) s = (Ret as, s')"
    "length ks = k" "distinct ks" "set ks \<subseteq> {..<2 ^ (32 - p)} - bits_of P"
    "list_all2 (\<lambda>a j. Contains n a \<and> length a = 4 \<and> ip_nat a = ip_nat (IP n) + Suc j mod 2 ^ (32 - p)) as ks"
    "0 < k \<longrightarrow> view s' = (view s)(dataStore := (view s dataStore)(ipnet_String n \<mapsto> a'))"
    "0 < k \<longrightarrow> bits_of a' = bits_of P \<union> set ks" "room m s'"
    by auto
  have U: "bits_of P \<subseteq> {..<2 ^ (32 - p)}" using bits_of_subset[of P] len by simp
  have "card (bits_of (pool n (view s' dataStore (ipnet_String n)))) = card (bits_of P) + k"
  proof (cases k)
    case 0
    then show ?thesis using *(1) P by (simp add: run_simps)
  next
    case Suc
    have "bits_of P \<inter> set ks = {}" using *(4) by auto
    then have "card (bits_of P \<union> set ks) = card (bits_of P) + k"
      using *(2,3) by (simp add: card_Un_disjoint distinct_card)
    then show ?thesis using *(6,7) Suc by simp
  qed
  moreover have "length as = k" using *(2,5) by (simp add: list_all2_lengthD)
  ultimately show ?thesis using addresses_distinct[OF *(5,3,4) U] *(1,8) by blast
qed

text \<open>A request takes the least free position, below the last one when two are free.\<close>

lemma IPAMRequest_least:
  assumes net: "v4_net p n" "10 \<le> p" "p \<le> 29" and key: "good_key dataStore (ipnet_String n)"
    and room: "room (Suc m) s" and P: "P = pool n (view s dataStore (ipnet_String n))"
    and len: "8 * length P = 2 ^ (32 - p)" and free: "card (bits_of P) + 1 < 2 ^ (32 - p)"
  obtains k a a' s' where "Suc k < 2 ^ (32 - p)" "k \<notin> bits_of P" "bits_of a' = insert k (bits_of P)" "length a' = length P"
    "\<And>f. IPAMRequest (Suc f) E n s = (Ret a, s')" "length a = 4" "Contains n a" "ip_nat a = ip_nat (IP n) + Suc k"
    "view s' = (view s)(dataStore := (view s dataStore)(ipnet_String n \<mapsto> a'))" "room m s'" "same_but_store s s'"
proof -
  have size: "length P \<le> maxKVSize" by (rule pool_fits[OF net(2,3) len])
  have p1: "1 \<le> p" using net(2) by simp
  have "bits_of P \<noteq> {..<8 * length P}"
  proof
    assume "bits_of P = {..<8 * length P}"
    then have "card (bits_of P) = 8 * length P" by (metis card_lessThan)
    then show False using free len by linarith
  qed
  then obtain k a' where k: "testAndSetBit P = Ret (of_nat (Suc k), a')" "k < 8 * length P" "k \<notin> bits_of P"
    "{..<k} \<subseteq> bits_of P" "bits_of a' = insert k (bits_of P)" "length a' = length P"
    using testAndSetBit_free[OF maxKVSize_bits[OF size]] by metis
  have "k \<le> card (bits_of P)" using card_mono[OF finite_bits_of k(4)] by simp
  then have kM: "Suc k < 2 ^ (32 - p)" using free by linarith
  obtain a s1 where r: "getIP n (of_nat (Suc k)) = Ret a" "\<And>f. IPAMRequest (Suc f) E n s = (Ret a, s1)"
    "view s1 = (view s)(dataStore := (view s dataStore)(ipnet_String n \<mapsto> a'))" "room m s1" "same_but_store s s1"
  proof (rule IPAMRequest_run[OF net(1) p1 room key])
    fix pos b c t
    assume x: "testAndSetBit (pool n (view s dataStore (ipnet_String n))) = Ret (pos, c)" "getIP n pos = Ret b"
      "\<And>f. IPAMRequest (Suc f) E n s = (Ret b, t)"
      "view t = (view s)(dataStore := (view s dataStore)(ipnet_String n \<mapsto> c))" "room m t" "same_but_store s t"
    have pc: "pos = of_nat (Suc k)" "c = a'" using x(1) k(1) by (auto simp: P)
    from x(2-)[unfolded pc] show ?thesis by (rule that)
  qed (use size P in simp)
  have "unat (of_nat (Suc k) :: uint) = Suc k"
    using unat_of_nat_uint[of "Suc k"] k(2) maxKVSize_bits[OF size] by linarith
  then have a: "length a = 4" "Contains n a" "ip_nat a = ip_nat (IP n) + Suc k"
    using getIP_network_bits[OF net(1) p1 r(1)] kM by simp_all
  show ?thesis by (rule that[OF kM k(3,5,6) r(2) a r(3-5)])
qed

text \<open>Releasing an address frees its position.\<close>

lemma IPAMRelease_frees:
  assumes net: "v4_net p n" "10 \<le> p" "p \<le> 29" and key: "good_key dataStore (ipnet_String n)"
    and room: "room (Suc m) s" and v: "view s dataStore (ipnet_String n) = Some arr" "8 * length arr = 2 ^ (32 - p)"
    and a: "length (To4 a) = 4" "ip_nat (To4 a) = ip_nat (IP n) + Suc k" "Suc k < 2 ^ (32 - p)"
  obtains arr' s' where "\<And>f. IPAMRelease (Suc f) E a n s = (Ret True, s')" "bits_of arr' = bits_of arr - {k}" "length arr' = length arr"
    "view s' = (view s)(dataStore := (view s dataStore)(ipnet_String n \<mapsto> arr'))" "room m s'" "same_but_store s s'"
proof -
  have p1: "1 \<le> p" using net(2) by simp
  have h: "Suc k = ip_nat (To4 a) mod 2 ^ (32 - p)" "1 \<le> Suc k" "Suc k \<le> 8 * length arr"
    using v4_net_host_part[OF net(1) a(3)] a v(2) by simp_all
  show ?thesis
    by (rule IPAMRelease_run[OF net(1) p1 room key v(1) pool_fits[OF net(2,3) v(2)] a(1) h]) (rule that, simp_all)
qed

text \<open>A request and the release of what it returned leave the held positions as they were.\<close>

lemma IPAMRelease_undoes_request:
  assumes net: "v4_net p n" "10 \<le> p" "p \<le> 29" and key: "good_key dataStore (ipnet_String n)"
    and room: "room 2 s" and P: "P = pool n (view s dataStore (ipnet_String n))"
    and len: "8 * length P = 2 ^ (32 - p)" and free: "card (bits_of P) + 1 < 2 ^ (32 - p)"
  shows "\<exists>a s1 s2. IPAMRequest (Suc f) E n s = (Ret a, s1) \<and> IPAMRelease (Suc g) E a n s1 = (Ret True, s2) \<and>
    bits_of (pool n (view s2 dataStore (ipnet_String n))) = bits_of P"
proof -
  have r2: "room (Suc (Suc 0)) s" using room by (simp add: numeral_2_eq_2)
  obtain k a a' s1 where r: "Suc k < 2 ^ (32 - p)" "k \<notin> bits_of P" "bits_of a' = insert k (bits_of P)" "length a' = length P"
    "\<And>f. IPAMRequest (Suc f) E n s = (Ret a, s1)" "length a = 4" "Contains n a" "ip_nat a = ip_nat (IP n) + Suc k"
    "view s1 = (view s)(dataStore := (view s dataStore)(ipnet_String n \<mapsto> a'))" "room (Suc 0) s1" "same_but_store s s1"
    by (rule IPAMRequest_least[OF net key r2 P len free]) (rule that)
  have v1: "view s1 dataStore (ipnet_String n) = Some a'" "8 * length a' = 2 ^ (32 - p)"
    "length (To4 a) = 4" "ip_nat (To4 a) = ip_nat (IP n) + Suc k"
    using r(4,6,8,9) len by simp_all
  obtain arr' s2 where c: "\<And>f. IPAMRelease (Suc f) E a n s1 = (Ret True, s2)" "bits_of arr' = bits_of a' - {k}"
    "view s2 = (view s1)(dataStore := (view s1 dataStore)(ipnet_String n \<mapsto> arr'))"
    by (rule IPAMRelease_frees[OF net key r(10) v1 r(1)]) (rule that)
  have "bits_of arr' = bits_of P" using c(2) r(2,3) by auto
  then show ?thesis using r(5)[of f] c(1)[of g] c(3) by (intro exI[of _ a] exI[of _ s1] exI[of _ s2]) simp
qed

text \<open>More requests than the subnet has addresses.\<close>

lemma IPAMRequests_repeat:
  assumes net: "v4_net p n" "30 \<le> p" and key: "good_key dataStore (ipnet_String n)"
    and room: "room (k + m) s" and new: "view s dataStore (ipnet_String n) = None"
    and k: "2 ^ (32 - p) < k" "k \<le> 8"
  shows "\<exists>as s'. repeatM k (IPAMRequest (Suc f) E n) s = (Ret as, s') \<and> length as = k \<and> \<not> distinct as"
proof -
  let ?M = "2 ^ (32 - p) :: nat"
  have P: "pool n (view s dataStore (ipnet_String n)) = [0]" using new net poolBytes_v4[OF net(1)] by simp
  have z: "bits_of [0 :: byte] = {}" using bits_of_zero[of 1] by simp
  from IPAMRequests_distinct[OF net(1) _ key room, of 8 f] net(2) k(2)
  obtain as ks s' where *: "repeatM k (IPAMRequest (Suc f) E n) s = (Ret as, s')" "length ks = k"
    "list_all2 (\<lambda>a j. Contains n a \<and> length a = 4 \<and> ip_nat a = ip_nat (IP n) + Suc j mod ?M) as ks"
    unfolding P z by (auto simp: maxKVSize_def)
  have "ip_nat ` set as \<subseteq> {ip_nat (IP n)..<ip_nat (IP n) + ?M}"
    using list_all2_set1[OF *(3)] by fastforce
  then have "card (ip_nat ` set as) \<le> ?M" using card_mono[of "{ip_nat (IP n)..<ip_nat (IP n) + ?M}"] by simp
  moreover have "inj_on ip_nat (set as)"
  proof (rule inj_onI)
    fix x y assume "x \<in> set as" "y \<in> set as" "ip_nat x = ip_nat y"
    then show "x = y" using ip_nat_inj[of x y] list_all2_set1[OF *(3)] by fastforce
  qed
  ultimately have "card (set as) \<le> ?M" by (simp add: card_image)
  then have "\<not> distinct as" using distinct_card[of as] k(1) *(2,3) by (auto dest: list_all2_lengthD)
  then show ?thesis using * by (auto dest: list_all2_lengthD)
qed

end

text \<open>The agent refuses a value of more than 512 KiB, and \<open>Put\<close> takes the refusal for success.\<close>

lemma consul_PUT_too_large:
  assumes "plain_key k" "k \<noteq> []" "maxKVSize < length v"
  shows "\<exists>body. consul_http other ''PUT'' (CONSUL_KV_BASE_URL @ k @ ''?cas='' @ itod 0) v w = (Some (413, body), w) \<and>
    str body \<noteq> ''false''"
proof -
  have "ParseUint (itod 0) = Some 0" using ParseUint_itod[of 0] by simp
  then show ?thesis
    using assms by (simp add: consul_http_def kv_request_cas[simplified] KVSEndpoint_def KVSPut_handler_def missingKey_def
      has_param_def param_def Let_def wrap_def)
qed

lemma Put_too_large:
  assumes E: "http E = consul_http other" and s: "\<not> offline s" "consul_room m (world s)"
    and key: "agent_key (store @ ''/'' @ key)" and new: "consul_kv (world s) (store @ ''/'' @ key) = None"
    and v: "maxKVSize < length v"
  shows "Put E store key v old s = (Ret OK, s)"
proof -
  let ?k = "store @ ''/'' @ key"
  have c: "consul_backed E other" using E by (rule consul_backed.intro)
  have g: "Get E store key s = (Ret ([], 0, False), s)"
    by (rule consul_backed.agent_absent[OF c s(2,1) key new])
  obtain body where p: "http E ''PUT'' (CONSUL_KV_BASE_URL @ ?k @ ''?cas='' @ itod 0) v (world s) = (Some (413, body), world s)"
    "str body \<noteq> ''false''"
    using consul_PUT_too_large[of ?k v other "world s"] key v unfolding E agent_key_def by blast
  have "client_Do E ''PUT'' (CONSUL_KV_BASE_URL @ ?k @ ''?cas='' @ fmt_d 0) v s = (Ret (Some (413, body)), s)"
    using p(1) plain_key_cas_url[of ?k 0] key by (simp add: client_Do_def http_do_def fmt_d_def agent_key_def)
  then show ?thesis using g s(1) p(2) by (simp add: Put_def Put_cas_def run_simps)
qed

lemma testAndSetBit_fresh:
  assumes "0 < N" "8 * N < 2 ^ 64"
  obtains a' where "testAndSetBit (replicate N 0) = Ret (1, a')" "length a' = N"
proof -
  have "0 \<in> {..<8 * length (replicate N (0 :: byte))}" using assms(1) by simp
  then have ne: "bits_of (replicate N 0) \<noteq> {..<8 * length (replicate N (0 :: byte))}" unfolding bits_of_zero by blast
  have "8 * length (replicate N (0 :: byte)) < 2 ^ 64" using assms(2) by simp
  then obtain k a' where k: "testAndSetBit (replicate N 0) = Ret (of_nat (Suc k), a')"
    "{..<k} \<subseteq> bits_of (replicate N 0)" "length a' = N"
    using testAndSetBit_free[OF _ ne] by (metis length_replicate)
  then have "k = 0" by auto
  with k that show ?thesis by simp
qed

lemma IPAMRequest_oversized:
  assumes E: "http E = consul_http other" and s: "\<not> offline s" "consul_room m (world s)"
    and net: "v4_net p n" "1 \<le> p" "p \<le> 9" and new: "agent_view consul_kv s dataStore (ipnet_String n) = None"
  shows "\<exists>a. IPAMRequest (Suc f) E n s = (Ret a, s) \<and> length a = 4 \<and> ip_nat a = ip_nat (IP n) + 1"
proof -
  let ?k = "dataStore @ ''/'' @ ipnet_String n"
  have key: "agent_key ?k" "CHR ''/'' \<notin> set dataStore" using agent_key_subnet[OF net(1)] by auto
  then have kv: "consul_kv (world s) ?k = None" using new by (simp add: agent_view_def)
  have pb: "poolBytes n = 2 ^ (29 - p)" using poolBytes_v4[OF net(1)] net(3) by simp
  have "(2::int) ^ 20 \<le> 2 ^ (29 - p)" by (rule power_increasing) (use net in auto)
  then have big: "2 ^ 20 \<le> nat (poolBytes n)" unfolding pb by simp
  have "nat (poolBytes n) \<le> 2 ^ 29" using poolBytes_bound[OF net(1)] by simp
  then obtain a' where t: "testAndSetBit (replicate (nat (poolBytes n)) 0) = Ret (1, a')" "length a' = nat (poolBytes n)"
    using testAndSetBit_fresh[of "nat (poolBytes n)"] poolBytes_pos[OF net(1)] by auto
  have big': "maxKVSize < length a'" using t(2) big by (simp add: maxKVSize_def)
  have put: "Put E dataStore (ipnet_String n) a' [] s = (Ret OK, s)"
    by (rule Put_too_large[OF E s key(1) kv big'])
  have g: "Get E dataStore (ipnet_String n) s = (Ret ([], 0, False), s)"
    by (rule consul_backed.agent_absent[OF consul_backed.intro[OF E] s(2,1) key(1) kv])
  obtain a where a: "getIP n 1 = Ret a" using getIP_v4[OF net(1,2)] by blast
  have "length a = 4" "ip_nat a = ip_nat (IP n) + 1" using getIP_network_bits[OF net(1,2) a] net(3) by simp_all
  moreover have "IPAMRequest (Suc f) E n s = (Ret a, s)"
    by (simp add: IPAMRequest.simps run_simps write_through_def g make_pool[OF net(1)] t(1) put a s(1))
  ultimately show ?thesis by blast
qed


subsection \<open>Nodes for the witnesses\<close>

text \<open>A node that is online, whose agent holds one pool, or none.\<close>

definition pool_row :: "IPNet \<Rightarrow> bytes \<Rightarrow> DirEntry" where
  "pool_row n a = \<lparr>de_CreateIndex = 1, de_ModifyIndex = 1, de_LockIndex = 0,
     de_Key = dataStore @ ''/'' @ ipnet_String n, de_Flags = 0, de_Value = a, de_Session = []\<rparr>"

definition node :: "DirEntry list \<Rightarrow> kvs_store ecc_state" where
  "node rows = \<lparr>world = \<lparr>kvsTable = rows, tombstoneTable = [], sessionTable = [], lockDelay = [],
       kvsLastIndex = 1, raft_index = 1\<rparr>,
     started = True, OfflineSupport = True, ecc_cache = [], spawned = []\<rparr>"

lemma node_online [simp]: "\<not> offline (node rows)"
  by (simp add: node_def offline_def)

lemma node_view [simp]: "agent_view consul_kv (node []) store key = None"
  by (simp add: node_def agent_view_def consul_kv_def KVSGet_def get_id_def)

lemma node_pool_view: "v4_net p n \<Longrightarrow> agent_view consul_kv (node [pool_row n a]) dataStore (ipnet_String n) = Some a"
  using agent_key_subnet[of p n]
  by (simp add: node_def agent_view_def consul_kv_def KVSGet_def get_id_def pool_row_def)

lemma node_room: "k + 1 < 2 ^ 63 \<Longrightarrow> consul_room k (world (node []))"
  by (simp add: node_def consul_room_def)

lemma node_pool_room: "v4_net p n \<Longrightarrow> k + 1 < 2 ^ 63 \<Longrightarrow> consul_room k (world (node [pool_row n a]))"
  using agent_key_subnet[of p n] plain_key_chars[of "dataStore @ ''/'' @ ipnet_String n"]
  by (simp add: node_def consul_room_def row_ok_def pool_row_def agent_key_def)

definition net24 :: IPNet where
  "net24 = \<lparr>IP = [10, 1, 2, 0], Mask = CIDRMask 24 32\<rparr>"

definition net29 :: IPNet where
  "net29 = \<lparr>IP = [10, 1, 2, 0], Mask = CIDRMask 29 32\<rparr>"

definition net30 :: IPNet where
  "net30 = \<lparr>IP = [10, 1, 2, 0], Mask = CIDRMask 30 32\<rparr>"

definition net8 :: IPNet where
  "net8 = \<lparr>IP = [10, 0, 0, 0], Mask = CIDRMask 8 32\<rparr>"

lemma v4_nets: "v4_net 24 net24" "v4_net 29 net29" "v4_net 30 net30" "v4_net 8 net8"
  by (simp_all add: v4_net_def CIDRMask_def ip_Mask_def net24_def net29_def net30_def net8_def)

lemma node_pool_new: "v4_net p n \<Longrightarrow> agent_pool (node []) n = replicate (nat (poolBytes n)) 0"
  by (simp add: agent_pool_def)

subsection \<open>Properties\<close>

text \<open>C6. On a node whose agent serves the datastore, as long as nobody else writes the
  pool of a subnet with a prefix of 10 to 29 bits: any number of requests up to the
  number of free positions return after one attempt each; the addresses lie in the
  subnet, are pairwise different, and none of them was held before; each takes one
  position of the pool.\<close>

theorem ipam_requests_distinct:
  assumes "http E = consul_http other" "\<not> offline s" "consul_room k (world s)"
    and "v4_net p n" "10 \<le> p" "p \<le> 29" "8 * length (agent_pool s n) = 2 ^ (32 - p)"
    and "card (bits_of (agent_pool s n)) + k \<le> 2 ^ (32 - p)"
  shows "\<exists>as s'. repeatM k (IPAMRequest (Suc f) E n) s = (Ret as, s') \<and> length as = k \<and> distinct as \<and>
    (\<forall>a\<in>set as. Contains n a \<and>
      (\<forall>j\<in>bits_of (agent_pool s n). ip_nat a \<noteq> ip_nat (IP n) + Suc j mod 2 ^ (32 - p))) \<and>
    card (bits_of (agent_pool s' n)) = card (bits_of (agent_pool s n)) + k"
  using datastore.IPAMRequests_fresh_addresses[OF consul_datastore[OF assms(1)] assms(4-6)
      agent_key_subnet[OF assms(4)] _ agent_pool_def assms(7,8), of 0 f] assms(2,3)
  unfolding agent_pool_def by auto

theorem ipam_requests_distinct_witness:
  "\<exists>as s'. repeatM 3 (IPAMRequest 1 consul_env net24) (node []) = (Ret as, s') \<and> length as = 3 \<and> distinct as"
proof -
  have "agent_pool (node []) net24 = replicate 32 0"
    using node_pool_new[OF v4_nets(1)] poolBytes_v4[OF v4_nets(1)] by simp
  then show ?thesis
    using ipam_requests_distinct[of consul_env "\<lambda>m url body w. (None, w)" "node []" 3 24 net24 0]
    by (auto simp: consul_env_def node_room v4_nets)
qed

text \<open>The same on a node that has not joined a cluster yet and works on its cache.\<close>

lemma ipam_requests_distinct_offline:
  assumes "offline s" "v4_net p n" "10 \<le> p" "p \<le> 29" "8 * length (cache_pool s n) = 2 ^ (32 - p)"
    and "card (bits_of (cache_pool s n)) + k \<le> 2 ^ (32 - p)"
  shows "\<exists>as s'. repeatM k (IPAMRequest (Suc f) E n) s = (Ret as, s') \<and> length as = k \<and> distinct as \<and>
    (\<forall>a\<in>set as. Contains n a \<and>
      (\<forall>j\<in>bits_of (cache_pool s n). ip_nat a \<noteq> ip_nat (IP n) + Suc j mod 2 ^ (32 - p))) \<and>
    card (bits_of (cache_pool s' n)) = card (bits_of (cache_pool s n)) + k"
  using cache.IPAMRequests_fresh_addresses[OF assms(2-4) TrueI assms(1) cache_pool_def assms(5,6), of f E]
  unfolding cache_pool_def by blast

lemma ipam_requests_distinct_offline_example:
  "\<exists>as s'. repeatM 3 (IPAMRequest 1 consul_env net24) ((node [])\<lparr>started := False\<rparr>) = (Ret as, s') \<and>
     length as = 3 \<and> distinct as"
proof -
  have "cache_pool ((node [])\<lparr>started := False\<rparr>) net24 = replicate 32 0"
    using poolBytes_v4[OF v4_nets(1)] by (simp add: cache_pool_def cache_view_def node_def)
  then show ?thesis
    using ipam_requests_distinct_offline[of "(node [])\<lparr>started := False\<rparr>" 24 net24 3 0 consul_env]
    by (auto simp: v4_nets node_def offline_def)
qed

text \<open>C12. Releasing the address a request returned gives back exactly its position:
  the held positions are those before the request.\<close>

theorem ipam_release_undoes_request:
  assumes "http E = consul_http other" "\<not> offline s" "consul_room 2 (world s)"
    and "v4_net p n" "10 \<le> p" "p \<le> 29" "8 * length (agent_pool s n) = 2 ^ (32 - p)"
    and "card (bits_of (agent_pool s n)) + 1 < 2 ^ (32 - p)"
  shows "\<exists>a s1 s2. IPAMRequest (Suc f) E n s = (Ret a, s1) \<and> IPAMRelease (Suc g) E a n s1 = (Ret True, s2) \<and>
    bits_of (agent_pool s2 n) = bits_of (agent_pool s n)"
  using datastore.IPAMRelease_undoes_request[OF consul_datastore[OF assms(1)] assms(4-6)
      agent_key_subnet[OF assms(4)] _ agent_pool_def assms(7,8), of f g] assms(2,3)
  unfolding agent_pool_def by blast

theorem ipam_release_undoes_request_witness:
  "\<exists>a s1 s2. IPAMRequest 1 consul_env net24 (node []) = (Ret a, s1) \<and>
     IPAMRelease 1 consul_env a net24 s1 = (Ret True, s2) \<and> bits_of (agent_pool s2 net24) = {}"
proof -
  have "agent_pool (node []) net24 = replicate 32 0"
    using node_pool_new[OF v4_nets(1)] poolBytes_v4[OF v4_nets(1)] by simp
  then show ?thesis
    using ipam_release_undoes_request[of consul_env "\<lambda>m url body w. (None, w)" "node []" 24 net24 0 0]
    by (auto simp: consul_env_def node_room v4_nets)
qed

text \<open>C27. A request on a pool whose positions are all held reports no error: it returns
  the network address, and returns it again to every further request, without
  changing the pool.\<close>

theorem ipam_exhausted_pool:
  assumes "http E = consul_http other" "\<not> offline s" "consul_room (Suc m) (world s)"
    and "v4_net p n" "10 \<le> p" "p \<le> 29" "agent_view consul_kv s dataStore (ipnet_String n) = Some a"
    and "8 * length a = 2 ^ (32 - p)" "bits_of a = {..<2 ^ (32 - p)}"
  shows "\<exists>s'. IPAMRequest (Suc f) E n s = (Ret (IP n), s') \<and> agent_view consul_kv s' = agent_view consul_kv s \<and>
    consul_room m (world s')"
proof -
  have "1 \<le> p" using assms(5) by simp
  with datastore.IPAMRequest_exhausted[OF consul_datastore[OF assms(1)] assms(4) _ assms(6) _
      agent_key_subnet[OF assms(4)] assms(7) pool_fits[OF assms(5,6,8)] assms(8), of m f] assms(2,3,8,9)
  show ?thesis by auto
qed

theorem ipam_exhausted_pool_witness:
  "\<exists>s'. IPAMRequest 1 consul_env net29 (node [pool_row net29 [0xFF]]) = (Ret (IP net29), s')"
proof -
  have "x < 8 \<Longrightarrow> bit (0xFF :: byte) x" for x
    using bit_mask_iff[of 8 x, where ?'a = "8 word"] by (simp add: mask_eq_exp_minus_1)
  then have "bits_of [0xFF] = {..<8}" by (auto simp: bits_of_def bit_at_def)
  then show ?thesis
    using ipam_exhausted_pool[of consul_env "\<lambda>m url body w. (None, w)" "node [pool_row net29 [0xFF]]" 0 29 net29 "[0xFF]" 0]
    by (auto simp: consul_env_def node_pool_room[OF v4_nets(2)] node_pool_view[OF v4_nets(2)] v4_nets)
qed

text \<open>C28. A subnet with a prefix of 30 bits or more has fewer addresses than the eight
  positions of its pool: requests beyond their number succeed and repeat an address.\<close>

theorem ipam_small_subnet_repeats:
  assumes "http E = consul_http other" "\<not> offline s" "consul_room k (world s)"
    and "v4_net p n" "30 \<le> p" "agent_view consul_kv s dataStore (ipnet_String n) = None"
    and "2 ^ (32 - p) < k" "k \<le> 8"
  shows "\<exists>as s'. repeatM k (IPAMRequest (Suc f) E n) s = (Ret as, s') \<and> length as = k \<and> \<not> distinct as"
  using datastore.IPAMRequests_repeat[OF consul_datastore[OF assms(1)] assms(4,5) agent_key_subnet[OF assms(4)] _
      assms(6-8), of 0 f] assms(2,3) by auto

theorem ipam_small_subnet_repeats_witness:
  "\<exists>as s'. repeatM 5 (IPAMRequest 1 consul_env net30) (node []) = (Ret as, s') \<and> length as = 5 \<and> \<not> distinct as"
  using ipam_small_subnet_repeats[of consul_env "\<lambda>m url body w. (None, w)" "node []" 5 30 net30 0]
  by (simp add: consul_env_def node_room v4_nets)

text \<open>C29. The array of a subnet with a prefix of 9 bits or less is larger than the agent
  accepts.  The refusal is not noticed: the request returns the first address of the
  subnet and leaves no trace, so every further request returns it, too.\<close>

theorem ipam_oversized_pool:
  assumes "http E = consul_http other" "\<not> offline s" "consul_room m (world s)"
    and "v4_net p n" "1 \<le> p" "p \<le> 9" "agent_view consul_kv s dataStore (ipnet_String n) = None"
  shows "\<exists>a. IPAMRequest (Suc f) E n s = (Ret a, s) \<and> length a = 4 \<and> ip_nat a = ip_nat (IP n) + 1"
  using assms by (rule IPAMRequest_oversized)

theorem ipam_oversized_pool_witness:
  "\<exists>a. IPAMRequest 1 consul_env net8 (node []) = (Ret a, node []) \<and> ip_nat a = ip_nat (IP net8) + 1"
  using ipam_oversized_pool[of consul_env "\<lambda>m url body w. (None, w)" "node []" 0 8 net8 0]
  by (auto simp: consul_env_def node_room v4_nets)

text \<open>Releasing the network address of a subnet whose pool exists panics: its position
  is zero, and the index zero minus one wraps around.\<close>

lemma ipam_release_network_address:
  assumes "http E = consul_http other" "\<not> offline s" "consul_room m (world s)"
    and "v4_net p n" "1 \<le> p" "agent_view consul_kv s dataStore (ipnet_String n) = Some a" "length a \<le> maxKVSize"
  shows "IPAMRelease (Suc f) E (IP n) n s = (index_panic, s)"
proof -
  have l: "length (IP n) = 4" using assms(4) by (simp add: v4_net_def)
  then have t: "length (To4 (IP n)) = 4" by simp
  have h: "0 = ip_nat (To4 (IP n)) mod 2 ^ (32 - p)" using l v4_net_aligned[OF assms(4)] by simp
  show ?thesis
    using datastore.IPAMRelease_panics[OF consul_datastore[OF assms(1)] assms(4,5) _ agent_key_subnet[OF assms(4)]
        assms(6,7) t h, of m f] assms(2,3) by simp
qed

lemma ipam_release_network_address_example:
  "IPAMRelease 1 consul_env (IP net29) net29 (node [pool_row net29 [0x01]]) = (index_panic, node [pool_row net29 [0x01]])"
  using ipam_release_network_address[of consul_env "\<lambda>m url body w. (None, w)" "node [pool_row net29 [0x01]]" 0 29 net29 "[0x01]" 0]
  by (simp add: consul_env_def node_pool_room[OF v4_nets(2)] node_pool_view[OF v4_nets(2)] v4_nets maxKVSize_def)

end
