(* ===== verification/Ipam_Concurrent.thy ===== *)
theory Ipam_Concurrent
  imports Ipam
begin

section \<open>Address management by several nodes at once\<close>

text \<open>
  The nodes of a cluster run \<open>IPAMRequest\<close> and \<open>IPAMRelease\<close> against the
  same datastore.  What is atomic is one HTTP exchange; between two of them every
  other node may run.  A job is a call in progress, cut at its exchanges: the read
  of the bit array, the read \<open>Put\<close> starts with, and the compare-and-set.
  \<open>job_step\<close> is the code up to and including the next exchange and the
  computation after it; \<open>IPAMRequest_jobs\<close> and \<open>IPAMRelease_jobs\<close> show that
  running the three steps one after the other is the call itself.

  A system has \<open>N\<close> clients, each of which holds at most one address of the subnet
  \<open>n\<close>, and the agent's store, which others write under other keys.
\<close>

subsection \<open>Jobs\<close>

datatype job =
    Idle
  | Req                              \<comment> \<open>\<open>IPAMRequest\<close> is called\<close>
  | ReqPut uint bytes bytes          \<comment> \<open>\<open>pos\<close>, \<open>addrArray\<close>, \<open>currVal\<close>; \<open>Put\<close> is called\<close>
  | ReqCas uint bytes int            \<comment> \<open>\<open>pos\<close>, \<open>addrArray\<close>, \<open>casIndex\<close>\<close>
  | Holds bytes                      \<comment> \<open>the call returned this address\<close>
  | Rel bytes                        \<comment> \<open>\<open>IPAMRelease\<close> is called\<close>
  | RelPut bytes bytes bytes         \<comment> \<open>\<open>address\<close>, \<open>addrArray\<close>, \<open>currVal\<close>\<close>
  | RelCas bytes bytes int           \<comment> \<open>\<open>address\<close>, \<open>addrArray\<close>, \<open>casIndex\<close>\<close>
  | Crashed

fun job_step :: "('w, 'x) http_env_scheme \<Rightarrow> IPNet \<Rightarrow> job \<Rightarrow> (('w, 'z) ecc_state_scheme, job) comp" where
  "job_step E n Req =
     bindM (Get E dataStore (ipnet_String n)) (\<lambda>(addrArray, _, ok).
     let currVal = go_copy (replicate (length addrArray) 0) addrArray in
     bindM (if \<not> ok then liftO (make_bytes (poolBytes n)) else retM addrArray) (\<lambda>addrArray.
     bindM (liftO (testAndSetBit addrArray)) (\<lambda>(pos, addrArray). retM (ReqPut pos addrArray currVal))))"
| "job_step E n (ReqPut pos addrArray currVal) =
     bindM (Get E dataStore (ipnet_String n)) (\<lambda>(existingValue, casIndex, ok).
     if ok \<and> currVal \<noteq> existingValue then retM Req else retM (ReqCas pos addrArray casIndex))"
| "job_step E n (ReqCas pos addrArray casIndex) =
     bindM (Put_cas E dataStore (ipnet_String n) addrArray casIndex) (\<lambda>eccerr.
     if eccerr = OUTDATED then retM Req else bindM (liftO (getIP n pos)) (\<lambda>a. retM (Holds a)))"
| "job_step E n (Rel address) =
     bindM (Get E dataStore (ipnet_String n)) (\<lambda>(addrArray, _, ok).
     let currVal = go_copy (replicate (length addrArray) 0) addrArray in
     if \<not> ok then retM Idle
     else bindM (liftO (getBitPosition address n)) (\<lambda>pos.
       bindM (liftO (clearBit addrArray (pos - 1))) (\<lambda>addrArray. retM (RelPut address addrArray currVal))))"
| "job_step E n (RelPut address addrArray currVal) =
     bindM (Get E dataStore (ipnet_String n)) (\<lambda>(existingValue, casIndex, ok).
     if ok \<and> currVal \<noteq> existingValue then retM (Rel address) else retM (RelCas address addrArray casIndex))"
| "job_step E n (RelCas address addrArray casIndex) =
     bindM (Put_cas E dataStore (ipnet_String n) addrArray casIndex) (\<lambda>eccerr.
     if eccerr = OUTDATED then retM (Rel address) else retM Idle)"
| "job_step E n j = retM j"


definition after_rel :: "nat \<Rightarrow> ('w, 'x) http_env_scheme \<Rightarrow> bytes \<Rightarrow> IPNet \<Rightarrow> job \<Rightarrow> (('w, 'z) ecc_state_scheme, bool) comp" where
  "after_rel f E a n j = (case j of Idle \<Rightarrow> retM True | _ \<Rightarrow> IPAMRelease f E a n)"

lemma write_through_online: "\<not> offline s \<Longrightarrow> thenM (write_through store key ok arr) m s = m s"
  by (simp add: write_through_def run_simps)

lemma Get_keeps_mode: "Get E store key s = (r, s') \<Longrightarrow> offline s' = offline s"
  by (auto simp: Get_def run_simps http_Get_def http_do_def Let_def slice_get_def index_panic_def
      split: if_splits option.splits prod.splits list.splits outcome.splits)

lemma bindM_cong: "m s = m' s \<Longrightarrow> (\<And>a s'. m s = (Ret a, s') \<Longrightarrow> f a s' = g a s') \<Longrightarrow> bindM m f s = bindM m' g s"
  by (auto simp: run_simps split: prod.splits outcome.splits)

lemma bindM_assoc: "bindM (bindM m f) g = bindM m (\<lambda>a. bindM (f a) g)"
  by (auto simp: fun_eq_iff run_simps split: prod.splits outcome.splits)


lemma Put_online: "\<not> offline s \<Longrightarrow> Put E store key v old s =
  bindM (Get E store key) (\<lambda>(existingValue, casIndex, ok).
       if ok \<and> old \<noteq> existingValue then retM OUTDATED else Put_cas E store key v casIndex) s"
  by (simp add: Put_def bindM_run getM_run)



lemma IPAMRelease_jobs:
  assumes "\<not> offline s"
  shows "IPAMRelease (Suc f) E a n s =
    bindM (job_step E n (Rel a)) (\<lambda>j. if j = Idle then retM False else bindM (job_step E n j) (\<lambda>j'.
      if j' = Rel a then IPAMRelease f E a n else bindM (job_step E n j') (after_rel f E a n))) s"
  unfolding IPAMRelease.simps job_step.simps(4) bindM_assoc
proof (rule bindM_cong[OF refl])
  fix x s1 assume g: "Get E dataStore (ipnet_String n) s = (Ret x, s1)"
  then have on: "\<not> offline s1" using Get_keeps_mode assms by blast
  obtain arr i ok where x: "x = (arr, i, ok)" by (cases x)
  show "(case x of (addrArray, _, ok) \<Rightarrow> let currVal = go_copy (replicate (length addrArray) 0) addrArray in
     if \<not> ok then retM False
     else bindM (liftO (getBitPosition a n)) (\<lambda>pos.
       bindM (liftO (clearBit addrArray (pos - 1))) (\<lambda>addrArray.
       bindM (thenM (write_through dataStore (ipnet_String n) ok addrArray)
                (Put E dataStore (ipnet_String n) addrArray currVal)) (\<lambda>eccerr.
       if eccerr = OUTDATED then IPAMRelease f E a n else retM True)))) s1 =
    bindM (case x of (addrArray, _, ok) \<Rightarrow> let currVal = go_copy (replicate (length addrArray) 0) addrArray in
     if \<not> ok then retM Idle
     else bindM (liftO (getBitPosition a n)) (\<lambda>pos.
       bindM (liftO (clearBit addrArray (pos - 1))) (\<lambda>addrArray. retM (RelPut a addrArray currVal))))
     (\<lambda>j. if j = Idle then retM False else bindM (job_step E n j) (\<lambda>j'.
      if j' = Rel a then IPAMRelease f E a n else bindM (job_step E n j') (after_rel f E a n))) s1"
    unfolding x prod.case Let_def
    by (auto simp: bindM_run write_through_online[OF on] Put_online[OF on] retM_run liftO_run after_rel_def
          split: prod.splits outcome.splits)
qed

subsection \<open>The system\<close>

record 'w ipam_sys =
  kvstore :: 'w
  jobs :: "nat \<Rightarrow> job"

definition online_node :: "'w \<Rightarrow> 'w ecc_state" where
  "online_node w = \<lparr>world = w, started = True, OfflineSupport = True, ecc_cache = [], spawned = []\<rparr>"

definition pool_key :: "IPNet \<Rightarrow> string" where
  "pool_key n = dataStore @ ''/'' @ ipnet_String n"

inductive sys_step :: "('x kvs_store_scheme, 'y) http_env_scheme \<Rightarrow> IPNet \<Rightarrow> nat \<Rightarrow>
    ('x kvs_store_scheme) ipam_sys \<Rightarrow> ('x kvs_store_scheme) ipam_sys \<Rightarrow> bool" for E n N where
  call_request: "i < N \<Longrightarrow> jobs S i = Idle \<Longrightarrow> sys_step E n N S \<lparr>kvstore = kvstore S, jobs = (jobs S)(i := Req)\<rparr>"
| call_release: "i < N \<Longrightarrow> jobs S i = Holds a \<Longrightarrow> sys_step E n N S \<lparr>kvstore = kvstore S, jobs = (jobs S)(i := Rel a)\<rparr>"
| exchange: "i < N \<Longrightarrow> consul_room 1 (kvstore S) \<Longrightarrow> job_step E n (jobs S i) (online_node (kvstore S)) = (Ret j, s') \<Longrightarrow>
    sys_step E n N S \<lparr>kvstore = world s', jobs = (jobs S)(i := j)\<rparr>"
| crash: "i < N \<Longrightarrow> consul_room 1 (kvstore S) \<Longrightarrow> job_step E n (jobs S i) (online_node (kvstore S)) = (r, s') \<Longrightarrow> \<not> returns r \<Longrightarrow>
    sys_step E n N S \<lparr>kvstore = world s', jobs = (jobs S)(i := Crashed)\<rparr>"
| others: "consul_room 0 w \<Longrightarrow> consul_kv w (pool_key n) = consul_kv (kvstore S) (pool_key n) \<Longrightarrow>
    raft_index (kvstore S) \<le> raft_index w \<Longrightarrow> sys_step E n N S \<lparr>kvstore = w, jobs = jobs S\<rparr>"

definition sys_init :: "IPNet \<Rightarrow> ('x kvs_store_scheme) ipam_sys \<Rightarrow> bool" where
  "sys_init n S \<longleftrightarrow> consul_room 0 (kvstore S) \<and> consul_kv (kvstore S) (pool_key n) = None \<and> jobs S = (\<lambda>_. Idle)"

text \<open>The address a client holds, from the return of the request to the end of the release.\<close>

fun held :: "job \<Rightarrow> bytes option" where
  "held (Holds a) = Some a"
| "held (Rel a) = Some a"
| "held (RelPut a arr old) = Some a"
| "held (RelCas a arr i) = Some a"
| "held j = None"

subsection \<open>The invariant\<close>

definition host :: "IPNet \<Rightarrow> bytes \<Rightarrow> nat" where
  "host n a = ip_nat a - ip_nat (IP n)"

definition cur_pool :: "IPNet \<Rightarrow> 'x kvs_store_scheme \<Rightarrow> bytes" where
  "cur_pool n w = pool n (map_option fst (consul_kv w (pool_key n)))"

text \<open>
  What a job has in its local variables.  Arrays that \<open>Put\<close> will write were
  computed from the array that \<open>currVal\<close> is a copy of; once the index of the
  compare-and-set is known, from the array that is stored as long as this index
  is current.
\<close>

definition computed_from :: "IPNet \<Rightarrow> bytes \<Rightarrow> bytes option \<Rightarrow> bool" where
  "computed_from n old v \<longleftrightarrow> (v = None \<and> old = []) \<or> (v = Some old \<and> length old = nat (poolBytes n))"

definition cleared :: "IPNet \<Rightarrow> bytes \<Rightarrow> bytes \<Rightarrow> bytes \<Rightarrow> bool" where
  "cleared n a old arr \<longleftrightarrow> length arr = length old \<and> bits_of arr = bits_of old - {host n a - 1}"

fun job_ok :: "IPNet \<Rightarrow> 'x kvs_store_scheme \<Rightarrow> job \<Rightarrow> bool" where
  "job_ok n w (ReqPut pos arr old) = (\<exists>v. computed_from n old v \<and>
     (v \<noteq> None \<longrightarrow> consul_kv w (pool_key n) \<noteq> None) \<and> testAndSetBit (pool n v) = Ret (pos, arr))"
| "job_ok n w (ReqCas pos arr i) = (0 \<le> i \<and> nat i \<le> raft_index w \<and> length arr = nat (poolBytes n) \<and>
     (cas_matches (consul_kv w (pool_key n)) (nat i) \<longrightarrow> testAndSetBit (cur_pool n w) = Ret (pos, arr)))"
| "job_ok n w (RelPut a arr old) = (length old = nat (poolBytes n) \<and> cleared n a old arr)"
| "job_ok n w (RelCas a arr i) = (0 \<le> i \<and> nat i \<le> raft_index w \<and> length arr = nat (poolBytes n) \<and>
     (cas_matches (consul_kv w (pool_key n)) (nat i) \<longrightarrow> cleared n a (cur_pool n w) arr))"
| "job_ok n w j = (j \<noteq> Crashed)"

definition positions :: "IPNet \<Rightarrow> nat set \<Rightarrow> (nat \<Rightarrow> job) \<Rightarrow> nat set" where
  "positions n I js = {host n a - 1 | i a. i \<in> I \<and> held (js i) = Some a}"

lemma positions_upd:
  assumes "i \<in> I"
  shows "positions n I (js(i := j)) = positions n (I - {i}) js \<union> (case held j of None \<Rightarrow> {} | Some a \<Rightarrow> {host n a - 1})"
proof -
  have "x \<in> positions n I (js(i := j)) \<longleftrightarrow>
      x \<in> positions n (I - {i}) js \<union> (case held j of None \<Rightarrow> {} | Some a \<Rightarrow> {host n a - 1})" for x
    unfolding positions_def using assms by (auto split: option.splits if_splits)
  then show ?thesis by blast
qed

lemma positions_split:
  assumes "i \<in> I"
  shows "positions n I js = positions n (I - {i}) js \<union> (case held (js i) of None \<Rightarrow> {} | Some a \<Rightarrow> {host n a - 1})"
  using positions_upd[OF assms, of n js "js i"] by simp

definition sys_inv :: "nat \<Rightarrow> IPNet \<Rightarrow> nat \<Rightarrow> ('x kvs_store_scheme) ipam_sys \<Rightarrow> bool" where
  "sys_inv p n N S \<longleftrightarrow> consul_room 0 (kvstore S) \<and> length (cur_pool n (kvstore S)) = nat (poolBytes n) \<and>
     (\<forall>i<N. job_ok n (kvstore S) (jobs S i)) \<and>
     (\<forall>i<N. \<forall>a. held (jobs S i) = Some a \<longrightarrow>
        length a = 4 \<and> Contains n a \<and> 1 \<le> host n a \<and> host n a < 2 ^ (32 - p) \<and> ip_nat a = ip_nat (IP n) + host n a) \<and>
     (\<forall>i<N. \<forall>j<N. \<forall>a b. i \<noteq> j \<longrightarrow> held (jobs S i) = Some a \<longrightarrow> held (jobs S j) = Some b \<longrightarrow> host n a \<noteq> host n b) \<and>
     bits_of (cur_pool n (kvstore S)) = positions n {..<N} (jobs S)"

lemma sys_invI:
  assumes "consul_room 0 (kvstore S)" "length (cur_pool n (kvstore S)) = nat (poolBytes n)"
    and "\<And>i. i < N \<Longrightarrow> job_ok n (kvstore S) (jobs S i)"
    and "\<And>i a. i < N \<Longrightarrow> held (jobs S i) = Some a \<Longrightarrow>
        length a = 4 \<and> Contains n a \<and> 1 \<le> host n a \<and> host n a < 2 ^ (32 - p) \<and> ip_nat a = ip_nat (IP n) + host n a"
    and "\<And>i j a b. i < N \<Longrightarrow> j < N \<Longrightarrow> i \<noteq> j \<Longrightarrow> held (jobs S i) = Some a \<Longrightarrow> held (jobs S j) = Some b \<Longrightarrow>
        host n a \<noteq> host n b"
    and "bits_of (cur_pool n (kvstore S)) = positions n {..<N} (jobs S)"
  shows "sys_inv p n N S"
  using assms unfolding sys_inv_def by blast

lemma sys_invD:
  assumes "sys_inv p n N S"
  shows inv_room: "consul_room 0 (kvstore S)"
    and inv_len: "length (cur_pool n (kvstore S)) = nat (poolBytes n)"
    and inv_ok: "i < N \<Longrightarrow> job_ok n (kvstore S) (jobs S i)"
    and inv_held: "i < N \<Longrightarrow> held (jobs S i) = Some a \<Longrightarrow>
        length a = 4 \<and> Contains n a \<and> 1 \<le> host n a \<and> host n a < 2 ^ (32 - p) \<and> ip_nat a = ip_nat (IP n) + host n a"
    and inv_distinct: "i < N \<Longrightarrow> j < N \<Longrightarrow> i \<noteq> j \<Longrightarrow> held (jobs S i) = Some a \<Longrightarrow> held (jobs S j) = Some b \<Longrightarrow>
        host n a \<noteq> host n b"
    and inv_bits: "bits_of (cur_pool n (kvstore S)) = positions n {..<N} (jobs S)"
  using assms unfolding sys_inv_def by blast+

subsection \<open>One exchange\<close>

lemma agent_pool_key: "v4_net p n \<Longrightarrow> agent_key (pool_key n)"
  using agent_key_subnet[of p n] by (simp add: pool_key_def)

lemma online_node_simps [simp]: "\<not> offline (online_node w)" "world (online_node w) = w"
  by (simp_all add: online_node_def offline_def)

lemma get_step:
  assumes "http E = consul_http other" "v4_net p n" "consul_room m w"
  shows "Get E dataStore (ipnet_String n) (online_node w) =
    (Ret (case consul_kv w (pool_key n) of None \<Rightarrow> ([], 0, False) | Some (v, i) \<Rightarrow> (v, int i, True)), online_node w)"
proof -
  note c = consul_backed.intro[OF assms(1)]
  note k = agent_pool_key[OF assms(2), unfolded pool_key_def]
  have m: "consul_room m (world (online_node w))" using assms(3) by simp
  show ?thesis
  proof (cases "consul_kv w (pool_key n)")
    case None
    then show ?thesis using consul_backed.agent_absent[OF c m online_node_simps(1) k] by (simp add: pool_key_def)
  next
    case (Some vi)
    then show ?thesis using consul_backed.agent_present[OF c m online_node_simps(1) k] by (cases vi) (simp add: pool_key_def)
  qed
qed

lemma put_step:
  assumes "http E = consul_http other" "v4_net p n" "consul_room (Suc m) w" "length v \<le> maxKVSize" "i < 2 ^ 64"
  shows "\<exists>w'. Put_cas E dataStore (ipnet_String n) v (int i) (online_node w) =
      (Ret (if cas_matches (consul_kv w (pool_key n)) i then OK else OUTDATED), online_node w') \<and>
    consul_room m w' \<and> raft_index w' = raft_index w + 1 \<and>
    consul_kv w' = (if cas_matches (consul_kv w (pool_key n)) i
      then (consul_kv w)(pool_key n \<mapsto> (v, raft_index w + 1)) else consul_kv w)"
proof -
  have k: "plain_key (pool_key n)" "pool_key n \<noteq> []" using agent_pool_key[OF assms(2)] by (auto simp: agent_key_def)
  from consul_PUT[OF assms(3) k assms(4,5), of other] obtain body w' where
    "http E ''PUT'' (CONSUL_KV_BASE_URL @ pool_key n @ ''?cas='' @ itod i) v w = (Some (200, body), w')"
    "str body = (if cas_matches (consul_kv w (pool_key n)) i then ''true'' else ''false'')"
    "consul_room m w' \<and> raft_index w' = raft_index w + 1 \<and> consul_kv w' = (if cas_matches (consul_kv w (pool_key n)) i
      then (consul_kv w)(pool_key n \<mapsto> (v, raft_index w + 1)) else consul_kv w)"
    unfolding assms(1) by blast
  moreover have "url_ok (CONSUL_KV_BASE_URL @ dataStore @ ''/'' @ ipnet_String n @ ''?cas='' @ itod i)"
    using plain_key_cas_url[OF k(1), of i] by (simp add: pool_key_def)
  ultimately show ?thesis
    by (intro exI[of _ w'])
       (auto simp: Put_cas_def client_Do_def http_do_def fmt_d_def pool_key_def run_simps online_node_def)
qed

lemma cas_index:
  assumes "consul_room m w"
  obtains i where "(case consul_kv w k of None \<Rightarrow> ([], 0, False) | Some (v, i) \<Rightarrow> (v, int i, True)) =
      (case consul_kv w k of None \<Rightarrow> [] | Some (v, _) \<Rightarrow> v, int i, consul_kv w k \<noteq> None)"
    "i \<le> raft_index w" "i < 2 ^ 63"
proof (cases "consul_kv w k")
  case None
  then show ?thesis using assms that[of 0] by (simp add: consul_room_def)
next
  case (Some vi)
  then obtain d where "KVSGet k w = Some d" "vi = (de_Value d, de_ModifyIndex d)" by (auto simp: consul_kv_def)
  moreover from this have "de_ModifyIndex d \<le> raft_index w"
    using assms by (auto simp: consul_room_def list_all_iff row_ok_def dest!: KVSGet_Some)
  ultimately show ?thesis using assms Some that[of "de_ModifyIndex d"] by (simp add: consul_room_def)
qed

lemma job_ok_same:
  assumes "job_ok n w j" "consul_kv w' (pool_key n) = consul_kv w (pool_key n)" "raft_index w \<le> raft_index w'"
  shows "job_ok n w' j"
  using assms by (cases j) (auto simp: cur_pool_def)

text \<open>A write makes every other index stale.\<close>

lemma job_ok_commit:
  assumes "job_ok n w j" "consul_kv w' (pool_key n) = Some (arr, raft_index w + 1)" "raft_index w \<le> raft_index w'"
  shows "job_ok n w' j"
  using assms by (cases j) (auto simp: cas_matches_def)

lemma sys_inv_local:
  assumes "sys_inv p n N S" "consul_room 0 w'" "consul_kv w' (pool_key n) = consul_kv (kvstore S) (pool_key n)"
    "raft_index (kvstore S) \<le> raft_index w'" "i < N \<Longrightarrow> job_ok n w' j" "held j = held (jobs S i)"
  shows "sys_inv p n N \<lparr>kvstore = w', jobs = (jobs S)(i := j)\<rparr>"
proof -
  have h: "held (((jobs S)(i := j)) k) = held (jobs S k)" for k using assms(6) by simp
  have c: "cur_pool n w' = cur_pool n (kvstore S)" using assms(3) by (simp add: cur_pool_def)
  have "job_ok n w' (((jobs S)(i := j)) k)" if "k < N" for k
    using inv_ok[OF assms(1) that] assms(5) job_ok_same[OF _ assms(3,4)] that by simp
  moreover have "positions n {..<N} ((jobs S)(i := j)) = positions n {..<N} (jobs S)"
    unfolding positions_def h ..
  ultimately show ?thesis
    using assms(2) c sys_invD[OF assms(1)] h by (intro sys_invI) simp_all
qed

text \<open>While a client that holds nothing asks, a position below the last is free.\<close>

lemma held_positions:
  assumes "sys_inv p n N S"
  shows "card (bits_of (cur_pool n (kvstore S))) \<le> card {k. k < N \<and> held (jobs S k) \<noteq> None}"
proof -
  let ?K = "{k. k < N \<and> held (jobs S k) \<noteq> None}"
  have "positions n {..<N} (jobs S) = (\<lambda>k. host n (the (held (jobs S k))) - 1) ` ?K"
    by (auto simp: positions_def image_iff, force, blast)
  then have "bits_of (cur_pool n (kvstore S)) = (\<lambda>k. host n (the (held (jobs S k))) - 1) ` ?K"
    using inv_bits[OF assms] by simp
  moreover have "card ((\<lambda>k. host n (the (held (jobs S k))) - 1) ` ?K) \<le> card ?K" by (rule card_image_le) simp
  ultimately show ?thesis by simp
qed

lemma free_position:
  assumes "sys_inv p n N S" "i < N" "held (jobs S i) = None" "N < 2 ^ (32 - p)"
  shows "card (bits_of (cur_pool n (kvstore S))) + 1 < 2 ^ (32 - p)"
proof -
  have "{k. k < N \<and> held (jobs S k) \<noteq> None} \<subseteq> {..<N} - {i}" using assms(3) by auto
  then have "card {k. k < N \<and> held (jobs S k) \<noteq> None} \<le> card ({..<N} - {i})" by (rule card_mono[rotated]) simp
  then have "card {k. k < N \<and> held (jobs S k) \<noteq> None} \<le> N - 1" using assms(2) by simp
  then show ?thesis using held_positions[OF assms(1)] assms(2,4) by simp
qed

lemma getIP_host:
  assumes "v4_net p n" "1 \<le> p" "Suc k < 2 ^ (32 - p)"
  obtains a where "getIP n (of_nat (Suc k)) = Ret a" "length a = 4" "Contains n a" "host n a = Suc k"
    "ip_nat a = ip_nat (IP n) + host n a"
proof -
  obtain a where a: "getIP n (of_nat (Suc k)) = Ret a" using getIP_v4[OF assms(1,2)] by blast
  have "(2::nat) ^ (32 - p) \<le> 2 ^ 32" by (rule power_increasing) auto
  then have "Suc k < 2 ^ 64" using assms(3) by simp
  then have "unat (of_nat (Suc k) :: uint) = Suc k" by (rule unat_of_nat_uint)
  then show ?thesis
    using that[of a] a getIP_network_bits[OF assms(1,2) a] assms(3) by (simp add: host_def)
qed

lemma pool_bits: "v4_net p n \<Longrightarrow> p \<le> 29 \<Longrightarrow> 8 * nat (poolBytes n) = 2 ^ (32 - p)"
proof -
  assume a: "v4_net p n" "p \<le> 29"
  have d: "32 - p = 3 + (29 - p)" using a(2) by simp
  have "nat (poolBytes n) = 2 ^ (29 - p)" using poolBytes_v4[OF a(1)] a(2) by (simp add: nat_power_eq)
  then show ?thesis unfolding d power_add by simp
qed

text \<open>The write of a request that succeeds.\<close>

lemma sys_inv_request:
  assumes inv: "sys_inv p n N S" and i: "i < N" "held (jobs S i) = None" and N: "N < 2 ^ (32 - p)"
    and net: "v4_net p n" "10 \<le> p" "p \<le> 29"
    and t: "testAndSetBit (cur_pool n (kvstore S)) = Ret (pos, arr)"
    and w': "consul_room 0 w'" "raft_index (kvstore S) \<le> raft_index w'"
      "consul_kv w' (pool_key n) = Some (arr, raft_index (kvstore S) + 1)"
  obtains a where "getIP n pos = Ret a" "sys_inv p n N \<lparr>kvstore = w', jobs = (jobs S)(i := Holds a)\<rparr>"
proof -
  let ?P = "cur_pool n (kvstore S)"
  have len: "length ?P = nat (poolBytes n)" using inv by (simp add: sys_inv_def)
  have cap: "8 * length ?P = 2 ^ (32 - p)" using pool_bits[OF net(1,3)] len by simp
  have sz: "8 * length ?P < 2 ^ 64" using maxKVSize_bits[OF pool_fits[OF net(2,3) cap]] .
  have free: "card (bits_of ?P) + 1 < 2 ^ (32 - p)" by (rule free_position[OF inv i N])
  have "bits_of ?P \<noteq> {..<8 * length ?P}"
  proof
    assume "bits_of ?P = {..<8 * length ?P}"
    then have "card (bits_of ?P) = 8 * length ?P" by (metis card_lessThan)
    then show False using free cap by linarith
  qed
  then obtain k where k: "pos = of_nat (Suc k)" "k \<notin> bits_of ?P" "{..<k} \<subseteq> bits_of ?P"
    "bits_of arr = insert k (bits_of ?P)" "length arr = length ?P"
    using testAndSetBit_free[OF sz] t by (metis outcome.inject(1) prod.inject)
  have "k \<le> card (bits_of ?P)" using card_mono[OF finite_bits_of k(3)] by simp
  then have kM: "Suc k < 2 ^ (32 - p)" using free by linarith
  have "1 \<le> p" using net(2) by simp
  then obtain a where a: "getIP n pos = Ret a" "length a = 4" "Contains n a" "host n a = Suc k"
    "ip_nat a = ip_nat (IP n) + host n a"
    using getIP_host[OF net(1) _ kM] unfolding k(1) by blast
  have c': "cur_pool n w' = arr" using w'(3) by (simp add: cur_pool_def)
  let ?J = "(jobs S)(i := Holds a)"
  have hi: "held (?J i) = Some a" and ho: "\<And>m. m \<noteq> i \<Longrightarrow> held (?J m) = held (jobs S m)" by simp_all
  have other: "host n b \<noteq> Suc k" if "m < N" "held (jobs S m) = Some b" for m b
  proof
    assume "host n b = Suc k"
    then have "k = host n b - 1" by simp
    then have "k \<in> bits_of ?P" unfolding inv_bits[OF inv] positions_def using that by blast
    then show False using k(2) by blast
  qed
  have "sys_inv p n N \<lparr>kvstore = w', jobs = ?J\<rparr>"
  proof (rule sys_invI, unfold ipam_sys.simps c')
    show "consul_room 0 w'" by (rule w')
    show "length arr = nat (poolBytes n)" using k(5) len by simp
    show "job_ok n w' (?J m)" if "m < N" for m
      using inv_ok[OF inv that] job_ok_commit[OF _ w'(3,2)] by simp
    show "length b = 4 \<and> Contains n b \<and> 1 \<le> host n b \<and> host n b < 2 ^ (32 - p) \<and> ip_nat b = ip_nat (IP n) + host n b"
      if "m < N" "held (?J m) = Some b" for m b
      using inv_held[OF inv that(1), of b] that(2) a kM by (cases "m = i") simp_all
    show "host n b \<noteq> host n b'" if "m < N" "m' < N" "m \<noteq> m'" "held (?J m) = Some b" "held (?J m') = Some b'" for m m' b b'
      using that a(4) other[of m b] other[of m' b'] inv_distinct[OF inv, of m m' b b']
      by (cases "m = i"; cases "m' = i") auto
    show "bits_of arr = positions n {..<N} ?J"
      using positions_upd[of i "{..<N}" n "jobs S" "Holds a"] positions_split[of i "{..<N}" n "jobs S"] i k(4) a(4)
        inv_bits[OF inv] by simp
  qed
  with a(1) show ?thesis by (rule that)
qed


text \<open>The write of a release that succeeds.\<close>

lemma sys_inv_release:
  assumes inv: "sys_inv p n N S" and i: "i < N" "held (jobs S i) = Some a"
    and c: "cleared n a (cur_pool n (kvstore S)) arr"
    and w': "consul_room 0 w'" "raft_index (kvstore S) \<le> raft_index w'"
      "consul_kv w' (pool_key n) = Some (arr, raft_index (kvstore S) + 1)"
  shows "sys_inv p n N \<lparr>kvstore = w', jobs = (jobs S)(i := Idle)\<rparr>"
proof -
  let ?J = "(jobs S)(i := Idle)"
  have c': "cur_pool n w' = arr" using w'(3) by (simp add: cur_pool_def)
  have hp: "m \<noteq> i \<and> held (jobs S m) = Some b" if "held (?J m) = Some b" for m b
    using that by (cases "m = i") auto
  have "host n a - 1 \<notin> positions n ({..<N} - {i}) (jobs S)"
  proof
    assume "host n a - 1 \<in> positions n ({..<N} - {i}) (jobs S)"
    then obtain m b where m: "m < N" "m \<noteq> i" "held (jobs S m) = Some b" "host n a - 1 = host n b - 1"
      by (auto simp: positions_def)
    have "1 \<le> host n a" "1 \<le> host n b" using inv_held[OF inv] i m by blast+
    then show False using m(4) inv_distinct[OF inv m(1) i(1) m(2,3) i(2)] by simp
  qed
  then have "bits_of arr = positions n {..<N} ?J"
    using positions_upd[of i "{..<N}" n "jobs S" Idle] positions_split[of i "{..<N}" n "jobs S"] i c
      inv_bits[OF inv] by (auto simp: cleared_def)
  note bits = this
  show ?thesis
  proof (rule sys_invI, unfold ipam_sys.simps c')
    show "consul_room 0 w'" by (rule w')
    show "length arr = nat (poolBytes n)" using c inv_len[OF inv] by (simp add: cleared_def)
    show "job_ok n w' (?J m)" if "m < N" for m
      using inv_ok[OF inv that] job_ok_commit[OF _ w'(3,2)] by simp
    show "length b = 4 \<and> Contains n b \<and> 1 \<le> host n b \<and> host n b < 2 ^ (32 - p) \<and> ip_nat b = ip_nat (IP n) + host n b"
      if "m < N" "held (?J m) = Some b" for m b
      using inv_held[OF inv that(1), of b] hp[OF that(2)] by blast
    show "host n b \<noteq> host n b'" if "m < N" "m' < N" "m \<noteq> m'" "held (?J m) = Some b" "held (?J m') = Some b'" for m m' b b'
      using inv_distinct[OF inv that(1-3)] hp[OF that(4)] hp[OF that(5)] by blast
    show "bits_of arr = positions n {..<N} ?J" by (rule bits)
  qed
qed


text \<open>A step of a client: it returns, and the invariant holds after it.\<close>

definition advances :: "('x kvs_store_scheme, 'y) http_env_scheme \<Rightarrow> nat \<Rightarrow> IPNet \<Rightarrow> nat \<Rightarrow>
    ('x kvs_store_scheme) ipam_sys \<Rightarrow> nat \<Rightarrow> bool" where
  "advances E p n N S i \<longleftrightarrow> (\<exists>j w'. job_step E n (jobs S i) (online_node (kvstore S)) = (Ret j, online_node w') \<and>
     sys_inv p n N \<lparr>kvstore = w', jobs = (jobs S)(i := j)\<rparr>)"

lemma advances_read:
  assumes "sys_inv p n N S" "jobs S i = j" "job_step E n j (online_node (kvstore S)) = (Ret j', online_node (kvstore S))"
    "job_ok n (kvstore S) j'" "held j' = held j"
  shows "advances E p n N S i"
  using assms(3) sys_inv_local[OF assms(1) inv_room[OF assms(1)] refl order_refl assms(4), of i] assms(5)
  unfolding advances_def assms(2) by blast

lemma inv_cap:
  assumes "sys_inv p n N S" "v4_net p n" "10 \<le> p" "p \<le> 29"
  shows "8 * length (cur_pool n (kvstore S)) = 2 ^ (32 - p)" "length (cur_pool n (kvstore S)) \<le> maxKVSize"
proof -
  show cap: "8 * length (cur_pool n (kvstore S)) = 2 ^ (32 - p)" using pool_bits[OF assms(2,4)] inv_len[OF assms(1)] by simp
  show "length (cur_pool n (kvstore S)) \<le> maxKVSize" by (rule pool_fits[OF assms(3,4) cap])
qed

text \<open>The value \<open>Get\<close> reads, and the pool behind it.\<close>

definition stored :: "IPNet \<Rightarrow> 'x kvs_store_scheme \<Rightarrow> bytes" where
  "stored n w = (case consul_kv w (pool_key n) of None \<Rightarrow> [] | Some (v, _) \<Rightarrow> v)"

lemma stored_pool: "consul_kv w (pool_key n) \<noteq> None \<Longrightarrow> stored n w = cur_pool n w"
  by (auto simp: stored_def cur_pool_def)

lemma read_step:
  assumes "http E = consul_http other" "v4_net p n" "consul_room m w"
  obtains ci where "Get E dataStore (ipnet_String n) (online_node w) =
      (Ret (stored n w, int ci, consul_kv w (pool_key n) \<noteq> None), online_node w)"
    and "ci \<le> raft_index w" "ci < 2 ^ 63"
  using get_step[OF assms] cas_index[OF assms(3), of "pool_key n"] unfolding stored_def by metis

lemma held_stored:
  assumes "sys_inv p n N S" "i < N" "held (jobs S i) = Some a"
  shows "consul_kv (kvstore S) (pool_key n) \<noteq> None"
proof -
  have "host n a - 1 \<in> bits_of (cur_pool n (kvstore S))"
    unfolding inv_bits[OF assms(1)] positions_def using assms by blast
  then show ?thesis by (intro notI) (simp add: cur_pool_def)
qed

lemma Req_advances:
  assumes E: "http E = consul_http other" and net: "v4_net p n" "10 \<le> p" "p \<le> 29"
    and inv: "sys_inv p n N S" and room: "consul_room 1 (kvstore S)" and j: "jobs S i = Req"
  shows "advances E p n N S i"
proof -
  let ?w = "kvstore S"
  obtain pos arr where t: "testAndSetBit (cur_pool n ?w) = Ret (pos, arr)"
    using testAndSetBit_Ret[OF maxKVSize_bits[OF inv_cap(2)[OF inv net]]] by blast
  obtain ci where g: "Get E dataStore (ipnet_String n) (online_node ?w) =
      (Ret (stored n ?w, int ci, consul_kv ?w (pool_key n) \<noteq> None), online_node ?w)"
    by (rule read_step[OF E net(1) room])
  have "job_step E n Req (online_node ?w) = (Ret (ReqPut pos arr (stored n ?w)), online_node ?w)"
    using t make_pool[OF net(1)]
    by (cases "consul_kv ?w (pool_key n)") (auto simp: bindM_run liftO_run retM_run g stored_pool cur_pool_def)
  moreover have "computed_from n (stored n ?w) (map_option fst (consul_kv ?w (pool_key n)))"
    using inv_len[OF inv] by (auto simp: computed_from_def cur_pool_def stored_def split: option.splits)
  then have "job_ok n ?w (ReqPut pos arr (stored n ?w))" using t by (auto simp: cur_pool_def)
  ultimately show ?thesis by (rule advances_read[OF inv j]) simp
qed

lemma ReqPut_advances:
  assumes E: "http E = consul_http other" and net: "v4_net p n" "10 \<le> p" "p \<le> 29"
    and inv: "sys_inv p n N S" and i: "i < N" and room: "consul_room 1 (kvstore S)" and j: "jobs S i = ReqPut pos arr old"
  shows "advances E p n N S i"
proof -
  let ?w = "kvstore S" and ?k = "pool_key n"
  obtain v where v: "computed_from n old v" "v \<noteq> None \<longrightarrow> consul_kv ?w ?k \<noteq> None"
    "testAndSetBit (pool n v) = Ret (pos, arr)" using inv_ok[OF inv i] j by auto
  obtain ci where g: "Get E dataStore (ipnet_String n) (online_node ?w) =
      (Ret (stored n ?w, int ci, consul_kv ?w ?k \<noteq> None), online_node ?w)" and ci: "ci \<le> raft_index ?w"
    by (rule read_step[OF E net(1) room])
  show ?thesis
  proof (cases "consul_kv ?w ?k \<noteq> None \<and> old \<noteq> stored n ?w")
    case True
    then have "job_step E n (ReqPut pos arr old) (online_node ?w) = (Ret Req, online_node ?w)"
      by (auto simp: bindM_run retM_run g)
    then show ?thesis by (rule advances_read[OF inv j]) simp_all
  next
    case False
    then have run: "job_step E n (ReqPut pos arr old) (online_node ?w) = (Ret (ReqCas pos arr (int ci)), online_node ?w)"
      by (auto simp: bindM_run retM_run g)
    have t: "testAndSetBit (cur_pool n ?w) = Ret (pos, arr)"
    proof (cases "consul_kv ?w ?k")
      case None
      then show ?thesis using v by (auto simp: cur_pool_def)
    next
      case (Some x)
      then have "old = cur_pool n ?w" using False stored_pool[of ?w n] by simp
      moreover have "cur_pool n ?w \<noteq> []" using inv_len[OF inv] poolBytes_pos[OF net(1)] by auto
      ultimately show ?thesis using v by (auto simp: computed_from_def)
    qed
    then have "length arr = nat (poolBytes n)"
      using testAndSetBit_Ret[OF maxKVSize_bits[OF inv_cap(2)[OF inv net]]] inv_len[OF inv]
      by (metis outcome.inject(1) prod.inject)
    then have "job_ok n ?w (ReqCas pos arr (int ci))" using ci t by simp
    then show ?thesis by (rule advances_read[OF inv j run]) simp
  qed
qed

lemma cas_step:
  assumes E: "http E = consul_http other" and net: "v4_net p n" "10 \<le> p" "p \<le> 29"
    and inv: "sys_inv p n N S" and room: "consul_room 1 (kvstore S)"
    and ok: "0 \<le> c" "nat c \<le> raft_index (kvstore S)" "length arr = nat (poolBytes n)"
  obtains w' where "Put_cas E dataStore (ipnet_String n) arr c (online_node (kvstore S)) =
      (Ret (if cas_matches (consul_kv (kvstore S) (pool_key n)) (nat c) then OK else OUTDATED), online_node w')"
    "consul_room 0 w'" "raft_index (kvstore S) \<le> raft_index w'"
    "consul_kv w' (pool_key n) = (if cas_matches (consul_kv (kvstore S) (pool_key n)) (nat c)
      then Some (arr, raft_index (kvstore S) + 1) else consul_kv (kvstore S) (pool_key n))"
proof -
  have "nat c < 2 ^ 64" using ok room by (simp add: consul_room_def)
  moreover have "length arr \<le> maxKVSize" using ok inv_len[OF inv] inv_cap(2)[OF inv net] by simp
  moreover have "consul_room (Suc 0) (kvstore S)" using room by simp
  ultimately show ?thesis using put_step[OF E net(1), of 0 "kvstore S" arr "nat c"] that ok(1) by auto
qed

lemma ReqCas_advances:
  assumes E: "http E = consul_http other" and net: "v4_net p n" "10 \<le> p" "p \<le> 29" and N: "N < 2 ^ (32 - p)"
    and inv: "sys_inv p n N S" and i: "i < N" and room: "consul_room 1 (kvstore S)" and j: "jobs S i = ReqCas pos arr c"
  shows "advances E p n N S i"
proof -
  let ?w = "kvstore S"
  have ok: "0 \<le> c" "nat c \<le> raft_index ?w" "length arr = nat (poolBytes n)"
    and t: "cas_matches (consul_kv ?w (pool_key n)) (nat c) \<Longrightarrow> testAndSetBit (cur_pool n ?w) = Ret (pos, arr)"
    using inv_ok[OF inv i] j by auto
  obtain w' where w': "Put_cas E dataStore (ipnet_String n) arr c (online_node ?w) =
      (Ret (if cas_matches (consul_kv ?w (pool_key n)) (nat c) then OK else OUTDATED), online_node w')"
    "consul_room 0 w'" "raft_index ?w \<le> raft_index w'"
    "consul_kv w' (pool_key n) = (if cas_matches (consul_kv ?w (pool_key n)) (nat c)
      then Some (arr, raft_index ?w + 1) else consul_kv ?w (pool_key n))"
    by (rule cas_step[OF E net inv room ok])
  show ?thesis
  proof (cases "cas_matches (consul_kv ?w (pool_key n)) (nat c)")
    case True
    have h: "held (jobs S i) = None" "consul_kv w' (pool_key n) = Some (arr, raft_index ?w + 1)" using j w'(4) True by simp_all
    obtain a where "getIP n pos = Ret a" "sys_inv p n N \<lparr>kvstore = w', jobs = (jobs S)(i := Holds a)\<rparr>"
      by (rule sys_inv_request[OF inv i h(1) N net t[OF True] w'(2,3) h(2)])
    then show ?thesis
      unfolding advances_def j using w'(1) True
      by (intro exI[of _ "Holds a"] exI[of _ w']) (simp add: bindM_run retM_run liftO_run)
  next
    case False
    then have "sys_inv p n N \<lparr>kvstore = w', jobs = (jobs S)(i := Req)\<rparr>"
      using sys_inv_local[OF inv w'(2) _ w'(3), of i Req] w'(4) j by simp
    then show ?thesis
      unfolding advances_def j using w'(1) False by (intro exI[of _ Req] exI[of _ w']) (simp add: bindM_run retM_run)
  qed
qed

lemma Rel_advances:
  assumes E: "http E = consul_http other" and net: "v4_net p n" "10 \<le> p" "p \<le> 29"
    and inv: "sys_inv p n N S" and i: "i < N" and room: "consul_room 1 (kvstore S)" and j: "jobs S i = Rel a"
  shows "advances E p n N S i"
proof -
  let ?w = "kvstore S" and ?P = "cur_pool n (kvstore S)"
  have a: "length a = 4" "1 \<le> host n a" "host n a < 2 ^ (32 - p)" "ip_nat a = ip_nat (IP n) + host n a"
    using inv_held[OF inv i, of a] j by auto
  have st: "consul_kv ?w (pool_key n) \<noteq> None" by (rule held_stored[OF inv i]) (simp add: j)
  obtain ci where g: "Get E dataStore (ipnet_String n) (online_node ?w) =
      (Ret (stored n ?w, int ci, consul_kv ?w (pool_key n) \<noteq> None), online_node ?w)"
    by (rule read_step[OF E net(1) room])
  have "length (To4 a) = 4" "1 \<le> p" using a(1) net(2) by simp_all
  then obtain q where q: "getBitPosition a n = Ret q" "unat q = ip_nat (To4 a) mod 2 ^ (32 - p)"
    by (metis getBitPosition_host[OF net(1)])
  then have u: "unat q = host n a" using a v4_net_host_part[OF net(1) a(3)] by simp
  then have "unat (q - 1) = host n a - 1" "unat (q - 1) < 8 * length ?P"
    using a(2,3) inv_cap(1)[OF inv net] by (auto simp: unat_minus_1_uint)
  then obtain arr where c: "clearBit ?P (q - 1) = Ret arr" "bits_of arr = bits_of ?P - {host n a - 1}" "length arr = length ?P"
    using clearBit_Ret by metis
  have "job_step E n (Rel a) (online_node ?w) = (Ret (RelPut a arr ?P), online_node ?w)"
    using st by (simp add: bindM_run retM_run liftO_run g stored_pool[OF st] q(1) c(1))
  moreover have "job_ok n ?w (RelPut a arr ?P)" using c inv_len[OF inv] by (simp add: cleared_def)
  ultimately show ?thesis by (rule advances_read[OF inv j]) simp
qed

lemma RelPut_advances:
  assumes E: "http E = consul_http other" and net: "v4_net p n" "10 \<le> p" "p \<le> 29"
    and inv: "sys_inv p n N S" and i: "i < N" and room: "consul_room 1 (kvstore S)" and j: "jobs S i = RelPut a arr old"
  shows "advances E p n N S i"
proof -
  let ?w = "kvstore S"
  have r: "length old = nat (poolBytes n)" "cleared n a old arr" using inv_ok[OF inv i] j by auto
  have st: "consul_kv ?w (pool_key n) \<noteq> None" by (rule held_stored[OF inv i]) (simp add: j)
  obtain ci where g: "Get E dataStore (ipnet_String n) (online_node ?w) =
      (Ret (stored n ?w, int ci, consul_kv ?w (pool_key n) \<noteq> None), online_node ?w)" and ci: "ci \<le> raft_index ?w"
    by (rule read_step[OF E net(1) room])
  show ?thesis
  proof (cases "old = cur_pool n ?w")
    case True
    then have "job_step E n (RelPut a arr old) (online_node ?w) = (Ret (RelCas a arr (int ci)), online_node ?w)"
      by (simp add: bindM_run retM_run g stored_pool[OF st])
    moreover have "job_ok n ?w (RelCas a arr (int ci))" using ci r True by (simp add: cleared_def)
    ultimately show ?thesis by (rule advances_read[OF inv j]) simp
  next
    case False
    then have "job_step E n (RelPut a arr old) (online_node ?w) = (Ret (Rel a), online_node ?w)"
      using st by (simp add: bindM_run retM_run g stored_pool[OF st])
    then show ?thesis by (rule advances_read[OF inv j]) simp_all
  qed
qed

lemma RelCas_advances:
  assumes E: "http E = consul_http other" and net: "v4_net p n" "10 \<le> p" "p \<le> 29"
    and inv: "sys_inv p n N S" and i: "i < N" and room: "consul_room 1 (kvstore S)" and j: "jobs S i = RelCas a arr c"
  shows "advances E p n N S i"
proof -
  let ?w = "kvstore S"
  have ok: "0 \<le> c" "nat c \<le> raft_index ?w" "length arr = nat (poolBytes n)"
    and cl: "cas_matches (consul_kv ?w (pool_key n)) (nat c) \<Longrightarrow> cleared n a (cur_pool n ?w) arr"
    using inv_ok[OF inv i] j by auto
  obtain w' where w': "Put_cas E dataStore (ipnet_String n) arr c (online_node ?w) =
      (Ret (if cas_matches (consul_kv ?w (pool_key n)) (nat c) then OK else OUTDATED), online_node w')"
    "consul_room 0 w'" "raft_index ?w \<le> raft_index w'"
    "consul_kv w' (pool_key n) = (if cas_matches (consul_kv ?w (pool_key n)) (nat c)
      then Some (arr, raft_index ?w + 1) else consul_kv ?w (pool_key n))"
    by (rule cas_step[OF E net inv room ok])
  show ?thesis
  proof (cases "cas_matches (consul_kv ?w (pool_key n)) (nat c)")
    case True
    have h: "held (jobs S i) = Some a" "consul_kv w' (pool_key n) = Some (arr, raft_index ?w + 1)" using j w'(4) True by simp_all
    show ?thesis
      unfolding advances_def j using w'(1) True sys_inv_release[OF inv i h(1) cl[OF True] w'(2,3) h(2)]
      by (intro exI[of _ Idle] exI[of _ w']) (simp add: bindM_run retM_run)
  next
    case False
    then have "sys_inv p n N \<lparr>kvstore = w', jobs = (jobs S)(i := Rel a)\<rparr>"
      using sys_inv_local[OF inv w'(2) _ w'(3), of i "Rel a"] w'(4) j by simp
    then show ?thesis
      unfolding advances_def j using w'(1) False by (intro exI[of _ "Rel a"] exI[of _ w']) (simp add: bindM_run retM_run)
  qed
qed

lemma sys_inv_exchange:
  assumes "http E = consul_http other" "v4_net p n" "10 \<le> p" "p \<le> 29" "N < 2 ^ (32 - p)"
    and "sys_inv p n N S" "i < N" "consul_room 1 (kvstore S)"
  shows "advances E p n N S i"
proof (cases "jobs S i")
  case Idle
  then show ?thesis by (rule advances_read[OF assms(6), where j' = Idle]) (simp_all add: retM_run)
next
  case (Holds a)
  then show ?thesis by (rule advances_read[OF assms(6), where j' = "Holds a"]) (simp_all add: retM_run)
next
  case Crashed
  then show ?thesis using inv_ok[OF assms(6,7)] by simp
qed (use assms in \<open>blast intro: Req_advances ReqPut_advances ReqCas_advances Rel_advances RelPut_advances RelCas_advances\<close>)+

subsection \<open>Reachable states\<close>

lemma sys_inv_init:
  assumes "sys_init n S"
  shows "sys_inv p n N S"
proof -
  have "cur_pool n (kvstore S) = replicate (nat (poolBytes n)) 0" using assms by (simp add: sys_init_def cur_pool_def)
  then show ?thesis using assms by (intro sys_invI) (auto simp: sys_init_def positions_def)
qed

lemma sys_inv_step:
  assumes "sys_step E n N S S'" "http E = consul_http other" "v4_net p n" "10 \<le> p" "p \<le> 29" "N < 2 ^ (32 - p)"
    and inv: "sys_inv p n N S"
  shows "sys_inv p n N S'"
  using assms(1)
proof cases
  case (call_request i)
  then show ?thesis using sys_inv_local[OF inv inv_room[OF inv] refl order_refl, of i Req] by simp
next
  case (call_release i a)
  then show ?thesis using sys_inv_local[OF inv inv_room[OF inv] refl order_refl, of i "Rel a"] by simp
next
  case (exchange i j s')
  then show ?thesis using sys_inv_exchange[OF assms(2-6) inv exchange(2,3)] by (auto simp: advances_def)
next
  case (crash i r s')
  then show ?thesis using sys_inv_exchange[OF assms(2-6) inv crash(2,3)] by (auto simp: advances_def)
next
  case (others w)
  have "sys_inv p n N \<lparr>kvstore = w, jobs = (jobs S)(N := jobs S N)\<rparr>"
    by (rule sys_inv_local[OF inv others(2-4)]) simp_all
  then show ?thesis using others(1) by simp
qed

lemma sys_inv_reachable:
  assumes "(sys_step E n N)\<^sup>*\<^sup>* S0 S" "sys_init n S0"
    and "http E = consul_http other" "v4_net p n" "10 \<le> p" "p \<le> 29" "N < 2 ^ (32 - p)"
  shows "sys_inv p n N S"
  using assms(1,2)
proof (induction rule: rtranclp_induct)
  case base
  then show ?case by (rule sys_inv_init)
next
  case (step S S')
  then show ?case using sys_inv_step[OF step.hyps(2) assms(3-7)] by blast
qed

lemma held_host:
  assumes "sys_inv p n N S" "i < N" "held (jobs S i) = Some a"
  shows "host n a - 1 \<in> bits_of (cur_pool n (kvstore S))" "Suc (host n a - 1) mod 2 ^ (32 - p) = host n a"
    "ip_nat a = ip_nat (IP n) + host n a"
proof -
  show "host n a - 1 \<in> bits_of (cur_pool n (kvstore S))"
    unfolding inv_bits[OF assms(1)] positions_def using assms by blast
  show "Suc (host n a - 1) mod 2 ^ (32 - p) = host n a" "ip_nat a = ip_nat (IP n) + host n a"
    using inv_held[OF assms] by simp_all
qed

subsection \<open>Properties\<close>

text \<open>C1. Any number of clients, fewer than the subnet has addresses, request and release
  addresses of a subnet with a prefix of 10 to 29 bits, in any interleaving of their
  HTTP exchanges and of writes of others under other keys, starting from an empty
  pool.  In every reachable state no client has crashed, the addresses held lie in
  the subnet and no two clients hold the same one, and the positions set in the
  stored pool are those of the held addresses: the compare-and-set loses no update.\<close>

theorem ipam_concurrent_safe:
  assumes "http E = consul_http other" "v4_net p n" "10 \<le> p" "p \<le> 29" "N < 2 ^ (32 - p)"
    and "sys_init n S0" "(sys_step E n N)\<^sup>*\<^sup>* S0 S"
  shows "(\<forall>i<N. jobs S i \<noteq> Crashed) \<and>
    (\<forall>i<N. \<forall>a. held (jobs S i) = Some a \<longrightarrow> length a = 4 \<and> Contains n a) \<and>
    (\<forall>i<N. \<forall>j<N. i \<noteq> j \<longrightarrow> held (jobs S i) \<noteq> None \<longrightarrow> held (jobs S i) \<noteq> held (jobs S j)) \<and>
    bits_of (cur_pool n (kvstore S)) = {ip_nat a - ip_nat (IP n) - 1 | a. \<exists>i<N. held (jobs S i) = Some a}"
proof (intro conjI allI impI)
  note inv = sys_inv_reachable[OF assms(7,6,1-5)]
  show "jobs S i \<noteq> Crashed" if "i < N" for i using inv_ok[OF inv that] by (cases "jobs S i") auto
  show "length a = 4" "Contains n a" if "i < N" "held (jobs S i) = Some a" for i a
    using inv_held[OF inv that] by auto
  show "held (jobs S i) \<noteq> held (jobs S j)" if ij: "i < N" "j < N" "i \<noteq> j" "held (jobs S i) \<noteq> None" for i j
  proof
    obtain a where a: "held (jobs S i) = Some a" using ij(4) by blast
    assume "held (jobs S i) = held (jobs S j)"
    then show False using inv_distinct[OF inv ij(1-3) a, of a] a by simp
  qed
  show "bits_of (cur_pool n (kvstore S)) = {ip_nat a - ip_nat (IP n) - 1 | a. \<exists>i<N. held (jobs S i) = Some a}"
    unfolding inv_bits[OF inv] positions_def host_def by blast
qed

text \<open>Two clients that both read the empty pool before either writes.\<close>

definition race_start :: "kvs_store ipam_sys" where
  "race_start = \<lparr>kvstore = world (node []), jobs = (\<lambda>_. Idle)\<rparr>"

lemma race_init: "sys_init net24 race_start"
  using node_view[of dataStore "ipnet_String net24"] node_room[of 0] agent_key_subnet[OF v4_nets(1)]
  by (simp add: sys_init_def race_start_def agent_view_def pool_key_def)

theorem ipam_concurrent_safe_witness:
  "\<exists>S. (sys_step consul_env net24 2)\<^sup>*\<^sup>* race_start S \<and> (jobs S 0 = Req \<and> jobs S 1 = Req) \<and> jobs S 0 \<noteq> Crashed \<and>
     bits_of (cur_pool net24 (kvstore S)) = {}"
proof -
  let ?S1 = "\<lparr>kvstore = world (node []), jobs = (\<lambda>_. Idle)(0 := Req)\<rparr>"
    and ?S2 = "\<lparr>kvstore = world (node []), jobs = (\<lambda>_. Idle)(0 := Req, 1 := Req)\<rparr>"
  have "sys_step consul_env net24 2 race_start ?S1" "sys_step consul_env net24 2 ?S1 ?S2"
    using call_request[of 0 2 race_start consul_env net24] call_request[of 1 2 ?S1 consul_env net24]
    by (simp_all add: race_start_def)
  then have r: "(sys_step consul_env net24 2)\<^sup>*\<^sup>* race_start ?S2" by (meson rtranclp.rtrancl_into_rtrancl rtranclp.rtrancl_refl)
  have "(\<forall>i<2. jobs ?S2 i \<noteq> Crashed) \<and>
    bits_of (cur_pool net24 (kvstore ?S2)) = {ip_nat a - ip_nat (IP net24) - 1 | a. \<exists>i<2. held (jobs ?S2 i) = Some a}"
    using ipam_concurrent_safe[OF _ v4_nets(1) _ _ _ race_init r, of "\<lambda>m url body w. (None, w)"]
    by (simp add: consul_env_def)
  then have "jobs ?S2 0 \<noteq> Crashed" "bits_of (cur_pool net24 (kvstore ?S2)) = {}" by (auto split: if_splits)
  with r show ?thesis by (intro exI[of _ ?S2]) simp
qed

text \<open>C5. No reachable state is stuck: a call of \<open>IPAMRequest\<close> that no other client
  interrupts returns on its first attempt, with an address of the subnet that
  nobody holds.\<close>

theorem ipam_request_returns:
  assumes "http E = consul_http other" "v4_net p n" "10 \<le> p" "p \<le> 29" "N < 2 ^ (32 - p)"
    and "sys_init n S0" "(sys_step E n N)\<^sup>*\<^sup>* S0 S" "consul_room 1 (kvstore S)"
  shows "\<exists>a s'. IPAMRequest (Suc f) E n (online_node (kvstore S)) = (Ret a, s') \<and> Contains n a \<and>
    (\<forall>i<N. held (jobs S i) \<noteq> Some a)"
proof -
  note inv = sys_inv_reachable[OF assms(7,6,1-5)]
  have P: "pool n (agent_view consul_kv (online_node (kvstore S)) dataStore (ipnet_String n)) = cur_pool n (kvstore S)"
    using agent_key_subnet[OF assms(2)] by (simp add: cur_pool_def agent_view_def pool_key_def)
  have "card {k. k < N \<and> held (jobs S k) \<noteq> None} \<le> card {..<N}" by (rule card_mono) auto
  then have "card (bits_of (cur_pool n (kvstore S))) + 1 \<le> 2 ^ (32 - p)"
    using held_positions[OF inv] assms(5) by simp
  note free = this
  obtain as s' where "repeatM 1 (IPAMRequest (Suc f) E n) (online_node (kvstore S)) = (Ret as, s')" "length as = 1"
    and r: "\<forall>a\<in>set as. Contains n a \<and>
      (\<forall>j\<in>bits_of (cur_pool n (kvstore S)). ip_nat a \<noteq> ip_nat (IP n) + Suc j mod 2 ^ (32 - p))"
    using datastore.IPAMRequests_fresh_addresses[OF consul_datastore[OF assms(1)] assms(2-4) agent_key_subnet[OF assms(2)] _
        P[symmetric] inv_cap(1)[OF inv assms(2-4)] free, of 0 f] assms(8) by auto
  then obtain a where a: "IPAMRequest (Suc f) E n (online_node (kvstore S)) = (Ret a, s')" "as = [a]"
    by (auto simp: run_simps split: prod.splits outcome.splits)
  have "held (jobs S i) \<noteq> Some a" if "i < N" for i
    using held_host[OF inv that, of a] r a(2) by (metis list.set_intros(1))
  then show ?thesis using a r by auto
qed

theorem ipam_request_returns_witness:
  "\<exists>a s'. IPAMRequest 1 consul_env net24 (online_node (kvstore race_start)) = (Ret a, s') \<and> Contains net24 a"
  using ipam_request_returns[OF _ v4_nets(1) _ _ _ race_init rtranclp.rtrancl_refl, of consul_env "\<lambda>m url body w. (None, w)" 2 0]
  by (auto simp: consul_env_def race_start_def node_room)

end
