(* ===== verification/NetUtils.thy ===== *)
theory NetUtils
  imports Ipam
begin

section \<open>Networks and interfaces (daemon/utils.go)\<close>

text \<open>
  The range, overlap and size of IPv4 networks, and the wrappers around
  vishvananda/netlink that configure interfaces.  What netlink does is a request
  to the kernel; each of its functions is a field of the environment, a function
  of the outside world.  An error result is \<open>Inl\<close>, or \<open>Some\<close> where there
  is nothing else to return.
\<close>

subsection \<open>The kernel\<close>

record LinkAttrs =
  la_Index :: int
  la_MTU :: int
  la_TxQLen :: "32 word"
  la_Name :: string
  la_HardwareAddr :: bytes
  la_Flags :: uint
  la_ParentIndex :: int
  la_MasterIndex :: int

record Addr =
  addr_IPNet :: IPNet
  addr_Label :: string

record Route =
  rt_LinkIndex :: int
  rt_Scope :: byte
  rt_Dst :: "IPNet option"
  rt_Src :: bytes
  rt_Gw :: bytes

record 'w net_env = "'w http_env" +
  LinkByName :: "string \<Rightarrow> 'w \<Rightarrow> (gerror + LinkAttrs) \<times> 'w"
  LinkByIndex :: "int \<Rightarrow> 'w \<Rightarrow> (gerror + LinkAttrs) \<times> 'w"
  AddrList :: "LinkAttrs \<Rightarrow> 'w \<Rightarrow> (gerror + Addr list) \<times> 'w"
  RouteList :: "'w \<Rightarrow> (gerror + Route list) \<times> 'w"
  RouteGet :: "bytes \<Rightarrow> 'w \<Rightarrow> (gerror + Route list) \<times> 'w"
  RouteAdd :: "Route \<Rightarrow> 'w \<Rightarrow> gerror option \<times> 'w"
  AddrAdd :: "LinkAttrs \<Rightarrow> Addr \<Rightarrow> 'w \<Rightarrow> gerror option \<times> 'w"
  LinkSetUp :: "LinkAttrs \<Rightarrow> 'w \<Rightarrow> gerror option \<times> 'w"
  LinkSetDown :: "LinkAttrs \<Rightarrow> 'w \<Rightarrow> gerror option \<times> 'w"
  LinkSetName :: "LinkAttrs \<Rightarrow> string \<Rightarrow> 'w \<Rightarrow> gerror option \<times> 'w"
  LinkSetMTU :: "LinkAttrs \<Rightarrow> int \<Rightarrow> 'w \<Rightarrow> gerror option \<times> 'w"
  LinkSetHardwareAddr :: "LinkAttrs \<Rightarrow> bytes \<Rightarrow> 'w \<Rightarrow> gerror option \<times> 'w"
  LinkSetNsPid :: "LinkAttrs \<Rightarrow> int \<Rightarrow> 'w \<Rightarrow> gerror option \<times> 'w"
  LinkSetNsFd :: "LinkAttrs \<Rightarrow> int \<Rightarrow> 'w \<Rightarrow> gerror option \<times> 'w"

text \<open>A request to the outside world.\<close>

definition outside :: "('w \<Rightarrow> 'a \<times> 'w) \<Rightarrow> (('w, 'z) ecc_state_scheme, 'a) comp" where
  "outside f = (\<lambda>s. let (a, w) = f (world s) in (Ret a, s\<lparr>world := w\<rparr>))"

lemma outside_run [run_simps]: "outside f s = (Ret (fst (f (world s))), s\<lparr>world := snd (f (world s))\<rparr>)"
  by (simp add: outside_def case_prod_beta)

subsection \<open>Ranges\<close>

definition ErrNoDefaultRoute :: gerror where
  "ErrNoDefaultRoute = Err ''no default route''"

definition ErrNetworkOverlaps :: gerror where
  "ErrNetworkOverlaps = Err ''requested network overlaps with existing network''"

fun NetworkRange_loop :: "bytes \<Rightarrow> bytes \<Rightarrow> int list \<Rightarrow> bytes \<Rightarrow> bytes outcome" where
  "NetworkRange_loop netIP msk [] lastIP = Ret lastIP"
| "NetworkRange_loop netIP msk (i # ixs) lastIP =
     bindO (slice_get netIP i) (\<lambda>b. bindO (slice_get msk i) (\<lambda>m.
     bindO (slice_set lastIP i (b OR NOT m)) (NetworkRange_loop netIP msk ixs)))"

definition NetworkRange :: "IPNet \<Rightarrow> (bytes \<times> bytes) outcome" where
  "NetworkRange network =
     (let netIP = To4 (IP network); firstIP = ip_Mask netIP (Mask network); lastIP = To4 (IPv4 0 0 0 0)
      in bindO (NetworkRange_loop netIP (Mask network) [0..int (length lastIP) - 1] lastIP)
           (\<lambda>lastIP. Ret (firstIP, lastIP)))"

definition NetworkOverlaps :: "IPNet \<Rightarrow> IPNet \<Rightarrow> bool outcome" where
  "NetworkOverlaps netX netY =
     bindO (NetworkRange netX) (\<lambda>(firstIP, _).
       if Contains netY firstIP then Ret True
       else bindO (NetworkRange netY) (\<lambda>(firstIP, _).
         if Contains netX firstIP then Ret True else Ret False))"

text \<open>\<open>binary.BigEndian.Uint32\<close>, and an \<open>int32\<close> as the signed value of a 32-bit word.\<close>

fun Uint32 :: "bytes \<Rightarrow> 32 word" where
  "Uint32 [a, b, c, d] = push_bit 24 (ucast a) OR push_bit 16 (ucast b) OR push_bit 8 (ucast c) OR ucast d"
| "Uint32 _ = 0"

fun NetworkSize_loop :: "bytes \<Rightarrow> int list \<Rightarrow> bytes \<Rightarrow> bytes outcome" where
  "NetworkSize_loop msk [] m = Ret m"
| "NetworkSize_loop msk (i # ixs) m =
     bindO (slice_get msk i) (\<lambda>b. bindO (slice_set m i (NOT b)) (NetworkSize_loop msk ixs))"

definition NetworkSize :: "bytes \<Rightarrow> 32 word outcome" where
  "NetworkSize msk =
     bindO (NetworkSize_loop msk [0..3] [0, 0, 0, 0]) (\<lambda>m. Ret (Uint32 m + 1))"

fun overlaps_any :: "IPNet \<Rightarrow> Route list \<Rightarrow> gerror option outcome" where
  "overlaps_any toCheck [] = Ret None"
| "overlaps_any toCheck (network # networks) =
     (case rt_Dst network of
        None \<Rightarrow> overlaps_any toCheck networks
      | Some dst \<Rightarrow> bindO (NetworkOverlaps toCheck dst) (\<lambda>ov.
          if ov then Ret (Some ErrNetworkOverlaps) else overlaps_any toCheck networks))"

definition CheckRouteOverlaps :: "('w, 'x) net_env_scheme \<Rightarrow> IPNet \<Rightarrow> (('w, 'z) ecc_state_scheme, gerror option) comp" where
  "CheckRouteOverlaps E toCheck =
     tryM (outside (RouteList E)) (\<lambda>networks. liftO (overlaps_any toCheck networks))"

subsection \<open>Hardware addresses\<close>

definition xtoi2 :: "string \<Rightarrow> char \<Rightarrow> byte option" where
  "xtoi2 s e =
     (if length s > 2 \<and> s ! 2 \<noteq> e then None
      else (case xtoi (take 2 s) of Some (n, r) \<Rightarrow> if r = [] \<and> length s \<ge> 2 then Some (of_int n) else None | None \<Rightarrow> None))"

fun parse_groups :: "nat \<Rightarrow> (string \<Rightarrow> bytes option) \<Rightarrow> nat \<Rightarrow> string \<Rightarrow> bytes option" where
  "parse_groups step grp 0 s = Some []"
| "parse_groups step grp (Suc n) s = (case grp s of
       None \<Rightarrow> None
     | Some b \<Rightarrow> map_option ((@) b) (parse_groups step grp n (drop step s)))"

definition mac_error :: "string \<Rightarrow> gerror" where
  "mac_error s = Err (''invalid MAC address: '' @ s)"

definition ParseMAC :: "string \<Rightarrow> gerror + bytes" where
  "ParseMAC s =
     (if length s < 14 then Inl (mac_error s)
      else if s ! 2 = CHR '':'' \<or> s ! 2 = CHR ''-'' then
        (let n = (length s + 1) div 3 in
         if (length s + 1) mod 3 \<noteq> 0 \<or> n \<notin> {6, 8, 20} then Inl (mac_error s)
         else (case parse_groups 3 (\<lambda>t. map_option (\<lambda>b. [b]) (xtoi2 t (s ! 2))) n s of
             None \<Rightarrow> Inl (mac_error s) | Some hw \<Rightarrow> Inr hw))
      else if s ! 4 = CHR ''.'' then
        (let n = 2 * (length s + 1) div 5 in
         if (length s + 1) mod 5 \<noteq> 0 \<or> n \<notin> {6, 8, 20} then Inl (mac_error s)
         else (case parse_groups 5 (\<lambda>t. case (xtoi2 (take 2 t) (CHR 0x00), xtoi2 (drop 2 t) (s ! 4)) of
                 (Some a, Some b) \<Rightarrow> Some [a, b] | _ \<Rightarrow> None) (n div 2) s of
             None \<Rightarrow> Inl (mac_error s) | Some hw \<Rightarrow> Inr hw))
      else Inl (mac_error s))"

definition hw_String :: "bytes \<Rightarrow> string" where
  "hw_String hw = concat (map2 (\<lambda>i b. (if i = (0::nat) then [] else '':'') @
     [hex_char (unat b div 16), hex_char (unat b mod 16)]) [0..<length hw] hw)"

subsection \<open>Interfaces\<close>

text \<open>\<open>ParseIPNet\<close> of netlink.go keeps the host part of the address.\<close>

definition ParseIPNet :: "string \<Rightarrow> gerror + IPNet" where
  "ParseIPNet s = (case ParseCIDR s of Inl err \<Rightarrow> Inl err | Inr (ip, ipNet) \<Rightarrow> Inr \<lparr>IP = ip, Mask = Mask ipNet\<rparr>)"

definition GetIfaceAddr :: "('w, 'x) net_env_scheme \<Rightarrow> string \<Rightarrow> (('w, 'z) ecc_state_scheme, gerror + IPNet) comp" where
  "GetIfaceAddr E name =
     tryE (outside (LinkByName E name)) (\<lambda>iface.
     tryE (outside (AddrList E iface)) (\<lambda>addrs.
       case addrs of
         [] \<Rightarrow> retM (Inl (Err (''Interface '' @ name @ '' has no IP addresses'')))
       | a # _ \<Rightarrow> retM (Inr (addr_IPNet a))))"

definition GetDefaultRouteIface :: "('w, 'x) net_env_scheme \<Rightarrow> (('w, 'z) ecc_state_scheme, int \<times> gerror option) comp" where
  "GetDefaultRouteIface E = bindM (outside (RouteGet E (ParseIP ''0.0.0.0''))) (\<lambda>r. case r of
       Inl err \<Rightarrow> retM (- 1, Some (Wrap ''unable to get default route: '' err))
     | Inr (rt # _) \<Rightarrow> retM (rt_LinkIndex rt, None)
     | Inr [] \<Rightarrow> retM (- 1, Some ErrNoDefaultRoute))"

definition InterfaceUp :: "('w, 'x) net_env_scheme \<Rightarrow> string \<Rightarrow> (('w, 'z) ecc_state_scheme, gerror option) comp" where
  "InterfaceUp E name = tryM (outside (LinkByName E name)) (\<lambda>iface. outside (LinkSetUp E iface))"

definition InterfaceDown :: "('w, 'x) net_env_scheme \<Rightarrow> string \<Rightarrow> (('w, 'z) ecc_state_scheme, gerror option) comp" where
  "InterfaceDown E name = tryM (outside (LinkByName E name)) (\<lambda>iface. outside (LinkSetDown E iface))"

definition ChangeInterfaceName :: "('w, 'x) net_env_scheme \<Rightarrow> string \<Rightarrow> string \<Rightarrow>
    (('w, 'z) ecc_state_scheme, gerror option) comp" where
  "ChangeInterfaceName E old newName =
     tryM (outside (LinkByName E old)) (\<lambda>iface. outside (LinkSetName E iface newName))"

definition SetInterfaceInNamespacePid :: "('w, 'x) net_env_scheme \<Rightarrow> string \<Rightarrow> int \<Rightarrow>
    (('w, 'z) ecc_state_scheme, gerror option) comp" where
  "SetInterfaceInNamespacePid E name nsPid =
     tryM (outside (LinkByName E name)) (\<lambda>iface. outside (LinkSetNsPid E iface nsPid))"

definition SetInterfaceInNamespaceFd :: "('w, 'x) net_env_scheme \<Rightarrow> string \<Rightarrow> int \<Rightarrow>
    (('w, 'z) ecc_state_scheme, gerror option) comp" where
  "SetInterfaceInNamespaceFd E name fd =
     tryM (outside (LinkByName E name)) (\<lambda>iface. outside (LinkSetNsFd E iface fd))"

definition SetDefaultGateway :: "('w, 'x) net_env_scheme \<Rightarrow> string \<Rightarrow> string \<Rightarrow>
    (('w, 'z) ecc_state_scheme, gerror option) comp" where
  "SetDefaultGateway E ip ifaceName =
     tryM (outside (LinkByName E ifaceName)) (\<lambda>iface.
       let gw = ParseIP ip in
       if gw = [] then retM (Some (Err ''Invalid gateway address''))
       else (case ParseCIDR ''0.0.0.0/0'' of
           Inl err \<Rightarrow> retM (Some err)
         | Inr (_, dst) \<Rightarrow> outside (RouteAdd E
             \<lparr>rt_LinkIndex = la_Index iface, rt_Scope = 0, rt_Dst = Some dst, rt_Src = [], rt_Gw = gw\<rparr>)))"

definition SetInterfaceMac :: "('w, 'x) net_env_scheme \<Rightarrow> string \<Rightarrow> string \<Rightarrow>
    (('w, 'z) ecc_state_scheme, gerror option) comp" where
  "SetInterfaceMac E name macaddr =
     tryM (outside (LinkByName E name)) (\<lambda>iface.
       case ParseMAC macaddr of
         Inl err \<Rightarrow> retM (Some err)
       | Inr hwaddr \<Rightarrow> outside (LinkSetHardwareAddr E iface hwaddr))"

definition SetInterfaceIp :: "('w, 'x) net_env_scheme \<Rightarrow> string \<Rightarrow> string \<Rightarrow>
    (('w, 'z) ecc_state_scheme, gerror option) comp" where
  "SetInterfaceIp E name rawIp =
     tryM (outside (LinkByName E name)) (\<lambda>iface.
       case ParseIPNet rawIp of
         Inl err \<Rightarrow> retM (Some err)
       | Inr ipNet \<Rightarrow> outside (AddrAdd E iface \<lparr>addr_IPNet = ipNet, addr_Label = []\<rparr>))"

definition SetMtu :: "('w, 'x) net_env_scheme \<Rightarrow> string \<Rightarrow> int \<Rightarrow> (('w, 'z) ecc_state_scheme, gerror option) comp" where
  "SetMtu E name mtu = tryM (outside (LinkByName E name)) (\<lambda>iface. outside (LinkSetMTU E iface mtu))"

definition GetIfaceForRoute :: "('w, 'x) net_env_scheme \<Rightarrow> string \<Rightarrow> (('w, 'z) ecc_state_scheme, gerror + string) comp" where
  "GetIfaceForRoute E address =
     (let addr = ParseIP address in
      if addr = [] then retM (Inl (Err ''invalid address''))
      else tryE (outside (RouteGet E addr)) (\<lambda>routes.
        case routes of
          [] \<Rightarrow> retM (Inl (Err ''no route to destination''))
        | rt # _ \<Rightarrow> tryE (outside (LinkByIndex E (rt_LinkIndex rt))) (\<lambda>link. retM (Inr (la_Name link)))))"


subsection \<open>Ranges of IPv4 networks\<close>

lemma upto_0_3: "[0..3] = [0, 1, 2, 3 :: int]"
  by (simp add: upto.simps)

lemma map2_length4:
  assumes "length a = 4" "length b = 4"
  obtains w x y z w' x' y' z' where "a = [w, x, y, z]" "b = [w', x', y', z']"
  using assms by (metis length4E)

lemma NetworkRange_v4:
  assumes "v4_net p n"
  shows "NetworkRange n = Ret (IP n, map2 (\<lambda>b m. b OR NOT m) (IP n) (CIDRMask p 32))"
proof -
  have l: "length (IP n) = 4" "length (Mask n) = 4" "Mask n = CIDRMask p 32" "ip_Mask (IP n) (Mask n) = IP n"
    using assms by (auto simp: v4_net_def)
  obtain w x y z w' x' y' z' where *: "IP n = [w, x, y, z]" "Mask n = [w', x', y', z']"
    using map2_length4[OF l(1,2)] .
  have "NetworkRange_loop (IP n) (Mask n) [0, 1, 2, 3] [0, 0, 0, 0] = Ret (map2 (\<lambda>b m. b OR NOT m) (IP n) (Mask n))"
    by (simp add: * slice_get_def slice_set_def)
  then show ?thesis using l by (simp add: NetworkRange_def Let_def upto_0_3 del: NetworkRange_loop.simps)
qed

lemma ip_bit_last:
  assumes "v4_net p n"
  shows "ip_bit (map2 (\<lambda>b m. b OR NOT m) (IP n) (CIDRMask p 32)) i \<longleftrightarrow> i < 32 \<and> (ip_bit (IP n) i \<or> i < 32 - p)"
proof -
  have l: "length (IP n) = 4" and p: "p \<le> 32" using assms by (auto simp: v4_net_def)
  have "ip_bit (map2 (\<lambda>b m. b OR NOT m) a m) i \<longleftrightarrow> i < 8 * length a \<and> (ip_bit a i \<or> \<not> ip_bit m i)"
    if "length a = length m" for a m :: bytes
    using that by (induction a m rule: list_induct2) (auto simp: ip_bit_Cons bit_simps)
  then show ?thesis using l p by (auto simp: ip_bit_CIDRMask)
qed

lemma ip_nat_last:
  assumes "v4_net p n"
  shows "ip_nat (map2 (\<lambda>b m. b OR NOT m) (IP n) (CIDRMask p 32)) = ip_nat (IP n) + (2 ^ (32 - p) - 1)"
proof -
  have "ip_nat (IP n) + (2 ^ (32 - p) - 1) = ip_nat (IP n) OR mask (32 - p)"
    unfolding mask_eq_exp_minus_1[symmetric]
    by (rule disjunctive_add) (auto simp: ip_nat_bit bit_simps v4_net_host_bits[OF assms])
  moreover have "ip_nat (map2 (\<lambda>b m. b OR NOT m) (IP n) (CIDRMask p 32)) = ip_nat (IP n) OR mask (32 - p)"
  proof -
    have "i < 32" if "ip_bit (IP n) i" for i using ip_bit_length[OF that] assms by (simp add: v4_net_def)
    then show ?thesis by (auto simp: bit_eq_iff bit_simps ip_nat_bit ip_bit_last[OF assms])
  qed
  ultimately show ?thesis by simp
qed

lemma div_eq_iff_range:
  assumes "0 < (M :: nat)"
  shows "x div M = q \<longleftrightarrow> M * q \<le> x \<and> x \<le> M * q + (M - 1)"
proof -
  have "x div M = q \<longleftrightarrow> M * q \<le> x \<and> x < M * Suc q"
    using assms by (metis div_mult_self1_is_m div_nat_eqI dividend_less_times_div times_div_less_eq_dividend mult.commute mult_Suc_right)
  then show ?thesis using assms by auto
qed

text \<open>An address lies in the network when it lies between the ends of the range.\<close>

lemma Contains_ip_nat:
  assumes "v4_net p n" "length a = 4"
  shows "Contains n a \<longleftrightarrow> ip_nat (IP n) \<le> ip_nat a \<and> ip_nat a \<le> ip_nat (IP n) + (2 ^ (32 - p) - 1)"
proof -
  let ?k = "32 - p"
  have "drop_bit ?k (ip_nat a) = drop_bit ?k (ip_nat (IP n)) \<longleftrightarrow> Contains n a"
    unfolding Contains_v4[OF assms] bit_eq_iff bit_drop_bit_eq
    by (simp add: ip_nat_bit) (metis add_diff_inverse_nat le_add1 not_less)
  moreover have "ip_nat (IP n) mod 2 ^ ?k = 0" using v4_net_aligned[OF assms(1)] by simp
  then obtain q where q: "ip_nat (IP n) = 2 ^ ?k * q" by auto
  moreover from this have "ip_nat (IP n) div 2 ^ ?k = q" by simp
  ultimately show ?thesis using q div_eq_iff_range[of "2 ^ ?k" "ip_nat a" q] by (simp add: drop_bit_eq_div)
qed

lemma NetworkOverlaps_v4:
  assumes "v4_net p n" "v4_net q m"
  shows "NetworkOverlaps n m = Ret (Contains m (IP n) \<or> Contains n (IP m))"
  by (simp add: NetworkOverlaps_def NetworkRange_v4[OF assms(1)] NetworkRange_v4[OF assms(2)])

lemma overlap_shared:
  assumes "v4_net p n" "v4_net q m" "p \<le> q" "length a = 4" "Contains n a" "Contains m a"
  shows "Contains n (IP m)"
proof -
  have l: "length (IP m) = 4" using assms(2) by (simp add: v4_net_def)
  show ?thesis
    using assms(3,5,6) unfolding Contains_v4[OF assms(1,4)] Contains_v4[OF assms(2,4)] Contains_v4[OF assms(1) l]
    by (metis diff_le_mono2 le_trans)
qed

lemma Contains_own: "v4_net p n \<Longrightarrow> Contains n (IP n)"
  by (subst Contains_v4) (auto simp: v4_net_def)

lemma overlap_iff_shared:
  assumes "v4_net p n" "v4_net q m"
  shows "Contains m (IP n) \<or> Contains n (IP m) \<longleftrightarrow> (\<exists>a. length a = 4 \<and> Contains n a \<and> Contains m a)"
proof
  assume "Contains m (IP n) \<or> Contains n (IP m)"
  moreover have "length (IP n) = 4" "length (IP m) = 4" using assms by (auto simp: v4_net_def)
  ultimately show "\<exists>a. length a = 4 \<and> Contains n a \<and> Contains m a"
    using Contains_own[OF assms(1)] Contains_own[OF assms(2)] by blast
next
  assume "\<exists>a. length a = 4 \<and> Contains n a \<and> Contains m a"
  then show "Contains m (IP n) \<or> Contains n (IP m)"
    using overlap_shared[OF assms] overlap_shared[OF assms(2,1)] by (metis nat_le_linear)
qed

lemma NetworkSize_CIDRMask:
  assumes "p \<le> 32"
  shows "NetworkSize (CIDRMask p 32) = Ret (2 ^ (32 - p))"
proof -
  have "\<forall>p\<in>set [0..<33]. NetworkSize (CIDRMask p 32) = Ret (2 ^ (32 - p))" by code_simp
  then show ?thesis using assms by auto
qed

subsection \<open>Hardware addresses in text\<close>

lemma xtoi2_hex:
  fixes b :: byte
  shows "xtoi2 (hex_char (unat b div 16) # hex_char (unat b mod 16) # CHR '':'' # r) CHR '':'' = Some b"
    and "xtoi2 [hex_char (unat b div 16), hex_char (unat b mod 16)] CHR '':'' = Some b"
proof -
  have h: "unat b div 16 < 16" "unat b mod 16 < 16" using unat_byte_less[of b] by simp_all
  have e: "int (unat b div 16) * 16 + int (unat b mod 16) = int (unat b)"
    by (metis of_nat_add of_nat_mult of_nat_numeral div_mult_mod_eq)
  have "int (unat b) < 256" using unat_byte_less[of b] by linarith
  then have "xtoi [hex_char (unat b div 16), hex_char (unat b mod 16)] = Some (int (unat b), [])"
    using h e hex_val_hex_char[OF h(1)] hex_val_hex_char[OF h(2)] by (simp add: xtoi_def big_def)
  then show "xtoi2 (hex_char (unat b div 16) # hex_char (unat b mod 16) # CHR '':'' # r) CHR '':'' = Some b"
    "xtoi2 [hex_char (unat b div 16), hex_char (unat b mod 16)] CHR '':'' = Some b"
    by (simp_all add: xtoi2_def)
qed

lemma parse_groups_hex:
  fixes b :: byte
  defines "g \<equiv> \<lambda>t. map_option (\<lambda>b. [b]) (xtoi2 t CHR '':'')"
  shows "parse_groups 3 g (Suc n) (hex_char (unat b div 16) # hex_char (unat b mod 16) # CHR '':'' # r) =
      map_option ((@) [b]) (parse_groups 3 g n r)"
    and "parse_groups 3 g (Suc 0) [hex_char (unat b div 16), hex_char (unat b mod 16)] = Some [b]"
  by (simp_all add: g_def xtoi2_hex)

lemma hw_String6: "hw_String [a, b, c, d, e, f] =
    [hex_char (unat a div 16), hex_char (unat a mod 16), CHR '':'', hex_char (unat b div 16), hex_char (unat b mod 16), CHR '':'',
     hex_char (unat c div 16), hex_char (unat c mod 16), CHR '':'', hex_char (unat d div 16), hex_char (unat d mod 16), CHR '':'',
     hex_char (unat e div 16), hex_char (unat e mod 16), CHR '':'', hex_char (unat f div 16), hex_char (unat f mod 16)]"
proof -
  have "[0..<length [a, b, c, d, e, f]] = [0, 1, 2, 3, 4, 5]" by (simp add: upt_rec)
  then show ?thesis unfolding hw_String_def by simp
qed

lemma ParseMAC_hw_String:
  assumes "length hw = 6"
  shows "ParseMAC (hw_String hw) = Inr hw"
proof -
  obtain a b c d e f where hw: "hw = [a, b, c, d, e, f]"
    using assms by (auto simp: numeral_eq_Suc length_Suc_conv)
  let ?s = "hw_String hw" and ?g = "\<lambda>t. map_option (\<lambda>b. [b]) (xtoi2 t CHR '':'')"
  have l: "length ?s = 17" "?s ! 2 = CHR '':''" by (simp_all add: hw hw_String6)
  have "parse_groups 3 ?g (Suc (Suc (Suc (Suc (Suc (Suc 0)))))) ?s = Some hw"
    unfolding hw hw_String6 parse_groups_hex by simp
  moreover have "(17 + 1) div 3 = Suc (Suc (Suc (Suc (Suc (Suc 0)))))" by simp
  ultimately have "parse_groups 3 ?g ((length ?s + 1) div 3) ?s = Some hw" unfolding l(1) by argo
  then show ?thesis unfolding ParseMAC_def l(2) by (simp add: l(1))
qed

text \<open>
  The check of the routes of the host: an error exactly when a destination shares
  an address with the network.
\<close>

definition v4_routes :: "Route list \<Rightarrow> bool" where
  "v4_routes rs \<longleftrightarrow> list_all (\<lambda>r. case rt_Dst r of None \<Rightarrow> True | Some d \<Rightarrow> \<exists>q. v4_net q d) rs"

definition shares_address :: "IPNet \<Rightarrow> IPNet \<Rightarrow> bool" where
  "shares_address n m \<longleftrightarrow> (\<exists>a. length a = 4 \<and> Contains n a \<and> Contains m a)"

lemma NetworkOverlaps_shares: "v4_net p n \<Longrightarrow> v4_net q m \<Longrightarrow> NetworkOverlaps n m = Ret (shares_address n m)"
  by (simp add: NetworkOverlaps_v4 overlap_iff_shared shares_address_def)

lemma overlaps_any_v4:
  assumes "v4_net p n" "v4_routes rs"
  shows "overlaps_any n rs = Ret (if \<exists>r\<in>set rs. \<exists>d. rt_Dst r = Some d \<and> shares_address n d
    then Some ErrNetworkOverlaps else None)"
  using assms(2)
proof (induction rs)
  case (Cons r rs)
  then show ?case
    using NetworkOverlaps_shares[OF assms(1)] by (cases "rt_Dst r") (auto simp: v4_routes_def)
qed simp

lemma CheckRouteOverlaps_v4:
  assumes "v4_net p n" "RouteList E (world s) = (Inr rs, w)" "v4_routes rs"
  shows "CheckRouteOverlaps E n s = (Ret (if \<exists>r\<in>set rs. \<exists>d. rt_Dst r = Some d \<and> shares_address n d
    then Some ErrNetworkOverlaps else None), s\<lparr>world := w\<rparr>)"
  using assms(2) by (simp add: CheckRouteOverlaps_def run_simps overlaps_any_v4[OF assms(1,3)])

subsection \<open>Properties\<close>

text \<open>C30. \<open>NetworkRange\<close> returns the first and the last address of an IPv4 network:
  both lie in it, and an address lies in it exactly when it is between them.\<close>

theorem network_range:
  assumes "v4_net p n"
  shows "\<exists>firstIP lastIP. NetworkRange n = Ret (firstIP, lastIP) \<and> length firstIP = 4 \<and> length lastIP = 4 \<and>
    ip_nat lastIP = ip_nat firstIP + (2 ^ (32 - p) - 1) \<and>
    (\<forall>a. length a = 4 \<longrightarrow> Contains n a = (ip_nat firstIP \<le> ip_nat a \<and> ip_nat a \<le> ip_nat lastIP))"
proof -
  have l: "length (IP n) = 4" "length (CIDRMask p 32) = 4" using assms by (auto simp: v4_net_def)
  then show ?thesis
    using NetworkRange_v4[OF assms] ip_nat_last[OF assms] Contains_ip_nat[OF assms] by simp
qed

theorem network_range_witness:
  "\<exists>firstIP lastIP. NetworkRange net24 = Ret (firstIP, lastIP) \<and> ip_nat lastIP = ip_nat firstIP + 255"
  using network_range[OF v4_nets(1)] by auto

text \<open>C19. \<open>NetworkOverlaps\<close> compares first addresses only; this is equivalent to the
  two IPv4 networks having an address in common.\<close>

theorem network_overlaps_iff:
  assumes "v4_net p n" "v4_net q m"
  shows "NetworkOverlaps n m = Ret (\<exists>a. length a = 4 \<and> Contains n a \<and> Contains m a)"
  using NetworkOverlaps_v4[OF assms] overlap_iff_shared[OF assms] by simp

theorem network_overlaps_iff_witness:
  "NetworkOverlaps net24 net8 = Ret (\<exists>a. length a = 4 \<and> Contains net24 a \<and> Contains net8 a)"
  using network_overlaps_iff[OF v4_nets(1,4)] .

text \<open>\<open>NetworkSize\<close> is the number of addresses of a prefix of \<open>p\<close> bits as a
  32-bit integer: \<open>2 ^ (32 - p)\<close> for prefixes of two bits or more, negative for one
  bit and zero for the whole address space, where the \<open>int32\<close> wraps around.\<close>

theorem network_size:
  assumes "p \<le> 32"
  shows "\<exists>r. NetworkSize (CIDRMask p 32) = Ret r \<and>
    sint r = (if 2 \<le> p then 2 ^ (32 - p) else if p = 1 then - (2 ^ 31) else 0)"
proof -
  have "\<forall>p\<in>set [0..<33]. sint (2 ^ (32 - p) :: 32 word) = (if 2 \<le> p then 2 ^ (32 - p) else if p = 1 then - (2 ^ 31) else 0)"
    by code_simp
  then show ?thesis using NetworkSize_CIDRMask[OF assms] assms by auto
qed

theorem network_size_witness: "\<exists>r. NetworkSize (CIDRMask 1 32) = Ret r \<and> sint r < 0"
  using network_size[of 1] by auto

end
