(* ===== verification/Libovsdb.thy ===== *)
theory Libovsdb
  imports NetUtils "HOL-Library.Char_ord" "HOL-Library.List_Lexorder"
begin

section \<open>The OVSDB client library (socketplane/libovsdb)\<close>

text \<open>
  The values of the OVSDB protocol (RFC 7047) and their JSON notation, the schema
  check, and the client: connecting, transactions, the monitor, the notifications.

  A Go \<open>interface{}\<close> is a \<open>gval\<close>: what \<open>encoding/json\<close> decodes into one, and
  the three types of the library.  Numbers keep the literal they were read from.
  A Go map is an association list, whose order stands for the order in which Go
  ranges over it; \<open>encoding/json\<close> prints the members of a map sorted.

  A connection is the number of its rpc2 client.  Dialling and a call over the
  connection are functions of the environment, with parameters and results as JSON
  documents: rpc2 and its JSON codec are not modelled.
\<close>

subsection \<open>Values\<close>

datatype gval =
    GNil
  | GBool bool
  | GNum string
  | GStr string
  | GSlice "gval list"
  | GObj "(string \<times> gval) list"
  | GUUID string                     \<comment> \<open>\<open>UUID\<close>\<close>
  | GSet "gval list"                 \<comment> \<open>\<open>OvsSet\<close>\<close>
  | GMap "(gval \<times> gval) list"       \<comment> \<open>\<open>OvsMap\<close>\<close>

text \<open>Decoding into an \<open>interface{}\<close>; of two members with the same name the later one stays.\<close>

fun interface_of :: "json \<Rightarrow> gval"
  and interface_list :: "json list \<Rightarrow> gval list"
  and interface_members :: "(string \<times> json) list \<Rightarrow> (string \<times> gval) list \<Rightarrow> (string \<times> gval) list" where
  "interface_of JNull = GNil"
| "interface_of (JBool b) = GBool b"
| "interface_of (JNum n) = GNum n"
| "interface_of (JStr s) = GStr s"
| "interface_of (JArr js) = GSlice (interface_list js)"
| "interface_of (JObj ms) = GObj (interface_members ms [])"
| "interface_list [] = []"
| "interface_list (j # js) = interface_of j # interface_list js"
| "interface_members [] m = m"
| "interface_members ((k, j) # ms) m = interface_members ms (AList.update k (interface_of j) m)"

definition hex_lower :: "char \<Rightarrow> bool" where
  "hex_lower c \<longleftrightarrow> (48 \<le> code c \<and> code c \<le> 57) \<or> (97 \<le> code c \<and> code c \<le> 102)"

definition uuid_pattern :: "(char \<Rightarrow> bool) list" where
  "uuid_pattern = replicate 8 hex_lower @ [(=) CHR ''-''] @ replicate 4 hex_lower @ [(=) CHR ''-''] @
     replicate 4 hex_lower @ [(=) CHR ''-''] @ replicate 4 hex_lower @ [(=) CHR ''-''] @ replicate 12 hex_lower"

definition validateUUID :: "string \<Rightarrow> gerror option" where
  "validateUUID u =
     (if length u \<noteq> 36 then Some (Err ''uuid exceeds 36 characters'')
      else if \<not> list_all2 (\<lambda>p c. p c) uuid_pattern u then Some (Err ''uuid does not match regexp'')
      else None)"

definition UUID_MarshalJSON :: "string \<Rightarrow> json" where
  "UUID_MarshalJSON u = (if validateUUID u = None then JArr [JStr ''uuid'', JStr u] else JArr [JStr ''named-uuid'', JStr u])"

text \<open>
  \<open>json.Marshal\<close> of a value.  The slice an empty set or map is built from is
  \<open>nil\<close>, and \<open>nil\<close> is printed as \<open>null\<close>.
\<close>

definition OvsSet_MarshalJSON :: "json list \<Rightarrow> json" where
  "OvsSet_MarshalJSON vs = JArr [JStr ''set'', if vs = [] then JNull else JArr vs]"

definition OvsMap_MarshalJSON :: "json list \<Rightarrow> json" where
  "OvsMap_MarshalJSON segs = JArr [JStr ''map'', if segs = [] then JNull else JArr segs]"

function marshal :: "gval \<Rightarrow> json"
  and marshal_list :: "gval list \<Rightarrow> json list"
  and marshal_members :: "(string \<times> gval) list \<Rightarrow> (string \<times> json) list"
  and marshal_segs :: "(gval \<times> gval) list \<Rightarrow> json list" where
  "marshal GNil = JNull"
| "marshal (GBool b) = JBool b"
| "marshal (GNum n) = JNum n"
| "marshal (GStr s) = JStr s"
| "marshal (GSlice vs) = JArr (marshal_list vs)"
| "marshal (GObj ms) = JObj (sort_key fst (marshal_members ms))"
| "marshal (GUUID u) = UUID_MarshalJSON u"
| "marshal (GSet vs) = OvsSet_MarshalJSON (marshal_list vs)"
| "marshal (GMap ps) = OvsMap_MarshalJSON (marshal_segs ps)"
| "marshal_list [] = []"
| "marshal_list (v # vs) = marshal v # marshal_list vs"
| "marshal_members [] = []"
| "marshal_members ((k, v) # ms) = (k, marshal v) # marshal_members ms"
| "marshal_segs [] = []"
| "marshal_segs ((k, v) # ps) = JArr [marshal k, marshal v] # marshal_segs ps"
  by pat_completeness auto
termination
  by (relation "measure (case_sum (case_sum size (size_list size))
      (case_sum (size_list (size_prod (\<lambda>_. 0) size)) (size_list (size_prod size size))))") auto

text \<open>\<open>NewOvsSet\<close> and \<open>NewOvsMap\<close> take a slice and a map and refuse anything else.\<close>

definition NewOvsSet :: "gval list \<Rightarrow> gval" where
  "NewOvsSet vs = GSet vs"

definition NewOvsMap :: "(string \<times> gval) list \<Rightarrow> gval" where
  "NewOvsMap ms = GMap (map (\<lambda>(k, v). (GStr k, v)) ms)"

definition NewCondition :: "string \<Rightarrow> string \<Rightarrow> gval \<Rightarrow> gval" where
  "NewCondition column function value = GSlice [GStr column, GStr function, value]"

definition NewMutation :: "string \<Rightarrow> string \<Rightarrow> gval \<Rightarrow> gval" where
  "NewMutation column mutator value = GSlice [GStr column, GStr mutator, value]"

subsection \<open>Reading the notation\<close>

definition assert_panic :: "'a outcome" where
  "assert_panic = Panic ''interface conversion''"

text \<open>
  Each reads the decoded form of the text it is given.  The errors of the inner
  decoding are dropped: the variable the results are returned in is shadowed.
\<close>

fun as_strings :: "gval list \<Rightarrow> string list option" where
  "as_strings [] = Some []"
| "as_strings (v # vs) = (case v of
       GStr s \<Rightarrow> map_option ((#) s) (as_strings vs)
     | GNil \<Rightarrow> map_option ((#) []) (as_strings vs)
     | _ \<Rightarrow> None)"

definition UUID_UnmarshalJSON :: "gval list \<Rightarrow> string outcome" where
  "UUID_UnmarshalJSON sl = (case as_strings sl of
       None \<Rightarrow> Ret []
     | Some ovsUuid \<Rightarrow> slice_get ovsUuid 1)"

fun hashable :: "gval \<Rightarrow> bool" where
  "hashable (GSlice vs) = False"
| "hashable (GObj ms) = False"
| "hashable v = True"

fun map_entries :: "gval list \<Rightarrow> (gval \<times> gval) list \<Rightarrow> (gval \<times> gval) list outcome" where
  "map_entries [] m = Ret m"
| "map_entries (val # vals) m = (case val of
       GSlice f \<Rightarrow> bindO (slice_get f 0) (\<lambda>k. bindO (slice_get f 1) (\<lambda>v.
         if hashable k then map_entries vals (AList.update k v m) else Panic ''runtime error: hash of unhashable type''))
     | _ \<Rightarrow> assert_panic)"

definition OvsMap_UnmarshalJSON :: "gval list \<Rightarrow> gval outcome" where
  "OvsMap_UnmarshalJSON oMap =
     (if length oMap > 1 then
        (case oMap ! 1 of GSlice innerSlice \<Rightarrow> bindO (map_entries innerSlice []) (\<lambda>m. Ret (GMap m)) | _ \<Rightarrow> assert_panic)
      else Ret (GMap []))"

fun ovsSliceToGoNotation :: "gval \<Rightarrow> gval outcome"
  and OvsSet_UnmarshalJSON :: "gval list \<Rightarrow> gval list outcome" where
  "ovsSliceToGoNotation val = (case val of
       GSlice sl \<Rightarrow> (case sl of
           [] \<Rightarrow> index_panic
         | x # r \<Rightarrow>
             if x = GStr ''uuid'' then bindO (UUID_UnmarshalJSON sl) (\<lambda>u. Ret (GUUID u))
             else if x = GStr ''set'' then (case r of
                 [] \<Rightarrow> Ret (GSet [])
               | y # _ \<Rightarrow> (case y of
                   GSlice innerSet \<Rightarrow> bindO (OvsSet_UnmarshalJSON innerSet) (\<lambda>vs. Ret (GSet vs))
                 | _ \<Rightarrow> assert_panic))
             else if x = GStr ''map'' then OvsMap_UnmarshalJSON sl
             else Ret val)
     | _ \<Rightarrow> Ret val)"
| "OvsSet_UnmarshalJSON [] = Ret []"
| "OvsSet_UnmarshalJSON (val # vals) =
     bindO (ovsSliceToGoNotation val) (\<lambda>goVal. bindO (OvsSet_UnmarshalJSON vals) (\<lambda>vs. Ret (goVal # vs)))"

declare ovsSliceToGoNotation.simps(1) [simp del]


subsection \<open>Rows and updates\<close>

text \<open>
  The fields of a row; a row that was never decoded has the \<open>nil\<close> map, which
  \<open>reflect.DeepEqual\<close> tells from an empty one.
\<close>

type_synonym fields = "(string \<times> gval) list"

record Row =
  Fields :: "fields option"

definition empty_Row :: Row where
  "empty_Row = \<lparr>Fields = None\<rparr>"

record RowUpdate =
  ru_Uuid :: string
  ru_New :: Row
  ru_Old :: Row

type_synonym TableUpdate = "(string \<times> RowUpdate) list"
type_synonym TableUpdates = "(string \<times> TableUpdate) list"

text \<open>Storing a document when the decoding may panic.\<close>

type_synonym 's storeO = "json \<Rightarrow> 's \<Rightarrow> (gerror option \<times> 's) outcome"

definition plainO :: "'s store \<Rightarrow> 's storeO" where
  "plainO st j s = Ret (st j s)"

fun store_membersO :: "(string \<times> 's storeO) list \<Rightarrow> (string \<times> json) list \<Rightarrow> 's \<Rightarrow> (gerror option \<times> 's) outcome" where
  "store_membersO fs [] s = Ret (None, s)"
| "store_membersO fs ((k, j) # ms) s =
     (case find_field fs k of
        None \<Rightarrow> store_membersO fs ms s
      | Some f \<Rightarrow> bindO (f j s) (\<lambda>(e, s'). bindO (store_membersO fs ms s') (\<lambda>(e', s''). Ret (first_error e e', s''))))"

definition store_structO :: "string \<Rightarrow> (string \<times> 's storeO) list \<Rightarrow> 's storeO" where
  "store_structO ty fs j s = (case j of
       JNull \<Rightarrow> Ret (None, s)
     | JObj ms \<Rightarrow> store_membersO fs ms s
     | _ \<Rightarrow> Ret (Some (JSONTypeError (kind j) ty), s))"

fun store_entriesO :: "'e \<Rightarrow> 'e storeO \<Rightarrow> (string \<times> json) list \<Rightarrow> (string \<times> 'e) list \<Rightarrow>
    (gerror option \<times> (string \<times> 'e) list) outcome" where
  "store_entriesO z st [] m = Ret (None, m)"
| "store_entriesO z st ((k, j) # ms) m =
     bindO (st j z) (\<lambda>(e, x). bindO (store_entriesO z st ms (AList.update k x m)) (\<lambda>(e', m'). Ret (first_error e e', m')))"

definition store_mapO :: "string \<Rightarrow> 'e \<Rightarrow> 'e storeO \<Rightarrow> (string \<times> 'e) list storeO" where
  "store_mapO ty z st j m = (case j of
       JNull \<Rightarrow> Ret (None, [])
     | JObj ms \<Rightarrow> store_entriesO z st ms m
     | _ \<Rightarrow> Ret (Some (JSONTypeError (kind j) ty), m))"

fun store_elemsO :: "'e \<Rightarrow> 'e storeO \<Rightarrow> json list \<Rightarrow> (gerror option \<times> 'e list) outcome" where
  "store_elemsO z st [] = Ret (None, [])"
| "store_elemsO z st (j # js) =
     bindO (st j z) (\<lambda>(e, x). bindO (store_elemsO z st js) (\<lambda>(e', xs). Ret (first_error e e', x # xs)))"

definition store_sliceO :: "string \<Rightarrow> 'e \<Rightarrow> 'e storeO \<Rightarrow> json \<Rightarrow> (gerror option \<times> 'e list) outcome" where
  "store_sliceO ty z st j = (case j of
       JNull \<Rightarrow> Ret (None, [])
     | JArr js \<Rightarrow> store_elemsO z st js
     | _ \<Rightarrow> Ret (Some (JSONTypeError (kind j) ty), []))"

fun row_fields :: "fields \<Rightarrow> fields \<Rightarrow> fields outcome" where
  "row_fields [] m = Ret m"
| "row_fields ((key, val) # raw) m =
     bindO (ovsSliceToGoNotation val) (\<lambda>v. row_fields raw (AList.update key v m))"

definition Row_UnmarshalJSON :: "Row storeO" where
  "Row_UnmarshalJSON j r = (case j of
       JNull \<Rightarrow> Ret (None, \<lparr>Fields = Some []\<rparr>)
     | JObj ms \<Rightarrow> bindO (row_fields (interface_members ms []) []) (\<lambda>m. Ret (None, \<lparr>Fields = Some m\<rparr>))
     | _ \<Rightarrow> Ret (Some (JSONTypeError (kind j) ''map[string]interface {}''), \<lparr>Fields = Some []\<rparr>))"

text \<open>The document of a \<open>UUID\<close>: not an array of strings leaves the variable alone.\<close>

definition UUID_store :: "string storeO" where
  "UUID_store j u = (case j of
       JArr js \<Rightarrow> (case as_strings (interface_list js) of
           None \<Rightarrow> Ret (None, u)
         | Some ovsUuid \<Rightarrow> bindO (slice_get ovsUuid 1) (\<lambda>v. Ret (None, v)))
     | JNull \<Rightarrow> index_panic
     | _ \<Rightarrow> Ret (None, u))"

definition RowUpdate_zero :: RowUpdate where
  "RowUpdate_zero = \<lparr>ru_Uuid = [], ru_New = empty_Row, ru_Old = empty_Row\<rparr>"

definition RowUpdate_store :: "RowUpdate storeO" where
  "RowUpdate_store = store_structO ''libovsdb.RowUpdate''
     [(''-'', \<lambda>j u. bindO (UUID_store j (ru_Uuid u)) (\<lambda>(e, v). Ret (e, u\<lparr>ru_Uuid := v\<rparr>))),
      (''new'', \<lambda>j u. bindO (Row_UnmarshalJSON j (ru_New u)) (\<lambda>(e, v). Ret (e, u\<lparr>ru_New := v\<rparr>))),
      (''old'', \<lambda>j u. bindO (Row_UnmarshalJSON j (ru_Old u)) (\<lambda>(e, v). Ret (e, u\<lparr>ru_Old := v\<rparr>)))]"

text \<open>\<open>map[string]map[string]RowUpdate\<close>.\<close>

definition rowUpdates_store :: "TableUpdates storeO" where
  "rowUpdates_store = store_mapO ''map[string]map[string]libovsdb.RowUpdate'' []
     (store_mapO ''map[string]libovsdb.RowUpdate'' RowUpdate_zero RowUpdate_store)"

definition getTableUpdatesFromRawUnmarshal :: "TableUpdates \<Rightarrow> TableUpdates" where
  "getTableUpdatesFromRawUnmarshal raw = foldl (\<lambda>m (table, update). AList.update table update m) [] raw"

subsection \<open>Schema and operations\<close>

record ColumnSchema =
  cs_Name :: string
  cs_Type :: gval
  cs_Ephemeral :: bool
  cs_Mutable :: bool

record TableSchema =
  ts_Columns :: "(string \<times> ColumnSchema) list"
  ts_Indexes :: "string list list"

record DatabaseSchema =
  ds_Name :: string
  ds_Version :: string
  ds_Tables :: "(string \<times> TableSchema) list"

record Operation =
  op_Op :: string
  op_Table :: string
  op_Row :: fields
  op_Rows :: "fields list"
  op_Columns :: "string list"
  op_Mutations :: "gval list"
  op_Timeout :: int
  op_Where :: "gval list"
  op_Until :: string
  op_UUIDName :: string

definition Operation_zero :: Operation where
  "Operation_zero = \<lparr>op_Op = [], op_Table = [], op_Row = [], op_Rows = [], op_Columns = [], op_Mutations = [],
     op_Timeout = 0, op_Where = [], op_Until = [], op_UUIDName = []\<rparr>"

text \<open>The tag \<open>omitempty\<close>.\<close>

definition omitempty :: "bool \<Rightarrow> string \<Rightarrow> json \<Rightarrow> (string \<times> json) list" where
  "omitempty zero k j = (if zero then [] else [(k, j)])"

definition Operation_json :: "Operation \<Rightarrow> json" where
  "Operation_json o1 = JObj ([(''op'', JStr (op_Op o1)), (''table'', JStr (op_Table o1))] @
     omitempty (op_Row o1 = []) ''row'' (marshal (GObj (op_Row o1))) @
     omitempty (op_Rows o1 = []) ''rows'' (JArr (map (\<lambda>r. marshal (GObj r)) (op_Rows o1))) @
     omitempty (op_Columns o1 = []) ''columns'' (JArr (map JStr (op_Columns o1))) @
     omitempty (op_Mutations o1 = []) ''mutations'' (JArr (marshal_list (op_Mutations o1))) @
     omitempty (op_Timeout o1 = 0) ''timeout'' (JNum (fmt_d (op_Timeout o1))) @
     omitempty (op_Where o1 = []) ''where'' (JArr (marshal_list (op_Where o1))) @
     omitempty (op_Until o1 = []) ''until'' (JStr (op_Until o1)) @
     omitempty (op_UUIDName o1 = []) ''uuid-name'' (JStr (op_UUIDName o1)))"

definition has_column :: "TableSchema \<Rightarrow> string \<Rightarrow> bool" where
  "has_column table column \<longleftrightarrow> map_of (ts_Columns table) column \<noteq> None"

fun validateOperations :: "DatabaseSchema \<Rightarrow> Operation list \<Rightarrow> bool" where
  "validateOperations schema [] = True"
| "validateOperations schema (o1 # ops) = (case map_of (ds_Tables schema) (op_Table o1) of
       Some table \<Rightarrow>
         if \<not> list_all (has_column table) (map fst (op_Row o1)) then False
         else if \<not> list_all (\<lambda>row. list_all (has_column table) (map fst row)) (op_Rows o1) then False
         else if \<not> list_all (has_column table) (op_Columns o1) then False
         else validateOperations schema ops
     | None \<Rightarrow> False)"

record OperationResult =
  or_Count :: int
  or_Error :: string
  or_Details :: string
  or_UUID :: string
  or_Rows :: "fields list"

definition OperationResult_zero :: OperationResult where
  "OperationResult_zero = \<lparr>or_Count = 0, or_Error = [], or_Details = [], or_UUID = [], or_Rows = []\<rparr>"

definition row_map_store :: "fields store" where
  "row_map_store j m = (case j of
       JNull \<Rightarrow> (None, [])
     | JObj ms \<Rightarrow> (None, interface_members ms m)
     | _ \<Rightarrow> (Some (JSONTypeError (kind j) ''map[string]interface {}''), m))"

definition OperationResult_store :: "OperationResult storeO" where
  "OperationResult_store = store_structO ''libovsdb.OperationResult''
     [(''count'', plainO (store_int (\<lambda>v r. r\<lparr>or_Count := v\<rparr>))),
      (''error'', plainO (store_string (\<lambda>v r. r\<lparr>or_Error := v\<rparr>))),
      (''details'', plainO (store_string (\<lambda>v r. r\<lparr>or_Details := v\<rparr>))),
      (''uuid'', \<lambda>j r. bindO (UUID_store j (or_UUID r)) (\<lambda>(e, v). Ret (e, r\<lparr>or_UUID := v\<rparr>))),
      (''rows'', plainO (\<lambda>j r. let (e, v) = store_slice ''[]map[string]interface {}'' [] row_map_store j
                              in (e, r\<lparr>or_Rows := v\<rparr>)))]"


subsection \<open>Decoding the schema\<close>

definition store_bool :: "(bool \<Rightarrow> 's \<Rightarrow> 's) \<Rightarrow> 's store" where
  "store_bool upd j s = (case j of
       JNull \<Rightarrow> (None, s)
     | JBool v \<Rightarrow> (None, upd v s)
     | _ \<Rightarrow> (Some (JSONTypeError (kind j) ''bool''), s))"

definition store_strings :: "json \<Rightarrow> gerror option \<times> string list" where
  "store_strings = store_slice ''[]string'' [] (store_string (\<lambda>v _. v))"

definition ColumnSchema_store :: "ColumnSchema store" where
  "ColumnSchema_store = store_struct ''libovsdb.ColumnSchema''
     [(''name'', store_string (\<lambda>v c. c\<lparr>cs_Name := v\<rparr>)),
      (''type'', \<lambda>j c. (None, c\<lparr>cs_Type := interface_of j\<rparr>)),
      (''ephemeral'', store_bool (\<lambda>v c. c\<lparr>cs_Ephemeral := v\<rparr>)),
      (''mutable'', store_bool (\<lambda>v c. c\<lparr>cs_Mutable := v\<rparr>))]"

definition TableSchema_store :: "TableSchema storeO" where
  "TableSchema_store = store_structO ''libovsdb.TableSchema''
     [(''columns'', \<lambda>j t. bindO (store_mapO ''map[string]libovsdb.ColumnSchema''
           \<lparr>cs_Name = [], cs_Type = GNil, cs_Ephemeral = False, cs_Mutable = False\<rparr> (plainO ColumnSchema_store) j (ts_Columns t))
         (\<lambda>(e, v). Ret (e, t\<lparr>ts_Columns := v\<rparr>))),
      (''indexes'', plainO (\<lambda>j t. let (e, v) = store_slice ''[][]string'' [] (\<lambda>j _. store_strings j) j
                             in (e, t\<lparr>ts_Indexes := v\<rparr>)))]"

definition DatabaseSchema_zero :: DatabaseSchema where
  "DatabaseSchema_zero = \<lparr>ds_Name = [], ds_Version = [], ds_Tables = []\<rparr>"

definition DatabaseSchema_store :: "DatabaseSchema storeO" where
  "DatabaseSchema_store = store_structO ''libovsdb.DatabaseSchema''
     [(''name'', plainO (store_string (\<lambda>v d. d\<lparr>ds_Name := v\<rparr>))),
      (''version'', plainO (store_string (\<lambda>v d. d\<lparr>ds_Version := v\<rparr>))),
      (''tables'', \<lambda>j d. bindO (store_mapO ''map[string]libovsdb.TableSchema''
           \<lparr>ts_Columns = [], ts_Indexes = []\<rparr> TableSchema_store j (ds_Tables d))
         (\<lambda>(e, v). Ret (e, d\<lparr>ds_Tables := v\<rparr>)))]"

subsection \<open>The client\<close>

text \<open>
  The handlers the daemon registers: \<open>Notifier\<close> of ovs_driver.go and
  \<open>notifier\<close> of bridge.go.  The functions that notify take what the methods of a
  handler do as an argument.
\<close>

datatype NotificationHandler = Driver_Notifier | Bridge_notifier

record OvsdbClient =
  oc_Schema :: "(string \<times> DatabaseSchema) list"
  oc_handlers :: "NotificationHandler list"

record 'w ovs_env = "'w net_env" +
  ovs_Dial :: "string \<Rightarrow> 'w \<Rightarrow> (gerror + nat) \<times> 'w"
  rpc_Call :: "nat \<Rightarrow> string \<Rightarrow> json list \<Rightarrow> 'w \<Rightarrow> (gerror + json) \<times> 'w"
  rpc_Close :: "nat \<Rightarrow> 'w \<Rightarrow> unit \<times> 'w"

record 'w ovs_state = "'w ecc_state" +
  ovs_clients :: "(nat \<times> OvsdbClient) list"    \<comment> \<open>every \<open>OvsdbClient\<close> there is, by its rpc client\<close>
  connections :: "nat list"                     \<comment> \<open>the keys of the map \<open>connections\<close>\<close>

definition client_of :: "nat \<Rightarrow> ('w, 'z) ovs_state_scheme \<Rightarrow> OvsdbClient" where
  "client_of c s = (case map_of (ovs_clients s) c of None \<Rightarrow> \<lparr>oc_Schema = [], oc_handlers = []\<rparr> | Some o1 \<Rightarrow> o1)"

definition newOvsdbClient :: "nat \<Rightarrow> (('w, 'z) ovs_state_scheme, nat) comp" where
  "newOvsdbClient c = thenM (modifyM (\<lambda>s.
     s\<lparr>ovs_clients := AList.update c \<lparr>oc_Schema = [], oc_handlers = []\<rparr> (ovs_clients s),
       connections := List.insert c (connections s)\<rparr>)) (retM c)"

definition Register :: "nat \<Rightarrow> NotificationHandler \<Rightarrow> (('w, 'z) ovs_state_scheme, unit) comp" where
  "Register c handler = modifyM (\<lambda>s.
     s\<lparr>ovs_clients := AList.update c ((client_of c s)\<lparr>oc_handlers := oc_handlers (client_of c s) @ [handler]\<rparr>) (ovs_clients s)\<rparr>)"

definition set_Schema :: "nat \<Rightarrow> string \<Rightarrow> DatabaseSchema \<Rightarrow> (('w, 'z) ovs_state_scheme, unit) comp" where
  "set_Schema c db schema = modifyM (\<lambda>s.
     s\<lparr>ovs_clients := AList.update c
        ((client_of c s)\<lparr>oc_Schema := AList.update db schema (oc_Schema (client_of c s))\<rparr>) (ovs_clients s)\<rparr>)"

text \<open>
  \<open>rpcClient.Call\<close>: the reply is decoded into a variable whose zero value and
  decoder are given; a decoding error is an error of the call.
\<close>

definition Call :: "('w, 'x) ovs_env_scheme \<Rightarrow> nat \<Rightarrow> string \<Rightarrow> json list \<Rightarrow> 'r \<Rightarrow> 'r storeO \<Rightarrow>
    (('w, 'z) ecc_state_scheme, gerror option \<times> 'r) comp" where
  "Call E c method args zero st = bindM (outside (rpc_Call E c method args)) (\<lambda>r. case r of
       Inl err \<Rightarrow> retM (Some err, zero)
     | Inr j \<Rightarrow> bindM (liftO (st j zero)) (\<lambda>(e, v). retM (map_option (Wrap ''reading body '') e, v)))"

definition NewGetSchemaArgs :: "string \<Rightarrow> json list" where
  "NewGetSchemaArgs schema = [JStr schema]"

definition NewTransactArgs :: "string \<Rightarrow> Operation list \<Rightarrow> json list" where
  "NewTransactArgs database operations = JStr database # map Operation_json operations"

definition GetSchema :: "('w, 'x) ovs_env_scheme \<Rightarrow> nat \<Rightarrow> string \<Rightarrow>
    (('w, 'z) ovs_state_scheme, gerror + DatabaseSchema) comp" where
  "GetSchema E c dbName =
     bindM (Call E c ''get_schema'' (NewGetSchemaArgs dbName) DatabaseSchema_zero DatabaseSchema_store) (\<lambda>(err, reply).
       case err of
         Some err \<Rightarrow> retM (Inl err)
       | None \<Rightarrow> thenM (set_Schema c dbName reply) (retM (Inr reply)))"

text \<open>\<open>ListDbs\<close> ends the process when the call fails.\<close>

definition ListDbs :: "('w, 'x) ovs_env_scheme \<Rightarrow> nat \<Rightarrow> (('w, 'z) ovs_state_scheme, string list) comp" where
  "ListDbs E c =
     bindM (Call E c ''list_dbs'' [JNull] [] (\<lambda>j _. Ret (store_strings j))) (\<lambda>(err, dbs).
       case err of Some _ \<Rightarrow> liftO NoReturn | None \<Rightarrow> retM dbs)"

definition DEFAULT_ADDR :: string where
  "DEFAULT_ADDR = ''127.0.0.1''"

definition DEFAULT_PORT :: int where
  "DEFAULT_PORT = 6640"

fun fetch_schemas :: "('w, 'x) ovs_env_scheme \<Rightarrow> nat \<Rightarrow> string list \<Rightarrow> (('w, 'z) ovs_state_scheme, gerror + nat) comp" where
  "fetch_schemas E c [] = retM (Inr c)"
| "fetch_schemas E c (db # dbs) =
     tryE (GetSchema E c db) (\<lambda>schema. thenM (set_Schema c db schema) (fetch_schemas E c dbs))"

definition Connect :: "('w, 'x) ovs_env_scheme \<Rightarrow> string \<Rightarrow> int \<Rightarrow> (('w, 'z) ovs_state_scheme, gerror + nat) comp" where
  "Connect E ipAddr port =
     (let ipAddr = (if ipAddr = [] then DEFAULT_ADDR else ipAddr);
          port = (if port \<le> 0 then DEFAULT_PORT else port)
      in tryE (outside (ovs_Dial E (ipAddr @ '':'' @ fmt_d port))) (\<lambda>c.
         bindM (newOvsdbClient c) (\<lambda>c.
         bindM (ListDbs E c) (fetch_schemas E c))))"

definition Transact :: "('w, 'x) ovs_env_scheme \<Rightarrow> nat \<Rightarrow> string \<Rightarrow> Operation list \<Rightarrow>
    (('w, 'z) ovs_state_scheme, OperationResult list \<times> gerror option) comp" where
  "Transact E c database operation = bindM (getM (client_of c)) (\<lambda>ovs.
     case map_of (oc_Schema ovs) database of
       None \<Rightarrow> retM ([], Some (Err ''invalid Database Schema''))
     | Some db \<Rightarrow>
         if \<not> validateOperations db operation then retM ([], Some (Err ''Validation failed for the operation''))
         else bindM (Call E c ''transact'' (NewTransactArgs database operation) []
                (\<lambda>j _. store_sliceO ''[]libovsdb.OperationResult'' OperationResult_zero OperationResult_store j)) (\<lambda>(err, reply).
           case err of Some err \<Rightarrow> retM ([], Some err) | None \<Rightarrow> retM (reply, None)))"

text \<open>A monitor request for every column of every table.\<close>

definition MonitorRequest_json :: "string list \<Rightarrow> json" where
  "MonitorRequest_json columns = JObj (omitempty (columns = []) ''columns'' (JArr (map JStr columns)) @
     [(''select'', JObj [(''initial'', JBool True), (''insert'', JBool True), (''delete'', JBool True), (''modify'', JBool True)])])"

definition NewMonitorArgs :: "string \<Rightarrow> gval \<Rightarrow> (string \<times> json) list \<Rightarrow> json list" where
  "NewMonitorArgs database value requests = [JStr database, marshal value, JObj (sort_key fst requests)]"

definition Monitor :: "('w, 'x) ovs_env_scheme \<Rightarrow> nat \<Rightarrow> string \<Rightarrow> gval \<Rightarrow> (string \<times> json) list \<Rightarrow>
    (('w, 'z) ovs_state_scheme, gerror + TableUpdates) comp" where
  "Monitor E c database jsonContext requests =
     bindM (Call E c ''monitor'' (NewMonitorArgs database jsonContext requests) [] rowUpdates_store) (\<lambda>(err, response).
       case err of Some err \<Rightarrow> retM (Inl err) | None \<Rightarrow> retM (Inr (getTableUpdatesFromRawUnmarshal response)))"

definition MonitorAll :: "('w, 'x) ovs_env_scheme \<Rightarrow> nat \<Rightarrow> string \<Rightarrow> gval \<Rightarrow>
    (('w, 'z) ovs_state_scheme, gerror + TableUpdates) comp" where
  "MonitorAll E c database jsonContext = bindM (getM (client_of c)) (\<lambda>ovs.
     case map_of (oc_Schema ovs) database of
       None \<Rightarrow> retM (Inl (Err ''invalid Database Schema''))
     | Some schema \<Rightarrow> Monitor E c database jsonContext
         (map (\<lambda>(table, tableSchema). (table, MonitorRequest_json (range_order E (map fst (ts_Columns tableSchema)))))
            (ds_Tables schema)))"

subsection \<open>Notifications\<close>

fun notify_all :: "('h \<Rightarrow> ('s, unit) comp) \<Rightarrow> 'h list \<Rightarrow> ('s, unit) comp" where
  "notify_all f [] = retM ()"
| "notify_all f (h # hs) = thenM (f h) (notify_all f hs)"

definition ovs_echo :: "(NotificationHandler \<Rightarrow> (('w, 'z) ovs_state_scheme, unit) comp) \<Rightarrow> nat \<Rightarrow> json list \<Rightarrow>
    (('w, 'z) ovs_state_scheme, json list) comp" where
  "ovs_echo on_echo c args = bindM (getM (\<lambda>s. s)) (\<lambda>s.
     thenM (if c \<in> set (connections s) then notify_all on_echo (oc_handlers (client_of c s)) else retM ())
       (retM args))"

definition ovs_update :: "(NotificationHandler \<Rightarrow> TableUpdates \<Rightarrow> (('w, 'z) ovs_state_scheme, unit) comp) \<Rightarrow> nat \<Rightarrow>
    json list \<Rightarrow> (('w, 'z) ovs_state_scheme, gerror option) comp" where
  "ovs_update on_update c params =
     (if length params < 2 then retM (Some (Err ''Invalid Update message''))
      else (case params ! 1 of
          JObj raw \<Rightarrow> bindM (liftO (rowUpdates_store (JObj raw) [])) (\<lambda>(err, rowUpdates).
            case err of
              Some err \<Rightarrow> retM (Some err)
            | None \<Rightarrow> bindM (getM (\<lambda>s. s)) (\<lambda>s.
                thenM (if c \<in> set (connections s)
                       then notify_all (\<lambda>h. on_update h (getTableUpdatesFromRawUnmarshal rowUpdates)) (oc_handlers (client_of c s))
                       else retM ())
                  (retM None)))
        | _ \<Rightarrow> retM (Some (Err ''Invalid Update message''))))"

definition clearConnection :: "(NotificationHandler \<Rightarrow> (('w, 'z) ovs_state_scheme, unit) comp) \<Rightarrow> nat \<Rightarrow>
    (('w, 'z) ovs_state_scheme, unit) comp" where
  "clearConnection on_disconnected c = bindM (getM (\<lambda>s. s)) (\<lambda>s.
     thenM (if c \<in> set (connections s) then notify_all on_disconnected (oc_handlers (client_of c s)) else retM ())
       (modifyM (\<lambda>s. s\<lparr>connections := removeAll c (connections s)\<rparr>)))"

definition Disconnect :: "('w, 'x) ovs_env_scheme \<Rightarrow> (NotificationHandler \<Rightarrow> (('w, 'z) ovs_state_scheme, unit) comp) \<Rightarrow> nat \<Rightarrow>
    (('w, 'z) ovs_state_scheme, unit) comp" where
  "Disconnect E on_disconnected c = thenM (outside (rpc_Close E c)) (clearConnection on_disconnected c)"


subsection \<open>The notation can be read back\<close>









lemma marshal_lists_Nil [simp]: "marshal_list vs = [] \<longleftrightarrow> vs = []" "marshal_segs ps = [] \<longleftrightarrow> ps = []"
  by (cases vs; simp) (cases ps; auto)

lemma validateOperations_iff:
  "validateOperations schema ops \<longleftrightarrow> (\<forall>o1\<in>set ops. \<exists>table. map_of (ds_Tables schema) (op_Table o1) = Some table \<and>
     (\<forall>column \<in> fst ` set (op_Row o1) \<union> (\<Union>row\<in>set (op_Rows o1). fst ` set row) \<union> set (op_Columns o1).
        map_of (ts_Columns table) column \<noteq> None))"
proof (induction ops)
  case (Cons o1 ops)
  show ?case
  proof (cases "map_of (ds_Tables schema) (op_Table o1)")
    case (Some table)
    then show ?thesis using Cons by (simp add: list_all_iff has_column_def[abs_def] ball_Un)
  qed simp
qed simp

subsection \<open>Properties\<close>




text \<open>C32. A transaction goes to the server only when every operation names a table of
  the schema and only columns of that table; otherwise \<open>Transact\<close> returns an error
  and nothing is sent.\<close>

theorem transact_checked:
  assumes "map_of (oc_Schema (client_of c s)) database = Some db"
  shows "if \<forall>o1\<in>set ops. \<exists>table. map_of (ds_Tables db) (op_Table o1) = Some table \<and>
      (\<forall>column \<in> fst ` set (op_Row o1) \<union> (\<Union>row\<in>set (op_Rows o1). fst ` set row) \<union> set (op_Columns o1).
         map_of (ts_Columns table) column \<noteq> None)
    then \<exists>r. Transact E c database ops s = (r, s\<lparr>world := snd (rpc_Call E c ''transact'' (NewTransactArgs database ops) (world s))\<rparr>)
    else Transact E c database ops s = (Ret ([], Some (Err ''Validation failed for the operation'')), s)"
  unfolding validateOperations_iff[symmetric]
  using assms
  by (auto simp: Transact_def Call_def run_simps split: sum.splits prod.splits outcome.splits option.splits)

definition intf_schema :: DatabaseSchema where
  "intf_schema = \<lparr>ds_Name = ''Open_vSwitch'', ds_Version = [],
     ds_Tables = [(''Interface'', \<lparr>ts_Columns =
       [(''name'', \<lparr>cs_Name = ''name'', cs_Type = GStr ''string'', cs_Ephemeral = False, cs_Mutable = False\<rparr>)], ts_Indexes = []\<rparr>)]\<rparr>"

definition intf_state :: "unit ovs_state" where
  "intf_state = \<lparr>world = (), started = True, OfflineSupport = True, ecc_cache = [], spawned = [],
     ovs_clients = [(0, \<lparr>oc_Schema = [(''Open_vSwitch'', intf_schema)], oc_handlers = []\<rparr>)], connections = [0]\<rparr>"

theorem transact_checked_witness:
  "\<forall>E :: unit ovs_env. Transact E 0 ''Open_vSwitch'' [Operation_zero\<lparr>op_Op := ''insert'', op_Table := ''Interface'', op_Row := [(''colour'', GStr ''red'')]\<rparr>] intf_state =
    (Ret ([], Some (Err ''Validation failed for the operation'')), intf_state)"
proof
  fix E :: "unit ovs_env"
  let ?ops = "[Operation_zero\<lparr>op_Op := ''insert'', op_Table := ''Interface'', op_Row := [(''colour'', GStr ''red'')]\<rparr>]"
  show "Transact E 0 ''Open_vSwitch'' ?ops intf_state = (Ret ([], Some (Err ''Validation failed for the operation'')), intf_state)"
    using transact_checked[of 0 intf_state "''Open_vSwitch''" intf_schema ?ops E]
    by (simp add: intf_state_def client_of_def intf_schema_def Operation_zero_def)
qed

end
