(* ===== verification/OvsDriver.thy ===== *)
theory OvsDriver
  imports Libovsdb
begin

section \<open>The OVS driver (daemon/ovs_driver.go)\<close>

text \<open>
  The transactions that create and delete bridges and ports, the cache of the OVS
  tables, and the connection to the OVS server.

  \<open>table_cache\<close> is the variable \<open>cache\<close>.  A send on the unbuffered channel
  \<open>update\<close> is an entry of \<open>update_chan\<close> until a monitor takes it; the
  goroutines \<open>monitorDockerBridge\<close> are the list \<open>monitors\<close>, and one
  iteration of their loop is \<open>monitorDockerBridge_step\<close>.  A connection is the
  number of its client, and \<open>None\<close> is the \<open>nil\<close> client.  While the daemon
  sleeps, notifications arrive; \<open>ovs_arrived\<close> of the environment is what arrives
  during one sleep.  What is only printed or logged is left out, and so is the text
  of an operation inside an error.
\<close>

subsection \<open>State\<close>

record 'w driver_env = "'w ovs_env" +
  ovs_arrived :: "'w \<Rightarrow> json list list \<times> 'w"

type_synonym table_rows = "(string \<times> Row) list"

record 'w driver_state = "'w ovs_state" +
  table_cache :: "(string \<times> table_rows) list"
  update_chan :: "TableUpdates list"
  monitors :: "nat list"

definition CONTEXT_KEY :: string where
  "CONTEXT_KEY = ''container_id''"

definition CONTEXT_VALUE :: string where
  "CONTEXT_VALUE = ''container_data''"

definition GetTableCache :: "string \<Rightarrow> ('w, 'z) driver_state_scheme \<Rightarrow> table_rows" where
  "GetTableCache tableName s = (case map_of (table_cache s) tableName of None \<Rightarrow> [] | Some rows \<Rightarrow> rows)"

definition row_field :: "Row \<Rightarrow> string \<Rightarrow> gval option" where
  "row_field row f = (case Fields row of None \<Rightarrow> None | Some m \<Rightarrow> map_of m f)"

definition getRootUuid :: "('w, 'x) http_env_scheme \<Rightarrow> ('w, 'z) driver_state_scheme \<Rightarrow> string" where
  "getRootUuid E s = (case range_order E (map fst (GetTableCache ''Open_vSwitch'' s)) of [] \<Rightarrow> [] | uuid # _ \<Rightarrow> uuid)"

definition portUuidForName :: "('w, 'x) http_env_scheme \<Rightarrow> string \<Rightarrow> ('w, 'z) driver_state_scheme \<Rightarrow> string" where
  "portUuidForName E portName s =
     (let portCache = GetTableCache ''Port'' s
      in case find (\<lambda>key. case map_of portCache key of
             None \<Rightarrow> False | Some val \<Rightarrow> row_field val ''name'' = Some (GStr portName))
           (range_order E (map fst portCache)) of
         None \<Rightarrow> [] | Some key \<Rightarrow> key)"

subsection \<open>Transactions\<close>

definition transact :: "('w, 'x) ovs_env_scheme \<Rightarrow> nat option \<Rightarrow> Operation list \<Rightarrow>
    (('w, 'z) ovs_state_scheme, OperationResult list) comp" where
  "transact E ovs operations = (case ovs of
       None \<Rightarrow> liftO nil_panic
     | Some c \<Rightarrow> bindM (Transact E c ''Open_vSwitch'' operations) (\<lambda>(reply, _). retM reply))"

definition insert_op :: "string \<Rightarrow> fields \<Rightarrow> string \<Rightarrow> Operation" where
  "insert_op table row uuidName =
     Operation_zero\<lparr>op_Op := ''insert'', op_Table := table, op_Row := row, op_UUIDName := uuidName\<rparr>"

definition mutate_op :: "string \<Rightarrow> gval \<Rightarrow> gval \<Rightarrow> Operation" where
  "mutate_op table mutation condition =
     Operation_zero\<lparr>op_Op := ''mutate'', op_Table := table, op_Mutations := [mutation], op_Where := [condition]\<rparr>"

definition too_few :: gerror where
  "too_few = Err ''Number of Replies should be atleast equal to number of Operations''"

text \<open>The loop over the replies, with the errors for the operations and for what follows them.\<close>

fun reply_error :: "(OperationResult \<Rightarrow> gerror) \<Rightarrow> (OperationResult \<Rightarrow> gerror) \<Rightarrow> nat \<Rightarrow> nat \<Rightarrow>
    OperationResult list \<Rightarrow> gerror option" where
  "reply_error f g n i [] = None"
| "reply_error f g n i (o1 # reply) =
     (if or_Error o1 \<noteq> [] \<and> i < n then Some (f o1)
      else if or_Error o1 \<noteq> [] then Some (g o1)
      else reply_error f g n (Suc i) reply)"

definition CreateOVSBridge :: "('w, 'x) ovs_env_scheme \<Rightarrow> nat option \<Rightarrow> string \<Rightarrow>
    (('w, 'z) driver_state_scheme, gerror option) comp" where
  "CreateOVSBridge E ovs bridgeName = bindM (getM (getRootUuid E)) (\<lambda>root.
     let namedBridgeUuid = ''bridge''; namedPortUuid = ''port''; namedIntfUuid = ''intf'';
         intf = [(''name'', GStr bridgeName), (''type'', GStr ''internal'')];
         port = [(''name'', GStr bridgeName), (''interfaces'', GUUID namedIntfUuid)];
         bridge = [(''name'', GStr bridgeName), (''stp_enable'', GBool True), (''ports'', GUUID namedPortUuid)];
         mutateSet = NewOvsSet [GUUID namedBridgeUuid];
         mutation = NewMutation ''bridges'' ''insert'' mutateSet;
         condition = NewCondition ''_uuid'' ''=='' (GUUID root);
         operations = [insert_op ''Interface'' intf namedIntfUuid, insert_op ''Port'' port namedPortUuid,
           insert_op ''Bridge'' bridge namedBridgeUuid, mutate_op ''Open_vSwitch'' mutation condition];
         failed = (\<lambda>o1. Err (''Transaction Failed due to an error :'' @ or_Error o1 @ '' details : '' @ or_Details o1))
     in bindM (transact E ovs operations) (\<lambda>reply.
       if length reply < length operations then retM (Some too_few)
       else retM (reply_error failed failed (length operations) 0 reply)))"

definition addVxlanPort :: "('w, 'x) ovs_env_scheme \<Rightarrow> nat option \<Rightarrow> string \<Rightarrow> string \<Rightarrow> string \<Rightarrow>
    (('w, 'z) driver_state_scheme, unit) comp" where
  "addVxlanPort E ovs bridgeName portName peerAddress =
     (let namedPortUuid = ''port''; namedIntfUuid = ''intf'';
          options = NewOvsMap [(''remote_ip'', GStr peerAddress)];
          intf = [(''name'', GStr portName), (''type'', GStr ''vxlan''), (''options'', options)];
          port = [(''name'', GStr portName), (''interfaces'', GUUID namedIntfUuid)];
          mutateSet = NewOvsSet [GUUID namedPortUuid];
          mutation = NewMutation ''ports'' ''insert'' mutateSet;
          condition = NewCondition ''name'' ''=='' (GStr bridgeName);
          operations = [insert_op ''Interface'' intf namedIntfUuid, insert_op ''Port'' port namedPortUuid,
            mutate_op ''Bridge'' mutation condition]
      in thenM (transact E ovs operations) (retM ()))"

definition portExists :: "('w, 'x) ovs_env_scheme \<Rightarrow> nat option \<Rightarrow> string \<Rightarrow>
    (('w, 'z) driver_state_scheme, gerror + bool) comp" where
  "portExists E ovs portName =
     (let condition = NewCondition ''name'' ''=='' (GStr portName);
          operations = [Operation_zero\<lparr>op_Op := ''select'', op_Table := ''Port'', op_Where := [condition]\<rparr>]
      in bindM (transact E ovs operations) (\<lambda>reply.
        if length reply < length operations then retM (Inl too_few)
        else bindM (liftO (slice_get reply 0)) (\<lambda>r.
          if or_Error r \<noteq> [] then retM (Inl (Err (''Transaction Failed due to an error: '' @ or_Error r)))
          else if or_Rows r = [] then retM (Inr False)
          else retM (Inr True))))"

definition deletePort :: "('w, 'x) ovs_env_scheme \<Rightarrow> nat option \<Rightarrow> string \<Rightarrow> string \<Rightarrow>
    (('w, 'z) driver_state_scheme, unit) comp" where
  "deletePort E ovs bridgeName portName = bindM (getM (portUuidForName E portName)) (\<lambda>portUuid.
     if portUuid = [] then retM ()
     else (let condition = NewCondition ''name'' ''=='' (GStr portName);
               deleteOp = Operation_zero\<lparr>op_Op := ''delete'', op_Table := ''Port'', op_Where := [condition]\<rparr>;
               mutateSet = NewOvsSet [GUUID portUuid];
               mutation = NewMutation ''ports'' ''delete'' mutateSet;
               condition = NewCondition ''name'' ''=='' (GStr bridgeName);
               operations = [deleteOp, mutate_op ''Bridge'' mutation condition]
           in thenM (transact E ovs operations) (retM ())))"

definition UpdatePortContext :: "('w, 'x) ovs_env_scheme \<Rightarrow> nat option \<Rightarrow> string \<Rightarrow> string \<Rightarrow> string \<Rightarrow>
    (('w, 'z) driver_state_scheme, gerror option) comp" where
  "UpdatePortContext E ovs portName key context1 =
     (let config = [(CONTEXT_KEY, GStr key), (CONTEXT_VALUE, GStr context1)];
          other_config = NewOvsMap config;
          mutation = NewMutation ''other_config'' ''insert'' other_config;
          condition = NewCondition ''name'' ''=='' (GStr portName);
          operations = [mutate_op ''Interface'' mutation condition];
          f = (\<lambda>o1. Err (''Transaction Failed due to an error : '' @ or_Error o1 @ ''  details: '' @ or_Details o1));
          g = (\<lambda>o1. Err (''Transaction Failed due to an error : '' @ or_Error o1 @ [CHR 0x0A]))
      in bindM (transact E ovs operations) (\<lambda>reply.
        if length reply < length operations then retM (Some too_few)
        else retM (reply_error f g (length operations) 0 reply)))"

definition AddInternalPort :: "('w, 'x) ovs_env_scheme \<Rightarrow> nat option \<Rightarrow> string \<Rightarrow> string \<Rightarrow> uint \<Rightarrow>
    (('w, 'z) driver_state_scheme, gerror option) comp" where
  "AddInternalPort E ovs bridgeName portName tag =
     (let namedPortUuid = ''port''; namedIntfUuid = ''intf'';
          intf = [(''name'', GStr portName), (''type'', GStr ''internal'')];
          port = [(''name'', GStr portName), (''interfaces'', GUUID namedIntfUuid)] @
            (if tag \<noteq> 0 then [(''tag'', GNum (itod (unat tag)))] else []);
          mutateSet = NewOvsSet [GUUID namedPortUuid];
          mutation = NewMutation ''ports'' ''insert'' mutateSet;
          condition = NewCondition ''name'' ''=='' (GStr bridgeName);
          operations = [insert_op ''Interface'' intf namedIntfUuid, insert_op ''Port'' port namedPortUuid,
            mutate_op ''Bridge'' mutation condition];
          f = (\<lambda>o1. Err (''Transaction Failed due to an error : '' @ or_Error o1 @ '' details: '' @ or_Details o1));
          g = (\<lambda>o1. Err (''Transaction Failed due to an error : '' @ or_Error o1))
      in bindM (transact E ovs operations) (\<lambda>reply.
        if length reply < length operations then retM (Some too_few)
        else retM (reply_error f g (length operations) 0 reply)))"

subsection \<open>The cache\<close>

fun populate_rows :: "TableUpdate \<Rightarrow> table_rows \<Rightarrow> table_rows" where
  "populate_rows [] rows = rows"
| "populate_rows ((uuid, row) # us) rows =
     populate_rows us (if ru_New row \<noteq> empty_Row then AList.update uuid (ru_New row) rows else AList.delete uuid rows)"

fun populate_tables :: "TableUpdates \<Rightarrow> (string \<times> table_rows) list \<Rightarrow> (string \<times> table_rows) list" where
  "populate_tables [] cache = cache"
| "populate_tables ((table, tableUpdate) # us) cache =
     populate_tables us (AList.update table
       (populate_rows tableUpdate (case map_of cache table of None \<Rightarrow> [] | Some rows \<Rightarrow> rows)) cache)"

definition populateCache :: "TableUpdates \<Rightarrow> (('w, 'z) driver_state_scheme, unit) comp" where
  "populateCache updates = modifyM (\<lambda>s. s\<lparr>table_cache := populate_tables updates (table_cache s)\<rparr>)"

definition Notifier_Update :: "TableUpdates \<Rightarrow> (('w, 'z) driver_state_scheme, unit) comp" where
  "Notifier_Update tableUpdates =
     thenM (populateCache tableUpdates) (modifyM (\<lambda>s. s\<lparr>update_chan := update_chan s @ [tableUpdates]\<rparr>))"

definition on_update :: "NotificationHandler \<Rightarrow> TableUpdates \<Rightarrow> (('w, 'z) driver_state_scheme, unit) comp" where
  "on_update h tableUpdates = (case h of Driver_Notifier \<Rightarrow> Notifier_Update tableUpdates | Bridge_notifier \<Rightarrow> retM ())"

subsection \<open>The monitor\<close>

fun monitor_rows :: "('w, 'x) ovs_env_scheme \<Rightarrow> nat option \<Rightarrow> TableUpdate \<Rightarrow> (('w, 'z) driver_state_scheme, unit) comp" where
  "monitor_rows E ovs [] = retM ()"
| "monitor_rows E ovs ((_, row) # rows) =
     thenM (if ru_New row \<noteq> empty_Row then
              (case row_field (ru_Old row) ''name'' of
                 None \<Rightarrow> retM ()
               | Some v \<Rightarrow> (case v of
                   GStr name \<Rightarrow> if name = ''docker0-ovs'' then thenM (CreateOVSBridge E ovs name) (retM ()) else retM ()
                 | _ \<Rightarrow> liftO assert_panic))
            else retM ())
       (monitor_rows E ovs rows)"

fun monitor_tables :: "('w, 'x) ovs_env_scheme \<Rightarrow> nat option \<Rightarrow> TableUpdates \<Rightarrow> (('w, 'z) driver_state_scheme, unit) comp" where
  "monitor_tables E ovs [] = retM ()"
| "monitor_tables E ovs ((table, tableUpdate) # us) =
     thenM (if table = ''Bridge'' then monitor_rows E ovs tableUpdate else retM ()) (monitor_tables E ovs us)"

text \<open>One iteration; \<open>False\<close> when there is nothing to receive.\<close>

definition monitorDockerBridge_step :: "('w, 'x) ovs_env_scheme \<Rightarrow> nat option \<Rightarrow> (('w, 'z) driver_state_scheme, bool) comp" where
  "monitorDockerBridge_step E ovs = bindM (getM update_chan) (\<lambda>q. case q of
       [] \<Rightarrow> retM False
     | currUpdate # q' \<Rightarrow> thenM (modifyM (\<lambda>s. s\<lparr>update_chan := q'\<rparr>))
         (thenM (monitor_tables E ovs currUpdate) (retM True)))"

subsection \<open>Connecting\<close>

fun connect_loop :: "nat \<Rightarrow> ('w, 'x) ovs_env_scheme \<Rightarrow> (('w, 'z) driver_state_scheme, nat) comp" where
  "connect_loop 0 E = liftO NoReturn"
| "connect_loop (Suc n) E = bindM (Connect E [] 0) (\<lambda>r. case r of Inl err \<Rightarrow> connect_loop n E | Inr c \<Rightarrow> retM c)"

definition sleep_notified :: "('w, 'x) driver_env_scheme \<Rightarrow> nat \<Rightarrow> (('w, 'z) driver_state_scheme, unit) comp" where
  "sleep_notified E c = bindM (outside (ovs_arrived E)) (\<lambda>msgs.
     notify_all (\<lambda>params. thenM (ovs_update on_update c params) (retM ())) msgs)"

fun await_root :: "nat \<Rightarrow> ('w, 'x) driver_env_scheme \<Rightarrow> nat \<Rightarrow> (('w, 'z) driver_state_scheme, unit) comp" where
  "await_root 0 E c = liftO NoReturn"
| "await_root (Suc n) E c = bindM (getM (getRootUuid E)) (\<lambda>root.
     if root = [] then thenM (sleep_notified E c) (await_root n E c) else retM ())"

definition ovs_connect :: "nat \<Rightarrow> ('w, 'x) driver_env_scheme \<Rightarrow> (('w, 'z) driver_state_scheme, nat) comp" where
  "ovs_connect n E =
     thenM (modifyM (\<lambda>s. s\<lparr>update_chan := [], table_cache := []\<rparr>))
       (bindM (connect_loop n E) (\<lambda>c.
        thenM (Register c Driver_Notifier)
       (bindM (MonitorAll E c ''Open_vSwitch'' (GStr [])) (\<lambda>initial.
        thenM (case initial of Inl err \<Rightarrow> liftO nil_panic | Inr updates \<Rightarrow> populateCache updates)
       (thenM (modifyM (\<lambda>s. s\<lparr>monitors := monitors s @ [c]\<rparr>))
       (thenM (await_root n E c) (retM c)))))))"


subsection \<open>The cache follows the database\<close>

text \<open>
  The content of the OVS database: the row of a table under an identifier.  An
  update reports the rows that changed, a deleted one without its new content
  (RFC 7047, section 4.1.6); Go maps have no key twice.
\<close>

type_synonym database = "string \<Rightarrow> string \<Rightarrow> Row option"

definition cache_db :: "('w, 'z) driver_state_scheme \<Rightarrow> database" where
  "cache_db s table uuid = map_of (GetTableCache table s) uuid"

definition reported :: "TableUpdate \<Rightarrow> string \<Rightarrow> Row option \<Rightarrow> Row option" where
  "reported us uuid old = (case map_of us uuid of
       None \<Rightarrow> old
     | Some ru \<Rightarrow> if ru_New ru = empty_Row then None else Some (ru_New ru))"

definition reports :: "TableUpdates \<Rightarrow> database \<Rightarrow> database \<Rightarrow> bool" where
  "reports us db db' \<longleftrightarrow> distinct (map fst us) \<and> list_all (\<lambda>(_, rows). distinct (map fst rows)) us \<and>
     (\<forall>table uuid. db' table uuid = (case map_of us table of
        None \<Rightarrow> db table uuid | Some rows \<Rightarrow> reported rows uuid (db table uuid)))"

inductive history :: "database \<Rightarrow> TableUpdates list \<Rightarrow> database \<Rightarrow> bool" where
  history_Nil: "history db [] db"
| history_Cons: "reports us db db1 \<Longrightarrow> history db1 uss db2 \<Longrightarrow> history db (us # uss) db2"

inductive_cases history_ConsE: "history db (us # uss) db'"
inductive_cases history_NilE: "history db [] db'"

lemma populate_rows_map:
  "distinct (map fst us) \<Longrightarrow> map_of (populate_rows us rows) uuid = reported us uuid (map_of rows uuid)"
proof (induction us arbitrary: rows)
  case (Cons u us)
  obtain k ru where u: "u = (k, ru)" by (cases u)
  have "k \<notin> fst ` set us" using Cons.prems by (auto simp: u)
  then have "map_of us k = None" by (simp add: map_of_eq_None_iff)
  then show ?case
    using Cons by (auto simp: u reported_def AList.update_conv AList.delete_conv split: option.splits)
qed (simp add: reported_def)

lemma populate_tables_map:
  assumes "distinct (map fst us)" "list_all (\<lambda>(_, rows). distinct (map fst rows)) us"
  shows "map_of (case map_of (populate_tables us c) table of None \<Rightarrow> [] | Some rows \<Rightarrow> rows) uuid =
    (case map_of us table of
       None \<Rightarrow> map_of (case map_of c table of None \<Rightarrow> [] | Some rows \<Rightarrow> rows) uuid
     | Some rows \<Rightarrow> reported rows uuid (map_of (case map_of c table of None \<Rightarrow> [] | Some rows \<Rightarrow> rows) uuid))"
  using assms
proof (induction us arbitrary: c)
  case (Cons u us)
  obtain k rows where u: "u = (k, rows)" by (cases u)
  have "k \<notin> fst ` set us" using Cons.prems by (auto simp: u)
  then have "map_of us k = None" by (simp add: map_of_eq_None_iff)
  then show ?case
    using Cons populate_rows_map[of rows] by (cases "table = k"; cases "map_of us table") (simp_all add: u AList.update_conv)
qed simp

lemma populateCache_db:
  assumes "reports us (cache_db s) db'"
  shows "cache_db (s\<lparr>table_cache := populate_tables us (table_cache s)\<rparr>) = db'"
proof (intro ext)
  fix table uuid
  have c: "cache_db s table uuid = map_of (case map_of (table_cache s) table of None \<Rightarrow> [] | Some rows \<Rightarrow> rows) uuid"
    by (simp add: cache_db_def GetTableCache_def)
  show "cache_db (s\<lparr>table_cache := populate_tables us (table_cache s)\<rparr>) table uuid = db' table uuid"
    using assms populate_tables_map[of us "table_cache s" table uuid] unfolding reports_def
    by (cases "map_of us table") (simp_all add: cache_db_def GetTableCache_def c)
qed

lemma Notifier_Update_run:
  "Notifier_Update us s = (Ret (), s\<lparr>table_cache := populate_tables us (table_cache s), update_chan := update_chan s @ [us]\<rparr>)"
  by (simp add: Notifier_Update_def populateCache_def run_simps)

lemma cache_db_chan [simp]: "cache_db (s\<lparr>update_chan := q\<rparr>) = cache_db s"
  by (simp add: cache_db_def GetTableCache_def fun_eq_iff)

lemma updates_follow:
  assumes "history (cache_db s) uss db'"
  shows "\<exists>s'. notify_all Notifier_Update uss s = (Ret (), s') \<and> cache_db s' = db' \<and> update_chan s' = update_chan s @ uss"
  using assms
proof (induction uss arbitrary: s)
  case Nil
  then show ?case by (auto simp: run_simps elim: history_NilE)
next
  case (Cons us uss)
  then obtain db1 where r: "reports us (cache_db s) db1" "history db1 uss db'" by (auto elim: history_ConsE)
  let ?s1 = "s\<lparr>table_cache := populate_tables us (table_cache s), update_chan := update_chan s @ [us]\<rparr>"
  have "cache_db ?s1 = db1" using populateCache_db[OF r(1)] cache_db_chan[of "update_chan s @ [us]"] by simp
  then show ?case using Cons.IH[of ?s1] r(2) by (auto simp: run_simps Notifier_Update_run)
qed

lemma monitor_rows_deleted: "list_all (\<lambda>(_, ru). ru_New ru = empty_Row) rows \<Longrightarrow> monitor_rows E ovs rows t = (Ret (), t)"
  by (induction rows) (auto simp: run_simps)

lemma monitor_tables_deleted:
  "list_all (\<lambda>(table, rows). table = ''Bridge'' \<longrightarrow> list_all (\<lambda>(_, ru). ru_New ru = empty_Row) rows) us \<Longrightarrow>
   monitor_tables E ovs us t = (Ret (), t)"
  by (induction us) (auto simp: run_simps monitor_rows_deleted)

subsection \<open>Properties\<close>

text \<open>C9. The cache follows the database: when the updates a client receives report the
  changes from the content its cache has to a later content, the cache has that
  content afterwards, and every update waits for the monitor in order.\<close>

theorem cache_follows_database:
  assumes "history (cache_db s) uss db'"
  shows "\<exists>s'. notify_all Notifier_Update uss s = (Ret (), s') \<and> cache_db s' = db' \<and> update_chan s' = update_chan s @ uss"
  using assms by (rule updates_follow)

definition port_row :: "string \<Rightarrow> Row" where
  "port_row name = \<lparr>Fields = Some [(''name'', GStr name)]\<rparr>"

definition empty_driver :: "unit driver_state" where
  "empty_driver = \<lparr>world = (), started = True, OfflineSupport = True, ecc_cache = [], spawned = [],
     ovs_clients = [], connections = [], table_cache = [], update_chan = [], monitors = []\<rparr>"

definition port_added :: TableUpdates where
  "port_added = [(''Port'', [(''u1'', \<lparr>ru_Uuid = [], ru_New = port_row ''vxlan-10.0.0.2'', ru_Old = empty_Row\<rparr>)])]"

definition port_removed :: TableUpdates where
  "port_removed = [(''Port'', [(''u1'', \<lparr>ru_Uuid = [], ru_New = empty_Row, ru_Old = port_row ''vxlan-10.0.0.2''\<rparr>)])]"

theorem cache_follows_database_witness:
  "\<exists>s'. notify_all Notifier_Update [port_added, port_removed] empty_driver = (Ret (), s') \<and> cache_db s' = (\<lambda>_ _. None)"
proof -
  let ?db = "\<lambda>t u. if t = ''Port'' \<and> u = ''u1'' then Some (port_row ''vxlan-10.0.0.2'') else None"
  have e: "cache_db empty_driver = (\<lambda>_ _. None)"
    by (simp add: cache_db_def GetTableCache_def empty_driver_def fun_eq_iff)
  have "reports port_added (\<lambda>_ _. None) ?db" "reports port_removed ?db (\<lambda>_ _. None)"
    by (auto simp: reports_def port_added_def port_removed_def reported_def port_row_def empty_Row_def)
  then have "history (cache_db empty_driver) [port_added, port_removed] (\<lambda>_ _. None)"
    unfolding e by (blast intro: history.intros)
  then show ?thesis using cache_follows_database[of empty_driver] by blast
qed

text \<open>The identifier \<open>deletePort\<close> looks up is that of a port of this name, and it
  finds one whenever the cache has a port of this name; Go ranges over each key of a
  map once, in any order, and no row has the empty identifier.\<close>

theorem port_uuid_found:
  assumes "\<And>ks. set (range_order E ks) = set ks" "cache_db s ''Port'' [] = None"
  shows "if \<exists>u row. cache_db s ''Port'' u = Some row \<and> row_field row ''name'' = Some (GStr portName)
    then \<exists>row. cache_db s ''Port'' (portUuidForName E portName s) = Some row \<and> row_field row ''name'' = Some (GStr portName)
    else portUuidForName E portName s = []"
proof -
  let ?c = "GetTableCache ''Port'' s"
  let ?P = "\<lambda>key. case map_of ?c key of None \<Rightarrow> False | Some val \<Rightarrow> row_field val ''name'' = Some (GStr portName)"
  have P: "?P u \<longleftrightarrow> (\<exists>row. cache_db s ''Port'' u = Some row \<and> row_field row ''name'' = Some (GStr portName))" for u
    by (auto simp: cache_db_def split: option.splits)
  have u: "portUuidForName E portName s = (case find ?P (range_order E (map fst ?c)) of None \<Rightarrow> [] | Some key \<Rightarrow> key)"
    by (simp add: portUuidForName_def Let_def)
  show ?thesis
  proof (cases "find ?P (range_order E (map fst ?c))")
    case None
    have "\<not> ?P u" for u
    proof
      assume p: "?P u"
      then have "u \<in> set (range_order E (map fst ?c))"
        using assms(1) by (auto dest: map_of_SomeD split: option.splits intro: rev_image_eqI)
      then show False using None p by (auto simp: find_None_iff)
    qed
    then show ?thesis using P u None by auto
  next
    case (Some key)
    then have "?P key" by (auto simp: find_Some_iff)
    then show ?thesis using P u Some by auto
  qed
qed

definition kernel_order :: "'w driver_env \<Rightarrow> 'w driver_env" where
  "kernel_order E = E\<lparr>range_order := rev\<rparr>"

theorem port_uuid_found_witness:
  "\<forall>E. portUuidForName (kernel_order E) ''vxlan-10.0.0.2'' (empty_driver\<lparr>table_cache := [(''Port'', [(''u1'', port_row ''vxlan-10.0.0.2'')])]\<rparr>) = ''u1''"
proof
  fix E :: "unit driver_env"
  let ?s = "empty_driver\<lparr>table_cache := [(''Port'', [(''u1'', port_row ''vxlan-10.0.0.2'')])]\<rparr>"
  show "portUuidForName (kernel_order E) ''vxlan-10.0.0.2'' ?s = ''u1''"
    using port_uuid_found[of "kernel_order E" ?s "''vxlan-10.0.0.2''"]
    by (simp add: kernel_order_def cache_db_def GetTableCache_def port_row_def row_field_def portUuidForName_def empty_driver_def split: if_splits)
qed

text \<open>C33. The monitor does nothing about a bridge that was deleted: an update whose rows
  of the table \<open>Bridge\<close> have no new content sends no transaction.\<close>

theorem monitor_ignores_deletion:
  assumes "update_chan s = us # q" "list_all (\<lambda>(table, rows). table = ''Bridge'' \<longrightarrow> list_all (\<lambda>(_, ru). ru_New ru = empty_Row) rows) us"
  shows "monitorDockerBridge_step E ovs s = (Ret True, s\<lparr>update_chan := q\<rparr>)"
  using assms(1) by (simp add: monitorDockerBridge_step_def run_simps monitor_tables_deleted[OF assms(2)])

theorem monitor_ignores_deletion_witness:
  "\<forall>E :: unit ovs_env. monitorDockerBridge_step E (Some 0) (empty_driver\<lparr>update_chan :=
     [[(''Bridge'', [(''u1'', \<lparr>ru_Uuid = [], ru_New = empty_Row, ru_Old = port_row ''docker0-ovs''\<rparr>)])]]\<rparr>) = (Ret True, empty_driver)"
proof
  fix E :: "unit ovs_env"
  let ?us = "[(''Bridge'', [(''u1'', \<lparr>ru_Uuid = [], ru_New = empty_Row, ru_Old = port_row ''docker0-ovs''\<rparr>)])]"
  show "monitorDockerBridge_step E (Some 0) (empty_driver\<lparr>update_chan := [?us]\<rparr>) = (Ret True, empty_driver)"
    using monitor_ignores_deletion[of "empty_driver\<lparr>update_chan := [?us]\<rparr>" ?us "[]" E "Some 0"] by (simp add: empty_driver_def)
qed

end
