(* ===== verification/Gateway.thy ===== *)
theory Gateway
  imports OvsDriver
begin

section \<open>Gateways, names and the firewall (daemon/bridge.go)\<close>

text \<open>
  The parts of bridge.go that networks and connections are built from: the choice of
  a subnet that no route of the host uses, the OVS bridge and the tunnels to the
  peers, names and hardware addresses of ports, and the rules of the firewall.

  Looking up and running the program \<open>iptables\<close> and reading random bytes are
  functions of the environment.  The variable \<open>ovs\<close> is \<open>ovs_client\<close>.
\<close>

record 'w bridge_env = "'w driver_env" +
  LookPath :: "string \<Rightarrow> 'w \<Rightarrow> (gerror + string) \<times> 'w"
  CombinedOutput :: "string \<Rightarrow> string list \<Rightarrow> 'w \<Rightarrow> (string \<times> gerror option) \<times> 'w"
  rand_Read :: "'w \<Rightarrow> (gerror + bytes) \<times> 'w"       \<comment> \<open>32 bytes of \<open>rand.Reader\<close>\<close>

record 'w bridge_state = "'w driver_state" +
  ovs_client :: "nat option"

definition not_connected :: gerror where
  "not_connected = Err ''OVS not connected''"

subsection \<open>Subnets\<close>

definition gatewayAddrs :: "string list" where
  "gatewayAddrs =
     [''10.1.42.1/16'', ''10.42.42.1/16'', ''172.16.42.1/24'', ''172.16.43.1/24'', ''172.16.44.1/24'',
      ''10.0.42.1/24'', ''10.0.43.1/24'', ''172.17.42.1/16'', ''10.0.42.1/16'',
      ''192.168.42.1/24'', ''192.168.43.1/24'', ''192.168.44.1/24'']"

definition mtu :: int where
  "mtu = 1440"

definition defaultBridgeName :: string where
  "defaultBridgeName = ''docker0-ovs''"

record Bridge =
  br_Name :: string

definition OvsBridge :: Bridge where
  "OvsBridge = \<lparr>br_Name = defaultBridgeName\<rparr>"

fun gw_loop :: "('w, 'x) net_env_scheme \<Rightarrow> string list \<Rightarrow> (('w, 'z) ecc_state_scheme, gerror + string) comp" where
  "gw_loop E [] = retM (Inr [])"
| "gw_loop E (addr # addrs) = (case ParseCIDR addr of
       Inl err \<Rightarrow> retM (Inl err)
     | Inr (_, dockerNetwork) \<Rightarrow> bindM (CheckRouteOverlaps E dockerNetwork) (\<lambda>err.
         if err \<noteq> None then gw_loop E addrs else retM (Inr addr)))"

definition GetAvailableGwAddress :: "('w, 'x) net_env_scheme \<Rightarrow> string \<Rightarrow>
    (('w, 'z) ecc_state_scheme, gerror + string) comp" where
  "GetAvailableGwAddress E bridgeIP =
     tryE (if bridgeIP \<noteq> [] then
             (case ParseCIDR bridgeIP of Inl err \<Rightarrow> retM (Inl err) | Inr _ \<Rightarrow> retM (Inr bridgeIP))
           else gw_loop E gatewayAddrs) (\<lambda>gwaddr.
       if gwaddr = [] then retM (Inl (Err ''No available gateway addresses'')) else retM (Inr gwaddr))"

fun subnet_loop :: "('w, 'x) net_env_scheme \<Rightarrow> string list \<Rightarrow> (('w, 'z) ecc_state_scheme, gerror + IPNet) comp" where
  "subnet_loop E [] = retM (Inl (Err ''No available GW address''))"
| "subnet_loop E (addr # addrs) = (case ParseCIDR addr of
       Inl err \<Rightarrow> retM (Inl err)
     | Inr (_, dockerNetwork) \<Rightarrow> bindM (CheckRouteOverlaps E dockerNetwork) (\<lambda>err.
         if err = None then retM (Inr dockerNetwork) else subnet_loop E addrs))"

definition GetAvailableSubnet :: "('w, 'x) net_env_scheme \<Rightarrow> (('w, 'z) ecc_state_scheme, gerror + IPNet) comp" where
  "GetAvailableSubnet E = subnet_loop E gatewayAddrs"

subsection \<open>The bridge and the peers\<close>

definition createBridgeIface :: "('w, 'x) ovs_env_scheme \<Rightarrow> string \<Rightarrow> (('w, 'z) bridge_state_scheme, gerror option) comp" where
  "createBridgeIface E name = bindM (getM ovs_client) (\<lambda>ovs. thenM (CreateOVSBridge E ovs name) (retM None))"

definition CreateBridge :: "('w, 'x) ovs_env_scheme \<Rightarrow> (('w, 'z) bridge_state_scheme, gerror option) comp" where
  "CreateBridge E = bindM (getM ovs_client) (\<lambda>ovs.
     if ovs = None then retM (Some not_connected)
     else tryM (portExists E ovs (br_Name OvsBridge)) (\<lambda>exists.
       if \<not> exists then
         guardM (createBridgeIface E (br_Name OvsBridge))
           (tryM (portExists E ovs (br_Name OvsBridge)) (\<lambda>exists.
              if \<not> exists then retM (Some (Err ''Error creating Bridge'')) else retM None))
       else retM None))"

definition AddPeer :: "('w, 'x) ovs_env_scheme \<Rightarrow> string \<Rightarrow> (('w, 'z) bridge_state_scheme, gerror option) comp" where
  "AddPeer E peerIp = bindM (getM ovs_client) (\<lambda>ovs.
     if ovs = None then retM (Some not_connected)
     else thenM (addVxlanPort E ovs (br_Name OvsBridge) (''vxlan-'' @ peerIp) peerIp) (retM None))"

definition DeletePeer :: "('w, 'x) ovs_env_scheme \<Rightarrow> string \<Rightarrow> (('w, 'z) bridge_state_scheme, gerror option) comp" where
  "DeletePeer E peerIp = bindM (getM ovs_client) (\<lambda>ovs.
     if ovs = None then retM (Some not_connected)
     else thenM (deletePort E ovs (br_Name OvsBridge) (''vxlan-'' @ peerIp)) (retM None))"

subsection \<open>Names and hardware addresses of ports\<close>

definition GenerateRandomName :: "('w, 'x) bridge_env_scheme \<Rightarrow> string \<Rightarrow> nat \<Rightarrow>
    (('w, 'z) ecc_state_scheme, gerror + string) comp" where
  "GenerateRandomName E prefix1 size1 =
     tryE (outside (rand_Read E)) (\<lambda>id1.
       if size1 > length (hexString id1) then liftO (Panic ''runtime error: slice bounds out of range'')
       else retM (Inr (prefix1 @ take size1 (hexString id1))))"

definition createOvsInternalPort :: "('w, 'x) bridge_env_scheme \<Rightarrow> string \<Rightarrow> string \<Rightarrow> uint \<Rightarrow>
    (('w, 'z) bridge_state_scheme, string \<times> gerror option) comp" where
  "createOvsInternalPort E prefix1 bridge tag =
     bindM (GenerateRandomName E prefix1 7) (\<lambda>r. case r of
       Inl err \<Rightarrow> retM ([], Some err)
     | Inr port \<Rightarrow> bindM (getM ovs_client) (\<lambda>ovs.
         if ovs = None then retM (port, Some not_connected)
         else thenM (AddInternalPort E ovs bridge port tag) (retM (port, None))))"

definition generateMacAddr :: "bytes \<Rightarrow> bytes" where
  "generateMacAddr ip = (let hw = (replicate 6 0)[0 := 0x02, 1 := 0x42] in take 2 hw @ go_copy (drop 2 hw) (To4 ip))"

subsection \<open>The firewall\<close>

fun join_with :: "string \<Rightarrow> string list \<Rightarrow> string" where
  "join_with sep [] = []"
| "join_with sep [s] = s"
| "join_with sep (s # ss) = s @ sep @ join_with sep ss"

text \<open>The text of the error is without its closing parenthesis.\<close>

definition installRule :: "('w, 'x) bridge_env_scheme \<Rightarrow> string list \<Rightarrow> (('w, 'z) ecc_state_scheme, gerror + string) comp" where
  "installRule E args = bindM (outside (LookPath E ''iptables'')) (\<lambda>r. case r of
       Inl err \<Rightarrow> retM (Inl (Err ''iptables not found''))
     | Inr path \<Rightarrow> bindM (outside (CombinedOutput E path args)) (\<lambda>(output, err). case err of
         Some err \<Rightarrow> retM (Inl (Wrap (''iptables failed: iptables '' @ join_with '' '' args @ '': '' @ output @ '' ('') err))
       | None \<Rightarrow> retM (Inr output)))"

definition ruleExists :: "('w, 'x) bridge_env_scheme \<Rightarrow> string \<Rightarrow> string \<Rightarrow> string list \<Rightarrow> (('w, 'z) ecc_state_scheme, bool) comp" where
  "ruleExists E table chain rule =
     (let table = (if table = [] then ''filter'' else table) in
      bindM (installRule E ([''-t'', table, ''-C'', chain] @ rule)) (\<lambda>r. case r of
        Inr _ \<Rightarrow> retM True
      | Inl _ \<Rightarrow> bindM (installRule E [''-t'', table, ''-S'', chain]) (\<lambda>r.
          retM (contains_text (join_with '' '' rule) (case r of Inl _ \<Rightarrow> [] | Inr existingRules \<Rightarrow> existingRules)))))"

text \<open>One of the three steps: the rule is added when it is not there, and what iptables prints is an error.\<close>

definition ensure_rule :: "('w, 'x) bridge_env_scheme \<Rightarrow> string \<Rightarrow> string \<Rightarrow> string \<Rightarrow> string list \<Rightarrow> string list \<Rightarrow>
    (('w, 'z) ecc_state_scheme, gerror option) comp" where
  "ensure_rule E what table chain add rule = bindM (ruleExists E table chain rule) (\<lambda>exists.
     if \<not> exists then
       bindM (installRule E (add @ rule)) (\<lambda>r. case r of
         Inl err \<Rightarrow> retM (Some (Wrap (''Unable to enable network '' @ what @ '': '') err))
       | Inr output \<Rightarrow> if output \<noteq> [] then retM (Some (Err (''Error enabling network '' @ what @ '': '' @ output))) else retM None)
     else retM None)"

definition natArgs :: "string \<Rightarrow> string \<Rightarrow> string list" where
  "natArgs bridgeName bridgeIP = [''-s'', bridgeIP, ''!'', ''-o'', bridgeName, ''-j'', ''MASQUERADE'']"

definition outboundArgs :: "string \<Rightarrow> string list" where
  "outboundArgs bridgeName = [''-i'', bridgeName, ''!'', ''-o'', bridgeName, ''-j'', ''ACCEPT'']"

definition inboundArgs :: "string \<Rightarrow> string list" where
  "inboundArgs bridgeName =
     [''-o'', bridgeName, ''-m'', ''conntrack'', ''--ctstate'', ''RELATED,ESTABLISHED'', ''-j'', ''ACCEPT'']"

definition setupIPTables :: "('w, 'x) bridge_env_scheme \<Rightarrow> string \<Rightarrow> string \<Rightarrow> (('w, 'z) ecc_state_scheme, gerror option) comp" where
  "setupIPTables E bridgeName bridgeIP =
     guardM (ensure_rule E ''bridge NAT'' ''nat'' ''POSTROUTING'' [''-t'', ''nat'', ''-A'', ''POSTROUTING''] (natArgs bridgeName bridgeIP))
       (guardM (ensure_rule E ''outbound forwarding'' [] ''FORWARD'' [''-A'', ''FORWARD''] (outboundArgs bridgeName))
         (ensure_rule E ''inbound forwarding'' [] ''FORWARD'' [''-A'', ''FORWARD''] (inboundArgs bridgeName)))"


definition candidates :: "IPNet list" where
  "candidates = map (\<lambda>(a, p). \<lparr>IP = a, Mask = CIDRMask p 32\<rparr>)
     [([10, 1, 0, 0], 16), ([10, 42, 0, 0], 16), ([172, 16, 42, 0], 24), ([172, 16, 43, 0], 24), ([172, 16, 44, 0], 24),
      ([10, 0, 42, 0], 24), ([10, 0, 43, 0], 24), ([172, 17, 0, 0], 16), ([10, 0, 0, 0], 16),
      ([192, 168, 42, 0], 24), ([192, 168, 43, 0], 24), ([192, 168, 44, 0], 24)]"

lemma gatewayAddrs_parse: "list_all2 (\<lambda>addr n. \<exists>ip. ParseCIDR addr = Inr (ip, n)) gatewayAddrs candidates"
proof -
  have "list_all2 (\<lambda>addr n. case ParseCIDR addr of Inr (ip, m) \<Rightarrow> m = n | Inl _ \<Rightarrow> False) gatewayAddrs candidates"
    by code_simp
  then show ?thesis by (rule list_all2_mono) (auto split: sum.splits prod.splits)
qed

lemma candidates_v4: "list_all (\<lambda>n. v4_net 16 n \<or> v4_net 24 n) candidates"
  by code_simp

definition route_free :: "Route list \<Rightarrow> IPNet \<Rightarrow> bool" where
  "route_free rs n \<longleftrightarrow> (\<forall>r\<in>set rs. \<forall>d. rt_Dst r = Some d \<longrightarrow> \<not> shares_address n d)"

lemma subnet_loop_find:
  assumes "list_all2 (\<lambda>addr n. \<exists>ip. ParseCIDR addr = Inr (ip, n)) addrs ns" "list_all (\<lambda>n. v4_net 16 n \<or> v4_net 24 n) ns"
    and "RouteList E (world s) = (Inr rs, world s)" "v4_routes rs"
  shows "subnet_loop E addrs s =
    (Ret (case find (route_free rs) ns of None \<Rightarrow> Inl (Err ''No available GW address'') | Some n \<Rightarrow> Inr n), s)"
  using assms(1,2)
proof (induction addrs ns rule: list_all2_induct)
  case (Cons addr addrs n ns)
  then obtain ip where ip: "ParseCIDR addr = Inr (ip, n)" by blast
  obtain p where "v4_net p n" using Cons.prems by auto
  then have "CheckRouteOverlaps E n s = (Ret (if route_free rs n then None else Some ErrNetworkOverlaps), s)"
    using CheckRouteOverlaps_v4[OF _ assms(3,4), of p n] by (auto simp: route_free_def)
  then show ?case using Cons ip by (simp add: run_simps)
qed (simp add: run_simps)

subsection \<open>The firewall has each rule once\<close>

text \<open>
  What the daemon relies on of iptables, for the rules \<open>R\<close> (table, chain, rule):
  \<open>-C\<close> succeeds exactly when the chain has the rule, \<open>-S\<close> prints the text of
  a rule only when the chain has it, and \<open>-A\<close> appends the rule and prints nothing.
\<close>

definition with_rule :: "string \<times> string \<times> string list \<Rightarrow> (string \<Rightarrow> string \<Rightarrow> string list list) \<Rightarrow>
    (string \<Rightarrow> string \<Rightarrow> string list list)" where
  "with_rule tcr rules = (case tcr of (t, c, r) \<Rightarrow>
     if r \<in> set (rules t c) then rules else rules(t := (rules t)(c := rules t c @ [r])))"

definition serves_rule :: "('w, 'x) bridge_env_scheme \<Rightarrow> ('w \<Rightarrow> string \<Rightarrow> string \<Rightarrow> string list list) \<Rightarrow> string \<Rightarrow> 'w \<Rightarrow>
    string \<Rightarrow> string \<Rightarrow> string list \<Rightarrow> bool" where
  "serves_rule E rules path w t c r \<longleftrightarrow>
     (\<exists>out err. CombinedOutput E path ([''-t'', t, ''-C'', c] @ r) w =
         ((out, if r \<in> set (rules w t c) then None else Some err), w)) \<and>
     (\<exists>out err. CombinedOutput E path [''-t'', t, ''-S'', c] w = ((out, err), w) \<and>
         (err = None \<longrightarrow> contains_text (join_with '' '' r) out \<longrightarrow> r \<in> set (rules w t c))) \<and>
     (\<exists>w'. CombinedOutput E path ((if t = ''filter'' then [''-A'', c] else [''-t'', t, ''-A'', c]) @ r) w = (([], None), w') \<and>
         rules w' = (rules w)(t := (rules w t)(c := rules w t c @ [r])))"

definition iptables_ok :: "('w, 'x) bridge_env_scheme \<Rightarrow> ('w \<Rightarrow> string \<Rightarrow> string \<Rightarrow> string list list) \<Rightarrow>
    (string \<times> string \<times> string list) list \<Rightarrow> bool" where
  "iptables_ok E rules R \<longleftrightarrow> (\<exists>path. \<forall>w. LookPath E ''iptables'' w = (Inr path, w) \<and>
     list_all (\<lambda>(t, c, r). serves_rule E rules path w t c r) R)"

lemma with_rule_mem: "r' \<in> set (R t' c') \<Longrightarrow> r' \<in> set (with_rule tcr R t' c')"
  by (auto simp: with_rule_def split: prod.splits)

lemma with_rule_adds: "r \<in> set (with_rule (t, c, r) R t c)"
  by (simp add: with_rule_def)

lemma with_rule_same: "r \<in> set (R t c) \<Longrightarrow> with_rule (t, c, r) R = R"
  by (simp add: with_rule_def)

lemma join_with_Nil: "join_with '' '' r = [] \<Longrightarrow> set r \<subseteq> {[]}"
  by (induction "'' ''" r rule: join_with.induct) auto

lemma ensure_rule_run:
  assumes ok: "iptables_ok E rules R" and r: "(t, chain, rule) \<in> set R" "t = (if table = [] then ''filter'' else table)"
    and add: "add = (if t = ''filter'' then [''-A'', chain] else [''-t'', t, ''-A'', chain])"
    and ne: "join_with '' '' rule \<noteq> []"
  shows "\<exists>w'. ensure_rule E what table chain add rule s = (Ret None, s\<lparr>world := w'\<rparr>) \<and>
    rules w' = with_rule (t, chain, rule) (rules (world s))"
proof -
  let ?w = "world s"
  from ok obtain path where p: "\<And>w. LookPath E ''iptables'' w = (Inr path, w)"
    and "\<And>w. list_all (\<lambda>(t, c, r). serves_rule E rules path w t c r) R" unfolding iptables_ok_def by blast
  then have "serves_rule E rules path ?w t chain rule" using r(1) by (fastforce simp: list_all_iff)
  then have c: "\<exists>out err. CombinedOutput E path ([''-t'', t, ''-C'', chain] @ rule) ?w =
        ((out, if rule \<in> set (rules ?w t chain) then None else Some err), ?w)"
    and l: "\<exists>out err. CombinedOutput E path [''-t'', t, ''-S'', chain] ?w = ((out, err), ?w) \<and>
        (err = None \<longrightarrow> contains_text (join_with '' '' rule) out \<longrightarrow> rule \<in> set (rules ?w t chain))"
    and a: "\<exists>w'. CombinedOutput E path (add @ rule) ?w = (([], None), w') \<and>
        rules w' = (rules ?w)(t := (rules ?w t)(chain := rules ?w t chain @ [rule]))"
    unfolding serves_rule_def add by blast+
  show ?thesis
  proof (cases "rule \<in> set (rules ?w t chain)")
    case True
    then have "ruleExists E table chain rule s = (Ret True, s)"
      using c p by (auto simp: ruleExists_def installRule_def run_simps Let_def r(2)[symmetric])
    then show ?thesis using True by (intro exI[of _ ?w]) (simp add: ensure_rule_def run_simps with_rule_same)
  next
    case False
    obtain w' where w': "CombinedOutput E path (add @ rule) ?w = (([], None), w')"
        "rules w' = (rules ?w)(t := (rules ?w t)(chain := rules ?w t chain @ [rule]))" using a by blast
    obtain out err where o: "CombinedOutput E path [''-t'', t, ''-S'', chain] ?w = ((out, err), ?w)"
        "err = None \<longrightarrow> \<not> contains_text (join_with '' '' rule) out" using l False by blast
    have "ruleExists E table chain rule s = (Ret False, s)"
      using c p o False ne by (cases err) (auto simp: ruleExists_def installRule_def run_simps Let_def r(2)[symmetric])
    then show ?thesis using w' p False by (intro exI[of _ w']) (simp add: ensure_rule_def installRule_def run_simps with_rule_def)
  qed
qed

definition bridge_rules :: "string \<Rightarrow> string \<Rightarrow> (string \<times> string \<times> string list) list" where
  "bridge_rules bridgeName bridgeIP =
     [(''nat'', ''POSTROUTING'', natArgs bridgeName bridgeIP), (''filter'', ''FORWARD'', outboundArgs bridgeName),
      (''filter'', ''FORWARD'', inboundArgs bridgeName)]"

lemma setupIPTables_run:
  assumes "iptables_ok E rules (bridge_rules br ip)"
  shows "\<exists>w'. setupIPTables E br ip s = (Ret None, s\<lparr>world := w'\<rparr>) \<and>
    rules w' = foldl (\<lambda>R tcr. with_rule tcr R) (rules (world s)) (bridge_rules br ip)"
proof -
  have ne: "join_with '' '' (natArgs br ip) \<noteq> []" "join_with '' '' (outboundArgs br) \<noteq> []" "join_with '' '' (inboundArgs br) \<noteq> []"
    by (simp_all add: natArgs_def outboundArgs_def inboundArgs_def)
  obtain w1 where w1: "ensure_rule E ''bridge NAT'' ''nat'' ''POSTROUTING'' [''-t'', ''nat'', ''-A'', ''POSTROUTING''] (natArgs br ip) s =
      (Ret None, s\<lparr>world := w1\<rparr>)" "rules w1 = with_rule (''nat'', ''POSTROUTING'', natArgs br ip) (rules (world s))"
    using ensure_rule_run[OF assms _ _ _ ne(1), where t = "''nat''" and table = "''nat''" and chain = "''POSTROUTING''" and s = s
        and what = "''bridge NAT''"]
    by (auto simp: bridge_rules_def)
  obtain w2 where w2: "ensure_rule E ''outbound forwarding'' [] ''FORWARD'' [''-A'', ''FORWARD''] (outboundArgs br) (s\<lparr>world := w1\<rparr>) =
      (Ret None, s\<lparr>world := w2\<rparr>)" "rules w2 = with_rule (''filter'', ''FORWARD'', outboundArgs br) (rules w1)"
    using ensure_rule_run[OF assms _ _ _ ne(2), where t = "''filter''" and table = "[]" and chain = "''FORWARD''"
        and s = "s\<lparr>world := w1\<rparr>" and what = "''outbound forwarding''"]
    by (auto simp: bridge_rules_def)
  obtain w3 where w3: "ensure_rule E ''inbound forwarding'' [] ''FORWARD'' [''-A'', ''FORWARD''] (inboundArgs br) (s\<lparr>world := w2\<rparr>) =
      (Ret None, s\<lparr>world := w3\<rparr>)" "rules w3 = with_rule (''filter'', ''FORWARD'', inboundArgs br) (rules w2)"
    using ensure_rule_run[OF assms _ _ _ ne(3), where t = "''filter''" and table = "[]" and chain = "''FORWARD''"
        and s = "s\<lparr>world := w2\<rparr>" and what = "''inbound forwarding''"]
    by (auto simp: bridge_rules_def)
  show ?thesis
    using w1 w2 w3 by (intro exI[of _ w3]) (simp add: setupIPTables_def guardM_run bridge_rules_def)
qed

lemma foldl_with_rule_mem: "r \<in> set (R t c) \<Longrightarrow> r \<in> set (foldl (\<lambda>R tcr. with_rule tcr R) R ts t c)"
  by (induction ts arbitrary: R) (auto intro: with_rule_mem)

lemma foldl_with_rule_adds: "(t, c, r) \<in> set ts \<Longrightarrow> r \<in> set (foldl (\<lambda>R tcr. with_rule tcr R) R ts t c)"
  by (induction ts arbitrary: R) (auto intro: foldl_with_rule_mem with_rule_adds)

lemma foldl_with_rule_same: "\<forall>(t, c, r)\<in>set ts. r \<in> set (R t c) \<Longrightarrow> foldl (\<lambda>R tcr. with_rule tcr R) R ts = R"
  by (induction ts) (auto simp: with_rule_same)

subsection \<open>Properties\<close>

text \<open>C22. \<open>GetAvailableSubnet\<close> returns the first of its candidates that has no address
  in common with a route of the host, and an error when every candidate has one.\<close>

theorem available_subnet_is_free:
  assumes "RouteList E (world s) = (Inr rs, world s)" "v4_routes rs"
  shows "GetAvailableSubnet E s =
    (Ret (case find (route_free rs) candidates of None \<Rightarrow> Inl (Err ''No available GW address'') | Some n \<Rightarrow> Inr n), s)"
  unfolding GetAvailableSubnet_def
  by (rule subnet_loop_find[OF gatewayAddrs_parse candidates_v4 assms])

definition quiet_env :: "'w bridge_env" where
  "quiet_env = \<lparr>http = (\<lambda>m u b w. (None, w)), range_order = (\<lambda>ks. ks),
     LinkByName = (\<lambda>n w. (Inl (Err ''Link not found''), w)), LinkByIndex = (\<lambda>i w. (Inl (Err ''Link not found''), w)),
     AddrList = (\<lambda>l w. (Inr [], w)), RouteList = (\<lambda>w. (Inr [], w)), RouteGet = (\<lambda>a w. (Inr [], w)),
     RouteAdd = (\<lambda>r w. (None, w)), AddrAdd = (\<lambda>l a w. (None, w)), LinkSetUp = (\<lambda>l w. (None, w)), LinkSetDown = (\<lambda>l w. (None, w)),
     LinkSetName = (\<lambda>l n w. (None, w)), LinkSetMTU = (\<lambda>l m w. (None, w)), LinkSetHardwareAddr = (\<lambda>l a w. (None, w)),
     LinkSetNsPid = (\<lambda>l p w. (None, w)), LinkSetNsFd = (\<lambda>l f w. (None, w)),
     ovs_Dial = (\<lambda>t w. (Inl (Err ''connection refused''), w)), rpc_Call = (\<lambda>c m a w. (Inl (Err ''connection is shut down''), w)),
     rpc_Close = (\<lambda>c w. ((), w)), ovs_arrived = (\<lambda>w. ([], w)),
     LookPath = (\<lambda>p w. (Inl (Err ''not found''), w)), CombinedOutput = (\<lambda>p a w. (([], None), w)),
     rand_Read = (\<lambda>w. (Inr (replicate 32 0), w))\<rparr>"

definition route_to :: "IPNet \<Rightarrow> Route" where
  "route_to d = \<lparr>rt_LinkIndex = 1, rt_Scope = 0, rt_Dst = Some d, rt_Src = [], rt_Gw = []\<rparr>"

theorem available_subnet_is_free_witness:
  "GetAvailableSubnet (quiet_env\<lparr>RouteList := \<lambda>w. (Inr [route_to net8], w)\<rparr>) empty_driver =
     (Ret (Inr \<lparr>IP = [172, 16, 42, 0], Mask = CIDRMask 24 32\<rparr>), empty_driver)"
proof -
  have v: "v4_routes [route_to net8]" using v4_nets(4) by (auto simp: v4_routes_def route_to_def)
  have f: "route_free [route_to net8] n = (\<not> (Contains net8 (IP n) \<or> Contains n (IP net8)))"
    if "v4_net 16 n \<or> v4_net 24 n" for n
    using that overlap_iff_shared[OF v4_nets(4)] by (auto simp: route_free_def route_to_def shares_address_def)
  have "find (route_free [route_to net8]) candidates = find (\<lambda>n. \<not> (Contains net8 (IP n) \<or> Contains n (IP net8))) candidates"
    using candidates_v4 by (intro find_cong refl f) (auto simp: list_all_iff)
  also have "\<dots> = Some \<lparr>IP = [172, 16, 42, 0], Mask = CIDRMask 24 32\<rparr>" by code_simp
  finally show ?thesis
    using available_subnet_is_free[of "quiet_env\<lparr>RouteList := \<lambda>w. (Inr [route_to net8], w)\<rparr>" empty_driver "[route_to net8]"] v
    by (simp add: quiet_env_def)
qed

text \<open>C21. \<open>setupIPTables\<close> succeeds and leaves the firewall with the three rules of the
  bridge, each appended only when it is missing and everything else kept, so that
  running it again changes nothing.\<close>

theorem setup_iptables_idempotent:
  assumes "iptables_ok E rules (bridge_rules br ip)"
  shows "\<exists>s' s''. setupIPTables E br ip s = (Ret None, s') \<and>
    rules (world s') = foldl (\<lambda>R tcr. with_rule tcr R) (rules (world s)) (bridge_rules br ip) \<and>
    (\<forall>(t, c, r)\<in>set (bridge_rules br ip). r \<in> set (rules (world s') t c)) \<and>
    setupIPTables E br ip s' = (Ret None, s'') \<and> rules (world s'') = rules (world s')"
proof -
  obtain w1 where w1: "setupIPTables E br ip s = (Ret None, s\<lparr>world := w1\<rparr>)"
      "rules w1 = foldl (\<lambda>R tcr. with_rule tcr R) (rules (world s)) (bridge_rules br ip)"
    using setupIPTables_run[OF assms] by blast
  obtain w2 where w2: "setupIPTables E br ip (s\<lparr>world := w1\<rparr>) = (Ret None, s\<lparr>world := w2\<rparr>)"
      "rules w2 = foldl (\<lambda>R tcr. with_rule tcr R) (rules w1) (bridge_rules br ip)"
    using setupIPTables_run[OF assms, of "s\<lparr>world := w1\<rparr>"] by auto
  have m: "\<forall>(t, c, r)\<in>set (bridge_rules br ip). r \<in> set (rules w1 t c)"
    unfolding w1(2) by (auto intro: foldl_with_rule_adds)
  then have "rules w2 = rules w1" unfolding w2(2) by (rule foldl_with_rule_same)
  then show ?thesis using w1 w2 m by (intro exI[of _ "s\<lparr>world := w1\<rparr>"] exI[of _ "s\<lparr>world := w2\<rparr>"]) simp
qed

text \<open>A program iptables whose world is the rules themselves, and which has no \<open>-S\<close>.\<close>

fun iptables_program :: "string list \<Rightarrow> (string \<Rightarrow> string \<Rightarrow> string list list) \<Rightarrow>
    (string \<times> gerror option) \<times> (string \<Rightarrow> string \<Rightarrow> string list list)" where
  "iptables_program (a # b # c # d # r) R =
     (if a = ''-t'' \<and> c = ''-C'' then (([], if r \<in> set (R b d) then None else Some (Err ''exit status 1'')), R)
      else if a = ''-t'' \<and> c = ''-A'' then (([], None), R(b := (R b)(d := R b d @ [r])))
      else if a = ''-A'' then (([], None), R(''filter'' := (R ''filter'')(b := R ''filter'' b @ [c # d # r])))
      else (([], Some (Err ''exit status 2'')), R))"
| "iptables_program _ R = (([], Some (Err ''exit status 2'')), R)"

theorem setup_iptables_idempotent_witness:
  "\<exists>s' s''. setupIPTables (quiet_env\<lparr>LookPath := \<lambda>p w. (Inr ''/sbin/iptables'', w), CombinedOutput := \<lambda>p. iptables_program\<rparr>)
       ''default'' ''10.1.0.0/16''
       \<lparr>world = (\<lambda>t c. []), started = True, OfflineSupport = True, ecc_cache = [], spawned = []\<rparr> = (Ret None, s') \<and>
     world s' ''filter'' ''FORWARD'' = [outboundArgs ''default'', inboundArgs ''default''] \<and>
     setupIPTables (quiet_env\<lparr>LookPath := \<lambda>p w. (Inr ''/sbin/iptables'', w), CombinedOutput := \<lambda>p. iptables_program\<rparr>)
       ''default'' ''10.1.0.0/16'' s' = (Ret None, s'') \<and> world s'' = world s'"
proof -
  have ok: "iptables_ok (quiet_env\<lparr>LookPath := \<lambda>p w. (Inr ''/sbin/iptables'', w), CombinedOutput := \<lambda>p. iptables_program\<rparr>)
      (\<lambda>w. w) (bridge_rules ''default'' ''10.1.0.0/16'')"
    by (auto simp: iptables_ok_def serves_rule_def bridge_rules_def natArgs_def outboundArgs_def inboundArgs_def)
  from setup_iptables_idempotent[OF ok, of "\<lparr>world = (\<lambda>t c. []), started = True, OfflineSupport = True, ecc_cache = [], spawned = []\<rparr>"]
  show ?thesis by (auto simp: bridge_rules_def with_rule_def natArgs_def outboundArgs_def inboundArgs_def)
qed

text \<open>C34. The hardware addresses the daemon gives to ports are locally administered
  unicast addresses, different for different IPv4 addresses, and their text parses
  back to them.\<close>

theorem mac_addresses_unique:
  assumes "length a = 4" "length b = 4"
  shows "(generateMacAddr a = generateMacAddr b) = (a = b) \<and> length (generateMacAddr a) = 6 \<and>
    \<not> bit (hd (generateMacAddr a)) 0 \<and> bit (hd (generateMacAddr a)) 1 \<and>
    ParseMAC (hw_String (generateMacAddr a)) = Inr (generateMacAddr a)"
proof -
  have g: "generateMacAddr c = [0x02, 0x42] @ c" if "length c = 4" for c
    using that by (simp add: generateMacAddr_def Let_def numeral_eq_Suc)
  have "\<not> bit (0x02 :: byte) 0" "bit (0x02 :: byte) 1" by (simp_all add: bit_numeral_rec)
  then show ?thesis
    using assms ParseMAC_hw_String[of "generateMacAddr a"] by (simp add: g)
qed

theorem mac_addresses_unique_witness:
  "generateMacAddr [10, 1, 0, 2] \<noteq> generateMacAddr [10, 1, 0, 3] \<and>
   ParseMAC (hw_String (generateMacAddr [10, 1, 0, 2])) = Inr (generateMacAddr [10, 1, 0, 2])"
  using mac_addresses_unique[of "[10, 1, 0, 2]" "[10, 1, 0, 3]"] by simp

end
