(* ===== verification/Network.thy ===== *)
theory Network
  imports Gateway
begin

section \<open>Networks and VLANs (daemon/network.go)\<close>

text \<open>
  A network is a document in the datastore, an OVS port with an address, a VLAN and
  the rules of the firewall.  VLANs are the positions of a bit array in the
  datastore, taken and given back with the optimistic retry of \<open>IPAMRequest\<close>; the
  retries and the restart of \<open>CreateNetwork\<close> have a number of attempts, after which
  the call has not returned.
\<close>

subsection \<open>Documents\<close>

definition networkStore :: string where
  "networkStore = ''network''"

definition vlanStore :: string where
  "vlanStore = ''vlan''"

definition DefaultNetworkName :: string where
  "DefaultNetworkName = ''default''"

definition vlanCount :: nat where
  "vlanCount = 4096"

record Network =
  nw_ID :: string
  nw_Subnet :: string
  nw_Gateway :: string
  nw_Vlan :: uint

definition Network_zero :: Network where
  "Network_zero = \<lparr>nw_ID = [], nw_Subnet = [], nw_Gateway = [], nw_Vlan = 0\<rparr>"

definition Network_json :: "Network \<Rightarrow> json" where
  "Network_json n = JObj [(''id'', JStr (nw_ID n)), (''subnet'', JStr (nw_Subnet n)), (''gateway'', JStr (nw_Gateway n)),
     (''vlan'', JNum (itod (unat (nw_Vlan n))))]"

definition Network_store :: "Network store" where
  "Network_store = store_struct ''daemon.Network''
     [(''id'', store_string (\<lambda>v n. n\<lparr>nw_ID := v\<rparr>)),
      (''subnet'', store_string (\<lambda>v n. n\<lparr>nw_Subnet := v\<rparr>)),
      (''gateway'', store_string (\<lambda>v n. n\<lparr>nw_Gateway := v\<rparr>)),
      (''vlan'', store_uint (\<lambda>v n. n\<lparr>nw_Vlan := v\<rparr>))]"

definition unmarshal_network :: "bytes \<Rightarrow> gerror + Network" where
  "unmarshal_network b = (case Unmarshal Network_store (str b) Network_zero of
       (Some err, _) \<Rightarrow> Inl err
     | (None, n) \<Rightarrow> Inr n)"

fun unmarshal_networks :: "bytes list \<Rightarrow> gerror + Network list" where
  "unmarshal_networks [] = Inr []"
| "unmarshal_networks (b # bs) = (case unmarshal_network b of
       Inl err \<Rightarrow> Inl err
     | Inr n \<Rightarrow> (case unmarshal_networks bs of Inl err \<Rightarrow> Inl err | Inr ns \<Rightarrow> Inr (n # ns)))"

definition GetNetworks :: "('w, 'x) http_env_scheme \<Rightarrow> (('w, 'z) ecc_state_scheme, gerror + Network list) comp" where
  "GetNetworks E = bindM (GetAll E networkStore) (\<lambda>(netByteArray, _, ok).
     if ok then retM (unmarshal_networks netByteArray) else retM (Inr []))"

definition network_unavailable :: gerror where
  "network_unavailable = Err ''Network unavailable''"

definition GetNetwork :: "('w, 'x) http_env_scheme \<Rightarrow> string \<Rightarrow> (('w, 'z) ecc_state_scheme, gerror + Network) comp" where
  "GetNetwork E id1 = bindM (Get E networkStore id1) (\<lambda>(netByteArray, _, ok).
     if ok then retM (unmarshal_network netByteArray) else retM (Inl network_unavailable))"

subsection \<open>VLANs\<close>

fun allocateVlan :: "nat \<Rightarrow> ('w, 'x) http_env_scheme \<Rightarrow> (('w, 'z) ecc_state_scheme, uint \<times> gerror option) comp" where
  "allocateVlan 0 E = liftO NoReturn"
| "allocateVlan (Suc f) E =
     bindM (Get E vlanStore ''vlan'') (\<lambda>(vlanArray, _, ok).
     let currVal = go_copy (replicate (vlanCount div 8) 0) vlanArray;
         vlanArray = (if \<not> ok then replicate (vlanCount div 8) 0 else vlanArray) in
     bindM (liftO (testAndSetBit vlanArray)) (\<lambda>(vlan, vlanArray).
     if vlan \<ge> of_nat vlanCount then
       thenM (write_through vlanStore ''vlan'' ok vlanArray) (retM (of_nat vlanCount, Some (Err ''Vlan unavailable'')))
     else
       bindM (thenM (write_through vlanStore ''vlan'' ok vlanArray) (Put E vlanStore ''vlan'' vlanArray currVal)) (\<lambda>eccerr.
       if eccerr = OUTDATED then allocateVlan f E else retM (vlan, None))))"

fun releaseVlan :: "nat \<Rightarrow> ('w, 'x) http_env_scheme \<Rightarrow> uint \<Rightarrow> (('w, 'z) ecc_state_scheme, unit) comp" where
  "releaseVlan 0 E vlan = liftO NoReturn"
| "releaseVlan (Suc f) E vlan =
     bindM (Get E vlanStore ''vlan'') (\<lambda>(vlanArray, _, ok).
     let currVal = go_copy (replicate (vlanCount div 8) 0) vlanArray;
         vlanArray = (if \<not> ok then replicate (vlanCount div 8) 0 else vlanArray) in
     bindM (liftO (clearBit vlanArray (vlan - 1))) (\<lambda>vlanArray.
     bindM (thenM (write_through vlanStore ''vlan'' ok vlanArray) (Put E vlanStore ''vlan'' vlanArray currVal)) (\<lambda>eccerr.
     if eccerr = OUTDATED then releaseVlan f E vlan else retM ())))"

subsection \<open>Creating and deleting networks\<close>

text \<open>The port of a network that has no interface yet, and its address.\<close>

definition configure_gateway :: "('w, 'x) bridge_env_scheme \<Rightarrow> nat option \<Rightarrow> Network \<Rightarrow> IPNet \<Rightarrow>
    (('w, 'z) bridge_state_scheme, gerror option) comp" where
  "configure_gateway E ovs network gatewayNet =
     guardM (AddInternalPort E ovs defaultBridgeName (nw_ID network) (nw_Vlan network))
    (guardM (SetMtu E (nw_ID network) mtu)
    (guardM (SetInterfaceIp E (nw_ID network) (ipnet_String gatewayNet))
            (InterfaceUp E (nw_ID network))))"

text \<open>Storing the document; \<open>again\<close> is the restart with the given subnet.\<close>

definition store_network :: "nat \<Rightarrow> ('w, 'x) bridge_env_scheme \<Rightarrow> Network \<Rightarrow> bytes \<Rightarrow> IPNet \<Rightarrow>
    (('w, 'z) bridge_state_scheme, Network option \<times> gerror option) comp \<Rightarrow>
    (('w, 'z) bridge_state_scheme, Network option \<times> gerror option) comp" where
  "store_network f E network gateway subnet again =
     bindM (Put E networkStore (nw_ID network) (unstr (print_json (Network_json network))) []) (\<lambda>eccerr.
       if eccerr = OUTDATED then
         thenM (releaseVlan f E (nw_Vlan network)) (thenM (IPAMRelease f E gateway subnet) again)
       else bindM (setupIPTables E (nw_ID network) (nw_Subnet network)) (\<lambda>err. retM (Some network, err)))"

fun CreateNetwork :: "nat \<Rightarrow> ('w, 'x) bridge_env_scheme \<Rightarrow> string \<Rightarrow> IPNet \<Rightarrow>
    (('w, 'z) bridge_state_scheme, Network option \<times> gerror option) comp" where
  "CreateNetwork 0 E id1 subnet = liftO NoReturn"
| "CreateNetwork (Suc f) E id1 subnet =
     bindM (GetNetwork E id1) (\<lambda>r. case r of
       Inr network \<Rightarrow> retM (Some network, None)
     | Inl _ \<Rightarrow> bindM (allocateVlan (Suc f) E) (\<lambda>(vlan, err).
       if err \<noteq> None then retM (None, err)
       else bindM (GetIfaceAddr E id1) (\<lambda>r. case r of
         Inl _ \<Rightarrow> bindM (getM ovs_client) (\<lambda>ovs.
           if ovs = None then retM (None, Some not_connected)
           else bindM (IPAMRequest (Suc f) E subnet) (\<lambda>gateway.
             let network = \<lparr>nw_ID = id1, nw_Subnet = ipnet_String subnet, nw_Gateway = ip_String gateway, nw_Vlan = vlan\<rparr> in
             bindM (configure_gateway E ovs network \<lparr>IP = gateway, Mask = Mask subnet\<rparr>) (\<lambda>err.
             if err \<noteq> None then retM (Some network, err)
             else store_network (Suc f) E network gateway subnet (CreateNetwork f E id1 subnet))))
       | Inr addr \<Rightarrow> (case ParseCIDR (ipnet_String addr) of
           Inl err \<Rightarrow> retM (None, Some err)
         | Inr (gateway, subnet) \<Rightarrow>
             let network = \<lparr>nw_ID = id1, nw_Subnet = ipnet_String subnet, nw_Gateway = ip_String gateway, nw_Vlan = vlan\<rparr> in
             store_network (Suc f) E network gateway subnet (CreateNetwork f E id1 subnet)))))"

definition DeleteNetwork :: "nat \<Rightarrow> ('w, 'x) bridge_env_scheme \<Rightarrow> string \<Rightarrow> (('w, 'z) bridge_state_scheme, gerror option) comp" where
  "DeleteNetwork f E id1 = tryM (GetNetwork E id1) (\<lambda>network.
     bindM (getM ovs_client) (\<lambda>ovs.
       if ovs = None then retM (Some not_connected)
       else bindM (Delete E networkStore id1) (\<lambda>eccerror.
         if eccerror \<noteq> OK then retM (Some (Err ''Error deleting network''))
         else thenM (releaseVlan f E (nw_Vlan network)) (thenM (deletePort E ovs defaultBridgeName id1) (retM None)))))"

definition CreateDefaultNetwork :: "nat \<Rightarrow> ('w, 'x) bridge_env_scheme \<Rightarrow>
    (('w, 'z) bridge_state_scheme, Network option \<times> gerror option) comp" where
  "CreateDefaultNetwork f E = bindM (GetAvailableSubnet E) (\<lambda>r. case r of
       Inl err \<Rightarrow> retM (Some Network_zero, Some err)
     | Inr subnet \<Rightarrow> CreateNetwork f E DefaultNetworkName subnet)"

definition GetDefaultNetwork :: "('w, 'x) http_env_scheme \<Rightarrow> (('w, 'z) ecc_state_scheme, gerror + Network) comp" where
  "GetDefaultNetwork E = GetNetwork E DefaultNetworkName"


subsection \<open>Documents survive\<close>

definition network_text :: "Network \<Rightarrow> bytes" where
  "network_text n = unstr (print_json (Network_json n))"

definition ascii_network :: "Network \<Rightarrow> bool" where
  "ascii_network n \<longleftrightarrow> ascii (nw_ID n) \<and> ascii (nw_Subnet n) \<and> ascii (nw_Gateway n)"

lemma network_fields [simp]:
  "find_field [(''id'', f1), (''subnet'', f2), (''gateway'', f3), (''vlan'', f4)] ''id'' = Some f1"
  "find_field [(''id'', f1), (''subnet'', f2), (''gateway'', f3), (''vlan'', f4)] ''subnet'' = Some f2"
  "find_field [(''id'', f1), (''subnet'', f2), (''gateway'', f3), (''vlan'', f4)] ''gateway'' = Some f3"
  "find_field [(''id'', f1), (''subnet'', f2), (''gateway'', f3), (''vlan'', f4)] ''vlan'' = Some f4"
  by (simp_all add: find_field_def)

lemma unmarshal_network_text:
  assumes "ascii_network n"
  shows "unmarshal_network (network_text n) = Inr n"
proof -
  have "wf_json (Network_json n)"
    using assms num_literal_itod by (simp add: Network_json_def ascii_network_def ascii_def)
  then have p: "parse_json (str (network_text n)) = Some (Network_json n)"
    unfolding network_text_def by (simp only: str_unstr parse_print)
  have "Network_store (Network_json n) Network_zero = (None, n)"
    by (simp add: Network_store_def Network_json_def store_struct_def store_string_def store_uint_def ParseUint_itod
        Network_zero_def first_error_def)
  then show ?thesis by (simp add: unmarshal_network_def Unmarshal_def p)
qed

subsection \<open>The pool of VLANs\<close>

definition vlan_pool :: "bytes option \<Rightarrow> bytes" where
  "vlan_pool v = (case v of None \<Rightarrow> replicate (vlanCount div 8) 0 | Some a \<Rightarrow> a)"

lemma vlan_pool_simps [simp]: "vlan_pool (Some a) = a" "vlan_pool None = replicate 512 0"
  by (simp_all add: vlan_pool_def vlanCount_def)

lemma vlan_position:
  assumes "length P = 512" "\<not> {..<4095} \<subseteq> bits_of P"
  obtains k a' where "testAndSetBit P = Ret (of_nat (Suc k), a')" "k < 4095" "k \<notin> bits_of P" "bits_of a' = insert k (bits_of P)"
    "length a' = 512" "unat (of_nat (Suc k) :: uint) = Suc k"
proof -
  have sz: "8 * length P < 2 ^ 64" using assms(1) by simp
  have "{..<4095} \<subseteq> {..<8 * length P}" unfolding lessThan_subset_iff assms(1) by simp
  then have "bits_of P \<noteq> {..<8 * length P}" using assms(2) by metis
  then obtain k a' where k: "testAndSetBit P = Ret (of_nat (Suc k), a')" "k \<notin> bits_of P" "{..<k} \<subseteq> bits_of P"
    "bits_of a' = insert k (bits_of P)" "length a' = length P"
    using testAndSetBit_free[OF sz] by metis
  obtain j where j: "j < 4095" "j \<notin> bits_of P" using assms(2) by (metis lessThan_iff subsetI)
  have "k \<le> j" using k(3) j(2) by (metis lessThan_iff not_le subsetD)
  then have "k < 4095" using j(1) by simp
  moreover from this have "unat (of_nat (Suc k) :: uint) = Suc k" by (intro unat_of_nat_uint) simp
  ultimately show ?thesis using that k assms(1) by simp
qed

context datastore
begin

lemma allocateVlan_run:
  assumes room: "room (Suc m) s" and key: "good_key vlanStore ''vlan''"
    and P: "length (vlan_pool (view s vlanStore ''vlan'')) = 512" "\<not> {..<4095} \<subseteq> bits_of (vlan_pool (view s vlanStore ''vlan''))"
  obtains k a' s' where "\<And>f. allocateVlan (Suc f) E s = (Ret (of_nat (Suc k), None), s')" "k < 4095"
    "unat (of_nat (Suc k) :: uint) = Suc k" "k \<notin> bits_of (vlan_pool (view s vlanStore ''vlan''))"
    "bits_of a' = insert k (bits_of (vlan_pool (view s vlanStore ''vlan'')))" "length a' = 512"
    "view s' = (view s)(vlanStore := (view s vlanStore)(''vlan'' \<mapsto> a'))" "room m s'" "same_but_store s s'"
proof -
  let ?v = "view s vlanStore ''vlan''"
  define ok where "ok \<longleftrightarrow> ?v \<noteq> None"
  define old where "old = (case ?v of None \<Rightarrow> [] | Some a \<Rightarrow> a)"
  obtain i where g: "Get E vlanStore ''vlan'' s = (Ret (old, i, ok), s)"
    using Get_view[OF room key] by (auto simp: ok_def old_def split: option.splits)
  obtain k a' where k: "testAndSetBit (vlan_pool ?v) = Ret (of_nat (Suc k), a')" "k < 4095" "k \<notin> bits_of (vlan_pool ?v)"
    "bits_of a' = insert k (bits_of (vlan_pool ?v))" "length a' = 512" "unat (of_nat (Suc k) :: uint) = Suc k"
    by (rule vlan_position[OF P])
  define cur where "cur = go_copy (replicate (vlanCount div 8) 0) old"
  have arr: "(if \<not> ok then replicate (vlanCount div 8) 0 else old) = vlan_pool ?v"
    by (auto simp: ok_def old_def vlan_pool_def split: option.splits)
  have v: "?v = (if ok then Some cur else None)"
    using P(1) by (auto simp: ok_def old_def cur_def vlanCount_def split: option.splits)
  have "length a' \<le> maxKVSize" using k(5) by (simp add: maxKVSize_def)
  from Put_view[OF room key this v] obtain s' where p:
    "thenM (write_through vlanStore ''vlan'' ok a') (Put E vlanStore ''vlan'' a' cur) s = (Ret OK, s')"
    "view s' = (view s)(vlanStore := (view s vlanStore)(''vlan'' \<mapsto> a'))" "room m s'" "same_but_store s s'"
    by blast
  have lt: "\<not> of_nat (Suc k) \<ge> (of_nat vlanCount :: uint)"
    using k(2,6) by (simp add: word_le_nat_alt vlanCount_def)
  have "allocateVlan (Suc f) E s = (Ret (of_nat (Suc k), None), s')" for f
    using p(1) lt by (simp add: bindM_run retM_run liftO_run g arr k(1) Let_def cur_def[symmetric])
  with k p that show ?thesis by blast
qed

lemma allocateVlan_full:
  assumes room: "room m s" and key: "good_key vlanStore ''vlan''" and on: "\<not> offline s"
    and P: "length (vlan_pool (view s vlanStore ''vlan'')) = 512" "{..<4095} \<subseteq> bits_of (vlan_pool (view s vlanStore ''vlan''))"
  shows "allocateVlan (Suc f) E s = (Ret (of_nat vlanCount, Some (Err ''Vlan unavailable'')), s)"
proof -
  let ?P = "vlan_pool (view s vlanStore ''vlan'')"
  define ok where "ok \<longleftrightarrow> view s vlanStore ''vlan'' \<noteq> None"
  define old where "old = (case view s vlanStore ''vlan'' of None \<Rightarrow> [] | Some a \<Rightarrow> a)"
  obtain i where g: "Get E vlanStore ''vlan'' s = (Ret (old, i, ok), s)"
    using Get_view[OF room key] by (auto simp: ok_def old_def split: option.splits)
  have arr: "(if \<not> ok then replicate (vlanCount div 8) 0 else old) = ?P"
    by (auto simp: ok_def old_def vlan_pool_def split: option.splits)
  have sz: "8 * length ?P < 2 ^ 64" using P(1) by simp
  obtain a' where "testAndSetBit ?P = Ret (4096, a')"
  proof (cases "bits_of ?P = {..<8 * length ?P}")
    case True
    then show ?thesis using testAndSetBit_full[OF sz True] that P(1) by simp
  next
    case False
    then obtain k a' where k: "testAndSetBit ?P = Ret (of_nat (Suc k), a')" "k < 8 * length ?P" "k \<notin> bits_of ?P"
      using testAndSetBit_free[OF sz] by metis
    have "k < 4096" using k(2) P(1) by simp
    moreover have "k \<notin> {..<4095}" using k(3) P(2) by blast
    then have "\<not> k < 4095" unfolding lessThan_iff .
    ultimately have "k = 4095" by simp
    then show ?thesis using k that by simp
  qed
  then show ?thesis
    by (simp add: bindM_run retM_run liftO_run g arr Let_def vlanCount_def thenM_run write_through_def modifyM_run on)
qed

lemma releaseVlan_run:
  assumes room: "room (Suc m) s" and key: "good_key vlanStore ''vlan''"
    and P: "length (vlan_pool (view s vlanStore ''vlan'')) = 512" and vl: "1 \<le> unat vlan" "unat vlan \<le> 4096"
  obtains a' s' where "\<And>f. releaseVlan (Suc f) E vlan s = (Ret (), s')"
    "bits_of a' = bits_of (vlan_pool (view s vlanStore ''vlan'')) - {unat vlan - 1}" "length a' = 512"
    "view s' = (view s)(vlanStore := (view s vlanStore)(''vlan'' \<mapsto> a'))" "room m s'" "same_but_store s s'"
proof -
  let ?v = "view s vlanStore ''vlan''"
  define ok where "ok \<longleftrightarrow> ?v \<noteq> None"
  define old where "old = (case ?v of None \<Rightarrow> [] | Some a \<Rightarrow> a)"
  obtain i where g: "Get E vlanStore ''vlan'' s = (Ret (old, i, ok), s)"
    using Get_view[OF room key] by (auto simp: ok_def old_def split: option.splits)
  have u: "unat (vlan - 1) = unat vlan - 1" using vl(1) by (simp add: unat_minus_1_uint)
  then have "unat (vlan - 1) < 8 * length (vlan_pool ?v)" using vl P by simp
  then obtain a' where c: "clearBit (vlan_pool ?v) (vlan - 1) = Ret a'" "length a' = 512"
    "bits_of a' = bits_of (vlan_pool ?v) - {unat vlan - 1}"
    using clearBit_Ret[of "vlan - 1" "vlan_pool ?v"] unfolding P u by blast
  define cur where "cur = go_copy (replicate (vlanCount div 8) 0) old"
  have arr: "(if \<not> ok then replicate (vlanCount div 8) 0 else old) = vlan_pool ?v"
    by (auto simp: ok_def old_def vlan_pool_def split: option.splits)
  have v: "?v = (if ok then Some cur else None)"
    using P(1) by (auto simp: ok_def old_def cur_def vlanCount_def split: option.splits)
  have "length a' \<le> maxKVSize" using c(2) by (simp add: maxKVSize_def)
  from Put_view[OF room key this v] obtain s' where p:
    "thenM (write_through vlanStore ''vlan'' ok a') (Put E vlanStore ''vlan'' a' cur) s = (Ret OK, s')"
    "view s' = (view s)(vlanStore := (view s vlanStore)(''vlan'' \<mapsto> a'))" "room m s'" "same_but_store s s'"
    by blast
  have "releaseVlan (Suc f) E vlan s = (Ret (), s')" for f
    using p(1) by (simp add: bindM_run retM_run liftO_run g arr c(1) Let_def cur_def[symmetric])
  with c p that show ?thesis by blast
qed

lemma allocateVlans_distinct:
  assumes key: "good_key vlanStore ''vlan''"
    and "room (k + m) s" "length (vlan_pool (view s vlanStore ''vlan'')) = 512"
    and "bits_of (vlan_pool (view s vlanStore ''vlan'')) \<subseteq> {..<4095}" "card (bits_of (vlan_pool (view s vlanStore ''vlan''))) + k \<le> 4095"
  shows "\<exists>ks s'. repeatM k (allocateVlan (Suc f) E) s = (Ret (map (\<lambda>j. (of_nat (Suc j), None)) ks), s') \<and>
    length ks = k \<and> distinct ks \<and> set ks \<subseteq> {..<4095} - bits_of (vlan_pool (view s vlanStore ''vlan'')) \<and>
    bits_of (vlan_pool (view s' vlanStore ''vlan'')) = bits_of (vlan_pool (view s vlanStore ''vlan'')) \<union> set ks \<and> room m s'"
  using assms(2-)
proof (induction k arbitrary: s)
  case 0
  then show ?case by (simp add: run_simps)
next
  case (Suc k)
  let ?P = "\<lambda>s. vlan_pool (view s vlanStore ''vlan'')"
  have room: "room (Suc (k + m)) s" using Suc.prems(1) by simp
  have "\<not> {..<4095} \<subseteq> bits_of (?P s)"
  proof
    assume "{..<4095} \<subseteq> bits_of (?P s)"
    then have "card {..<4095::nat} \<le> card (bits_of (?P s))" by (rule card_mono[OF finite_bits_of])
    then show False using Suc.prems(4) unfolding card_lessThan by linarith
  qed
  then obtain j a' s1 where j: "\<And>f. allocateVlan (Suc f) E s = (Ret (of_nat (Suc j), None), s1)" "j < 4095"
    "unat (of_nat (Suc j) :: uint) = Suc j" "j \<notin> bits_of (?P s)" "bits_of a' = insert j (bits_of (?P s))" "length a' = 512"
    "view s1 = (view s)(vlanStore := (view s vlanStore)(''vlan'' \<mapsto> a'))" "room (k + m) s1" "same_but_store s s1"
    by (rule allocateVlan_run[OF room key Suc.prems(2)]) (rule that)
  have P1: "?P s1 = a'" using j(7) by simp
  have "bits_of a' \<subseteq> {..<4095}" "card (bits_of a') + k \<le> 4095"
    using j(2,4,5) Suc.prems(3,4) by simp_all
  from Suc.IH[of s1, unfolded P1, OF j(8,6) this] obtain ks s' where ks:
    "repeatM k (allocateVlan (Suc f) E) s1 = (Ret (map (\<lambda>j. (of_nat (Suc j), None)) ks), s')" "length ks = k" "distinct ks"
    "set ks \<subseteq> {..<4095} - bits_of a'" "bits_of (?P s') = bits_of a' \<union> set ks" "room m s'"
    by (elim exE conjE)
  have "repeatM (Suc k) (allocateVlan (Suc f) E) s = (Ret (map (\<lambda>j. (of_nat (Suc j), None)) (j # ks)), s')"
    using j(1)[of f] ks(1) by (simp add: run_simps del: allocateVlan.simps)
  moreover have "length (j # ks) = Suc k" "distinct (j # ks)" "set (j # ks) \<subseteq> {..<4095} - bits_of (?P s)"
    "bits_of (?P s') = bits_of (?P s) \<union> set (j # ks)"
    using ks j(2,4,5) by auto
  ultimately show ?case using ks(6) by blast
qed

lemma GetNetwork_present:
  assumes "room m s" "good_key networkStore id1" "view s networkStore id1 = Some (network_text nw)" "ascii_network nw"
  shows "GetNetwork E id1 s = (Ret (Inr nw), s)"
proof -
  obtain i where "Get E networkStore id1 s = (Ret (network_text nw, i, True), s)"
    by (rule Get_present[OF assms(1-3)])
  then show ?thesis by (simp add: GetNetwork_def run_simps unmarshal_network_text[OF assms(4)])
qed

lemma GetNetwork_absent:
  assumes "room m s" "good_key networkStore id1" "view s networkStore id1 = None"
  shows "GetNetwork E id1 s = (Ret (Inl network_unavailable), s)"
proof -
  obtain i where "Get E networkStore id1 s = (Ret ([], i, False), s)"
    by (rule Get_absent[OF assms])
  then show ?thesis by (simp add: GetNetwork_def run_simps)
qed

end

subsection \<open>Calls that leave the datastore alone\<close>

text \<open>A computation that always returns, in a state related to the one it started in.\<close>

definition always :: "('s \<Rightarrow> 's \<Rightarrow> bool) \<Rightarrow> ('s, 'a) comp \<Rightarrow> bool" where
  "always Q m \<longleftrightarrow> (\<forall>s. \<exists>a s'. m s = (Ret a, s') \<and> Q s s')"

named_theorems always_intros \<open>rules for calls that always return and keep a relation\<close>

lemma always_ret [always_intros]: "reflp Q \<Longrightarrow> always Q (retM a)"
  by (simp add: always_def retM_run reflpD)

lemma always_bind [always_intros]:
  assumes "transp Q" "always Q m" "\<And>a. always Q (f a)"
  shows "always Q (bindM m f)"
  unfolding always_def
proof
  fix s
  obtain a s1 where m: "m s = (Ret a, s1)" "Q s s1" using assms(2) unfolding always_def by blast
  obtain b s2 where f: "f a s1 = (Ret b, s2)" "Q s1 s2" using assms(3)[of a] unfolding always_def by blast
  show "\<exists>b s'. bindM m f s = (Ret b, s') \<and> Q s s'"
    using m f transpD[OF assms(1) m(2) f(2)] by (simp add: bindM_run)
qed

lemma always_then [always_intros]: "transp Q \<Longrightarrow> always Q m \<Longrightarrow> always Q n \<Longrightarrow> always Q (thenM m n)"
  unfolding thenM_def by (rule always_bind)

lemma always_guard [always_intros]:
  "reflp Q \<Longrightarrow> transp Q \<Longrightarrow> always Q m \<Longrightarrow> always Q n \<Longrightarrow> always Q (guardM m n)"
  unfolding guardM_def by (intro always_bind) (auto intro: always_ret split: option.splits)

lemma always_outside [always_intros]: "(\<And>s. Q s (s\<lparr>world := snd (f (world s))\<rparr>)) \<Longrightarrow> always Q (outside f)"
  by (auto simp: always_def outside_run)

lemma setupIPTables_always:
  assumes "reflp Q" "transp Q"
    and "\<And>p s. Q s (s\<lparr>world := snd (LookPath E p (world s))\<rparr>)"
    and "\<And>p a s. Q s (s\<lparr>world := snd (CombinedOutput E p a (world s))\<rparr>)"
  shows "always Q (setupIPTables E br ip)"
proof -
  have i: "always Q (installRule E args)" for args
    unfolding installRule_def using assms
    by (intro always_bind always_outside) (auto intro!: always_bind always_ret always_outside split: sum.splits option.splits)
  have r: "always Q (ruleExists E table chain rule)" for table chain rule
    unfolding ruleExists_def Let_def using assms i
    by (intro always_bind) (auto intro!: always_bind always_ret split: sum.splits)
  have "always Q (ensure_rule E what table chain add rule)" for what table chain add rule
    unfolding ensure_rule_def using assms i r
    by (intro always_bind) (auto intro!: always_bind always_ret split: sum.splits)
  then show ?thesis unfolding setupIPTables_def using assms by (intro always_guard)
qed


text \<open>A document fits into a value of the datastore.\<close>

lemma length_itod: "n < 10 ^ Suc m \<Longrightarrow> length (itod n) \<le> Suc m"
proof (induction m arbitrary: n)
  case (Suc m)
  then have "n div 10 < 10 ^ Suc m" by (simp add: less_mult_imp_div_less mult.commute)
  from Suc.IH[OF this] show ?case by (subst itod.simps) simp
qed (simp add: itod.simps)

lemma length_escape: "ascii t \<Longrightarrow> length (escape t) \<le> 6 * length t"
proof (induction t)
  case (Cons c t)
  then have "escape (c # t) = escape_char c @ escape t" by (simp add: escape.simps[of "c # t"] ascii_def)
  moreover have "length (escape_char c) \<le> 6" by (simp add: escape_char_def)
  ultimately show ?case using Cons by (simp add: ascii_def)
qed (simp add: escape.simps)

lemma length_network_text:
  "ascii_network n \<Longrightarrow> length (network_text n) \<le> 6 * (length (nw_ID n) + length (nw_Subnet n) + length (nw_Gateway n)) + 80"
proof -
  have "length (itod (unat (nw_Vlan n))) \<le> Suc 19"
    using unsigned_less[of "nw_Vlan n", where ?'a = nat] by (intro length_itod) simp
  moreover assume "ascii_network n"
  then have "length (escape (nw_ID n)) \<le> 6 * length (nw_ID n)" "length (escape (nw_Subnet n)) \<le> 6 * length (nw_Subnet n)"
    "length (escape (nw_Gateway n)) \<le> 6 * length (nw_Gateway n)"
    by (simp_all add: ascii_network_def length_escape)
  moreover have "length (quote_string t) = length (escape t) + 2" for t by (simp add: quote_string_def)
  moreover have "escape ''id'' = ''id''" "escape ''subnet'' = ''subnet''" "escape ''gateway'' = ''gateway''" "escape ''vlan'' = ''vlan''"
    by code_simp+
  ultimately show ?thesis by (simp add: network_text_def Network_json_def)
qed

text \<open>A call that went out of the process and left the store of the agent alone.\<close>

definition same_consul :: "('x kvs_store_scheme, 'z) ecc_state_scheme \<Rightarrow> ('x kvs_store_scheme, 'z) ecc_state_scheme \<Rightarrow> bool" where
  "same_consul s s' \<longleftrightarrow> s' = s\<lparr>world := world s'\<rparr> \<and> kvs_store.truncate (world s') = kvs_store.truncate (world s)"

lemma same_consul_refl: "reflp same_consul" by (simp add: reflp_def same_consul_def)

lemma same_consul_trans: "transp same_consul"
proof (rule transpI)
  fix s t u :: "('x kvs_store_scheme, 'z) ecc_state_scheme"
  assume *: "same_consul s t" "same_consul t u"
  have "u = (s\<lparr>world := world t\<rparr>)\<lparr>world := world u\<rparr>" using * by (simp only: same_consul_def)
  then show "same_consul s u" using * by (simp add: same_consul_def)
qed

lemma same_consul_world: "kvs_store.truncate w = kvs_store.truncate (world s) \<Longrightarrow> same_consul s (s\<lparr>world := w\<rparr>)"
  by (simp add: same_consul_def)

lemma same_consul_view:
  assumes "same_consul s s'"
  shows "agent_view consul_kv s' = agent_view consul_kv s" "offline s' \<longleftrightarrow> offline s" "consul_room n (world s') \<longleftrightarrow> consul_room n (world s)"
proof -
  have "kvsTable (world s') = kvsTable (world s)" "raft_index (world s') = raft_index (world s)"
    using assms by (simp_all add: same_consul_def kvs_store.defs)
  moreover have "offline s' \<longleftrightarrow> offline (s\<lparr>world := world s'\<rparr>)" using assms by (simp add: same_consul_def)
  ultimately show "agent_view consul_kv s' = agent_view consul_kv s" "offline s' \<longleftrightarrow> offline s"
    "consul_room n (world s') \<longleftrightarrow> consul_room n (world s)"
    by (simp_all add: agent_view_def consul_kv_def KVSGet_def consul_room_def offline_def fun_eq_iff)
qed

subsection \<open>Nodes with a bridge\<close>

lemma same_but_store_ovs: "same_but_store s s' \<Longrightarrow> ovs_client s' = ovs_client s"
  unfolding same_but_store_def by (drule arg_cong[where f = ovs_client]) simp

definition agent_vlans :: "('x kvs_store_scheme, 'z) ecc_state_scheme \<Rightarrow> bytes" where
  "agent_vlans s = vlan_pool (agent_view consul_kv s vlanStore ''vlan'')"

lemma vlan_key: "agent_key (vlanStore @ ''/'' @ ''vlan'') \<and> CHR ''/'' \<notin> set vlanStore"
  by code_simp

text \<open>A node that is online with an empty datastore and is not connected to OVS.\<close>

definition bridge_node :: "kvs_store bridge_state" where
  "bridge_node = \<lparr>world = world (node []), started = True, OfflineSupport = True, ecc_cache = [], spawned = [],
     ovs_clients = [], connections = [], table_cache = [], update_chan = [], monitors = [], ovs_client = None\<rparr>"

definition quiet_consul :: "kvs_store bridge_env" where
  "quiet_consul = quiet_env\<lparr>http := consul_http (\<lambda>m url body w. (None, w))\<rparr>"

lemma quiet_consul_simps:
  "http quiet_consul = consul_http (\<lambda>m url body w. (None, w))" "LinkByName quiet_consul name w = (Inl (Err ''Link not found''), w)"
  by (simp_all add: quiet_consul_def quiet_env_def)

lemma bridge_node_simps [simp]: "\<not> offline bridge_node" "world bridge_node = world (node [])" "ovs_client bridge_node = None"
  by (simp_all add: bridge_node_def offline_def)

lemma bridge_node_view [simp]: "agent_view consul_kv bridge_node store key = None"
  by (simp add: bridge_node_def node_def agent_view_def consul_kv_def KVSGet_def get_id_def)

lemma bridge_node_vlans: "length (agent_vlans bridge_node) = 512" "\<not> {..<4095} \<subseteq> bits_of (agent_vlans bridge_node)"
proof -
  have e: "agent_vlans bridge_node = replicate 512 0" by (simp add: agent_vlans_def)
  have "0 \<in> {..<4095::nat}" by simp
  then show "length (agent_vlans bridge_node) = 512" "\<not> {..<4095} \<subseteq> bits_of (agent_vlans bridge_node)"
    by (auto simp only: e length_replicate bits_of_zero)
qed

subsection \<open>Properties\<close>

text \<open>C13. VLANs allocated one after the other on a node whose agent serves the datastore
  are pairwise different, from 1 to 4095, and none of them was in use, as long as
  there are free ones; exactly they are marked in addition.\<close>

theorem vlan_allocations_distinct:
  assumes "http E = consul_http other" "\<not> offline s" "consul_room k (world s)" "length (agent_vlans s) = 512"
    and "bits_of (agent_vlans s) \<subseteq> {..<4095}" "card (bits_of (agent_vlans s)) + k \<le> 4095"
  shows "\<exists>vs s'. repeatM k (allocateVlan (Suc f) E) s = (Ret (map (\<lambda>v. (v, None)) vs), s') \<and> length vs = k \<and> distinct vs \<and>
    (\<forall>v\<in>set vs. 1 \<le> unat v \<and> unat v \<le> 4095 \<and> unat v - 1 \<notin> bits_of (agent_vlans s)) \<and>
    bits_of (agent_vlans s') = bits_of (agent_vlans s) \<union> (\<lambda>v. unat v - 1) ` set vs"
proof -
  obtain ks s' where ks: "repeatM k (allocateVlan (Suc f) E) s = (Ret (map (\<lambda>j. (of_nat (Suc j), None)) ks), s')"
    "length ks = k" "distinct ks" "set ks \<subseteq> {..<4095} - bits_of (agent_vlans s)"
    "bits_of (agent_vlans s') = bits_of (agent_vlans s) \<union> set ks"
    using datastore.allocateVlans_distinct[OF consul_datastore[OF assms(1)] vlan_key, where k = k and m = 0 and s = s and f = f] assms(2-)
    unfolding agent_vlans_def by auto
  have u: "unat (of_nat (Suc j) :: uint) = Suc j" if "j \<in> set ks" for j
    using ks(4) that by (intro unat_of_nat_uint) auto
  let ?vs = "map (\<lambda>j. of_nat (Suc j) :: uint) ks"
  have "inj_on (\<lambda>j. of_nat (Suc j) :: uint) (set ks)" using u by (intro inj_onI) (metis nat.inject)
  then have "distinct ?vs" using ks(3) by (simp add: distinct_map)
  moreover have "\<forall>v\<in>set ?vs. 1 \<le> unat v \<and> unat v \<le> 4095 \<and> unat v - 1 \<notin> bits_of (agent_vlans s)"
    using ks(4) u by auto
  moreover have "(\<lambda>v. unat v - 1) ` set ?vs = set ks" using u by (force simp: image_image)
  moreover have "repeatM k (allocateVlan (Suc f) E) s = (Ret (map (\<lambda>v. (v, None)) ?vs), s')" using ks(1) by (simp add: comp_def)
  ultimately show ?thesis using ks(2,5) by (metis length_map)
qed

theorem vlan_allocations_distinct_witness:
  "\<exists>vs s'. repeatM 3 (allocateVlan 1 consul_env) (node []) = (Ret (map (\<lambda>v. (v, None)) vs), s') \<and> length vs = 3 \<and> distinct vs"
  using vlan_allocations_distinct[of consul_env "\<lambda>m url body w. (None, w)" "node []" 3 0]
  by (auto simp: consul_env_def node_room agent_vlans_def)

text \<open>\<open>CreateNetwork\<close> of a network that exists returns the stored network and
  changes nothing, whatever subnet it is given.\<close>

lemma create_network_existing:
  assumes "http E = consul_http other" "\<not> offline s" "consul_room m (world s)"
    and "agent_key (networkStore @ ''/'' @ id1)" "agent_view consul_kv s networkStore id1 = Some (network_text nw)" "ascii_network nw"
  shows "CreateNetwork (Suc f) E id1 subnet s = (Ret (Some nw, None), s)"
proof -
  have "CHR ''/'' \<notin> set networkStore" by (simp add: networkStore_def)
  then have "GetNetwork E id1 s = (Ret (Inr nw), s)"
    using datastore.GetNetwork_present[OF consul_datastore[OF assms(1)] _ _ assms(5,6), of m] assms(2-4) by simp
  then show ?thesis by (simp add: run_simps)
qed

definition net1 :: Network where
  "net1 = \<lparr>nw_ID = ''n1'', nw_Subnet = ''10.1.0.0/16'', nw_Gateway = ''10.1.0.1'', nw_Vlan = 1\<rparr>"

definition network_row :: "Network \<Rightarrow> DirEntry" where
  "network_row nw = \<lparr>de_CreateIndex = 1, de_ModifyIndex = 1, de_LockIndex = 0,
     de_Key = networkStore @ ''/'' @ nw_ID nw, de_Flags = 0, de_Value = network_text nw, de_Session = []\<rparr>"

lemma create_network_existing_example:
  "CreateNetwork 1 quiet_consul ''n1'' net24
     (bridge_node\<lparr>world := world (node [network_row net1])\<rparr>) =
   (Ret (Some net1, None), bridge_node\<lparr>world := world (node [network_row net1])\<rparr>)"
proof -
  let ?s = "bridge_node\<lparr>world := world (node [network_row net1])\<rparr>"
  have k: "agent_key (networkStore @ ''/'' @ ''n1'')" by code_simp
  have v: "agent_view consul_kv ?s networkStore ''n1'' = Some (network_text net1)"
    by (simp add: agent_view_def consul_kv_def KVSGet_def get_id_def node_def network_row_def net1_def networkStore_def)
  have r: "consul_room 0 (world ?s)"
    using k plain_key_chars[of "networkStore @ ''/'' @ ''n1''"]
    by (simp add: node_def consul_room_def row_ok_def network_row_def net1_def agent_key_def)
  have a: "ascii_network net1" by code_simp
  show ?thesis
    using create_network_existing[OF _ _ r k v a, of quiet_consul
        "\<lambda>m url body w. (None, w)" 0 net24] by (simp add: offline_def bridge_node_def quiet_consul_simps del: CreateNetwork.simps)
qed

text \<open>C8. A network created on a host that already has the interface, with addresses that
  the kernel reports, is recorded: \<open>CreateNetwork\<close> returns the network with a VLAN
  that was free, and \<open>GetNetwork\<close> then gives exactly this network. Installing
  the filter rules is only assumed to leave Consul alone.\<close>

theorem create_network_roundtrip:
  fixes s :: "('x kvs_store_scheme, 'z) bridge_state_scheme"
  assumes "http E = consul_http other" "\<not> offline s" "consul_room 2 (world s)"
    and "agent_key (networkStore @ ''/'' @ id1)" "agent_view consul_kv s networkStore id1 = None"
    and "length (agent_vlans s) = 512" "\<not> {..<4095} \<subseteq> bits_of (agent_vlans s)"
    and "\<And>w. LinkByName E id1 w = (Inr link, w)" "\<And>w. AddrList E link w = (Inr (addr # addrs), w)"
    and "ParseCIDR (ipnet_String (addr_IPNet addr)) = Inr (gateway, net)"
    and "ascii id1" "ascii (ipnet_String net)" "ascii (ip_String gateway)"
    and "length id1 + length (ipnet_String net) + length (ip_String gateway) \<le> 80000"
    and "\<And>p w. kvs_store.truncate (snd (LookPath E p w)) = kvs_store.truncate w"
    and "\<And>p args w. kvs_store.truncate (snd (CombinedOutput E p args w)) = kvs_store.truncate w"
  shows "\<exists>v err s'. let nw = \<lparr>nw_ID = id1, nw_Subnet = ipnet_String net, nw_Gateway = ip_String gateway, nw_Vlan = v\<rparr> in
    CreateNetwork (Suc f) E id1 subnet s = (Ret (Some nw, err), s') \<and> GetNetwork E id1 s' = (Ret (Inr nw), s') \<and>
    1 \<le> unat v \<and> unat v \<le> 4095 \<and> unat v - 1 \<notin> bits_of (agent_vlans s)"
proof -
  note ds = consul_datastore[OF assms(1)]
  have k: "agent_key (networkStore @ ''/'' @ id1) \<and> CHR ''/'' \<notin> set networkStore" using assms(4) by (simp add: networkStore_def)
  have room: "\<not> offline s \<and> consul_room (Suc 1) (world s)" using assms(2,3) by (simp add: numeral_2_eq_2)
  have g: "GetNetwork E id1 s = (Ret (Inl network_unavailable), s)"
    by (rule datastore.GetNetwork_absent[OF ds room k assms(5)])
  obtain j a' s1 where v: "\<And>f. allocateVlan (Suc f) E s = (Ret (of_nat (Suc j), None), s1)" "j < 4095"
    "unat (of_nat (Suc j) :: uint) = Suc j" "j \<notin> bits_of (agent_vlans s)"
    "agent_view consul_kv s1 = (agent_view consul_kv s)(vlanStore := (agent_view consul_kv s vlanStore)(''vlan'' \<mapsto> a'))"
    "\<not> offline s1 \<and> consul_room 1 (world s1)"
    by (rule datastore.allocateVlan_run[OF ds room vlan_key assms(6,7)[unfolded agent_vlans_def], folded agent_vlans_def])
       (rule that)
  define nw where "nw = \<lparr>nw_ID = id1, nw_Subnet = ipnet_String net, nw_Gateway = ip_String gateway, nw_Vlan = of_nat (Suc j)\<rparr>"
  have nw: "ascii_network nw" "length (network_text nw) \<le> maxKVSize"
    using assms(11-14) length_network_text[of nw] by (auto simp: nw_def ascii_network_def maxKVSize_def)
  have n1: "agent_view consul_kv s1 networkStore id1 = None" using v(5) assms(5) by (simp add: networkStore_def vlanStore_def)
  obtain s2 where p: "Put E networkStore id1 (network_text nw) [] s1 = (Ret OK, s2)"
    "agent_view consul_kv s2 = (agent_view consul_kv s1)(networkStore := (agent_view consul_kv s1 networkStore)(id1 \<mapsto> network_text nw))"
    "\<not> offline s2 \<and> consul_room 0 (world s2)"
    by (rule datastore.Put_new[OF ds v(6)[unfolded One_nat_def] k nw(2) n1]) (rule that)
  have "always same_consul (setupIPTables E id1 (ipnet_String net))"
    by (intro setupIPTables_always same_consul_refl same_consul_trans same_consul_world assms(15,16))
  then obtain err s' where t: "setupIPTables E id1 (ipnet_String net) s2 = (Ret err, s')" "same_consul s2 s'"
    unfolding always_def by blast
  have "CreateNetwork (Suc f) E id1 subnet s = (Ret (Some nw, err), s')"
    using g v(1)[of f] p(1) t(1) assms(8-10) by (simp add: run_simps GetIfaceAddr_def store_network_def nw_def network_text_def Let_def del: allocateVlan.simps)
  moreover have "GetNetwork E id1 s' = (Ret (Inr nw), s')"
    using same_consul_view[OF t(2)] p(2,3) nw(1) k by (intro datastore.GetNetwork_present[OF ds _ k, where m = 0]) simp_all
  ultimately show ?thesis using v(2-4) unfolding Let_def nw_def by (intro exI conjI) (assumption | simp)+
qed

text \<open>The same host with an interface of every name that has the address 10.1.2.7/24.\<close>

definition link_named :: "string \<Rightarrow> LinkAttrs" where
  "link_named n = \<lparr>la_Index = 7, la_MTU = 1440, la_TxQLen = 0, la_Name = n, la_HardwareAddr = [], la_Flags = 1,
     la_ParentIndex = 0, la_MasterIndex = 0\<rparr>"

definition iface_consul :: "kvs_store bridge_env" where
  "iface_consul = quiet_consul\<lparr>LinkByName := \<lambda>n w. (Inr (link_named n), w),
     AddrList := \<lambda>l w. (Inr [\<lparr>addr_IPNet = \<lparr>IP = [10, 1, 2, 7], Mask = CIDRMask 24 32\<rparr>, addr_Label = []\<rparr>], w)\<rparr>"

lemma iface_consul_simps:
  "http iface_consul = consul_http (\<lambda>m url body w. (None, w))" "LinkByName iface_consul n w = (Inr (link_named n), w)"
  "AddrList iface_consul l w = (Inr [\<lparr>addr_IPNet = \<lparr>IP = [10, 1, 2, 7], Mask = CIDRMask 24 32\<rparr>, addr_Label = []\<rparr>], w)"
  "kvs_store.truncate (snd (LookPath iface_consul p w)) = kvs_store.truncate w"
  "kvs_store.truncate (snd (CombinedOutput iface_consul p args w)) = kvs_store.truncate w"
  by (simp_all add: iface_consul_def quiet_consul_def quiet_env_def)

theorem create_network_roundtrip_witness:
  "\<exists>v err s'. let nw = \<lparr>nw_ID = ''n1'', nw_Subnet = ''10.1.2.0/24'', nw_Gateway = ''10.1.2.7'', nw_Vlan = v\<rparr> in
    CreateNetwork 1 iface_consul ''n1'' net24 bridge_node = (Ret (Some nw, err), s') \<and> GetNetwork iface_consul ''n1'' s' = (Ret (Inr nw), s') \<and>
    1 \<le> unat v \<and> unat v \<le> 4095"
proof -
  have k: "agent_key (networkStore @ ''/'' @ ''n1'')" by code_simp
  have r: "consul_room 2 (world bridge_node)" by (simp add: node_room)
  have c: "ParseCIDR (ipnet_String (addr_IPNet \<lparr>addr_IPNet = \<lparr>IP = [10, 1, 2, 7], Mask = CIDRMask 24 32\<rparr>, addr_Label = []\<rparr>)) =
      Inr (IPv4 10 1 2 7, \<lparr>IP = [10, 1, 2, 0], Mask = CIDRMask 24 32\<rparr>)"
    and n: "ipnet_String \<lparr>IP = [10, 1, 2, 0], Mask = CIDRMask 24 32\<rparr> = ''10.1.2.0/24''" "ip_String (IPv4 10 1 2 7) = ''10.1.2.7''"
    and a: "ascii ''n1''" "ascii ''10.1.2.0/24''" "ascii ''10.1.2.7''"
    by code_simp+
  show ?thesis
    using create_network_roundtrip[OF iface_consul_simps(1) bridge_node_simps(1) r k bridge_node_view bridge_node_vlans
        iface_consul_simps(2,3) c a(1) a(2,3)[folded n] _ iface_consul_simps(4,5), of 0 net24]
    unfolding n Let_def One_nat_def by (elim meta_impE) (simp, blast)
qed

text \<open>C35. A \<open>CreateNetwork\<close> that fails because the daemon is not connected to OVS keeps
  the VLAN it took: the pool has one position more in use, and no network uses it.\<close>

theorem create_network_leaks_vlan:
  assumes "http E = consul_http other" "\<not> offline s" "consul_room 1 (world s)"
    and "agent_key (networkStore @ ''/'' @ id1)" "agent_view consul_kv s networkStore id1 = None"
    and "length (agent_vlans s) = 512" "\<not> {..<4095} \<subseteq> bits_of (agent_vlans s)"
    and "\<And>w. LinkByName E id1 w = (Inl err, w)" "ovs_client s = None"
  shows "\<exists>v s'. CreateNetwork (Suc f) E id1 subnet s = (Ret (None, Some not_connected), s') \<and>
    v \<notin> bits_of (agent_vlans s) \<and> bits_of (agent_vlans s') = insert v (bits_of (agent_vlans s)) \<and>
    agent_view consul_kv s' networkStore id1 = None"
proof -
  note ds = consul_datastore[OF assms(1)]
  have k: "agent_key (networkStore @ ''/'' @ id1) \<and> CHR ''/'' \<notin> set networkStore" using assms(4) by (simp add: networkStore_def)
  have room: "\<not> offline s \<and> consul_room (Suc 0) (world s)" using assms(2,3) by simp
  have g: "GetNetwork E id1 s = (Ret (Inl network_unavailable), s)"
    by (rule datastore.GetNetwork_absent[OF ds room k assms(5)])
  obtain v a' s' where v: "\<And>f. allocateVlan (Suc f) E s = (Ret (of_nat (Suc v), None), s')" "v \<notin> bits_of (agent_vlans s)"
    "bits_of a' = insert v (bits_of (agent_vlans s))"
    "agent_view consul_kv s' = (agent_view consul_kv s)(vlanStore := (agent_view consul_kv s vlanStore)(''vlan'' \<mapsto> a'))"
    "same_but_store s s'"
    by (rule datastore.allocateVlan_run[OF ds room vlan_key assms(6,7)[unfolded agent_vlans_def], folded agent_vlans_def])
       (rule that)
  have "ovs_client s' = None" using same_but_store_ovs[OF v(5)] assms(9) by simp
  then have "CreateNetwork (Suc f) E id1 subnet s = (Ret (None, Some not_connected), s')"
    using g v(1)[of f] assms(8) by (simp add: run_simps GetIfaceAddr_def del: allocateVlan.simps)
  moreover have "bits_of (agent_vlans s') = insert v (bits_of (agent_vlans s))" using v(3,4) by (simp add: agent_vlans_def)
  moreover have "agent_view consul_kv s' networkStore id1 = None" using v(4) assms(5) by (simp add: networkStore_def vlanStore_def)
  ultimately show ?thesis using v(2) by blast
qed

theorem create_network_leaks_vlan_witness:
  "\<exists>v s'. CreateNetwork 1 quiet_consul ''n1'' net24 bridge_node =
      (Ret (None, Some not_connected), s') \<and> bits_of (agent_vlans s') = {v}"
proof -
  have k: "agent_key (networkStore @ ''/'' @ ''n1'')" by code_simp
  have e: "agent_vlans bridge_node = replicate 512 0" by (simp add: agent_vlans_def)
  have r: "consul_room 1 (world bridge_node)" by (simp add: node_room)
  obtain v s' where "CreateNetwork (Suc 0) quiet_consul ''n1'' net24 bridge_node = (Ret (None, Some not_connected), s')"
    "bits_of (agent_vlans s') = insert v (bits_of (agent_vlans bridge_node))"
    using create_network_leaks_vlan[OF quiet_consul_simps(1) bridge_node_simps(1) r k bridge_node_view bridge_node_vlans quiet_consul_simps(2)
        bridge_node_simps(3), of 0 net24] by blast
  then show ?thesis by (intro exI[of _ v] exI[of _ s']) (simp add: e del: CreateNetwork.simps)
qed

end
