(* ===== verification/Connections.thy ===== *)
theory Connections
  imports Network
begin

section \<open>Connections of containers (daemon/bridge.go)\<close>

text \<open>
  Attaching a container to a network and detaching it: the port, the address and
  the namespace of a connection, the goroutine that serves the requests for
  connections, the connection to OVS with the contexts kept there.

  Namespaces, symbolic links and the process environment are functions of the
  environment.  \<open>Connections\<close> of the daemon and \<open>ContextCache\<close> are the two
  maps of the state; \<open>ovs_inits\<close> counts the goroutines \<open>OvsInit\<close> that
  \<open>Disconnected\<close> has started and that have not run.  The requests are served
  one after the other by one goroutine, so a request is one call of
  \<open>ConnectionRPCHandler\<close>, which gives the connection it sends back, or nothing.
\<close>

subsection \<open>Deferred calls\<close>

text \<open>\<open>defer d\<close> before the rest \<open>m\<close> of a function: \<open>d\<close> runs when \<open>m\<close> returns or panics.\<close>

definition deferM :: "('s, 'b) comp \<Rightarrow> ('s, 'a) comp \<Rightarrow> ('s, 'a) comp" where
  "deferM d m = (\<lambda>s. case m s of
       (NoReturn, s') \<Rightarrow> (NoReturn, s')
     | (r, s') \<Rightarrow> (case d s' of (Ret _, s'') \<Rightarrow> (r, s'') | (Panic p, s'') \<Rightarrow> (Panic p, s'') | (NoReturn, s'') \<Rightarrow> (NoReturn, s'')))"

lemma always_defer [always_intros]:
  assumes "transp Q" "always Q d" "always Q m"
  shows "always Q (deferM d m)"
  unfolding always_def
proof
  fix s
  obtain a s1 where m: "m s = (Ret a, s1)" "Q s s1" using assms(3) unfolding always_def by blast
  obtain b s2 where d: "d s1 = (Ret b, s2)" "Q s1 s2" using assms(2) unfolding always_def by blast
  show "\<exists>a s'. deferM d m s = (Ret a, s') \<and> Q s s'"
    using m d transpD[OF assms(1) m(2) d(2)] by (simp add: deferM_def)
qed

subsection \<open>Paths and numbers\<close>

definition clean_step :: "bool \<Rightarrow> string list \<Rightarrow> string \<Rightarrow> string list" where
  "clean_step rooted out c =
     (if c = [] \<or> c = ''.'' then out
      else if c = ''..'' then
        (if out \<noteq> [] \<and> last out \<noteq> ''..'' then butlast out else if rooted then out else out @ [''..''])
      else out @ [c])"

definition path_Clean :: "string \<Rightarrow> string" where
  "path_Clean p =
     (if p = [] then ''.''
      else let rooted = (hd p = CHR ''/'');
               body = join_with ''/'' (foldl (clean_step rooted) [] (split_on (CHR ''/'') p))
           in if rooted then CHR ''/'' # body else if body = [] then ''.'' else body)"

definition path_Join :: "string list \<Rightarrow> string" where
  "path_Join elem = (case dropWhile (\<lambda>e. e = []) elem of [] \<Rightarrow> [] | es \<Rightarrow> path_Clean (join_with ''/'' es))"

text \<open>
  \<open>strconv.Atoi\<close> with its error dropped: 0 for what is not a number, the nearest
  number for one out of range.
\<close>

definition Atoi :: "string \<Rightarrow> int" where
  "Atoi s =
     (let neg = (s \<noteq> [] \<and> hd s = CHR ''-'');
          ds = (if s \<noteq> [] \<and> (hd s = CHR ''-'' \<or> hd s = CHR ''+'') then tl s else s)
      in if ds = [] \<or> \<not> list_all is_digit ds then 0
         else if neg then max (- (2 ^ 63)) (- int (decimal ds)) else min (2 ^ 63 - 1) (int (decimal ds)))"

subsection \<open>State\<close>

record OvsConnection =
  ovc_Name :: string
  ovc_Ip :: string
  ovc_Subnet :: string
  ovc_Mac :: string
  ovc_Gateway :: string

definition OvsConnection_zero :: OvsConnection where
  "OvsConnection_zero = \<lparr>ovc_Name = [], ovc_Ip = [], ovc_Subnet = [], ovc_Mac = [], ovc_Gateway = []\<rparr>"

record Connection =
  con_ContainerID :: string
  con_ContainerName :: string
  con_ContainerPID :: string
  con_Network :: string
  con_OvsPortID :: string
  con_ConnectionDetails :: OvsConnection

definition Connection_zero :: Connection where
  "Connection_zero = \<lparr>con_ContainerID = [], con_ContainerName = [], con_ContainerPID = [], con_Network = [],
     con_OvsPortID = [], con_ConnectionDetails = OvsConnection_zero\<rparr>"

datatype connection_action = ConnectionAdd | ConnectionUpdate | ConnectionDelete

text \<open>A \<open>ConnectionContext\<close> without its result channel.\<close>

record ConnectionContext =
  cc_Action :: connection_action
  cc_Connection :: Connection

record 'w conn_env = "'w bridge_env" +
  Symlink :: "string \<Rightarrow> string \<Rightarrow> 'w \<Rightarrow> gerror option \<times> 'w"
  Getenv :: "string \<Rightarrow> 'w \<Rightarrow> string \<times> 'w"
  netns_Get :: "'w \<Rightarrow> (gerror + int) \<times> 'w"
  netns_GetFromName :: "string \<Rightarrow> 'w \<Rightarrow> (gerror + int) \<times> 'w"
  netns_Set :: "int \<Rightarrow> 'w \<Rightarrow> gerror option \<times> 'w"
  netns_Close :: "int \<Rightarrow> 'w \<Rightarrow> gerror option \<times> 'w"

record 'w conn_state = "'w bridge_state" +
  ContextCache :: "(string \<times> string) list"
  Connections :: "(string \<times> Connection) list"
  ovs_inits :: nat

subsection \<open>Connecting to OVS\<close>

text \<open>What one row of the table adds to the cache of contexts.\<close>

definition row_context :: "Row \<Rightarrow> (string \<times> string) option outcome" where
  "row_context row = (case row_field row ''other_config'' of
       Some (GMap other_config) \<Rightarrow> (case map_of other_config (GStr CONTEXT_KEY) of
           None \<Rightarrow> Ret None
         | Some (GStr container_id) \<Rightarrow> (case map_of other_config (GStr CONTEXT_VALUE) of
               Some (GStr v) \<Rightarrow> Ret (Some (container_id, v))
             | _ \<Rightarrow> assert_panic)
         | Some _ \<Rightarrow> assert_panic)
     | _ \<Rightarrow> assert_panic)"

fun populate_contexts :: "Row list \<Rightarrow> (('w, 'z) conn_state_scheme, unit) comp" where
  "populate_contexts [] = retM ()"
| "populate_contexts (row # rows) = bindM (liftO (row_context row)) (\<lambda>r.
     thenM (case r of None \<Rightarrow> retM () | Some (k, v) \<Rightarrow> modifyM (\<lambda>s. s\<lparr>ContextCache := AList.update k v (ContextCache s)\<rparr>))
       (populate_contexts rows))"

definition populateContextCache :: "('w, 'x) http_env_scheme \<Rightarrow> (('w, 'z) conn_state_scheme, unit) comp" where
  "populateContextCache E = bindM (getM ovs_client) (\<lambda>ovs.
     if ovs = None then retM ()
     else bindM (getM (GetTableCache ''Interface'')) (\<lambda>tableCache.
       populate_contexts (List.map_filter (map_of tableCache) (range_order E (map fst tableCache)))))"

definition OvsInit :: "nat \<Rightarrow> ('w, 'x) driver_env_scheme \<Rightarrow> (('w, 'z) conn_state_scheme, unit) comp" where
  "OvsInit n E = bindM (ovs_connect n E) (\<lambda>c.
     thenM (modifyM (\<lambda>s. s\<lparr>ovs_client := Some c\<rparr>))
    (thenM (Register c Bridge_notifier)
    (thenM (modifyM (\<lambda>s. s\<lparr>ContextCache := []\<rparr>))
           (populateContextCache E))))"

definition notifier_Disconnected :: "(('w, 'z) conn_state_scheme, unit) comp" where
  "notifier_Disconnected = modifyM (\<lambda>s. s\<lparr>ovs_client := None, ovs_inits := Suc (ovs_inits s)\<rparr>)"

definition on_disconnected :: "NotificationHandler \<Rightarrow> (('w, 'z) conn_state_scheme, unit) comp" where
  "on_disconnected h = (case h of Driver_Notifier \<Rightarrow> retM () | Bridge_notifier \<Rightarrow> notifier_Disconnected)"

subsection \<open>Adding and deleting\<close>

text \<open>Everything that happens in the namespace of the container.\<close>

definition configure_port :: "('w, 'x) conn_env_scheme \<Rightarrow> string \<Rightarrow> bytes \<Rightarrow> string \<Rightarrow> string \<Rightarrow>
    (('w, 'z) conn_state_scheme, gerror option) comp" where
  "configure_port E portName ip subnetPrefix gateway =
     guardM (InterfaceDown E portName)
    (guardM (ChangeInterfaceName E portName portName)
    (guardM (SetInterfaceIp E portName (ip_String ip @ subnetPrefix))
    (guardM (SetInterfaceMac E portName (hw_String (generateMacAddr ip)))
    (guardM (InterfaceUp E portName)
            (SetDefaultGateway E gateway portName)))))"

definition attach_port :: "('w, 'x) conn_env_scheme \<Rightarrow> int \<Rightarrow> string \<Rightarrow> bytes \<Rightarrow> string \<Rightarrow> string \<Rightarrow>
    (('w, 'z) conn_state_scheme, gerror option) comp" where
  "attach_port E nspid portName ip subnetPrefix gateway =
     guardM (SetMtu E portName mtu)
    (guardM (InterfaceUp E portName)
    (bindM (outside (Getenv E ''PROCFS'')) (\<lambda>procfs.
     guardM (outside (Symlink E (path_Join [procfs, fmt_d nspid, ''ns/net'']) (path_Join [''/var/run/netns'', fmt_d nspid])))
    (tryM (outside (netns_Get E)) (\<lambda>origns.
     deferM (outside (netns_Close E origns))
    (tryM (outside (netns_GetFromName E (fmt_d nspid))) (\<lambda>targetns.
     deferM (outside (netns_Close E targetns))
    (guardM (SetInterfaceInNamespaceFd E portName targetns)
    (guardM (outside (netns_Set E targetns))
    (deferM (outside (netns_Set E origns))
       (configure_port E portName ip subnetPrefix gateway)))))))))))"

definition last3 :: "string \<Rightarrow> string outcome" where
  "last3 s = (if length s < 3 then Panic ''runtime error: slice bounds out of range'' else Ret (drop (length s - 3) s))"

definition AddConnection :: "nat \<Rightarrow> ('w, 'x) conn_env_scheme \<Rightarrow> int \<Rightarrow> string \<Rightarrow>
    (('w, 'z) conn_state_scheme, OvsConnection \<times> gerror option) comp" where
  "AddConnection f E nspid networkName =
     (let bridge = br_Name OvsBridge; prefix1 = ''ovs'' in
      if bridge = [] then retM (OvsConnection_zero, Some (Err ''bridge is not available''))
      else let networkName = (if networkName = [] then DefaultNetworkName else networkName) in
      bindM (GetNetwork E networkName) (\<lambda>r. case r of
        Inl err \<Rightarrow> retM (OvsConnection_zero, Some err)
      | Inr bridgeNetwork \<Rightarrow>
          bindM (createOvsInternalPort E prefix1 bridge (nw_Vlan bridgeNetwork)) (\<lambda>(portName, err).
          if err \<noteq> None then retM (OvsConnection_zero, err)
          else (case ParseCIDR (nw_Subnet bridgeNetwork) of
            Inl _ \<Rightarrow> liftO nil_panic
          | Inr (_, subnet) \<Rightarrow>
              bindM (IPAMRequest f E subnet) (\<lambda>ip.
              bindM (liftO (last3 (ipnet_String subnet))) (\<lambda>subnetPrefix.
              let ovsConnection = \<lparr>ovc_Name = portName, ovc_Ip = ip_String ip, ovc_Subnet = subnetPrefix,
                    ovc_Mac = hw_String (generateMacAddr ip), ovc_Gateway = nw_Gateway bridgeNetwork\<rparr> in
              bindM (attach_port E nspid portName ip subnetPrefix (nw_Gateway bridgeNetwork)) (\<lambda>err.
                retM (ovsConnection, err))))))))"

definition UpdateConnectionContext :: "('w, 'x) ovs_env_scheme \<Rightarrow> string \<Rightarrow> string \<Rightarrow> string \<Rightarrow>
    (('w, 'z) bridge_state_scheme, gerror option) comp" where
  "UpdateConnectionContext E ovsPort key context1 =
     bindM (getM ovs_client) (\<lambda>ovs. UpdatePortContext E ovs ovsPort key context1)"

definition DeleteConnection :: "nat \<Rightarrow> ('w, 'x) bridge_env_scheme \<Rightarrow> OvsConnection \<Rightarrow>
    (('w, 'z) bridge_state_scheme, gerror option) comp" where
  "DeleteConnection f E connection = bindM (getM ovs_client) (\<lambda>ovs.
     if ovs = None then retM (Some not_connected)
     else thenM (deletePort E ovs (br_Name OvsBridge) (ovc_Name connection))
       (let ip = ParseIP (ovc_Ip connection) in
        case ParseCIDR (ovc_Ip connection @ ovc_Subnet connection) of
          Inl _ \<Rightarrow> liftO nil_panic
        | Inr (_, subnet) \<Rightarrow> thenM (IPAMRelease f E ip subnet) (retM None)))"

text \<open>One request.\<close>

definition ConnectionRPCHandler :: "nat \<Rightarrow> ('w, 'x) conn_env_scheme \<Rightarrow> ConnectionContext \<Rightarrow>
    (('w, 'z) conn_state_scheme, Connection option) comp" where
  "ConnectionRPCHandler f E c = (let connection = cc_Connection c in case cc_Action c of
       ConnectionAdd \<Rightarrow>
         (let pid = Atoi (con_ContainerPID connection) in
          bindM (AddConnection f E pid (con_Network connection)) (\<lambda>(connDetails, _).
          let connection = connection\<lparr>con_OvsPortID := ovc_Name connDetails, con_ConnectionDetails := connDetails\<rparr> in
          thenM (modifyM (\<lambda>s. s\<lparr>Connections := AList.update (con_ContainerID connection) connection (Connections s)\<rparr>))
            (retM (Some connection))))
     | ConnectionUpdate \<Rightarrow> retM None
     | ConnectionDelete \<Rightarrow>
         thenM (DeleteConnection f E (con_ConnectionDetails connection))
        (thenM (modifyM (\<lambda>s. s\<lparr>Connections := AList.delete (con_ContainerID connection) (Connections s)\<rparr>))
           (retM (Some connection))))"


subsection \<open>Hosts that leave Consul alone\<close>

text \<open>
  What the kernel, the OVS server and the rest of the host do for a connection does
  not touch the store of the Consul agent, random bytes can be read, and the answers
  of the OVS server can be decoded.
\<close>

definition spares_consul :: "('x kvs_store_scheme \<Rightarrow> 'a \<times> 'x kvs_store_scheme) \<Rightarrow> bool" where
  "spares_consul f \<longleftrightarrow> (\<forall>w. kvs_store.truncate (snd (f w)) = kvs_store.truncate w)"

definition quiet_host :: "('x kvs_store_scheme, 'y) conn_env_scheme \<Rightarrow> nat \<Rightarrow> bool" where
  "quiet_host E c \<longleftrightarrow>
     (\<forall>n. spares_consul (LinkByName E n)) \<and> (\<forall>l m. spares_consul (LinkSetMTU E l m)) \<and> (\<forall>l. spares_consul (LinkSetUp E l)) \<and>
     (\<forall>l. spares_consul (LinkSetDown E l)) \<and> (\<forall>l n. spares_consul (LinkSetName E l n)) \<and> (\<forall>l i. spares_consul (LinkSetNsFd E l i)) \<and>
     (\<forall>l a. spares_consul (AddrAdd E l a)) \<and> (\<forall>l a. spares_consul (LinkSetHardwareAddr E l a)) \<and> (\<forall>r. spares_consul (RouteAdd E r)) \<and>
     (\<forall>v. spares_consul (Getenv E v)) \<and> (\<forall>a b. spares_consul (Symlink E a b)) \<and> spares_consul (netns_Get E) \<and>
     (\<forall>n. spares_consul (netns_GetFromName E n)) \<and> (\<forall>i. spares_consul (netns_Set E i)) \<and> (\<forall>i. spares_consul (netns_Close E i)) \<and>
     spares_consul (rand_Read E) \<and> (\<forall>w. \<exists>id1. fst (rand_Read E w) = Inr id1 \<and> length id1 = 32) \<and>
     (\<forall>m args. spares_consul (rpc_Call E c m args)) \<and>
     (\<forall>m args w j. fst (rpc_Call E c m args w) = Inr j \<longrightarrow>
        returns (store_sliceO ''[]libovsdb.OperationResult'' OperationResult_zero OperationResult_store j))"

lemma always_same_consul [always_intros]: "spares_consul f \<Longrightarrow> always same_consul (outside f)"
  by (intro always_outside same_consul_world) (simp add: spares_consul_def)

lemma always_tryM [always_intros]:
  "reflp Q \<Longrightarrow> transp Q \<Longrightarrow> always Q m \<Longrightarrow> (\<And>a. always Q (f a)) \<Longrightarrow> always Q (tryM m f)"
  unfolding tryM_def by (intro always_bind) (auto intro: always_ret split: sum.splits)

lemmas always_consul = same_consul_refl same_consul_trans always_ret always_bind always_then always_guard always_tryM
  always_defer always_same_consul

lemma configure_port_always: "quiet_host E c \<Longrightarrow> always same_consul (configure_port E port ip prefix1 gw)"
  unfolding configure_port_def InterfaceDown_def ChangeInterfaceName_def SetInterfaceIp_def SetInterfaceMac_def InterfaceUp_def
    SetDefaultGateway_def Let_def
  by (intro always_consul) (auto simp: quiet_host_def intro!: always_consul split: sum.splits)

lemma attach_port_always: "quiet_host E c \<Longrightarrow> always same_consul (attach_port E nspid port ip prefix1 gw)"
  unfolding attach_port_def SetMtu_def InterfaceUp_def SetInterfaceInNamespaceFd_def
  by (intro always_consul configure_port_always) (auto simp: quiet_host_def intro!: always_consul)

lemma always_get [always_intros]: "reflp Q \<Longrightarrow> always Q (getM f)"
  by (simp add: always_def getM_run reflpD)

lemma Call_always:
  assumes "quiet_host E c"
  shows "always same_consul (Call E c m args [] (\<lambda>j _. store_sliceO ''[]libovsdb.OperationResult'' OperationResult_zero OperationResult_store j))"
    (is "always same_consul (Call E c m args [] (\<lambda>j _. ?S j))")
  unfolding always_def
proof
  fix s :: "('a kvs_store_scheme, 'z) ecc_state_scheme"
  have q: "\<And>j. fst (rpc_Call E c m args (world s)) = Inr j \<Longrightarrow> returns (?S j)" "spares_consul (rpc_Call E c m args)"
    using assms by (simp_all add: quiet_host_def)
  show "\<exists>a s'. Call E c m args [] (\<lambda>j _. ?S j) s = (Ret a, s') \<and> same_consul s s'"
  proof (cases "rpc_Call E c m args (world s)")
    case (Pair r w)
    then have w: "same_consul s (s\<lparr>world := w\<rparr>)" using q(2) by (intro same_consul_world) (auto simp: spares_consul_def dest: spec[of _ "world s"])
    have "\<exists>v. ?S j = Ret v" if "r = Inr j" for j using q(1)[of j] Pair that by (simp add: returns_iff)
    then show ?thesis using w Pair by (cases r) (force simp: Call_def run_simps split: prod.splits)+
  qed
qed

lemma transact_always: "quiet_host E c \<Longrightarrow> always same_consul (transact E (Some c) ops)"
  unfolding transact_def Transact_def option.case
  by (auto intro!: always_consul always_get Call_always split: option.splits prod.splits)

lemma AddInternalPort_always: "quiet_host E c \<Longrightarrow> always same_consul (AddInternalPort E (Some c) br port tag)"
  unfolding AddInternalPort_def Let_def by (auto intro!: always_consul transact_always)

lemma deletePort_always: "quiet_host E c \<Longrightarrow> always same_consul (deletePort E (Some c) br port)"
  unfolding deletePort_def Let_def by (auto intro!: always_consul always_get transact_always)

lemma length_hexString: "length (hexString b) = 2 * length b"
  by (simp add: hexString_def length_concat comp_def sum_list_triv)

lemma createOvsInternalPort_run:
  assumes "quiet_host E c" "ovs_client s = Some c"
  obtains port s' where "createOvsInternalPort E p br tag s = (Ret (port, None), s')" "same_consul s s'"
proof -
  obtain id1 w where r: "rand_Read E (world s) = (Inr id1, w)" "length id1 = 32"
    using assms(1) unfolding quiet_host_def by (metis prod.collapse)
  define s1 where "s1 = s\<lparr>world := w\<rparr>"
  have s1: "same_consul s s1" "ovs_client s1 = Some c"
    using assms r unfolding s1_def by (auto intro!: same_consul_world simp: quiet_host_def spares_consul_def dest!: spec[of _ "world s"])
  let ?port = "p @ take 7 (hexString id1)"
  obtain e s' where a: "AddInternalPort E (Some c) br ?port tag s1 = (Ret e, s')" "same_consul s1 s'"
    using AddInternalPort_always[OF assms(1)] unfolding always_def by blast
  have "createOvsInternalPort E p br tag s = (Ret (?port, None), s')"
    using r s1(2) a(1) by (simp add: createOvsInternalPort_def GenerateRandomName_def run_simps length_hexString flip: s1_def)
  with that transpD[OF same_consul_trans s1(1) a(2)] show ?thesis by blast
qed

lemma same_consul_fields:
  "same_consul s s' \<Longrightarrow> ovs_client s' = ovs_client s" "same_consul t t' \<Longrightarrow> Connections t' = Connections t"
  unfolding same_consul_def by (drule conjunct1, drule arg_cong[where f = ovs_client], simp)
    (drule conjunct1, drule arg_cong[where f = Connections], simp)

lemma set_Connections [simp]:
  "agent_view kv (s\<lparr>Connections := x\<rparr>) = agent_view kv s" "offline (s\<lparr>Connections := x\<rparr>) \<longleftrightarrow> offline s"
  "agent_pool (t\<lparr>Connections := x\<rparr>) n = agent_pool t n"
  by (simp_all add: agent_view_def offline_def agent_pool_def fun_eq_iff)

lemma same_but_store_connections: "same_but_store s s' \<Longrightarrow> Connections s' = Connections s"
  unfolding same_but_store_def by (drule arg_cong[where f = Connections]) simp

subsection \<open>Addresses in the details of a connection\<close>

lemma length_itod2: "10 \<le> p \<Longrightarrow> p < 100 \<Longrightarrow> length (itod p) = 2"
  by (subst itod.simps, subst itod.simps) simp

lemma v4_net_prefix: "v4_net p n \<Longrightarrow> p \<le> 32"
  by (simp add: v4_net_def)

lemma last3_ipnet: "v4_net p n \<Longrightarrow> 10 \<le> p \<Longrightarrow> last3 (ipnet_String n) = Ret (''/'' @ itod p)"
  using length_itod2[of p] by (auto simp: ipnet_String_v4 last3_def dest: v4_net_prefix)

lemma ParseCIDR_address:
  assumes "v4_net p n" "length a = 4" "Contains n a"
  shows "ParseCIDR (ip_String a @ ''/'' @ itod p) = Inr (v4InV6Prefix @ a, n)"
proof -
  have l: "length (IP n) = 4" and p: "p \<le> 32" and m: "Mask n = CIDRMask p 32" and net: "map2 (AND) (IP n) (CIDRMask p 32) = IP n"
    using assms(1) by (auto simp: v4_net_def ip_Mask_def)
  have "map2 (AND) a (CIDRMask p 32) = IP n"
    using assms l net by (auto simp: Contains_def networkNumberAndMask_v4[OF assms(1)] split: if_splits)
  then have mk: "ip_Mask (v4InV6Prefix @ a) (CIDRMask p 32) = IP n"
    using p assms(2) by (simp add: ip_Mask_def v4InV6Prefix_def)
  have pi: "parseIPv4 (dotted a) = v4InV6Prefix @ a" "ip_String a = dotted a"
    using parseIPv4_ip_String[OF assms(2)] by (simp_all add: ip_String_v4 assms(2))
  have dt: "dtoi (itod p) = Some (int p, [])" using dtoi_itod[of p "[]"] p by (simp add: big_def)
  have "\<lparr>IP = IP n, Mask = CIDRMask p 32\<rparr> = n" using m by simp
  moreover have "v4InV6Prefix @ a \<noteq> []" by (simp add: v4InV6Prefix_def)
  ultimately show ?thesis
    using pi dt mk p by (simp add: ParseCIDR_def Let_def takeWhile_slash dropWhile_slash dotted_no_slash ParseIP_def)
qed

subsection \<open>Adding and deleting on a quiet host\<close>

lemma AddConnection_run:
  fixes s :: "('x kvs_store_scheme, 'z) conn_state_scheme"
  assumes E: "http E = consul_http other" "quiet_host E c" and s: "\<not> offline s" "consul_room (Suc m) (world s)" "ovs_client s = Some c"
    and nw: "nm \<noteq> []" "agent_key (networkStore @ ''/'' @ nm)" "agent_view consul_kv s networkStore nm = Some (network_text nw)" "ascii_network nw"
    and net: "nw_Subnet nw = ipnet_String n" "v4_net p n" "10 \<le> p" "p \<le> 29"
    and P: "8 * length (agent_pool s n) = 2 ^ (32 - p)" "card (bits_of (agent_pool s n)) + 1 < 2 ^ (32 - p)"
  obtains port err a k a' s' where
    "AddConnection (Suc f) E nspid nm s = (Ret (\<lparr>ovc_Name = port, ovc_Ip = ip_String a, ovc_Subnet = ''/'' @ itod p,
       ovc_Mac = hw_String (generateMacAddr a), ovc_Gateway = nw_Gateway nw\<rparr>, err), s')"
    "Suc k < 2 ^ (32 - p)" "k \<notin> bits_of (agent_pool s n)" "bits_of a' = insert k (bits_of (agent_pool s n))"
    "length a' = length (agent_pool s n)" "length a = 4" "Contains n a" "ip_nat a = ip_nat (IP n) + Suc k"
    "agent_view consul_kv s' dataStore (ipnet_String n) = Some a'" "\<not> offline s' \<and> consul_room m (world s')"
    "ovs_client s' = Some c" "Connections s' = Connections s"
proof -
  note ds = consul_datastore[OF E(1)]
  have "CHR ''/'' \<notin> set networkStore" by (simp add: networkStore_def)
  then have g: "GetNetwork E nm s = (Ret (Inr nw), s)"
    using datastore.GetNetwork_present[OF ds _ _ nw(3,4), where m = "Suc m"] s(1,2) nw(2) by simp
  obtain port s1 where c: "createOvsInternalPort E ''ovs'' (br_Name OvsBridge) (nw_Vlan nw) s = (Ret (port, None), s1)" "same_consul s s1"
    by (rule createOvsInternalPort_run[OF E(2) s(3)])
  have s1: "\<not> offline s1 \<and> consul_room (Suc m) (world s1)" "agent_pool s n = pool n (agent_view consul_kv s1 dataStore (ipnet_String n))"
    using same_consul_view[OF c(2)] s by (simp_all add: agent_pool_def)
  obtain k a a' s2 where k: "Suc k < 2 ^ (32 - p)" "k \<notin> bits_of (agent_pool s n)" "bits_of a' = insert k (bits_of (agent_pool s n))"
    "length a' = length (agent_pool s n)" "\<And>f. IPAMRequest (Suc f) E n s1 = (Ret a, s2)" "length a = 4" "Contains n a"
    "ip_nat a = ip_nat (IP n) + Suc k"
    "agent_view consul_kv s2 = (agent_view consul_kv s1)(dataStore := (agent_view consul_kv s1 dataStore)(ipnet_String n \<mapsto> a'))"
    "\<not> offline s2 \<and> consul_room m (world s2)" "same_but_store s1 s2"
    by (rule datastore.IPAMRequest_least[OF ds net(2-4) agent_key_subnet[OF net(2)] s1 P]) (rule that)
  obtain err s3 where t: "attach_port E nspid port a (''/'' @ itod p) (nw_Gateway nw) s2 = (Ret err, s3)" "same_consul s2 s3"
    using attach_port_always[OF E(2)] unfolding always_def by blast
  have "AddConnection (Suc f) E nspid nm s = (Ret (\<lparr>ovc_Name = port, ovc_Ip = ip_String a, ovc_Subnet = ''/'' @ itod p,
      ovc_Mac = hw_String (generateMacAddr a), ovc_Gateway = nw_Gateway nw\<rparr>, err), s3)"
    using g c(1) nw(1) net(1) k(5)[of f] t(1) ParseCIDR_ipnet_String[OF net(2)] last3_ipnet[OF net(2,3)]
    by (simp add: AddConnection_def run_simps OvsBridge_def defaultBridgeName_def Let_def)
  moreover have "agent_view consul_kv s3 dataStore (ipnet_String n) = Some a'" "\<not> offline s3 \<and> consul_room m (world s3)"
    using same_consul_view[OF t(2)] k(9,10) by simp_all
  moreover have "ovs_client s3 = Some c" "Connections s3 = Connections s"
    using same_consul_fields[OF t(2)] same_consul_fields[OF c(2)] same_but_store_ovs[OF k(11)] same_but_store_connections[OF k(11)] s(3)
    by simp_all
  ultimately show ?thesis using that k(1-4,6-8) by blast
qed

lemma DeleteConnection_run:
  fixes s :: "('x kvs_store_scheme, 'z) conn_state_scheme"
  assumes E: "http E = consul_http other" "quiet_host E c" and s: "\<not> offline s" "consul_room (Suc m) (world s)" "ovs_client s = Some c"
    and net: "v4_net p n" "10 \<le> p" "p \<le> 29"
    and a: "length a = 4" "Contains n a" "ip_nat a = ip_nat (IP n) + Suc k" "Suc k < 2 ^ (32 - p)"
    and d: "ovc_Ip d = ip_String a" "ovc_Subnet d = ''/'' @ itod p"
    and v: "agent_view consul_kv s dataStore (ipnet_String n) = Some arr" "8 * length arr = 2 ^ (32 - p)"
  obtains s' where "DeleteConnection (Suc f) E d s = (Ret None, s')" "bits_of (agent_pool s' n) = bits_of arr - {k}"
    "Connections s' = Connections s"
proof -
  note ds = consul_datastore[OF E(1)]
  obtain u s1 where p: "deletePort E (Some c) (br_Name OvsBridge) (ovc_Name d) s = (Ret u, s1)" "same_consul s s1"
    using deletePort_always[OF E(2)] unfolding always_def by blast
  have s1: "\<not> offline s1 \<and> consul_room (Suc m) (world s1)" "agent_view consul_kv s1 dataStore (ipnet_String n) = Some arr"
    using same_consul_view[OF p(2)] s v by simp_all
  have i: "length (To4 (v4InV6Prefix @ a)) = 4" "ip_nat (To4 (v4InV6Prefix @ a)) = ip_nat (IP n) + Suc k" using a by simp_all
  obtain arr' s' where r: "\<And>f. IPAMRelease (Suc f) E (v4InV6Prefix @ a) n s1 = (Ret True, s')" "bits_of arr' = bits_of arr - {k}"
    "agent_view consul_kv s' = (agent_view consul_kv s1)(dataStore := (agent_view consul_kv s1 dataStore)(ipnet_String n \<mapsto> arr'))"
    "same_but_store s1 s'"
    by (rule datastore.IPAMRelease_frees[OF ds net agent_key_subnet[OF net(1)] s1 v(2) i a(4)]) (rule that)
  have "DeleteConnection (Suc f) E d s = (Ret None, s')"
    using s(3) p(1) r(1)[of f] ParseCIDR_address[OF net(1) a(1,2)] ParseIP_ip_String[OF a(1)] d
    by (simp add: DeleteConnection_def run_simps Let_def)
  moreover have "bits_of (agent_pool s' n) = bits_of arr - {k}" using r(2,3) by (simp add: agent_pool_def)
  moreover have "Connections s' = Connections s"
    using same_consul_fields[OF p(2)] same_but_store_connections[OF r(4)] by simp
  ultimately show ?thesis by (rule that)
qed

text \<open>The goroutine that serves the requests, for a connection that is made and then deleted.\<close>

lemma ConnectionRPCHandler_add:
  fixes s :: "('x kvs_store_scheme, 'z) conn_state_scheme"
  assumes "http E = consul_http other" "quiet_host E c" "\<not> offline s" "consul_room 2 (world s)" "ovs_client s = Some c"
    and "con_Network con \<noteq> []" "agent_key (networkStore @ ''/'' @ con_Network con)"
    and "agent_view consul_kv s networkStore (con_Network con) = Some (network_text nw)" "ascii_network nw"
    and "nw_Subnet nw = ipnet_String n" "v4_net p n" "10 \<le> p" "p \<le> 29"
    and "8 * length (agent_pool s n) = 2 ^ (32 - p)" "card (bits_of (agent_pool s n)) + 1 < 2 ^ (32 - p)"
  obtains con' a k s1 where
    "ConnectionRPCHandler (Suc f) E \<lparr>cc_Action = ConnectionAdd, cc_Connection = con\<rparr> s = (Ret (Some con'), s1)"
    "con_ContainerID con' = con_ContainerID con" "map_of (Connections s1) = (map_of (Connections s))(con_ContainerID con \<mapsto> con')"
    "ovc_Ip (con_ConnectionDetails con') = ip_String a" "ovc_Subnet (con_ConnectionDetails con') = ''/'' @ itod p"
    "length a = 4" "Contains n a" "ip_nat a = ip_nat (IP n) + Suc k" "Suc k < 2 ^ (32 - p)"
    "k \<notin> bits_of (agent_pool s n)" "bits_of (agent_pool s1 n) = insert k (bits_of (agent_pool s n))"
    "\<not> offline s1" "consul_room (Suc 0) (world s1)" "ovs_client s1 = Some c"
    "agent_view consul_kv s1 dataStore (ipnet_String n) = Some (agent_pool s1 n)" "8 * length (agent_pool s1 n) = 2 ^ (32 - p)"
proof -
  obtain port err a k a' t where t:
    "AddConnection (Suc f) E (Atoi (con_ContainerPID con)) (con_Network con) s =
      (Ret (\<lparr>ovc_Name = port, ovc_Ip = ip_String a, ovc_Subnet = ''/'' @ itod p, ovc_Mac = hw_String (generateMacAddr a),
         ovc_Gateway = nw_Gateway nw\<rparr>, err), t)" (is "_ = (Ret (?d, err), t)")
    "Suc k < 2 ^ (32 - p)" "k \<notin> bits_of (agent_pool s n)" "bits_of a' = insert k (bits_of (agent_pool s n))"
    "length a' = length (agent_pool s n)" "length a = 4" "Contains n a" "ip_nat a = ip_nat (IP n) + Suc k"
    "agent_view consul_kv t dataStore (ipnet_String n) = Some a'" "\<not> offline t \<and> consul_room (Suc 0) (world t)"
    "ovs_client t = Some c" "Connections t = Connections s"
    by (rule AddConnection_run[OF assms(1-3) assms(4)[unfolded numeral_2_eq_2] assms(5-15)]) (rule that)
  define con' where "con' = con\<lparr>con_OvsPortID := port, con_ConnectionDetails := ?d\<rparr>"
  define s1 where "s1 = t\<lparr>Connections := AList.update (con_ContainerID con') con' (Connections t)\<rparr>"
  have id1: "con_ContainerID con' = con_ContainerID con" by (simp add: con'_def)
  have add: "ConnectionRPCHandler (Suc f) E \<lparr>cc_Action = ConnectionAdd, cc_Connection = con\<rparr> s = (Ret (Some con'), s1)"
    using t(1) by (simp add: ConnectionRPCHandler_def run_simps Let_def s1_def con'_def)
  have p: "agent_pool s1 n = a'" using t(9) by (simp add: s1_def) (simp add: agent_pool_def)
  have cs: "map_of (Connections s1) = (map_of (Connections s))(con_ContainerID con \<mapsto> con')"
    using t(12) by (simp add: s1_def id1 AList.update_conv')
  have s1: "\<not> offline s1" "consul_room (Suc 0) (world s1)" "ovs_client s1 = Some c"
    "agent_view consul_kv s1 dataStore (ipnet_String n) = Some (agent_pool s1 n)" "8 * length (agent_pool s1 n) = 2 ^ (32 - p)"
    "bits_of (agent_pool s1 n) = insert k (bits_of (agent_pool s n))"
    using t(4,5,9-11) assms(14) unfolding p by (simp_all add: s1_def)
  have d: "ovc_Ip (con_ConnectionDetails con') = ip_String a" "ovc_Subnet (con_ConnectionDetails con') = ''/'' @ itod p"
    by (simp_all add: con'_def)
  show thesis by (rule that[OF add id1 cs d t(6-8,2,3) s1(6,1-5)])
qed

lemma ConnectionRPCHandler_delete:
  fixes s1 :: "('x kvs_store_scheme, 'z) conn_state_scheme"
  assumes "http E = consul_http other" "quiet_host E c" "\<not> offline s1" "consul_room (Suc 0) (world s1)" "ovs_client s1 = Some c"
    and "v4_net p n" "10 \<le> p" "p \<le> 29" "length a = 4" "Contains n a" "ip_nat a = ip_nat (IP n) + Suc k" "Suc k < 2 ^ (32 - p)"
    and "ovc_Ip (con_ConnectionDetails con') = ip_String a" "ovc_Subnet (con_ConnectionDetails con') = ''/'' @ itod p"
    and "agent_view consul_kv s1 dataStore (ipnet_String n) = Some (agent_pool s1 n)" "8 * length (agent_pool s1 n) = 2 ^ (32 - p)"
  obtains s2 where
    "ConnectionRPCHandler (Suc g) E \<lparr>cc_Action = ConnectionDelete, cc_Connection = con'\<rparr> s1 = (Ret (Some con'), s2)"
    "map_of (Connections s2) = (map_of (Connections s1))(con_ContainerID con' := None)"
    "bits_of (agent_pool s2 n) = bits_of (agent_pool s1 n) - {k}"
proof -
  obtain u where u: "DeleteConnection (Suc g) E (con_ConnectionDetails con') s1 = (Ret None, u)"
    "bits_of (agent_pool u n) = bits_of (agent_pool s1 n) - {k}" "Connections u = Connections s1"
    by (rule DeleteConnection_run[OF assms(1-16)]) (rule that)
  define s2 where "s2 = u\<lparr>Connections := AList.delete (con_ContainerID con') (Connections u)\<rparr>"
  have "ConnectionRPCHandler (Suc g) E \<lparr>cc_Action = ConnectionDelete, cc_Connection = con'\<rparr> s1 = (Ret (Some con'), s2)"
    using u(1) by (simp add: ConnectionRPCHandler_def run_simps Let_def s2_def)
  moreover have "map_of (Connections s2) = (map_of (Connections s1))(con_ContainerID con' := None)"
    using u(3) by (simp add: s2_def AList.delete_conv')
  moreover have "bits_of (agent_pool s2 n) = bits_of (agent_pool s1 n) - {k}" using u(2) by (simp add: s2_def)
  ultimately show thesis by (rule that)
qed

subsection \<open>Properties\<close>

text \<open>C3. On a host where only the daemon writes to Consul, whatever the kernel and the OVS
  server answer: a request to connect a container to an IPv4 network with a prefix
  of 10 to 29 bits and two free addresses is answered with an address of the network
  that nobody held, now marked as held, and is recorded under the container; the
  request to delete this connection then frees exactly this address and removes the
  record.\<close>

theorem connection_add_delete:
  fixes s :: "('x kvs_store_scheme, 'z) conn_state_scheme"
  assumes "http E = consul_http other" "quiet_host E c" "\<not> offline s" "consul_room 2 (world s)" "ovs_client s = Some c"
    and "con_Network con \<noteq> []" "agent_key (networkStore @ ''/'' @ con_Network con)"
    and "agent_view consul_kv s networkStore (con_Network con) = Some (network_text nw)" "ascii_network nw"
    and "nw_Subnet nw = ipnet_String n" "v4_net p n" "10 \<le> p" "p \<le> 29"
    and "8 * length (agent_pool s n) = 2 ^ (32 - p)" "card (bits_of (agent_pool s n)) + 1 < 2 ^ (32 - p)"
  shows "\<exists>con' a k s1 s2.
    ConnectionRPCHandler (Suc f) E \<lparr>cc_Action = ConnectionAdd, cc_Connection = con\<rparr> s = (Ret (Some con'), s1) \<and>
    map_of (Connections s1) (con_ContainerID con) = Some con' \<and>
    ovc_Ip (con_ConnectionDetails con') = ip_String a \<and> Contains n a \<and> ip_nat a = ip_nat (IP n) + Suc k \<and>
    k \<notin> bits_of (agent_pool s n) \<and> bits_of (agent_pool s1 n) = insert k (bits_of (agent_pool s n)) \<and>
    ConnectionRPCHandler (Suc g) E \<lparr>cc_Action = ConnectionDelete, cc_Connection = con'\<rparr> s1 = (Ret (Some con'), s2) \<and>
    map_of (Connections s2) = (map_of (Connections s))(con_ContainerID con := None) \<and>
    bits_of (agent_pool s2 n) = bits_of (agent_pool s n)"
proof -
  obtain con' a k s1 where 1: "ConnectionRPCHandler (Suc f) E \<lparr>cc_Action = ConnectionAdd, cc_Connection = con\<rparr> s = (Ret (Some con'), s1)"
    "con_ContainerID con' = con_ContainerID con" "map_of (Connections s1) = (map_of (Connections s))(con_ContainerID con \<mapsto> con')"
    "ovc_Ip (con_ConnectionDetails con') = ip_String a" "ovc_Subnet (con_ConnectionDetails con') = ''/'' @ itod p"
    "length a = 4" "Contains n a" "ip_nat a = ip_nat (IP n) + Suc k" "Suc k < 2 ^ (32 - p)"
    "k \<notin> bits_of (agent_pool s n)" "bits_of (agent_pool s1 n) = insert k (bits_of (agent_pool s n))"
    "\<not> offline s1" "consul_room (Suc 0) (world s1)" "ovs_client s1 = Some c"
    "agent_view consul_kv s1 dataStore (ipnet_String n) = Some (agent_pool s1 n)" "8 * length (agent_pool s1 n) = 2 ^ (32 - p)"
    by (rule ConnectionRPCHandler_add[OF assms]) (rule that)
  obtain s2 where 2: "ConnectionRPCHandler (Suc g) E \<lparr>cc_Action = ConnectionDelete, cc_Connection = con'\<rparr> s1 = (Ret (Some con'), s2)"
    "map_of (Connections s2) = (map_of (Connections s1))(con_ContainerID con' := None)"
    "bits_of (agent_pool s2 n) = bits_of (agent_pool s1 n) - {k}"
    by (rule ConnectionRPCHandler_delete[OF assms(1,2) 1(12-14) assms(11-13) 1(6-9,4,5,15,16)]) (rule that)
  have "map_of (Connections s1) (con_ContainerID con) = Some con'" using 1(3) by simp
  moreover have "map_of (Connections s2) = (map_of (Connections s))(con_ContainerID con := None)" using 1(2,3) 2(2) by simp
  moreover have "bits_of (agent_pool s2 n) = bits_of (agent_pool s n)" using 1(10,11) 2(3) by simp
  ultimately show ?thesis using 1(1,4,7,8,10,11) 2(1) by blast
qed

text \<open>A host that has a network \<open>10.1.2.0/24\<close> and whose kernel answers every request with success.\<close>

definition quiet_conn :: "kvs_store conn_env" where
  "quiet_conn = bridge_env.extend quiet_consul (conn_env.fields (\<lambda>a b w. (None, w)) (\<lambda>v w. (''/proc'', w)) (\<lambda>w. (Inr 3, w))
     (\<lambda>n w. (Inr 4, w)) (\<lambda>i w. (None, w)) (\<lambda>i w. (None, w)))"

lemma quiet_conn_host: "http quiet_conn = consul_http (\<lambda>m url body w. (None, w))" "quiet_host quiet_conn c"
  by (simp_all add: quiet_conn_def quiet_host_def spares_consul_def quiet_consul_def quiet_env_def bridge_env.defs conn_env.defs)

definition nw24 :: Network where
  "nw24 = \<lparr>nw_ID = ''web'', nw_Subnet = ipnet_String net24, nw_Gateway = ''10.1.2.1'', nw_Vlan = 1\<rparr>"

definition conn_node :: "kvs_store conn_state" where
  "conn_node = bridge_state.extend (bridge_node\<lparr>world := world (node [network_row nw24]), ovs_client := Some 0\<rparr>)
     (conn_state.fields [] [] 0)"

definition con1 :: Connection where
  "con1 = Connection_zero\<lparr>con_ContainerID := ''c1'', con_ContainerPID := ''17'', con_Network := ''web''\<rparr>"

lemma conn_node_simps: "world conn_node = world (node [network_row nw24])" "Connections conn_node = []" "\<not> offline conn_node"
  "ovs_client conn_node = Some 0" "table_cache conn_node = []"
  by (simp_all add: conn_node_def bridge_state.defs conn_state.defs bridge_node_def offline_def)

lemma conn_node_room: "n < 100 \<Longrightarrow> consul_room n (world conn_node)"
proof -
  have "agent_key (networkStore @ ''/'' @ ''web'')" by code_simp
  then show "n < 100 \<Longrightarrow> consul_room n (world conn_node)"
    using plain_key_chars[of "networkStore @ ''/'' @ ''web''"]
    by (simp add: conn_node_simps node_def consul_room_def row_ok_def network_row_def nw24_def agent_key_def)
qed

theorem connection_add_delete_witness:
  "\<exists>con' a s1 s2. ConnectionRPCHandler 1 quiet_conn \<lparr>cc_Action = ConnectionAdd, cc_Connection = con1\<rparr> conn_node = (Ret (Some con'), s1) \<and>
     ovc_Ip (con_ConnectionDetails con') = ip_String a \<and> Contains net24 a \<and>
     ConnectionRPCHandler 1 quiet_conn \<lparr>cc_Action = ConnectionDelete, cc_Connection = con'\<rparr> s1 = (Ret (Some con'), s2) \<and>
     map_of (Connections s2) = Map.empty \<and> bits_of (agent_pool s2 net24) = {}"
proof -
  note w = conn_node_simps
  have k: "agent_key (networkStore @ ''/'' @ con_Network con1)" by code_simp
  have v: "agent_view consul_kv conn_node networkStore (con_Network con1) = Some (network_text nw24)"
    by (simp add: agent_view_def w consul_kv_def KVSGet_def get_id_def node_def network_row_def nw24_def con1_def networkStore_def)
  have r: "consul_room 2 (world conn_node)" by (rule conn_node_room) simp
  have a: "ascii_network nw24" by code_simp
  have "agent_view consul_kv conn_node dataStore (ipnet_String net24) = None"
    by (simp add: agent_view_def w consul_kv_def KVSGet_def get_id_def node_def network_row_def dataStore_def networkStore_def)
  then have p: "agent_pool conn_node net24 = replicate 32 0" using poolBytes_v4[OF v4_nets(1)] by (simp add: agent_pool_def)
  show ?thesis
    using connection_add_delete[OF quiet_conn_host w(3) r w(4) _ k v a _ v4_nets(1), of 0 0] w(2)
    by (auto simp: p con1_def nw24_def)
qed

text \<open>C36. A connection to a network that does not exist is answered and recorded like any
  other, with empty details; the request to delete it ends the daemon with a nil
  dereference in the goroutine that serves the requests.\<close>

theorem failed_connection_kills_daemon:
  fixes s :: "('x kvs_store_scheme, 'z) conn_state_scheme"
  assumes "http E = consul_http other" "\<not> offline s" "consul_room m (world s)" "ovs_client s = Some c" "portUuidForName E [] s = []"
    and "con_Network con \<noteq> []" "agent_key (networkStore @ ''/'' @ con_Network con)"
    and "agent_view consul_kv s networkStore (con_Network con) = None"
  shows "\<exists>con' s1.
    ConnectionRPCHandler f E \<lparr>cc_Action = ConnectionAdd, cc_Connection = con\<rparr> s = (Ret (Some con'), s1) \<and>
    con_ConnectionDetails con' = OvsConnection_zero \<and> map_of (Connections s1) (con_ContainerID con) = Some con' \<and>
    ConnectionRPCHandler g E \<lparr>cc_Action = ConnectionDelete, cc_Connection = con'\<rparr> s1 = (nil_panic, s1)"
proof -
  define con' where "con' = con\<lparr>con_OvsPortID := [], con_ConnectionDetails := OvsConnection_zero\<rparr>"
  define s1 where "s1 = s\<lparr>Connections := AList.update (con_ContainerID con) con' (Connections s)\<rparr>"
  have "CHR ''/'' \<notin> set networkStore" by (simp add: networkStore_def)
  then have "GetNetwork E (con_Network con) s = (Ret (Inl network_unavailable), s)"
    using datastore.GetNetwork_absent[OF consul_datastore[OF assms(1)] _ _ assms(8), where m = m] assms(2,3,7) by simp
  then have "ConnectionRPCHandler f E \<lparr>cc_Action = ConnectionAdd, cc_Connection = con\<rparr> s = (Ret (Some con'), s1)"
    using assms(6) by (simp add: ConnectionRPCHandler_def AddConnection_def run_simps Let_def OvsBridge_def defaultBridgeName_def
        s1_def con'_def OvsConnection_zero_def)
  moreover have "portUuidForName E [] s1 = []" "ovs_client s1 = Some c"
    using assms(4,5) by (simp_all add: s1_def portUuidForName_def GetTableCache_def)
  moreover have "ParseCIDR [] = Inl (cidr_error [])" by (simp add: ParseCIDR_def)
  then have "ConnectionRPCHandler g E \<lparr>cc_Action = ConnectionDelete, cc_Connection = con'\<rparr> s1 = (nil_panic, s1)"
    using calculation by (simp add: ConnectionRPCHandler_def DeleteConnection_def deletePort_def run_simps Let_def con'_def
        OvsConnection_zero_def nil_panic_def)
  ultimately show ?thesis by (auto simp: con'_def s1_def AList.update_conv')
qed

theorem failed_connection_kills_daemon_witness:
  "\<exists>con' s1. ConnectionRPCHandler 1 quiet_conn \<lparr>cc_Action = ConnectionAdd, cc_Connection = con1\<lparr>con_Network := ''db''\<rparr>\<rparr> conn_node = (Ret (Some con'), s1) \<and>
     con_ConnectionDetails con' = OvsConnection_zero \<and>
     ConnectionRPCHandler 1 quiet_conn \<lparr>cc_Action = ConnectionDelete, cc_Connection = con'\<rparr> s1 = (nil_panic, s1)"
proof -
  have k: "agent_key (networkStore @ ''/'' @ ''db'')" by code_simp
  have v: "agent_view consul_kv conn_node networkStore ''db'' = None"
    by (simp add: agent_view_def conn_node_simps consul_kv_def KVSGet_def get_id_def node_def network_row_def nw24_def networkStore_def)
  have "range_order quiet_conn [] = []"
    by (simp add: quiet_conn_def quiet_consul_def quiet_env_def bridge_env.defs conn_env.defs)
  then have u: "portUuidForName quiet_conn [] conn_node = []"
    by (simp add: portUuidForName_def GetTableCache_def conn_node_simps)
  show ?thesis
    using failed_connection_kills_daemon[OF quiet_conn_host(1) conn_node_simps(3) conn_node_room[of 0] conn_node_simps(4) u,
        of "con1\<lparr>con_Network := ''db''\<rparr>" 1 1] k v
    by (auto simp: con1_def)
qed

end
