(* ===== verification/ConsulWatch.thy ===== *)
theory ConsulWatch
  imports Connections
begin

section \<open>Watches of the Consul client (consul/api and consul/watch)\<close>

text \<open>
  The part of Consul's own client that the embedded client uses to follow the
  cluster: queries with their meta-data (api/api.go, api/catalog.go, api/kv.go), the
  parsing of a watch and the loop that runs it (watch/watch.go, watch/funcs.go,
  watch/plan.go).

  The exchange of a query is the function \<open>http_Query\<close> of the environment: a URL
  to the status, the header and the body of the response.  Of the watch functions the
  three that ecc.go registers are modelled down to their queries; the answers of the
  others are the function \<open>other_watch\<close>.  A watch plan is the number of its entry
  in \<open>plans\<close>.  A slice that is \<open>nil\<close> and an empty one are not told apart.
\<close>

subsection \<open>Requests\<close>

definition hex_upper :: "nat \<Rightarrow> char" where
  "hex_upper d = char_of (if d < 10 then 48 + d else 55 + d)"

definition percent_escape :: "(char \<Rightarrow> bool) \<Rightarrow> string \<Rightarrow> string" where
  "percent_escape keep s = concat (map (\<lambda>c. if keep c then [c]
     else [CHR ''%'', hex_upper (code c div 16), hex_upper (code c mod 16)]) s)"

definition unreserved :: "char \<Rightarrow> bool" where
  "unreserved c \<longleftrightarrow> (48 \<le> code c \<and> code c \<le> 57) \<or> (65 \<le> code c \<and> code c \<le> 90) \<or> (97 \<le> code c \<and> code c \<le> 122) \<or>
     c \<in> set ''-_.~''"

text \<open>\<open>url.QueryEscape\<close>, and the escaping of a path in \<open>RequestURI\<close>.\<close>

definition QueryEscape :: "string \<Rightarrow> string" where
  "QueryEscape s = concat (map (\<lambda>c. if c = CHR '' '' then ''+'' else percent_escape unreserved [c]) s)"

definition escape_path :: "string \<Rightarrow> string" where
  "escape_path = percent_escape (\<lambda>c. unreserved c \<or> c \<in> set ''$&+,/:;=@'')"

type_synonym params = "(string \<times> string) list"

definition Values_Encode :: "params \<Rightarrow> string" where
  "Values_Encode ps = join_with ''&'' (map (\<lambda>(k, v). QueryEscape k @ ''='' @ QueryEscape v) (sort_key fst ps))"

record QueryOptions =
  qo_Datacenter :: string
  qo_AllowStale :: bool
  qo_RequireConsistent :: bool
  qo_WaitIndex :: uint
  qo_WaitTime :: int
  qo_Token :: string

definition wait_index :: "uint \<Rightarrow> QueryOptions" where
  "wait_index i = \<lparr>qo_Datacenter = [], qo_AllowStale = False, qo_RequireConsistent = False, qo_WaitIndex = i, qo_WaitTime = 0, qo_Token = []\<rparr>"

record QueryMeta =
  qm_LastIndex :: uint
  qm_LastContact :: int
  qm_KnownLeader :: bool

text \<open>A \<open>Config\<close> without its HTTP client and authentication, which stay at their defaults.\<close>

record Config =
  cfg_Address :: string
  cfg_Scheme :: string
  cfg_Datacenter :: string
  cfg_WaitTime :: int
  cfg_Token :: string

definition durToMsec :: "int \<Rightarrow> string" where
  "durToMsec dur = fmt_d (go_div dur 1000000) @ ''ms''"

definition setQueryOptions :: "QueryOptions \<Rightarrow> params \<Rightarrow> params" where
  "setQueryOptions q ps =
     (let ps = (if qo_Datacenter q \<noteq> [] then AList.update ''dc'' (qo_Datacenter q) ps else ps);
          ps = (if qo_AllowStale q then AList.update ''stale'' [] ps else ps);
          ps = (if qo_RequireConsistent q then AList.update ''consistent'' [] ps else ps);
          ps = (if qo_WaitIndex q \<noteq> 0 then AList.update ''index'' (itod (unat (qo_WaitIndex q))) ps else ps);
          ps = (if qo_WaitTime q \<noteq> 0 then AList.update ''wait'' (durToMsec (qo_WaitTime q)) ps else ps)
      in if qo_Token q \<noteq> [] then AList.update ''token'' (qo_Token q) ps else ps)"

definition newRequest :: "Config \<Rightarrow> params" where
  "newRequest c =
     (let ps = (if cfg_Datacenter c \<noteq> [] then [(''dc'', cfg_Datacenter c)] else []);
          ps = (if cfg_WaitTime c \<noteq> 0 then AList.update ''wait'' (durToMsec (cfg_WaitTime c)) ps else ps)
      in if cfg_Token c \<noteq> [] then AList.update ''token'' (cfg_Token c) ps else ps)"

definition toHTTP :: "Config \<Rightarrow> string \<Rightarrow> params \<Rightarrow> string" where
  "toHTTP c path ps =
     (let q = Values_Encode ps in cfg_Scheme c @ ''://'' @ cfg_Address c @ escape_path path @ (if q = [] then [] else ''?'' @ q))"

subsection \<open>Nodes and pairs\<close>

record Node =
  nd_Node :: string
  nd_Address :: string

definition Node_store :: "Node store" where
  "Node_store = store_struct ''api.Node''
     [(''Node'', store_string (\<lambda>v n. n\<lparr>nd_Node := v\<rparr>)), (''Address'', store_string (\<lambda>v n. n\<lparr>nd_Address := v\<rparr>))]"

record KVPair =
  kv_Key :: string
  kv_CreateIndex :: uint
  kv_ModifyIndex :: uint
  kv_LockIndex :: uint
  kv_Flags :: uint
  kv_Value :: bytes
  kv_Session :: string

definition KVPair_zero :: KVPair where
  "KVPair_zero = \<lparr>kv_Key = [], kv_CreateIndex = 0, kv_ModifyIndex = 0, kv_LockIndex = 0, kv_Flags = 0, kv_Value = [], kv_Session = []\<rparr>"

text \<open>Decoding into a \<open>[]byte\<close>: a string in base 64, or an array of numbers.\<close>

definition store_byte :: "byte store" where
  "store_byte j b = (case j of
       JNull \<Rightarrow> (None, b)
     | JNum n \<Rightarrow> (case ParseUint n of
           Some v \<Rightarrow> if unat v < 256 then (None, ucast v) else (Some (JSONTypeError (''number '' @ n) ''uint8''), b)
         | None \<Rightarrow> (Some (JSONTypeError (''number '' @ n) ''uint8''), b))
     | _ \<Rightarrow> (Some (JSONTypeError (kind j) ''uint8''), b))"

definition store_bytes :: "(bytes \<Rightarrow> 's \<Rightarrow> 's) \<Rightarrow> 's store" where
  "store_bytes upd j s = (case j of
       JNull \<Rightarrow> (None, upd [] s)
     | JStr v \<Rightarrow> (let (b, ok) = decode64 v in if ok then (None, upd b s) else (Some (Err ''illegal base64 data''), s))
     | JArr _ \<Rightarrow> (let (e, b) = store_slice ''[]uint8'' 0 store_byte j in (e, upd b s))
     | _ \<Rightarrow> (Some (JSONTypeError (kind j) ''[]uint8''), s))"

definition KVPair_store :: "KVPair store" where
  "KVPair_store = store_struct ''api.KVPair''
     [(''Key'', store_string (\<lambda>v p. p\<lparr>kv_Key := v\<rparr>)),
      (''CreateIndex'', store_uint (\<lambda>v p. p\<lparr>kv_CreateIndex := v\<rparr>)),
      (''ModifyIndex'', store_uint (\<lambda>v p. p\<lparr>kv_ModifyIndex := v\<rparr>)),
      (''LockIndex'', store_uint (\<lambda>v p. p\<lparr>kv_LockIndex := v\<rparr>)),
      (''Flags'', store_uint (\<lambda>v p. p\<lparr>kv_Flags := v\<rparr>)),
      (''Value'', store_bytes (\<lambda>v p. p\<lparr>kv_Value := v\<rparr>)),
      (''Session'', store_string (\<lambda>v p. p\<lparr>kv_Session := v\<rparr>))]"

text \<open>A pointer stays \<open>nil\<close> for \<open>null\<close>.\<close>

definition store_ptr :: "'e \<Rightarrow> 'e store \<Rightarrow> 'e option store" where
  "store_ptr z st j p = (case j of JNull \<Rightarrow> (None, None)
     | _ \<Rightarrow> (let (e, x) = st j (case p of None \<Rightarrow> z | Some y \<Rightarrow> y) in (e, Some x)))"

definition decode_ptrs :: "string \<Rightarrow> 'e \<Rightarrow> 'e store \<Rightarrow> bytes \<Rightarrow> gerror + 'e option list" where
  "decode_ptrs ty z st body =
     (case Decode (\<lambda>j _. store_slice ty None (store_ptr z st) j) (str body) [] of
        (Some err, _) \<Rightarrow> Inl err | (None, xs) \<Rightarrow> Inr xs)"

subsection \<open>Queries\<close>

datatype WatchFunc =
    KeyWatch string
  | KeyPrefixWatch string
  | ServicesWatch
  | NodesWatch
  | ServiceWatch string string bool
  | ChecksWatch string string
  | EventWatch string

datatype watch_result =
    WNil
  | WPair KVPair
  | WPairs "KVPair option list"
  | WNodes "Node option list"
  | WOther gval

record 'w watch_env = "'w conn_env" +
  http_Query :: "string \<Rightarrow> 'w \<Rightarrow> (gerror + int \<times> params \<times> bytes) \<times> 'w"
  other_watch :: "WatchFunc \<Rightarrow> uint \<Rightarrow> 'w \<Rightarrow> (gerror + uint \<times> watch_result) \<times> 'w"

text \<open>The first value of a header, by its canonical name.\<close>

definition header_Get :: "params \<Rightarrow> string \<Rightarrow> string" where
  "header_Get h k = (case map_of h k of None \<Rightarrow> [] | Some v \<Rightarrow> v)"

text \<open>The error is dropped by all callers; the fields up to the one that does not parse are set.\<close>

definition parseQueryMeta :: "params \<Rightarrow> QueryMeta" where
  "parseQueryMeta h =
     (let q = \<lparr>qm_LastIndex = 0, qm_LastContact = 0, qm_KnownLeader = False\<rparr> in
      case ParseUint (header_Get h ''X-Consul-Index'') of
        None \<Rightarrow> q
      | Some index \<Rightarrow> (let q = q\<lparr>qm_LastIndex := index\<rparr> in
          case ParseUint (header_Get h ''X-Consul-Lastcontact'') of
            None \<Rightarrow> q
          | Some last1 \<Rightarrow> q\<lparr>qm_LastContact := sint (last1 * 1000000),
              qm_KnownLeader := (header_Get h ''X-Consul-Knownleader'' = ''true'')\<rparr>))"

definition requireOK :: "gerror + int \<times> params \<times> bytes \<Rightarrow> gerror + params \<times> bytes" where
  "requireOK r = (case r of
       Inl err \<Rightarrow> Inl err
     | Inr (status, h, body) \<Rightarrow>
         if status \<noteq> 200 then Inl (Err (''Unexpected response code: '' @ fmt_d status @ '' ('' @ str body @ '')'')) else Inr (h, body))"

definition KV_getInternal :: "('w, 'x) watch_env_scheme \<Rightarrow> Config \<Rightarrow> string \<Rightarrow> params \<Rightarrow> QueryOptions \<Rightarrow>
    (('w, 'z) ecc_state_scheme, gerror + bytes option \<times> QueryMeta) comp" where
  "KV_getInternal E c key extra q =
     (let ps = foldl (\<lambda>ps (k, v). AList.update k v ps) (setQueryOptions q (newRequest c)) extra in
      tryE (outside (http_Query E (toHTTP c (''/v1/kv/'' @ key) ps))) (\<lambda>(status, h, body).
        let qm = parseQueryMeta h in
        if status = 404 then retM (Inr (None, qm))
        else if status \<noteq> 200 then retM (Inl (Err (''Unexpected response code: '' @ fmt_d status)))
        else retM (Inr (Some body, qm))))"

definition KV_Get :: "('w, 'x) watch_env_scheme \<Rightarrow> Config \<Rightarrow> string \<Rightarrow> QueryOptions \<Rightarrow>
    (('w, 'z) ecc_state_scheme, gerror + KVPair option \<times> QueryMeta) comp" where
  "KV_Get E c key q = tryE (KV_getInternal E c key [] q) (\<lambda>(resp, qm). case resp of
       None \<Rightarrow> retM (Inr (None, qm))
     | Some body \<Rightarrow> (case decode_ptrs ''[]*api.KVPair'' KVPair_zero KVPair_store body of
           Inl err \<Rightarrow> retM (Inl err)
         | Inr entries \<Rightarrow> (case entries of [] \<Rightarrow> retM (Inr (None, qm)) | p # _ \<Rightarrow> retM (Inr (p, qm)))))"

definition KV_List :: "('w, 'x) watch_env_scheme \<Rightarrow> Config \<Rightarrow> string \<Rightarrow> QueryOptions \<Rightarrow>
    (('w, 'z) ecc_state_scheme, gerror + KVPair option list \<times> QueryMeta) comp" where
  "KV_List E c prefix1 q = tryE (KV_getInternal E c prefix1 [(''recurse'', [])] q) (\<lambda>(resp, qm). case resp of
       None \<Rightarrow> retM (Inr ([], qm))
     | Some body \<Rightarrow> (case decode_ptrs ''[]*api.KVPair'' KVPair_zero KVPair_store body of
           Inl err \<Rightarrow> retM (Inl err)
         | Inr entries \<Rightarrow> retM (Inr (entries, qm))))"

definition Catalog_Nodes :: "('w, 'x) watch_env_scheme \<Rightarrow> Config \<Rightarrow> QueryOptions \<Rightarrow>
    (('w, 'z) ecc_state_scheme, gerror + Node option list \<times> QueryMeta) comp" where
  "Catalog_Nodes E c q =
     bindM (outside (http_Query E (toHTTP c ''/v1/catalog/nodes'' (setQueryOptions q (newRequest c))))) (\<lambda>r.
       case requireOK r of
         Inl err \<Rightarrow> retM (Inl err)
       | Inr (h, body) \<Rightarrow> (case decode_ptrs ''[]*api.Node'' \<lparr>nd_Node = [], nd_Address = []\<rparr> Node_store body of
             Inl err \<Rightarrow> retM (Inl err)
           | Inr out \<Rightarrow> retM (Inr (out, parseQueryMeta h))))"

subsection \<open>Plans\<close>

record WatchPlan =
  wp_Datacenter :: string
  wp_Token :: string
  wp_Type :: string
  wp_Exempt :: "(string \<times> gval) list"
  wp_Func :: WatchFunc
  wp_client :: Config
  wp_lastIndex :: uint
  wp_lastResult :: watch_result
  wp_stop :: bool

record 'w watch_state = "'w conn_state" +
  plans :: "WatchPlan list"

definition assignValue :: "(string \<times> gval) list \<Rightarrow> string \<Rightarrow> string \<Rightarrow> gerror + string \<times> (string \<times> gval) list" where
  "assignValue ps name out = (case map_of ps name of
       None \<Rightarrow> Inr (out, ps)
     | Some (GStr v) \<Rightarrow> Inr (v, AList.delete name ps)
     | Some _ \<Rightarrow> Inl (Err (''Expecting '' @ name @ '' to be a string'')))"

definition assignValueBool :: "(string \<times> gval) list \<Rightarrow> string \<Rightarrow> bool \<Rightarrow> gerror + bool \<times> (string \<times> gval) list" where
  "assignValueBool ps name out = (case map_of ps name of
       None \<Rightarrow> Inr (out, ps)
     | Some (GBool v) \<Rightarrow> Inr (v, AList.delete name ps)
     | Some _ \<Rightarrow> Inl (Err (''Expecting '' @ name @ '' to be a boolean'')))"

definition bindE :: "gerror + 'a \<Rightarrow> ('a \<Rightarrow> gerror + 'b) \<Rightarrow> gerror + 'b" where
  "bindE r f = (case r of Inl err \<Rightarrow> Inl err | Inr a \<Rightarrow> f a)"

definition keyWatch :: "(string \<times> gval) list \<Rightarrow> gerror + WatchFunc \<times> (string \<times> gval) list" where
  "keyWatch ps = bindE (assignValue ps ''key'' []) (\<lambda>(key, ps).
     if key = [] then Inl (Err ''Must specify a single key to watch'') else Inr (KeyWatch key, ps))"

definition keyPrefixWatch :: "(string \<times> gval) list \<Rightarrow> gerror + WatchFunc \<times> (string \<times> gval) list" where
  "keyPrefixWatch ps = bindE (assignValue ps ''prefix'' []) (\<lambda>(prefix1, ps).
     if prefix1 = [] then Inl (Err ''Must specify a single prefix to watch'') else Inr (KeyPrefixWatch prefix1, ps))"

definition servicesWatch :: "(string \<times> gval) list \<Rightarrow> gerror + WatchFunc \<times> (string \<times> gval) list" where
  "servicesWatch ps = Inr (ServicesWatch, ps)"

definition nodesWatch :: "(string \<times> gval) list \<Rightarrow> gerror + WatchFunc \<times> (string \<times> gval) list" where
  "nodesWatch ps = Inr (NodesWatch, ps)"

definition serviceWatch :: "(string \<times> gval) list \<Rightarrow> gerror + WatchFunc \<times> (string \<times> gval) list" where
  "serviceWatch ps = bindE (assignValue ps ''service'' []) (\<lambda>(service, ps).
     if service = [] then Inl (Err ''Must specify a single service to watch'')
     else bindE (assignValue ps ''tag'' []) (\<lambda>(tag, ps).
       bindE (assignValueBool ps ''passingonly'' False) (\<lambda>(passingOnly, ps).
         Inr (ServiceWatch service tag passingOnly, ps))))"

definition checksWatch :: "(string \<times> gval) list \<Rightarrow> gerror + WatchFunc \<times> (string \<times> gval) list" where
  "checksWatch ps = bindE (assignValue ps ''service'' []) (\<lambda>(service, ps).
     bindE (assignValue ps ''state'' []) (\<lambda>(state, ps).
       if service \<noteq> [] \<and> state \<noteq> [] then Inl (Err ''Cannot specify service and state'')
       else Inr (ChecksWatch service (if service = [] \<and> state = [] then ''any'' else state), ps)))"

definition eventWatch :: "(string \<times> gval) list \<Rightarrow> gerror + WatchFunc \<times> (string \<times> gval) list" where
  "eventWatch ps = bindE (assignValue ps ''name'' []) (\<lambda>(name, ps). Inr (EventWatch name, ps))"

definition watchFuncFactory :: "(string \<times> ((string \<times> gval) list \<Rightarrow> gerror + WatchFunc \<times> (string \<times> gval) list)) list" where
  "watchFuncFactory = [(''key'', keyWatch), (''keyprefix'', keyPrefixWatch), (''services'', servicesWatch), (''nodes'', nodesWatch),
     (''service'', serviceWatch), (''checks'', checksWatch), (''event'', eventWatch)]"

fun remove_exempt :: "string list \<Rightarrow> (string \<times> gval) list \<Rightarrow> (string \<times> gval) list \<Rightarrow>
    (string \<times> gval) list \<times> (string \<times> gval) list" where
  "remove_exempt [] ps ex = (ps, ex)"
| "remove_exempt (e # es) ps ex = (case map_of ps e of
       None \<Rightarrow> remove_exempt es ps ex
     | Some v \<Rightarrow> remove_exempt es (AList.delete e ps) (AList.update e v ex))"

definition ParseExempt :: "('w, 'x) http_env_scheme \<Rightarrow> (string \<times> gval) list \<Rightarrow> string list \<Rightarrow> gerror + WatchPlan" where
  "ParseExempt E ps exempt =
     bindE (assignValue ps ''datacenter'' []) (\<lambda>(dc, ps).
     bindE (assignValue ps ''token'' []) (\<lambda>(token, ps).
     bindE (assignValue ps ''type'' []) (\<lambda>(type1, ps).
       if type1 = [] then Inl (Err ''Watch type must be specified'')
       else (case map_of watchFuncFactory type1 of
           None \<Rightarrow> Inl (Err (''Unsupported watch type: '' @ type1))
         | Some factory \<Rightarrow> bindE (factory ps) (\<lambda>(fn, ps).
             let (ps, ex) = remove_exempt exempt ps [] in
             if ps \<noteq> [] then Inl (Err (''Invalid parameters: ['' @ join_with '' '' (range_order E (map fst ps)) @ '']''))
             else Inr \<lparr>wp_Datacenter = dc, wp_Token = token, wp_Type = type1, wp_Exempt = ex, wp_Func = fn,
               wp_client = \<lparr>cfg_Address = [], cfg_Scheme = [], cfg_Datacenter = [], cfg_WaitTime = 0, cfg_Token = []\<rparr>,
               wp_lastIndex = 0, wp_lastResult = WNil, wp_stop = False\<rparr>)))))"

definition watch_Parse :: "('w, 'x) http_env_scheme \<Rightarrow> (string \<times> gval) list \<Rightarrow> gerror + WatchPlan" where
  "watch_Parse E ps = ParseExempt E ps []"

subsection \<open>Running a plan\<close>

definition set_plan :: "nat \<Rightarrow> (WatchPlan \<Rightarrow> WatchPlan) \<Rightarrow> (('w, 'z) watch_state_scheme, unit) comp" where
  "set_plan p f = modifyM (\<lambda>s. s\<lparr>plans := (plans s)[p := f (plans s ! p)]\<rparr>)"

definition plan_Stop :: "nat \<Rightarrow> (('w, 'z) watch_state_scheme, unit) comp" where
  "plan_Stop p = set_plan p (\<lambda>wp. wp\<lparr>wp_stop := True\<rparr>)"

definition shouldStop :: "nat \<Rightarrow> ('w, 'z) watch_state_scheme \<Rightarrow> bool" where
  "shouldStop p s \<longleftrightarrow> wp_stop (plans s ! p)"

definition plan_Func :: "('w, 'x) watch_env_scheme \<Rightarrow> WatchPlan \<Rightarrow> (('w, 'z) ecc_state_scheme, gerror + uint \<times> watch_result) comp" where
  "plan_Func E wp = (let c = wp_client wp; opts = wait_index (wp_lastIndex wp) in case wp_Func wp of
       KeyWatch key \<Rightarrow> tryE (KV_Get E c key opts) (\<lambda>(pair, meta).
         retM (Inr (qm_LastIndex meta, case pair of None \<Rightarrow> WNil | Some p \<Rightarrow> WPair p)))
     | KeyPrefixWatch prefix1 \<Rightarrow> tryE (KV_List E c prefix1 opts) (\<lambda>(pairs, meta). retM (Inr (qm_LastIndex meta, WPairs pairs)))
     | NodesWatch \<Rightarrow> tryE (Catalog_Nodes E c opts) (\<lambda>(nodes, meta). retM (Inr (qm_LastIndex meta, WNodes nodes)))
     | fn \<Rightarrow> outside (other_watch E fn (wp_lastIndex wp)))"

definition retryInterval :: int where
  "retryInterval = 5 * 1000000000"

definition maxBackoffTime :: int where
  "maxBackoffTime = 180 * 1000000000"

text \<open>A \<open>time.Duration\<close> is a signed integer of 64 bits, and so is the product.\<close>

definition backoff :: "int \<Rightarrow> int" where
  "backoff failures =
     (let retry = sint (of_int (retryInterval * (failures * failures)) :: 64 word)
      in if retry > maxBackoffTime then maxBackoffTime else retry)"

text \<open>
  The loop.  \<open>others n d\<close> is what the other goroutines do while this one is blocked,
  in a query or for a sleep of \<open>d\<close> nanoseconds, with \<open>n\<close> rounds left before the
  bound on the rounds is reached.  The sleep ends early when the plan is stopped.
\<close>

fun run_loop :: "nat \<Rightarrow> ('w, 'x) watch_env_scheme \<Rightarrow> (nat \<Rightarrow> int option \<Rightarrow> (('w, 'z) watch_state_scheme, unit) comp) \<Rightarrow>
    (uint \<Rightarrow> watch_result \<Rightarrow> (('w, 'z) watch_state_scheme, unit) comp) \<Rightarrow> nat \<Rightarrow> int \<Rightarrow>
    (('w, 'z) watch_state_scheme, unit) comp" where
  "run_loop 0 E others handler p failures = liftO NoReturn"
| "run_loop (Suc n) E others handler p failures =
     bindM (getM (shouldStop p)) (\<lambda>stopped.
     if stopped then retM ()
     else bindM (getM (\<lambda>s. plans s ! p)) (\<lambda>wp.
       bindM (plan_Func E wp) (\<lambda>r.
       thenM (others n None)
      (bindM (getM (shouldStop p)) (\<lambda>stopped.
       if stopped then retM ()
       else (case r of
           Inl err \<Rightarrow> thenM (others n (Some (backoff (failures + 1))))
             (bindM (getM (shouldStop p)) (\<lambda>stopped.
              if stopped then retM () else run_loop n E others handler p (failures + 1)))
         | Inr (index, result) \<Rightarrow> bindM (getM (\<lambda>s. plans s ! p)) (\<lambda>wp.
             if index = wp_lastIndex wp then run_loop n E others handler p 0
             else thenM (set_plan p (\<lambda>wp. wp\<lparr>wp_lastIndex := index\<rparr>))
               (if wp_lastIndex wp \<noteq> 0 \<and> wp_lastResult wp = result then run_loop n E others handler p 0
                else thenM (set_plan p (\<lambda>wp. wp\<lparr>wp_lastResult := result\<rparr>))
                    (thenM (handler index result) (run_loop n E others handler p 0))))))))))"

definition DefaultConfig :: "('w, 'x) conn_env_scheme \<Rightarrow> (('w, 'z) ecc_state_scheme, Config) comp" where
  "DefaultConfig E = bindM (outside (Getenv E ''CONSUL_HTTP_ADDR'')) (\<lambda>addr.
     retM \<lparr>cfg_Address = (if addr \<noteq> [] then addr else ''127.0.0.1:8500''), cfg_Scheme = ''http'', cfg_Datacenter = [],
       cfg_WaitTime = 0, cfg_Token = []\<rparr>)"

definition HTTPAddrFlag :: "('w, 'x) conn_env_scheme \<Rightarrow> (('w, 'z) ecc_state_scheme, string) comp" where
  "HTTPAddrFlag E = bindM (outside (Getenv E ''CONSUL_HTTP_ADDR'')) (\<lambda>addr. retM (if addr = [] then ''127.0.0.1:8500'' else addr))"

text \<open>An address that names a UNIX socket is not treated.\<close>

definition NewClient :: "('w, 'x) conn_env_scheme \<Rightarrow> Config \<Rightarrow> (('w, 'z) ecc_state_scheme, Config) comp" where
  "NewClient E config = bindM (DefaultConfig E) (\<lambda>defConfig.
     let config = (if cfg_Address config = [] then config\<lparr>cfg_Address := cfg_Address defConfig\<rparr> else config)
     in retM (if cfg_Scheme config = [] then config\<lparr>cfg_Scheme := cfg_Scheme defConfig\<rparr> else config))"

definition plan_Run :: "nat \<Rightarrow> ('w, 'x) watch_env_scheme \<Rightarrow> (nat \<Rightarrow> int option \<Rightarrow> (('w, 'z) watch_state_scheme, unit) comp) \<Rightarrow>
    (uint \<Rightarrow> watch_result \<Rightarrow> (('w, 'z) watch_state_scheme, unit) comp) \<Rightarrow> nat \<Rightarrow> string \<Rightarrow>
    (('w, 'z) watch_state_scheme, unit) comp" where
  "plan_Run n E others handler p address =
     bindM (DefaultConfig E) (\<lambda>conf.
     bindM (getM (\<lambda>s. plans s ! p)) (\<lambda>wp.
     bindM (NewClient E (conf\<lparr>cfg_Address := address, cfg_Datacenter := wp_Datacenter wp, cfg_Token := wp_Token wp\<rparr>)) (\<lambda>client.
     thenM (set_plan p (\<lambda>wp. wp\<lparr>wp_client := client\<rparr>))
       (run_loop n E others handler p 0))))"


subsection \<open>Stopping\<close>

text \<open>A query changes nothing but the outside world.\<close>

definition only_world :: "('w, 'z) ecc_state_scheme \<Rightarrow> ('w, 'z) ecc_state_scheme \<Rightarrow> bool" where
  "only_world s s' \<longleftrightarrow> (\<exists>w. s' = s\<lparr>world := w\<rparr>)"

lemma only_world_refl: "reflp only_world"
  unfolding reflp_def only_world_def by (metis ecc_state.surjective ecc_state.update_convs(1))

lemma only_world_trans: "transp only_world"
  by (auto simp: transp_def only_world_def)

lemma always_tryE [always_intros]:
  "reflp Q \<Longrightarrow> transp Q \<Longrightarrow> always Q m \<Longrightarrow> (\<And>a. always Q (f a)) \<Longrightarrow> always Q (tryE m f)"
  unfolding tryE_def by (intro always_bind) (auto intro: always_ret split: sum.splits)

lemma always_only_world: "always only_world (outside f)"
  by (intro always_outside) (auto simp: only_world_def)

lemmas always_query = only_world_refl only_world_trans always_ret always_bind always_tryE always_only_world

lemma KV_getInternal_always: "always only_world (KV_getInternal E c key extra q)"
  unfolding KV_getInternal_def Let_def by (intro always_query) (auto intro!: always_query split: prod.splits)

lemma KV_Get_always: "always only_world (KV_Get E c key q)"
  unfolding KV_Get_def
  by (intro always_query KV_getInternal_always) (auto intro!: always_query split: prod.splits option.splits sum.splits list.splits)

lemma KV_List_always: "always only_world (KV_List E c key q)"
  unfolding KV_List_def
  by (intro always_query KV_getInternal_always) (auto intro!: always_query split: prod.splits option.splits sum.splits)

lemma Catalog_Nodes_always: "always only_world (Catalog_Nodes E c q)"
  unfolding Catalog_Nodes_def by (intro always_query) (auto intro!: always_query split: prod.splits sum.splits)

lemma plan_Func_run: obtains r w where "plan_Func E wp s = (Ret r, s\<lparr>world := w\<rparr>)"
proof -
  have "always only_world (plan_Func E wp)"
    unfolding plan_Func_def Let_def
    by (auto intro!: always_query KV_Get_always KV_List_always Catalog_Nodes_always split: WatchFunc.splits prod.splits)
  then show ?thesis using that unfolding always_def only_world_def by blast
qed

lemma run_loop_stopped: "shouldStop p s \<Longrightarrow> run_loop (Suc n) E others handler p failures s = (Ret (), s)"
  by (simp add: run_simps)

text \<open>Plans are never freed.\<close>

definition keeps_plans :: "('w, 'z) watch_state_scheme \<Rightarrow> ('w, 'z) watch_state_scheme \<Rightarrow> bool" where
  "keeps_plans s s' \<longleftrightarrow> length (plans s) \<le> length (plans s')"

lemma keeps_plans_run:
  assumes "always keeps_plans m" "p < length (plans s)"
  obtains s' where "m s = (Ret (), s')" "p < length (plans s')"
proof -
  obtain a s' where "m s = (Ret a, s')" "keeps_plans s s'" using assms(1) unfolding always_def by blast
  then show ?thesis using assms(2) that[of s'] by (simp add: keeps_plans_def)
qed

lemma run_loop_returns:
  assumes o1: "\<And>i d. always keeps_plans (others i d)" and h: "\<And>i r. always keeps_plans (handler i r)"
    and k: "others k None = plan_Stop p" "k < n" and p: "p < length (plans s)"
  shows "\<exists>s'. run_loop n E others handler p failures s = (Ret (), s')"
  using k(2) p
proof (induction n arbitrary: failures s)
  case (Suc n)
  show ?case
  proof (cases "shouldStop p s")
    case True
    then show ?thesis using run_loop_stopped by blast
  next
    case run: False
    obtain r w where f: "plan_Func E (plans s ! p) s = (Ret r, s\<lparr>world := w\<rparr>)" by (rule plan_Func_run)
    obtain t where t: "others n None (s\<lparr>world := w\<rparr>) = (Ret (), t)" "p < length (plans t)"
      by (rule keeps_plans_run[OF o1, of p "s\<lparr>world := w\<rparr>"]) (use Suc.prems(2) in simp)
    show ?thesis
    proof (cases "shouldStop p t")
      case True
      then show ?thesis using run f t by (simp add: run_simps)
    next
      case go: False
      have "k \<noteq> n"
      proof
        assume "k = n"
        then have "t = s\<lparr>world := w, plans := (plans s)[p := (plans s ! p)\<lparr>wp_stop := True\<rparr>]\<rparr>"
          using t(1) k(1) by (simp add: plan_Stop_def set_plan_def run_simps)
        then show False using go Suc.prems(2) by (simp add: shouldStop_def)
      qed
      then have kn: "k < n" using Suc.prems(1) by simp
      note IH = Suc.IH[OF kn]
      have S: "set_plan p g u = (Ret (), u\<lparr>plans := (plans u)[p := g (plans u ! p)]\<rparr>)" for g u by (simp add: set_plan_def run_simps)
      show ?thesis
      proof (cases r)
        case (Inl err)
        obtain x where x: "others n (Some (backoff (failures + 1))) t = (Ret (), x)" "p < length (plans x)"
          by (rule keeps_plans_run[OF o1 t(2)])
        show ?thesis using Inl run f t(1) go x(1) IH[OF x(2), of "failures + 1"] by (simp add: run_simps)
      next
        case (Inr ir)
        obtain index result where [simp]: "ir = (index, result)" by (cases ir)
        define t1 where "t1 = t\<lparr>plans := (plans t)[p := (plans t ! p)\<lparr>wp_lastIndex := index\<rparr>]\<rparr>"
        define t2 where "t2 = t1\<lparr>plans := (plans t1)[p := (plans t1 ! p)\<lparr>wp_lastResult := result\<rparr>]\<rparr>"
        have l: "p < length (plans t1)" "p < length (plans t2)" using t(2) by (simp_all add: t1_def t2_def)
        obtain y where y: "handler index result t2 = (Ret (), y)" "p < length (plans y)"
          by (rule keeps_plans_run[OF h l(2)])
        show ?thesis
          using run f t(1) go Inr y(1) IH[OF t(2), of 0] IH[OF l(1), of 0] IH[OF y(2), of 0]
          by (simp add: run_simps S flip: t1_def t2_def)
      qed
    qed
  qed
qed simp

subsection \<open>Properties\<close>

text \<open>C37. A watch that fails again and again waits five seconds times the square of the number
  of failures, at most three minutes, up to its 42949th failure; with the next one
  the product leaves the 64 bits of a duration, the wait is negative, and the loop
  goes on without waiting.\<close>

theorem watch_backoff:
  assumes "1 \<le> n" "n \<le> 42949"
  shows "backoff n = min maxBackoffTime (retryInterval * (n * n)) \<and> retryInterval \<le> backoff n \<and> backoff 42950 < 0"
proof -
  define x where "x = retryInterval * (n * n)"
  have "1 * 1 \<le> n * n" "n * n \<le> 42949 * 42949" using assms by (intro mult_mono; simp)+
  then have x: "retryInterval \<le> x" "x < 2 ^ 63" by (simp_all add: retryInterval_def x_def)
  then have "sint (of_int x :: 64 word) = x"
    by (simp add: sint_sbintrunc' signed_take_bit_int_eq_self retryInterval_def)
  then have "backoff n = min maxBackoffTime x" by (simp add: backoff_def flip: x_def)
  moreover have "backoff 42950 < 0" by code_simp
  ultimately show ?thesis using x(1) by (simp add: x_def retryInterval_def maxBackoffTime_def)
qed

theorem watch_backoff_witness: "backoff 3 = 45000000000 \<and> backoff 42950 < 0"
  using watch_backoff[of 3] by (simp add: retryInterval_def maxBackoffTime_def)

text \<open>C24. Stopping a plan ends its loop: whatever the queries answer, and whatever the handler
  and the other goroutines do as long as each of them returns, once the plan is
  stopped during a query the loop returns.\<close>

theorem watch_stop_terminates:
  assumes "\<And>i d. always keeps_plans (others i d)" "\<And>i r. always keeps_plans (handler i r)"
    and "others k None = plan_Stop p" "k < n" "p < length (plans s)"
  shows "\<exists>s'. plan_Run n E others handler p address s = (Ret (), s')"
proof -
  obtain c w1 where d: "DefaultConfig E s = (Ret c, s\<lparr>world := w1\<rparr>)" by (simp add: DefaultConfig_def run_simps)
  define s1 where "s1 = s\<lparr>world := w1\<rparr>"
  define conf where "conf = c\<lparr>cfg_Address := address, cfg_Datacenter := wp_Datacenter (plans s1 ! p), cfg_Token := wp_Token (plans s1 ! p)\<rparr>"
  obtain cl w2 where n: "NewClient E conf s1 = (Ret cl, s1\<lparr>world := w2\<rparr>)" by (simp add: NewClient_def DefaultConfig_def run_simps Let_def)
  define s2 where "s2 = s1\<lparr>world := w2, plans := (plans s1)[p := (plans s1 ! p)\<lparr>wp_client := cl\<rparr>]\<rparr>"
  have "p < length (plans s2)" using assms(5) by (simp add: s1_def s2_def)
  with run_loop_returns[where others = others and handler = handler and k = k and s = s2, OF assms(1-4)]
  obtain s' where "run_loop n E others handler p 0 s2 = (Ret (), s')" by blast
  then show ?thesis using d n unfolding s1_def[symmetric] conf_def
    by (simp add: plan_Run_def run_simps set_plan_def flip: s2_def)
qed


definition nodes_plan :: WatchPlan where
  "nodes_plan = \<lparr>wp_Datacenter = [], wp_Token = [], wp_Type = ''nodes'', wp_Exempt = [], wp_Func = NodesWatch,
     wp_client = \<lparr>cfg_Address = [], cfg_Scheme = [], cfg_Datacenter = [], cfg_WaitTime = 0, cfg_Token = []\<rparr>,
     wp_lastIndex = 0, wp_lastResult = WNil, wp_stop = False\<rparr>"

definition watch_node :: "kvs_store watch_state" where
  "watch_node = conn_state.extend conn_node (watch_state.fields [nodes_plan])"

theorem watch_stop_terminates_witness:
  "\<forall>E :: kvs_store watch_env. \<exists>s'. plan_Run 3 E (\<lambda>i d. if i = 1 \<and> d = None then plan_Stop 0 else retM ()) (\<lambda>i r. retM ()) 0 ''127.0.0.1:8500'' watch_node = (Ret (), s')"
proof
  fix E :: "kvs_store watch_env"
  let ?o = "\<lambda>i d. if i = 1 \<and> d = None then plan_Stop 0 else retM ()"
  have "always keeps_plans (?o i d)" for i :: nat and d :: "int option"
    by (simp add: always_def keeps_plans_def plan_Stop_def set_plan_def run_simps)
  moreover have "always keeps_plans ((\<lambda>i r. retM ()) i r)" for i :: uint and r :: watch_result
    by (simp add: always_def keeps_plans_def run_simps)
  ultimately show "\<exists>s'. plan_Run 3 E ?o (\<lambda>i r. retM ()) 0 ''127.0.0.1:8500'' watch_node = (Ret (), s')"
    by (rule watch_stop_terminates[where k = 1]) (simp_all add: watch_node_def conn_state.defs watch_state.defs)
qed

end
