(* ===== verification/Watches.thy ===== *)
theory Watches
  imports ConsulWatch
begin

section \<open>Following the cluster (socketplane/ecc and daemon/datastore.go)\<close>

text \<open>
  The rest of ecc.go: starting, joining and leaving the cluster with the embedded
  agent, and the watches that tell listeners about nodes and keys; with the listener
  of the daemon and its calls in datastore.go.

  There are two types of listeners, \<open>eccListener\<close> of package ecc and of package
  daemon, both without fields, so a listener is known by its type.  \<open>goroutines\<close>
  are the calls started with \<open>go\<close> that have not run; \<open>run_goroutine\<close> runs one.
  A handler of a watch is the closure ecc.go registers, without its code.  The agent
  itself is Consul's command line, a function of the environment: \<open>cli_Run\<close> for
  the commands that return, \<open>cli_Start\<close> for what the agent returned within the
  five seconds \<open>Start\<close> waits.  A map of watches is kept in the order of its first
  entries; the order in which goroutines run does not depend on it.
\<close>

subsection \<open>State\<close>

datatype NotifyUpdateType = NOTIFY_UPDATE_ADD | NOTIFY_UPDATE_MODIFY | NOTIFY_UPDATE_DELETE

datatype WatchType = WATCH_TYPE_NODE | WATCH_TYPE_KEY | WATCH_TYPE_STORE | WATCH_TYPE_EVENT

datatype Listener = Ecc_eccListener | Daemon_eccListener

record watchData =
  wd_listeners :: "(string \<times> Listener list) list"
  wd_watchPlans :: "nat list"

datatype goroutine =
    Go_RegisterForNodeUpdates Listener
  | Go_registerForNodeUpdates
  | Go_registerForKeyUpdates string
  | Go_registerForStoreUpdates string

record NetInterface =
  ni_Name :: string
  ni_Flags :: uint

record 'w cluster_env = "'w watch_env" +
  InterfaceByName :: "string \<Rightarrow> 'w \<Rightarrow> (gerror + NetInterface) \<times> 'w"
  intf_Addrs :: "NetInterface \<Rightarrow> 'w \<Rightarrow> (gerror + string list) \<times> 'w"
  cli_Run :: "string list \<Rightarrow> 'w \<Rightarrow> (gerror + int) \<times> 'w"
  cli_Start :: "string list \<Rightarrow> 'w \<Rightarrow> (gerror + int) option \<times> 'w"
  RemoveAll :: "string \<Rightarrow> 'w \<Rightarrow> gerror option \<times> 'w"

record 'w cluster_state = "'w watch_state" +
  watches :: "(WatchType \<times> watchData) list"
  nodeCache :: "Node option list"
  goroutines :: "goroutine list"

subsection \<open>Listeners\<close>

definition ws_contains :: "WatchType \<Rightarrow> string \<Rightarrow> Listener \<Rightarrow> ('w, 'z) cluster_state_scheme \<Rightarrow> bool" where
  "ws_contains wtype key elem s = (case map_of (watches s) wtype of
       None \<Rightarrow> False
     | Some ws \<Rightarrow> (case map_of (wd_listeners ws) key of None \<Rightarrow> False | Some ls \<Rightarrow> elem \<in> set ls))"

definition addListener :: "WatchType \<Rightarrow> string \<Rightarrow> Listener \<Rightarrow> (('w, 'z) cluster_state_scheme, bool) comp" where
  "addListener wtype key listener = bindM (getM (ws_contains WATCH_TYPE_NODE key listener)) (\<lambda>there.
     if there then retM False
     else bindM (getM (\<lambda>s. case map_of (watches s) wtype of None \<Rightarrow> \<lparr>wd_listeners = [], wd_watchPlans = []\<rparr> | Some ws \<Rightarrow> ws)) (\<lambda>ws.
       let ls = (case map_of (wd_listeners ws) key of None \<Rightarrow> [] | Some ls \<Rightarrow> ls);
           wc = (map_of (wd_listeners ws) key = None)
       in thenM (modifyM (\<lambda>s. s\<lparr>watches := AList.update wtype
              (ws\<lparr>wd_listeners := AList.update key (ls @ [listener]) (wd_listeners ws)\<rparr>) (watches s)\<rparr>))
            (retM wc)))"

definition getListeners :: "WatchType \<Rightarrow> string \<Rightarrow> ('w, 'z) cluster_state_scheme \<Rightarrow> Listener list" where
  "getListeners wtype key s = (case map_of (watches s) wtype of
       None \<Rightarrow> []
     | Some ws \<Rightarrow> (case map_of (wd_listeners ws) key of None \<Rightarrow> [] | Some ls \<Rightarrow> ls))"

definition addWatchPlan :: "WatchType \<Rightarrow> nat \<Rightarrow> (('w, 'z) cluster_state_scheme, unit) comp" where
  "addWatchPlan wtype wp = modifyM (\<lambda>s. case map_of (watches s) wtype of
       None \<Rightarrow> s
     | Some ws \<Rightarrow> s\<lparr>watches := AList.update wtype (ws\<lparr>wd_watchPlans := wd_watchPlans ws @ [wp]\<rparr>) (watches s)\<rparr>)"

text \<open>The assignment to \<open>ws.watchPlans\<close> is to a copy: the plans stay in the map.\<close>

definition stopWatches :: "(('w, 'z) cluster_state_scheme, unit) comp" where
  "stopWatches = bindM (getM watches) (\<lambda>m. notify_all (\<lambda>(_, ws). notify_all plan_Stop (wd_watchPlans ws)) m)"

subsection \<open>What the listeners do\<close>

definition ecc_NotifyNodeUpdate :: "('w, 'x) ovs_env_scheme \<Rightarrow> NotifyUpdateType \<Rightarrow> string \<Rightarrow> (('w, 'z) bridge_state_scheme, unit) comp" where
  "ecc_NotifyNodeUpdate E nType nodeAddress = bindM (getM started) (\<lambda>st.
     if nType = NOTIFY_UPDATE_ADD \<and> \<not> st then populateKVStoreFromCache E else retM ())"

definition daemon_NotifyNodeUpdate :: "('w, 'x) ovs_env_scheme \<Rightarrow> NotifyUpdateType \<Rightarrow> string \<Rightarrow> (('w, 'z) bridge_state_scheme, unit) comp" where
  "daemon_NotifyNodeUpdate E nType nodeAddress =
     (if nType = NOTIFY_UPDATE_ADD then thenM (AddPeer E nodeAddress) (retM ())
      else if nType = NOTIFY_UPDATE_DELETE then thenM (DeletePeer E nodeAddress) (retM ())
      else retM ())"

text \<open>The call through the interface \<open>Listener\<close>.\<close>

definition NotifyNodeUpdate :: "('w, 'x) ovs_env_scheme \<Rightarrow> Listener \<Rightarrow> NotifyUpdateType \<Rightarrow> string \<Rightarrow>
    (('w, 'z) bridge_state_scheme, unit) comp" where
  "NotifyNodeUpdate E l nType nodeAddress = (case l of
       Ecc_eccListener \<Rightarrow> ecc_NotifyNodeUpdate E nType nodeAddress
     | Daemon_eccListener \<Rightarrow> daemon_NotifyNodeUpdate E nType nodeAddress)"

definition NotifyKeyUpdate :: "Listener \<Rightarrow> NotifyUpdateType \<Rightarrow> string \<Rightarrow> bytes \<Rightarrow> (('w, 'z) bridge_state_scheme, unit) comp" where
  "NotifyKeyUpdate l nType key data = retM ()"

subsection \<open>Nodes and keys\<close>

text \<open>The addresses of a slice of pointers to nodes.\<close>

fun addresses :: "Node option list \<Rightarrow> string list outcome" where
  "addresses [] = Ret []"
| "addresses (n # ns) = (case n of None \<Rightarrow> nil_panic | Some nd \<Rightarrow> bindO (addresses ns) (\<lambda>as. Ret (nd_Address nd # as)))"

fun not_among :: "string list \<Rightarrow> Node option list \<Rightarrow> Node option list outcome" where
  "not_among m [] = Ret []"
| "not_among m (x # xs) = (case x of
       None \<Rightarrow> nil_panic
     | Some nd \<Rightarrow> if nd_Address nd \<in> set m then not_among m xs else bindO (not_among m xs) (\<lambda>r. Ret (Some nd # r)))"

definition compare_nodes :: "Node option list \<Rightarrow> Node option list \<Rightarrow> Node option list outcome" where
  "compare_nodes X Y = bindO (addresses Y) (\<lambda>m. not_among m X)"

text \<open>\<open>notify l t a\<close> is the call \<open>l.NotifyNodeUpdate(t, a)\<close>.\<close>

definition tell_nodes :: "(Listener \<Rightarrow> NotifyUpdateType \<Rightarrow> string \<Rightarrow> ('s, unit) comp) \<Rightarrow> NotifyUpdateType \<Rightarrow> Node option list \<Rightarrow>
    Listener list \<Rightarrow> ('s, unit) comp" where
  "tell_nodes notify t ns ls = notify_all (\<lambda>n. case n of
       None \<Rightarrow> liftO nil_panic
     | Some nd \<Rightarrow> notify_all (\<lambda>l. notify l t (nd_Address nd)) ls) ns"

definition updateNodeListeners :: "(Listener \<Rightarrow> NotifyUpdateType \<Rightarrow> string \<Rightarrow> (('w, 'z) cluster_state_scheme, unit) comp) \<Rightarrow>
    Node option list \<Rightarrow> (('w, 'z) cluster_state_scheme, unit) comp" where
  "updateNodeListeners notify clusterNodes = bindM (getM nodeCache) (\<lambda>cache.
     bindM (liftO (compare_nodes cache clusterNodes)) (\<lambda>toDelete.
     bindM (liftO (compare_nodes clusterNodes cache)) (\<lambda>toAdd.
     thenM (modifyM (\<lambda>s. s\<lparr>nodeCache := clusterNodes\<rparr>))
    (bindM (getM (getListeners WATCH_TYPE_NODE [])) (\<lambda>listeners.
       if listeners = [] then retM ()
       else thenM (tell_nodes notify NOTIFY_UPDATE_DELETE toDelete listeners)
                  (tell_nodes notify NOTIFY_UPDATE_ADD toAdd listeners))))))"

definition updateKeyListeners :: "uint \<Rightarrow> string \<Rightarrow> watch_result \<Rightarrow> (('w, 'z) cluster_state_scheme, unit) comp" where
  "updateKeyListeners idx key data = bindM (getM (getListeners WATCH_TYPE_KEY key)) (\<lambda>listeners.
     if listeners = [] then retM ()
     else (case data of
         WNil \<Rightarrow> notify_all (\<lambda>l. NotifyKeyUpdate l NOTIFY_UPDATE_DELETE key []) listeners
       | WPair kv \<Rightarrow> notify_all (\<lambda>l. NotifyKeyUpdate l
           (if idx = kv_CreateIndex kv then NOTIFY_UPDATE_ADD else NOTIFY_UPDATE_MODIFY) key (kv_Value kv)) listeners
       | _ \<Rightarrow> liftO assert_panic))"

subsection \<open>Watches\<close>

datatype watch_handler = NodesHandler | KeyHandler string | StoreHandler

definition run_handler :: "('w, 'x) ovs_env_scheme \<Rightarrow> watch_handler \<Rightarrow> uint \<Rightarrow> watch_result \<Rightarrow>
    (('w, 'z) cluster_state_scheme, unit) comp" where
  "run_handler E h idx data = (case h of
       NodesHandler \<Rightarrow> (case data of WNodes nodes \<Rightarrow> updateNodeListeners (NotifyNodeUpdate E) nodes | _ \<Rightarrow> liftO assert_panic)
     | KeyHandler absKey \<Rightarrow> updateKeyListeners idx absKey data
     | StoreHandler \<Rightarrow> retM ())"

definition register :: "nat \<Rightarrow> ('w, 'x) watch_env_scheme \<Rightarrow> (nat \<Rightarrow> int option \<Rightarrow> (('w, 'z) cluster_state_scheme, unit) comp) \<Rightarrow>
    WatchType \<Rightarrow> (string \<times> gval) list \<Rightarrow> watch_handler \<Rightarrow> (('w, 'z) cluster_state_scheme, unit) comp" where
  "register n E others wtype params handler = (case watch_Parse E params of
       Inl err \<Rightarrow> retM ()
     | Inr wp \<Rightarrow> bindM (getM (\<lambda>s. length (plans s))) (\<lambda>p.
         thenM (modifyM (\<lambda>s. s\<lparr>plans := plans s @ [wp]\<rparr>))
        (thenM (addWatchPlan wtype p)
        (bindM (HTTPAddrFlag E) (\<lambda>httpAddr. plan_Run n E others (run_handler E handler) p httpAddr)))))"

definition registerForNodeUpdates :: "nat \<Rightarrow> ('w, 'x) watch_env_scheme \<Rightarrow>
    (nat \<Rightarrow> int option \<Rightarrow> (('w, 'z) cluster_state_scheme, unit) comp) \<Rightarrow> (('w, 'z) cluster_state_scheme, unit) comp" where
  "registerForNodeUpdates n E others = register n E others WATCH_TYPE_NODE [(''type'', GStr ''nodes'')] NodesHandler"

definition RegisterForNodeUpdates :: "nat \<Rightarrow> ('w, 'x) watch_env_scheme \<Rightarrow>
    (nat \<Rightarrow> int option \<Rightarrow> (('w, 'z) cluster_state_scheme, unit) comp) \<Rightarrow> Listener \<Rightarrow> (('w, 'z) cluster_state_scheme, unit) comp" where
  "RegisterForNodeUpdates n E others listener = bindM (addListener WATCH_TYPE_NODE [] listener) (\<lambda>wc.
     if wc then registerForNodeUpdates n E others else retM ())"

definition registerForKeyUpdates :: "nat \<Rightarrow> ('w, 'x) watch_env_scheme \<Rightarrow>
    (nat \<Rightarrow> int option \<Rightarrow> (('w, 'z) cluster_state_scheme, unit) comp) \<Rightarrow> string \<Rightarrow> (('w, 'z) cluster_state_scheme, unit) comp" where
  "registerForKeyUpdates n E others absKey =
     register n E others WATCH_TYPE_KEY [(''type'', GStr ''key''), (''key'', GStr absKey)] (KeyHandler absKey)"

definition RegisterForKeyUpdates :: "nat \<Rightarrow> ('w, 'x) watch_env_scheme \<Rightarrow>
    (nat \<Rightarrow> int option \<Rightarrow> (('w, 'z) cluster_state_scheme, unit) comp) \<Rightarrow> string \<Rightarrow> string \<Rightarrow> Listener \<Rightarrow>
    (('w, 'z) cluster_state_scheme, unit) comp" where
  "RegisterForKeyUpdates n E others store1 key listener = (let absKey = store1 @ ''/'' @ key in
     bindM (addListener WATCH_TYPE_KEY absKey listener) (\<lambda>wc.
       if wc then registerForKeyUpdates n E others absKey else retM ()))"

definition registerForStoreUpdates :: "nat \<Rightarrow> ('w, 'x) watch_env_scheme \<Rightarrow>
    (nat \<Rightarrow> int option \<Rightarrow> (('w, 'z) cluster_state_scheme, unit) comp) \<Rightarrow> string \<Rightarrow> (('w, 'z) cluster_state_scheme, unit) comp" where
  "registerForStoreUpdates n E others store1 =
     register n E others WATCH_TYPE_STORE [(''type'', GStr ''keyprefix''), (''prefix'', GStr (store1 @ ''/''))] StoreHandler"

definition RegisterForStoreUpdates :: "nat \<Rightarrow> ('w, 'x) watch_env_scheme \<Rightarrow>
    (nat \<Rightarrow> int option \<Rightarrow> (('w, 'z) cluster_state_scheme, unit) comp) \<Rightarrow> string \<Rightarrow> Listener \<Rightarrow>
    (('w, 'z) cluster_state_scheme, unit) comp" where
  "RegisterForStoreUpdates n E others store1 listener = bindM (addListener WATCH_TYPE_STORE store1 listener) (\<lambda>wc.
     if wc then registerForStoreUpdates n E others store1 else retM ())"

definition go :: "goroutine \<Rightarrow> (('w, 'z) cluster_state_scheme, unit) comp" where
  "go g = modifyM (\<lambda>s. s\<lparr>goroutines := goroutines s @ [g]\<rparr>)"

definition watchForExistingRegisteredUpdates :: "('w, 'x) http_env_scheme \<Rightarrow> (('w, 'z) cluster_state_scheme, unit) comp" where
  "watchForExistingRegisteredUpdates E = bindM (getM watches) (\<lambda>m.
     notify_all (\<lambda>(wType, ws). notify_all (\<lambda>key. case wType of
         WATCH_TYPE_NODE \<Rightarrow> go Go_registerForNodeUpdates
       | WATCH_TYPE_KEY \<Rightarrow> go (Go_registerForKeyUpdates key)
       | WATCH_TYPE_STORE \<Rightarrow> go (Go_registerForStoreUpdates key)
       | WATCH_TYPE_EVENT \<Rightarrow> retM ()) (range_order E (map fst (wd_listeners ws)))) m)"

definition run_goroutine :: "nat \<Rightarrow> ('w, 'x) watch_env_scheme \<Rightarrow>
    (nat \<Rightarrow> int option \<Rightarrow> (('w, 'z) cluster_state_scheme, unit) comp) \<Rightarrow> nat \<Rightarrow> (('w, 'z) cluster_state_scheme, unit) comp" where
  "run_goroutine n E others i = bindM (getM goroutines) (\<lambda>gs.
     if i < length gs then
       thenM (modifyM (\<lambda>s. s\<lparr>goroutines := take i gs @ drop (Suc i) gs\<rparr>)) (case gs ! i of
           Go_RegisterForNodeUpdates l \<Rightarrow> RegisterForNodeUpdates n E others l
         | Go_registerForNodeUpdates \<Rightarrow> registerForNodeUpdates n E others
         | Go_registerForKeyUpdates key \<Rightarrow> registerForKeyUpdates n E others key
         | Go_registerForStoreUpdates key \<Rightarrow> registerForStoreUpdates n E others key)
     else retM ())"

subsection \<open>The agent\<close>

definition Execute_args :: "string list \<Rightarrow> string list" where
  "Execute_args args = (if ''-v'' \<in> set args \<or> ''--version'' \<in> set args then ''version'' # args else args)"

definition exit_code :: "gerror + int \<Rightarrow> int" where
  "exit_code r = (case r of Inl err \<Rightarrow> 1 | Inr c \<Rightarrow> c)"

definition Execute :: "('w, 'x) cluster_env_scheme \<Rightarrow> string list \<Rightarrow> (('w, 'z) ecc_state_scheme, int) comp" where
  "Execute E args = bindM (outside (cli_Run E (Execute_args args))) (\<lambda>r. retM (exit_code r))"

definition consul_args :: "bool \<Rightarrow> bool \<Rightarrow> string \<Rightarrow> string \<Rightarrow> string list" where
  "consul_args serverMode bootstrap bindAddress dataDir =
     [''agent'', ''-data-dir'', dataDir] @ (if serverMode then [''-server''] else []) @ (if bootstrap then [''-bootstrap''] else []) @
     (if bindAddress \<noteq> [] then [''-bind'', bindAddress, ''-advertise'', bindAddress] else [])"

text \<open>What the agent sent on the channel in time.\<close>

definition startConsul :: "('w, 'x) cluster_env_scheme \<Rightarrow> bool \<Rightarrow> bool \<Rightarrow> string \<Rightarrow> string \<Rightarrow>
    (('w, 'z) ecc_state_scheme, int option) comp" where
  "startConsul E serverMode bootstrap bindAddress dataDir =
     bindM (outside (cli_Start E (Execute_args (consul_args serverMode bootstrap bindAddress dataDir)))) (\<lambda>r.
       retM (map_option exit_code r))"

fun bind_address :: "string list \<Rightarrow> string \<Rightarrow> string" where
  "bind_address [] b = b"
| "bind_address (addr # addrs) b = bind_address addrs (case ParseCIDR addr of
       Inl _ \<Rightarrow> b
     | Inr (ip, _) \<Rightarrow> if ip \<noteq> [] \<and> To4 ip \<noteq> [] then ip_String (To4 ip) else b)"

definition Start :: "('w, 'x) cluster_env_scheme \<Rightarrow> bool \<Rightarrow> bool \<Rightarrow> string \<Rightarrow> string \<Rightarrow>
    (('w, 'z) cluster_state_scheme, gerror option) comp" where
  "Start E serverMode bootstrap bindInterface dataDir =
     tryM (if bindInterface \<noteq> [] then
             tryE (outside (InterfaceByName E bindInterface)) (\<lambda>intf.
               bindM (outside (intf_Addrs E intf)) (\<lambda>r. retM (Inr (case r of Inl _ \<Rightarrow> [] | Inr addrs \<Rightarrow> bind_address addrs []))))
           else retM (Inr [])) (\<lambda>bindAddress.
       thenM (watchForExistingRegisteredUpdates E)
      (thenM (go (Go_RegisterForNodeUpdates Ecc_eccListener))
      (bindM (startConsul E serverMode bootstrap bindAddress dataDir) (\<lambda>errCh. case errCh of
         Some _ \<Rightarrow> retM (Some (Err ''Error starting Consul Agent''))
       | None \<Rightarrow> retM None))))"

definition Join :: "('w, 'x) cluster_env_scheme \<Rightarrow> string \<Rightarrow> (('w, 'z) ecc_state_scheme, gerror option) comp" where
  "Join E address = bindM (Execute E [''join'', address]) (\<lambda>ret.
     if ret \<noteq> 0 then retM (Some (Err ''Error adding member'')) else retM None)"

definition Leave :: "('w, 'x) cluster_env_scheme \<Rightarrow> (('w, 'z) cluster_state_scheme, gerror option) comp" where
  "Leave E = thenM stopWatches (bindM (Execute E [''leave'']) (\<lambda>ret.
     if ret \<noteq> 0 then retM (Some (Err ''Error leaving Consul cluster'')) else retM None))"

definition ConsulGet :: "('w, 'x) http_env_scheme \<Rightarrow> string \<Rightarrow> (('w, 'z) ecc_state_scheme, string \<times> bool) comp" where
  "ConsulGet E url = bindM (http_Get E url) (\<lambda>resp. case resp of
       None \<Rightarrow> retM ([], False)
     | Some (status, body) \<Rightarrow>
         if 200 \<le> status \<and> status < 300 then
           bindM (liftO (slice_get (unmarshal_bodies body) 0)) (\<lambda>b.
             let (existingValue, ok) = decode64 (cb_Value b) in
             if \<not> ok then retM ([], False) else retM (str existingValue, True))
         else retM ([], False))"

subsection \<open>The daemon's datastore\<close>

definition dataDir :: string where
  "dataDir = ''/tmp/socketplane''"

definition InitDatastore :: "('w, 'x) cluster_env_scheme \<Rightarrow> string \<Rightarrow> bool \<Rightarrow> (('w, 'z) cluster_state_scheme, gerror option) comp" where
  "InitDatastore E bindInterface bootstrap = bindM (Start E bootstrap bootstrap bindInterface dataDir) (\<lambda>err.
     thenM (if err = None then go (Go_RegisterForNodeUpdates Daemon_eccListener) else retM ()) (retM err))"

definition JoinDatastore :: "('w, 'x) cluster_env_scheme \<Rightarrow> string \<Rightarrow> (('w, 'z) ecc_state_scheme, gerror option) comp" where
  "JoinDatastore E address = Join E address"

definition LeaveDatastore :: "('w, 'x) cluster_env_scheme \<Rightarrow> (('w, 'z) cluster_state_scheme, gerror option) comp" where
  "LeaveDatastore E = guardM (Leave E) (outside (RemoveAll E dataDir))"


subsection \<open>What a listener hears\<close>

text \<open>A state that records the calls of \<open>NotifyNodeUpdate\<close>.\<close>

record 'w logged_state = "'w cluster_state" +
  node_log :: "(Listener \<times> NotifyUpdateType \<times> string) list"

definition log_notify :: "Listener \<Rightarrow> NotifyUpdateType \<Rightarrow> string \<Rightarrow> (('w, 'z) logged_state_scheme, unit) comp" where
  "log_notify l t a = modifyM (\<lambda>s. s\<lparr>node_log := node_log s @ [(l, t, a)]\<rparr>)"

text \<open>The set of addresses a listener arrives at by following what it is told.\<close>

fun hear :: "Listener \<Rightarrow> (Listener \<times> NotifyUpdateType \<times> string) list \<Rightarrow> string set \<Rightarrow> string set" where
  "hear l [] S = S"
| "hear l ((l', t, a) # calls) S = hear l calls
     (if l' \<noteq> l then S else case t of
        NOTIFY_UPDATE_ADD \<Rightarrow> insert a S | NOTIFY_UPDATE_DELETE \<Rightarrow> S - {a} | NOTIFY_UPDATE_MODIFY \<Rightarrow> S)"

lemma hear_append [simp]: "hear l (xs @ ys) S = hear l ys (hear l xs S)"
  by (induction xs arbitrary: S) auto

lemma addresses_nodes: "addresses (map Some ns) = Ret (map nd_Address ns)"
  by (induction ns) auto

lemma not_among_nodes: "not_among m (map Some ns) = Ret (map Some (filter (\<lambda>n. nd_Address n \<notin> set m) ns))"
  by (induction ns) auto

lemma compare_nodes_filter:
  "compare_nodes (map Some X) (map Some Y) = Ret (map Some (filter (\<lambda>n. nd_Address n \<notin> nd_Address ` set Y) X))"
  by (simp add: compare_nodes_def addresses_nodes not_among_nodes)

definition told :: "NotifyUpdateType \<Rightarrow> Node list \<Rightarrow> Listener list \<Rightarrow> (Listener \<times> NotifyUpdateType \<times> string) list" where
  "told t ns ls = concat (map (\<lambda>n. map (\<lambda>l. (l, t, nd_Address n)) ls) ns)"

lemma notify_all_log: "notify_all (\<lambda>l. log_notify l t a) ls s = (Ret (), s\<lparr>node_log := node_log s @ map (\<lambda>l. (l, t, a)) ls\<rparr>)"
  by (induction ls arbitrary: s) (simp_all add: run_simps log_notify_def)

lemma tell_nodes_log:
  "tell_nodes log_notify t (map Some ns) ls s = (Ret (), s\<lparr>node_log := node_log s @ told t ns ls\<rparr>)"
  unfolding tell_nodes_def by (induction ns arbitrary: s) (simp_all add: run_simps notify_all_log told_def)

lemma updateNodeListeners_log:
  assumes "nodeCache s = map Some old" "getListeners WATCH_TYPE_NODE [] s = ls"
  shows "updateNodeListeners log_notify (map Some new) s = (Ret (), s\<lparr>nodeCache := map Some new,
    node_log := node_log s @ told NOTIFY_UPDATE_DELETE (filter (\<lambda>n. nd_Address n \<notin> nd_Address ` set new) old) ls @
      told NOTIFY_UPDATE_ADD (filter (\<lambda>n. nd_Address n \<notin> nd_Address ` set old) new) ls\<rparr>)"
proof -
  have "getListeners WATCH_TYPE_NODE [] (s\<lparr>nodeCache := x\<rparr>) = ls" for x using assms(2) by (simp add: getListeners_def)
  moreover have "told t ns [] = []" for t ns by (simp add: told_def)
  ultimately show ?thesis
    using assms(1) by (simp add: updateNodeListeners_def run_simps compare_nodes_filter tell_nodes_log)
qed

lemma hear_one:
  "hear l (map (\<lambda>l. (l, NOTIFY_UPDATE_DELETE, a)) ls) S = (if l \<in> set ls then S - {a} else S)"
  "hear l (map (\<lambda>l. (l, NOTIFY_UPDATE_ADD, a)) ls) S = (if l \<in> set ls then insert a S else S)"
  by (induction ls arbitrary: S) auto

lemma hear_told:
  assumes "l \<in> set ls"
  shows "hear l (told NOTIFY_UPDATE_DELETE ns ls) S = S - nd_Address ` set ns" "hear l (told NOTIFY_UPDATE_ADD ns ls) S = S \<union> nd_Address ` set ns"
  using assms by (induction ns arbitrary: S) (auto simp: told_def hear_one)

lemma hear_update:
  assumes "l \<in> set ls"
  shows "hear l (told NOTIFY_UPDATE_DELETE (filter (\<lambda>n. nd_Address n \<notin> nd_Address ` set new) old) ls @
      told NOTIFY_UPDATE_ADD (filter (\<lambda>n. nd_Address n \<notin> nd_Address ` set old) new) ls) (nd_Address ` set old) = nd_Address ` set new"
proof -
  have i: "nd_Address ` {n \<in> set X. nd_Address n \<notin> B} = nd_Address ` set X - B" for X B by auto
  show ?thesis unfolding hear_append hear_told[OF assms] set_filter i by blast
qed

subsection \<open>Properties\<close>

text \<open>C7. A listener that was registered when it knew the cluster follows it: after any
  sequence of node lists from the watch, the additions and deletions it was told lead
  from the addresses it knew to exactly the addresses of the last list.\<close>

theorem node_listeners_track_cluster:
  assumes "nodeCache s = map Some old" "l \<in> set (getListeners WATCH_TYPE_NODE [] s)"
  shows "\<exists>s' calls. notify_all (\<lambda>ns. updateNodeListeners log_notify (map Some ns)) updates s = (Ret (), s') \<and>
    nodeCache s' = map Some (last (old # updates)) \<and> node_log s' = node_log s @ calls \<and>
    hear l calls (nd_Address ` set old) = nd_Address ` set (last (old # updates))"
  using assms
proof (induction updates arbitrary: s old)
  case Nil
  then show ?case by (auto simp: run_simps intro: exI[of _ "[]"])
next
  case (Cons new updates)
  define ls where "ls = getListeners WATCH_TYPE_NODE [] s"
  define c where "c = told NOTIFY_UPDATE_DELETE (filter (\<lambda>n. nd_Address n \<notin> nd_Address ` set new) old) ls @
    told NOTIFY_UPDATE_ADD (filter (\<lambda>n. nd_Address n \<notin> nd_Address ` set old) new) ls"
  define s1 where "s1 = s\<lparr>nodeCache := map Some new, node_log := node_log s @ c\<rparr>"
  have u: "updateNodeListeners log_notify (map Some new) s = (Ret (), s1)"
    using updateNodeListeners_log[OF Cons.prems(1) ls_def[symmetric]] by (simp add: s1_def c_def)
  have s1: "nodeCache s1 = map Some new" "l \<in> set (getListeners WATCH_TYPE_NODE [] s1)"
    using Cons.prems(2) by (simp_all add: s1_def getListeners_def)
  obtain s' calls where "notify_all (\<lambda>ns. updateNodeListeners log_notify (map Some ns)) updates s1 = (Ret (), s')"
    "nodeCache s' = map Some (last (new # updates))" "node_log s' = node_log s1 @ calls"
    "hear l calls (nd_Address ` set new) = nd_Address ` set (last (new # updates))"
    using Cons.IH[OF s1] by blast
  then show ?case
    using u hear_update[of l ls new old] Cons.prems(2)
    by (intro exI[of _ s'] exI[of _ "c @ calls"]) (simp add: run_simps s1_def ls_def c_def)
qed


definition logged_node :: "kvs_store logged_state" where
  "logged_node = cluster_state.extend (watch_state.extend watch_node (cluster_state.fields
     [(WATCH_TYPE_NODE, \<lparr>wd_listeners = [([], [Ecc_eccListener, Daemon_eccListener])], wd_watchPlans = [0]\<rparr>)] [] []))
     (logged_state.fields [])"

theorem node_listeners_track_cluster_witness:
  "\<exists>s'. notify_all (\<lambda>ns. updateNodeListeners log_notify (map Some ns))
      [[\<lparr>nd_Node = ''a'', nd_Address = ''10.0.0.1''\<rparr>, \<lparr>nd_Node = ''b'', nd_Address = ''10.0.0.2''\<rparr>],
       [\<lparr>nd_Node = ''b'', nd_Address = ''10.0.0.2''\<rparr>]] logged_node = (Ret (), s') \<and>
    hear Daemon_eccListener (node_log s') {} = {''10.0.0.2''}"
proof -
  have n: "nodeCache logged_node = map Some []" "node_log logged_node = []"
    "Daemon_eccListener \<in> set (getListeners WATCH_TYPE_NODE [] logged_node)"
    by (simp_all add: logged_node_def getListeners_def cluster_state.defs watch_state.defs logged_state.defs)
  show ?thesis
    using node_listeners_track_cluster[OF n(1,3), of "[[\<lparr>nd_Node = ''a'', nd_Address = ''10.0.0.1''\<rparr>, \<lparr>nd_Node = ''b'', nd_Address = ''10.0.0.2''\<rparr>],
       [\<lparr>nd_Node = ''b'', nd_Address = ''10.0.0.2''\<rparr>]]"] n(2)
    by (auto simp del: notify_all.simps)
qed

text \<open>A listener that is registered later is told nothing about the nodes that are known
  by then: the same list again gives no call.\<close>

lemma late_listener_misses_nodes:
  assumes "nodeCache s = map Some ns"
  shows "\<exists>s'. thenM (addListener WATCH_TYPE_NODE [] l) (updateNodeListeners log_notify (map Some ns)) s = (Ret (), s') \<and>
    node_log s' = node_log s \<and> l \<in> set (getListeners WATCH_TYPE_NODE [] s')"
proof -
  obtain wc s1 where a: "addListener WATCH_TYPE_NODE [] l s = (Ret wc, s1)" "nodeCache s1 = map Some ns" "node_log s1 = node_log s"
    "l \<in> set (getListeners WATCH_TYPE_NODE [] s1)"
    using assms
    by (cases "ws_contains WATCH_TYPE_NODE [] l s")
      (auto simp: addListener_def run_simps Let_def getListeners_def ws_contains_def AList.update_conv' split: option.splits)
  have n: "filter (\<lambda>n. nd_Address n \<notin> nd_Address ` set ns) ns = []" by (auto simp: filter_empty_conv)
  have "told t [] ls = []" for t ls by (simp add: told_def)
  then show ?thesis
    using a updateNodeListeners_log[OF a(2) refl, of ns] by (simp add: run_simps n getListeners_def)
qed

end
