(* ===== verification/DnsName.thy ===== *)
theory DnsName
  imports Base64
begin

section \<open>Names and texts of DNS messages (miekg/dns, msg.go)\<close>

text \<open>
  How a domain name and a character string are written into a message and read from it.
  A message is a slice of bytes that is written in place; a result is an error, or the
  slice with the offset behind what was written, and \<open>Panic\<close> where Go panics.  When
  there is an error, nothing of the slice is used any more.

  In text, the labels of a name end with dots, and bytes that would be ambiguous are
  escaped: \<open>\.\<close> is a dot in a label and \<open>\065\<close> is a byte in decimal.  In a message
  each label follows its length, and a length with the two highest bits set is a pointer
  to another place of the message where the name goes on.  The names that may be
  pointed to are those in the map of compression.
\<close>

subsection \<open>Results\<close>

type_synonym 'a packed = "(gerror + 'a) outcome"

definition bindP :: "'a packed \<Rightarrow> ('a \<Rightarrow> 'b packed) \<Rightarrow> 'b packed" where
  "bindP m f = bindO m (\<lambda>r. case r of Inl err \<Rightarrow> Ret (Inl err) | Inr a \<Rightarrow> f a)"

lemma bindP_simps [simp]:
  "bindP (Ret (Inr a)) f = f a" "bindP (Ret (Inl e)) f = Ret (Inl e)" "bindP (Panic p) f = Panic p" "bindP index_panic f = index_panic"
  by (simp_all add: bindP_def index_panic_def)

definition ErrBuf :: gerror where
  "ErrBuf = Err ''dns: buffer size too small''"

definition ErrRdata :: gerror where
  "ErrRdata = Err ''dns: bad rdata''"

definition ErrFqdn :: gerror where
  "ErrFqdn = Err ''dns: domain must be fully qualified''"

text \<open>Writing several bytes from an offset on.\<close>

definition put :: "bytes \<Rightarrow> nat \<Rightarrow> bytes \<Rightarrow> bytes" where
  "put msg off bs = take off msg @ bs @ drop (off + length bs) msg"

lemma length_put [simp]: "off + length bs \<le> length msg \<Longrightarrow> length (put msg off bs) = length msg"
  by (simp add: put_def)

lemma put_Nil [simp]: "put msg off [] = msg"
  by (simp add: put_def)

lemma put_put:
  assumes "off + length bs \<le> length msg"
  shows "put (put msg off bs) (off + length bs) cs = put msg off (bs @ cs)"
proof -
  have "length (take off msg) = off" using assms by simp
  then show ?thesis by (simp add: put_def ac_simps del: length_take)
qed

lemma take_put:
  assumes "off + length bs \<le> length msg"
  shows "take (off + length bs) (put msg off bs) = take off msg @ bs"
proof -
  have "length (take off msg) = off" using assms by simp
  then show ?thesis by (simp add: put_def del: length_take)
qed

lemma update_put: "off < length msg \<Longrightarrow> msg[off := b] = put msg off [b]"
  by (simp add: put_def upd_conv_take_nth_drop)

subsection \<open>Escapes\<close>

definition isDigit :: "byte \<Rightarrow> bool" where
  "isDigit b \<longleftrightarrow> 0x30 \<le> b \<and> b \<le> 0x39"

definition dddToByte :: "byte \<Rightarrow> byte \<Rightarrow> byte \<Rightarrow> byte" where
  "dddToByte a b c = (a - 0x30) * 100 + (b - 0x30) * 10 + (c - 0x30)"

text \<open>A byte in three decimal digits.\<close>

definition ddd :: "byte \<Rightarrow> bytes" where
  "ddd b = [0x30 + b div 100, 0x30 + b div 10 mod 10, 0x30 + b mod 10]"

lemma isDigit_plus: "unat x \<le> 9 \<Longrightarrow> isDigit (0x30 + x)"
  unfolding isDigit_def by (auto simp: word_le_nat_alt unat_plus_if')

lemma ddd_digits: "isDigit (0x30 + b div 100) \<and> isDigit (0x30 + b div 10 mod 10) \<and> isDigit (0x30 + b mod 10) \<and>
  dddToByte (0x30 + b div 100) (0x30 + b div 10 mod 10) (0x30 + b mod 10) = b"
proof -
  have d: "b div 10 div 10 = b div 100"
    by (rule word_unat_eq_iff[THEN iffD2]) (simp add: unat_div div_mult2_eq[symmetric])
  have "b div 100 * 100 + b div 10 mod 10 * 10 + b mod 10 = (b div 100 * 10 + b div 10 mod 10) * 10 + b mod 10"
    by (simp add: algebra_simps)
  also have "b div 100 * 10 + b div 10 mod 10 = b div 10" unfolding d[symmetric] by (rule div_mult_mod_eq)
  also have "b div 10 * 10 + b mod 10 = b" by (rule div_mult_mod_eq)
  finally have "dddToByte (0x30 + b div 100) (0x30 + b div 10 mod 10) (0x30 + b mod 10) = b" by (simp add: dddToByte_def)
  moreover have "unat (b div 100) \<le> 9" "unat (b div 10 mod 10) \<le> 9" "unat (b mod 10) \<le> 9"
    using unat_byte_less[of b] by (simp_all add: unat_div unat_mod)
  ultimately show ?thesis by (simp add: isDigit_plus)
qed

text \<open>A byte of a label in text.\<close>

definition name_escape :: "byte \<Rightarrow> bytes" where
  "name_escape b =
     (if b \<in> {0x2E, 0x28, 0x29, 0x3B, 0x20, 0x40, 0x22, 0x5C} then [0x5C, b]
      else if b = 0x09 then [0x5C, 0x74]
      else if b = 0x0D then [0x5C, 0x72]
      else if b < 32 \<or> b \<ge> 127 then 0x5C # ddd b
      else [b])"

text \<open>
  The escape at position \<open>i\<close> is replaced by its byte in place; \<open>ls\<close> is the number
  of bytes in use.
\<close>

definition remove_bytes :: "nat \<Rightarrow> nat \<Rightarrow> bytes \<Rightarrow> nat \<Rightarrow> bytes" where
  "remove_bytes i k bs ls = take i bs @ drop (i + k) (take ls bs) @ drop (ls - k) bs"

definition unescape_at :: "bytes \<Rightarrow> nat \<Rightarrow> nat \<Rightarrow> bytes \<times> nat" where
  "unescape_at bs ls i =
     (let bs = remove_bytes i 1 bs ls; ls = ls - 1 in
      if i + 2 < ls \<and> isDigit (bs ! i) \<and> isDigit (bs ! (i + 1)) \<and> isDigit (bs ! (i + 2)) then
        (remove_bytes (i + 1) 2 (bs[i := dddToByte (bs ! i) (bs ! (i + 1)) (bs ! (i + 2))]) ls, ls - 2)
      else if bs ! i = 0x74 then (bs[i := 0x09], ls)
      else if bs ! i = 0x72 then (bs[i := 0x0D], ls)
      else if bs ! i = 0x6E then (bs[i := 0x0A], ls)
      else (bs, ls))"

lemma unescape_at_less: "i < ls \<Longrightarrow> snd (unescape_at bs ls i) < ls"
  by (auto simp: unescape_at_def Let_def)

lemma unescape_at_shrinks:
  assumes "(bs', ls') = unescape_at bs ls i" "\<not> ls \<le> i"
  shows "ls' - Suc i < ls - i"
proof -
  have "ls' = snd (unescape_at bs ls i)" unfolding assms(1)[symmetric] by simp
  then show ?thesis using unescape_at_less[of i ls bs] assms(2) by simp
qed

lemma remove_bytes_simp:
  "length pre = i \<Longrightarrow> length gone = k \<Longrightarrow> ls = i + k + length rest \<Longrightarrow>
    \<exists>junk'. remove_bytes i k (pre @ gone @ rest @ junk) ls = pre @ rest @ junk'"
  by (simp add: remove_bytes_def)

lemma unescape_escape:
  assumes "name_escape b = 0x5C # e" "length pre = i" "ls = i + length (name_escape b) + length rest"
  obtains junk' where "unescape_at (pre @ name_escape b @ rest @ junk) ls i = (pre @ b # rest @ junk', i + 1 + length rest)"
proof -
  have e: "ls = i + 1 + length (e @ rest)" using assms by simp
  obtain junk1 where j: "remove_bytes i 1 (pre @ [0x5C] @ (e @ rest) @ junk) ls = pre @ (e @ rest) @ junk1"
    using remove_bytes_simp[OF assms(2) _ e, of "[0x5C]"] by auto
  then have j: "remove_bytes i 1 (pre @ name_escape b @ rest @ junk) ls = pre @ e @ rest @ junk1" using assms(1) by simp
  have ls: "ls - 1 = i + length e + length rest" using e by simp
  consider "e = [b]" "\<not> isDigit b" "b \<noteq> 0x74" "b \<noteq> 0x72" "b \<noteq> 0x6E" | "e = [0x74]" "b = 0x09" | "e = [0x72]" "b = 0x0D" | "e = ddd b"
    using assms(1) by (auto simp: name_escape_def isDigit_def split: if_splits)
  then show ?thesis
  proof cases
    case 4
    let ?d = "\<lambda>k. ddd b ! k"
    have d: "ddd b = [?d 0, ?d 1, ?d 2]" "isDigit (?d 0)" "isDigit (?d 1)" "isDigit (?d 2)" "dddToByte (?d 0) (?d 1) (?d 2) = b"
      using ddd_digits[of b] by (simp_all add: ddd_def)
    obtain junk2 where k: "remove_bytes (i + 1) 2 ((pre @ [b]) @ [?d 1, ?d 2] @ rest @ junk1) (i + 3 + length rest) = (pre @ [b]) @ rest @ junk2"
      using remove_bytes_simp[of "pre @ [b]" "i + 1" "[?d 1, ?d 2]" 2 "i + 3 + length rest" rest junk1] assms(2) by auto
    have l: "ls - 1 = i + 3 + length rest" using ls 4 by (simp add: ddd_def)
    have n: "(pre @ e @ rest @ junk1) ! i = ?d 0" "(pre @ e @ rest @ junk1) ! (i + 1) = ?d 1" "(pre @ e @ rest @ junk1) ! (i + 2) = ?d 2"
      "(pre @ e @ rest @ junk1)[i := b] = (pre @ [b]) @ [?d 1, ?d 2] @ rest @ junk1"
      using 4 assms(2) by (simp_all add: nth_append list_update_append ddd_def)
    show ?thesis
      using that[of junk2] d k l n j by (simp add: unescape_at_def Let_def)
  qed (use that[of junk1] j ls assms(2) in \<open>auto simp: unescape_at_def Let_def nth_append list_update_append isDigit_def\<close>)
qed


subsection \<open>Writing a name\<close>

type_synonym compression = "(bytes \<times> nat) list"

definition maxCompressionOffset :: nat where
  "maxCompressionOffset = 2 * 2 ^ 13"

definition packUint16 :: "16 word \<Rightarrow> bytes" where
  "packUint16 i = [ucast (drop_bit 8 i), ucast i]"

text \<open>
  The loop over the bytes of a name.  \<open>ro\<close> is the text in which suffixes are looked
  up, \<open>fresh\<close> whether it is that of \<open>bs\<close>; the last component of the result is the pointer that was found with
  the place it goes to.
\<close>

function name_loop :: "bool \<Rightarrow> bytes \<Rightarrow> nat \<Rightarrow> nat \<Rightarrow> nat \<Rightarrow> nat \<Rightarrow> bytes \<Rightarrow> bool \<Rightarrow> bool \<Rightarrow> bytes \<Rightarrow> compression \<Rightarrow>
    gerror + bytes \<times> nat \<times> bytes \<times> compression \<times> (nat \<times> nat) option" where
  "name_loop compress bs ls i begin1 off ro fresh escaped_dot msg cm =
     (if i \<ge> ls then Inr (bs, off, msg, cm, None)
      else if bs ! i = 0x5C then
        (let (bs', ls') = unescape_at bs ls i in
         if off + 1 > length msg then Inl ErrBuf
         else name_loop compress bs' ls' (Suc i) begin1 off ro False (bs' ! i = 0x2E) msg cm)
      else if bs ! i = 0x2E then
        (if i > 0 \<and> bs ! (i - 1) = 0x2E \<and> \<not> escaped_dot then Inl ErrRdata
         else if i - begin1 \<ge> 64 then Inl ErrRdata
         else if off + 1 + (i - begin1) > length msg then Inl ErrBuf
         else let msg' = put msg off (of_nat (i - begin1) # take (i - begin1) (drop begin1 bs));
                  off' = off + 1 + (i - begin1);
                  ro' = (if compress \<and> \<not> fresh then bs else ro) in
           if compress \<and> drop begin1 ro' \<noteq> [0x2E] then
             (case map_of cm (drop begin1 ro') of
                None \<Rightarrow> name_loop compress bs ls (Suc i) (Suc i) off' ro' (fresh \<or> compress) False msg'
                          (if off < maxCompressionOffset then (drop begin1 ro', off) # cm else cm)
              | Some p \<Rightarrow> Inr (bs, off', msg', cm, Some (p, off)))
           else name_loop compress bs ls (Suc i) (Suc i) off' ro' (fresh \<or> compress) False msg' cm)
      else name_loop compress bs ls (Suc i) begin1 off ro fresh False msg cm)"
  by pat_completeness auto
termination
  by (relation "measure (\<lambda>(compress, bs, ls, i, rest). ls - i)") (auto dest: unescape_at_shrinks)


declare name_loop.simps [simp del]

definition packDomainName :: "bool \<Rightarrow> string \<Rightarrow> bytes \<Rightarrow> nat \<Rightarrow> compression \<Rightarrow> (bytes \<times> nat \<times> compression) packed" where
  "packDomainName compress s msg off cm =
     (let bs = unstr s in
      if bs = [] then Ret (Inr (msg, off, cm))
      else if last bs \<noteq> 0x2E then Ret (Inl ErrFqdn)
      else case name_loop compress bs (length bs) 0 0 off bs True False msg cm of
          Inl err \<Rightarrow> Ret (Inl err)
        | Inr (bs, off, msg, cm, pointer) \<Rightarrow>
            if length bs = 1 \<and> bs ! 0 = 0x2E then Ret (Inr (msg, off, cm))
            else case pointer of
                Some (p, nameoffset) \<Rightarrow>
                  if nameoffset + 1 < length msg then Ret (Inr (put msg nameoffset (packUint16 (of_nat p XOR 0xC000)), nameoffset + 2, cm))
                  else index_panic
              | None \<Rightarrow> if off < length msg then Ret (Inr (put msg off [0], off + 1, cm)) else index_panic)"

subsection \<open>Reading a name\<close>

definition too_many_pointers :: gerror where
  "too_many_pointers = Err ''dns: too many compression pointers''"

function unpack_name :: "bytes \<Rightarrow> nat \<Rightarrow> bytes \<Rightarrow> nat \<Rightarrow> nat \<Rightarrow> gerror + bytes \<times> nat" where
  "unpack_name msg off s off1 ptr =
     (if off \<ge> length msg then Inl ErrBuf
      else let c = msg ! off; off = Suc off in
        if c AND 0xC0 = 0 then
          (if c = 0 then
             (if s = [] then Inr ([0x2E], off) else Inr (s, if ptr = 0 then off else off1))
           else if off + unat c > length msg then Inl ErrBuf
           else unpack_name msg (off + unat c) (s @ concat (map name_escape (take (unat c) (drop off msg))) @ [0x2E]) off1 ptr)
        else if c AND 0xC0 = 0xC0 then
          (if off \<ge> length msg then Inl ErrBuf
           else let c1 = msg ! off; off = Suc off; off1 = (if ptr = 0 then off else off1) in
             if Suc ptr > 10 then Inl too_many_pointers
             else unpack_name msg (unat (c XOR 0xC0) * 256 + unat c1) s off1 (Suc ptr))
        else Inl ErrRdata)"
  by pat_completeness auto
termination
  by (relation "measures [\<lambda>(msg, off, s, off1, ptr). 11 - ptr, \<lambda>(msg, off, s, off1, ptr). length msg - off]") auto

declare unpack_name.simps [simp del]

definition UnpackDomainName :: "bytes \<Rightarrow> nat \<Rightarrow> gerror + string \<times> nat" where
  "UnpackDomainName msg off = (case unpack_name msg off [] 0 0 of Inl err \<Rightarrow> Inl err | Inr (s, off1) \<Rightarrow> Inr (str s, off1))"

subsection \<open>Names as sequences of labels\<close>

definition good_labels :: "bytes list \<Rightarrow> bool" where
  "good_labels labels \<longleftrightarrow> (\<forall>l\<in>set labels. l \<noteq> [] \<and> length l < 64)"

definition label_text :: "bytes \<Rightarrow> bytes" where
  "label_text l = concat (map name_escape l) @ [0x2E]"

definition name_text :: "bytes list \<Rightarrow> bytes" where
  "name_text labels = (if labels = [] then [0x2E] else concat (map label_text labels))"

definition label_wire :: "bytes \<Rightarrow> bytes" where
  "label_wire l = of_nat (length l) # l"

definition name_wire :: "bytes list \<Rightarrow> bytes" where
  "name_wire labels = concat (map label_wire labels) @ [0]"

lemma name_escape_cases:
  obtains "name_escape b = [b]" "b \<noteq> 0x5C" "b \<noteq> 0x2E" | e where "name_escape b = 0x5C # e"
proof -
  have "name_escape b = [b] \<and> b \<noteq> 0x5C \<and> b \<noteq> 0x2E \<or> (\<exists>e. name_escape b = 0x5C # e)" by (simp add: name_escape_def)
  then show ?thesis using that by blast
qed

lemma name_loop_label:
  assumes "d @ l \<noteq> []" "length (d @ l) < 64" "off + 1 + length (d @ l) \<le> length msg" "escaped_dot \<longleftrightarrow> d \<noteq> [] \<and> last d = 0x2E"
  shows "\<exists>junk' fresh'. name_loop False (pre @ d @ concat (map name_escape l) @ 0x2E # rest @ junk)
      (length pre + length d + length (concat (map name_escape l)) + 1 + length rest) (length pre + length d) (length pre) off ro fresh escaped_dot msg cm =
    name_loop False (pre @ d @ l @ 0x2E # rest @ junk') (length pre + length (d @ l) + 1 + length rest)
      (length pre + length (d @ l) + 1) (length pre + length (d @ l) + 1) (off + 1 + length (d @ l)) ro fresh' False (put msg off (label_wire (d @ l))) cm"
  using assms
proof (induction l arbitrary: d junk fresh escaped_dot)
  case Nil
  have "(pre @ d @ 0x2E # rest @ junk) ! (length pre + length d - 1) = last d" "length pre + length d > 0"
    using Nil.prems(1) by (cases d rule: rev_cases; simp add: nth_append)+
  then show ?case using Nil.prems
    by (subst name_loop.simps) (auto simp: nth_append label_wire_def Let_def)
next
  case (Cons b l)
  let ?rest = "concat (map name_escape l) @ 0x2E # rest"
  have prems: "(d @ [b]) @ l \<noteq> []" "length ((d @ [b]) @ l) < 64" "off + 1 + length ((d @ [b]) @ l) \<le> length msg"
    using Cons.prems by simp_all
  show ?case
  proof (cases rule: name_escape_cases[of b])
    case 1
    have "name_loop False (pre @ d @ concat (map name_escape (b # l)) @ 0x2E # rest @ junk)
        (length pre + length d + length (concat (map name_escape (b # l))) + 1 + length rest) (length pre + length d) (length pre) off ro fresh escaped_dot msg cm =
      name_loop False (pre @ (d @ [b]) @ concat (map name_escape l) @ 0x2E # rest @ junk)
        (length pre + length (d @ [b]) + length (concat (map name_escape l)) + 1 + length rest) (length pre + length (d @ [b])) (length pre) off ro fresh False msg cm"
      using 1 by (subst name_loop.simps) (simp add: nth_append)
    then show ?thesis using Cons.IH[OF prems, of False junk fresh] 1 by simp
  next
    case (2 e)
    have ls: "length pre + length d + length (concat (map name_escape (b # l))) + 1 + length rest = length (pre @ d) + length (name_escape b) + length ?rest"
      by simp
    obtain junk' where j: "unescape_at ((pre @ d) @ name_escape b @ ?rest @ junk) (length (pre @ d) + length (name_escape b) + length ?rest) (length (pre @ d)) =
        ((pre @ d) @ b # ?rest @ junk', length (pre @ d) + 1 + length ?rest)"
      by (rule unescape_escape[OF 2 refl refl])
    have "name_loop False (pre @ d @ concat (map name_escape (b # l)) @ 0x2E # rest @ junk)
        (length pre + length d + length (concat (map name_escape (b # l))) + 1 + length rest) (length pre + length d) (length pre) off ro fresh escaped_dot msg cm =
      name_loop False (pre @ (d @ [b]) @ concat (map name_escape l) @ 0x2E # rest @ junk')
        (length pre + length (d @ [b]) + length (concat (map name_escape l)) + 1 + length rest) (length pre + length (d @ [b])) (length pre) off ro False (b = 0x2E) msg cm"
      using 2 j prems(3) unfolding ls by (subst name_loop.simps) (simp add: nth_append add.assoc)
    then show ?thesis using Cons.IH[OF prems, of "b = 0x2E" junk' False] by simp
  qed
qed


lemma length_label_wire [simp]: "length (label_wire l) = Suc (length l)"
  by (simp add: label_wire_def)

lemma name_wire_Cons: "name_wire (l # ls) = label_wire l @ name_wire ls"
  by (simp add: name_wire_def)

lemma name_loop_labels:
  assumes "good_labels labels" "off + length (concat (map label_wire labels)) \<le> length msg"
  shows "\<exists>bs. name_loop False (pre @ concat (map label_text labels) @ junk) (length pre + length (concat (map label_text labels)))
      (length pre) (length pre) off ro fresh False msg cm =
    Inr (bs, off + length (concat (map label_wire labels)), put msg off (concat (map label_wire labels)), cm, None) \<and> length pre + 2 * length labels \<le> length bs"
  using assms
proof (induction labels arbitrary: pre junk off msg fresh)
  case Nil
  then show ?case by (subst name_loop.simps) simp
next
  case (Cons l labels)
  let ?rest = "concat (map label_text labels)"
  have l: "l \<noteq> []" "length l < 64" "good_labels labels" using Cons.prems(1) by (auto simp: good_labels_def)
  have fits: "off + length (label_wire l) \<le> length msg" using Cons.prems(2) by simp
  obtain junk' fresh' where 1: "name_loop False (pre @ [] @ concat (map name_escape l) @ 0x2E # ?rest @ junk)
      (length pre + length ([] :: bytes) + length (concat (map name_escape l)) + 1 + length ?rest) (length pre + length ([] :: bytes)) (length pre) off ro fresh False msg cm =
    name_loop False (pre @ [] @ l @ 0x2E # ?rest @ junk') (length pre + length ([] @ l) + 1 + length ?rest)
      (length pre + length ([] @ l) + 1) (length pre + length ([] @ l) + 1) (off + 1 + length ([] @ l)) ro fresh' False (put msg off (label_wire ([] @ l))) cm"
    using name_loop_label[of "[]" l off msg False pre ?rest junk ro fresh cm] l(1,2) fits by auto
  let ?pre = "pre @ l @ [0x2E]"
  have "name_loop False (pre @ concat (map label_text (l # labels)) @ junk) (length pre + length (concat (map label_text (l # labels))))
      (length pre) (length pre) off ro fresh False msg cm =
    name_loop False (?pre @ ?rest @ junk') (length ?pre + length ?rest) (length ?pre) (length ?pre) (off + length (label_wire l)) ro fresh' False
      (put msg off (label_wire l)) cm"
    using 1 by (simp add: label_text_def add.assoc)
  moreover have "off + length (label_wire l) + length (concat (map label_wire labels)) \<le> length (put msg off (label_wire l))"
    using Cons.prems(2) by simp
  from Cons.IH[OF l(3) this, of ?pre junk' fresh'] obtain bs where
    "name_loop False (?pre @ ?rest @ junk') (length ?pre + length ?rest) (length ?pre) (length ?pre) (off + length (label_wire l)) ro fresh' False
      (put msg off (label_wire l)) cm =
     Inr (bs, off + length (label_wire l) + length (concat (map label_wire labels)),
       put (put msg off (label_wire l)) (off + length (label_wire l)) (concat (map label_wire labels)), cm, None)"
    "length ?pre + 2 * length labels \<le> length bs" by blast
  moreover have "1 \<le> length l" using l(1) by (cases l) auto
  ultimately show ?case using put_put[OF fits] by (auto simp: add.assoc intro!: exI[of _ bs])
qed

lemma last_name_text: "last (name_text labels) = 0x2E" "name_text labels \<noteq> []"
  by (cases labels rule: rev_cases; simp add: name_text_def label_text_def)+

lemma packDomainName_labels:
  assumes "good_labels labels" "off + length (name_wire labels) \<le> length msg"
  shows "packDomainName False (str (name_text labels)) msg off cm =
    Ret (Inr (put msg off (name_wire labels), off + length (name_wire labels), cm))"
proof (cases "labels = []")
  case True
  have "name_loop False [0x2E] 1 0 0 off [0x2E] True False msg cm = Inr ([0x2E], Suc off, put msg off [0], cm, None)"
    using assms(2) True by (subst name_loop.simps, subst name_loop.simps) (simp add: name_wire_def)
  then show ?thesis using True by (simp add: packDomainName_def name_text_def name_wire_def)
next
  case False
  let ?w = "concat (map label_wire labels)"
  have fits: "off + length ?w < length msg" using assms(2) by (simp add: name_wire_def)
  obtain bs where 1: "name_loop False (name_text labels) (length (name_text labels)) 0 0 off (name_text labels) True False msg cm =
      Inr (bs, off + length ?w, put msg off ?w, cm, None)" and 2: "2 * length labels \<le> length bs"
    using name_loop_labels[OF assms(1), of off msg "[]" "[]" "name_text labels" True cm] fits False by (auto simp: name_text_def)
  have "length bs \<noteq> 1" "length (put msg off ?w) = length msg" using 2 False fits by (cases labels; simp)+
  then show ?thesis using fits last_name_text[of labels] put_put[of off ?w msg "[0]"] 1
    by (simp add: packDomainName_def Let_def name_wire_def)
qed


lemma length_byte_clear: "n < 64 \<Longrightarrow> (of_nat n :: byte) AND 0xC0 = 0"
proof -
  have "list_all (\<lambda>n. (of_nat n :: byte) AND 0xC0 = 0) [0..<64]" by code_simp
  then show "n < 64 \<Longrightarrow> (of_nat n :: byte) AND 0xC0 = 0" by (simp add: list_all_iff)
qed

lemma unat_length_byte: "n < 64 \<Longrightarrow> unat (of_nat n :: byte) = n"
  by (simp add: unat_of_nat take_bit_nat_eq_self_iff)

lemma unpack_name_labels:
  assumes "good_labels labels"
  shows "unpack_name (pre @ name_wire labels @ post) (length pre) s off1 ptr =
    (if s = [] \<and> labels = [] then Inr ([0x2E], Suc (length pre))
     else Inr (s @ concat (map label_text labels), if ptr = 0 then length pre + length (name_wire labels) else off1))"
  using assms
proof (induction labels arbitrary: pre s)
  case Nil
  then show ?case by (subst unpack_name.simps) (simp add: name_wire_def nth_append)
next
  case (Cons l labels)
  have l: "l \<noteq> []" "length l < 64" "good_labels labels" using Cons.prems by (auto simp: good_labels_def)
  have c: "(of_nat (length l) :: byte) \<noteq> 0" using l(1) unat_length_byte[OF l(2)] by auto
  have "unpack_name (pre @ name_wire (l # labels) @ post) (length pre) s off1 ptr =
    unpack_name ((pre @ label_wire l) @ name_wire labels @ post) (length (pre @ label_wire l)) (s @ label_text l) off1 ptr"
    using l(2) c length_byte_clear[OF l(2)] unat_length_byte[OF l(2)]
    by (subst unpack_name.simps) (simp add: name_wire_Cons label_wire_def nth_append label_text_def Let_def)
  also have "\<dots> = Inr ((s @ label_text l) @ concat (map label_text labels),
      if ptr = 0 then length (pre @ label_wire l) + length (name_wire labels) else off1)"
    unfolding Cons.IH[OF l(3)] by (simp add: label_text_def)
  finally show ?case by (simp add: name_wire_Cons add.assoc)
qed

lemma UnpackDomainName_labels:
  assumes "good_labels labels" "off = length pre"
  shows "UnpackDomainName (pre @ name_wire labels @ post) off = Inr (str (name_text labels), off + length (name_wire labels))"
  using unpack_name_labels[OF assms(1), of pre post "[]" 0 0] assms(2) by (auto simp: UnpackDomainName_def name_text_def name_wire_def)

lemma unpack_name_bound: "unpack_name msg off s off1 ptr = Inr (r, off') \<Longrightarrow> (ptr \<noteq> 0 \<Longrightarrow> off1 \<le> length msg) \<Longrightarrow> off' \<le> length msg"
proof (induction msg off s off1 ptr rule: unpack_name.induct)
  case (1 msg off s off1 ptr)
  show ?case
  proof (cases "off \<ge> length msg")
    case True
    then show ?thesis using 1 by (simp add: unpack_name.simps)
  next
    case False
    then show ?thesis
      using 1(1)[OF False refl refl] 1(2)[OF False refl refl] 1(3)[unfolded unpack_name.simps[of msg off s off1 ptr]] 1(4)
      by (auto simp: Let_def split: if_splits)
  qed
qed


subsection \<open>Character strings\<close>

definition txt_unescape :: "byte \<Rightarrow> byte" where
  "txt_unescape d = (if d = 0x74 then 0x09 else if d = 0x72 then 0x0D else if d = 0x6E then 0x0A else d)"

text \<open>The loop of \<open>packTxtString\<close> over the bytes that are left.\<close>

function txt_loop :: "bytes \<Rightarrow> bytes \<Rightarrow> nat \<Rightarrow> gerror + bytes \<times> nat" where
  "txt_loop bs msg off = (case bs of
       [] \<Rightarrow> Inr (msg, off)
     | c # cs \<Rightarrow>
         if length msg \<le> off then Inl ErrBuf
         else if c = 0x5C then
           (if cs = [] then Inr (msg, off)
            else if length cs > 2 \<and> isDigit (cs ! 0) \<and> isDigit (cs ! 1) \<and> isDigit (cs ! 2) then
              txt_loop (drop 3 cs) (put msg off [dddToByte (cs ! 0) (cs ! 1) (cs ! 2)]) (Suc off)
            else txt_loop (tl cs) (put msg off [txt_unescape (hd cs)]) (Suc off))
         else txt_loop cs (put msg off [c]) (Suc off))"
  by pat_completeness auto
termination
  by (relation "measure (\<lambda>(bs, msg, off). length bs)") auto

declare txt_loop.simps [simp del]

definition slice_panic :: "'a outcome" where
  "slice_panic = Panic ''runtime error: slice bounds out of range''"

text \<open>The buffer \<open>tmp\<close> has 256 * 4 + 1 bytes.\<close>

definition packTxtString :: "string \<Rightarrow> bytes \<Rightarrow> nat \<Rightarrow> (bytes \<times> nat) packed" where
  "packTxtString s msg off =
     (if off \<ge> length msg then Ret (Inl ErrBuf)
      else if length s > 1025 then slice_panic
      else case txt_loop (unstr s) msg (Suc off) of
          Inl err \<Rightarrow> Ret (Inl err)
        | Inr (msg, off1) \<Rightarrow>
            (let l = off1 - off - 1 in
             if l > 255 then Ret (Inl (Err ''dns: string exceeded 255 bytes in txt''))
             else Ret (Inr (put msg off [of_nat l], off1))))"

fun pack_texts :: "string list \<Rightarrow> bytes \<Rightarrow> nat \<Rightarrow> (bytes \<times> nat) packed" where
  "pack_texts [] msg off = Ret (Inr (msg, off))"
| "pack_texts (t # ts) msg off =
     (if length t > 1025 then Ret (Inl ErrBuf)
      else bindP (packTxtString t msg off) (\<lambda>(msg, off). pack_texts ts msg off))"

definition packTxt :: "string list \<Rightarrow> bytes \<Rightarrow> nat \<Rightarrow> (bytes \<times> nat) packed" where
  "packTxt txt msg off =
     (if txt = [] then (if off \<ge> length msg then Ret (Inl ErrBuf) else Ret (Inr (put msg off [0], off)))
      else pack_texts txt msg off)"

definition txt_escape :: "byte \<Rightarrow> bytes" where
  "txt_escape b =
     (if b = 0x22 \<or> b = 0x5C then [0x5C, b]
      else if b = 0x09 then [0x5C, 0x74]
      else if b = 0x0D then [0x5C, 0x72]
      else if b = 0x0A then [0x5C, 0x6E]
      else if b < 32 \<or> b > 127 then 0x5C # ddd b
      else [b])"

definition txt_overflow :: gerror where
  "txt_overflow = Err ''dns: overflow unpacking txt''"

definition unpackTxtString :: "bytes \<Rightarrow> nat \<Rightarrow> gerror + string \<times> nat" where
  "unpackTxtString msg off =
     (if off + 1 > length msg then Inl txt_overflow
      else let l = unat (msg ! off) in
        if off + l + 1 > length msg then Inl txt_overflow
        else Inr (str (concat (map txt_escape (take l (drop (Suc off) msg)))), off + 1 + l))"

lemma unpackTxtString_bound: "unpackTxtString msg off = Inr (s, off') \<Longrightarrow> off < off' \<and> off' \<le> length msg"
  by (auto simp: unpackTxtString_def Let_def split: if_splits)

function unpackTxt :: "bytes \<Rightarrow> nat \<Rightarrow> nat \<Rightarrow> string list \<Rightarrow> gerror + string list \<times> nat" where
  "unpackTxt msg off rdend ss =
     (if off < rdend then
        (case unpackTxtString msg off of
           Inl err \<Rightarrow> Inl err
         | Inr (s, off') \<Rightarrow> unpackTxt msg off' rdend (ss @ [s]))
      else Inr (ss, off))"
  by pat_completeness auto
termination
  by (relation "measure (\<lambda>(msg, off, rdend, ss). rdend - off)") (auto dest: unpackTxtString_bound)

declare unpackTxt.simps [simp del]

lemma txt_escape_cases:
  obtains "txt_escape b = [b]" "b \<noteq> 0x5C" | d where "txt_escape b = [0x5C, d]" "\<not> isDigit d" "txt_unescape d = b" | "txt_escape b = 0x5C # ddd b"
proof -
  have "txt_escape b = [b] \<and> b \<noteq> 0x5C \<or> (\<exists>d. txt_escape b = [0x5C, d] \<and> \<not> isDigit d \<and> txt_unescape d = b) \<or> txt_escape b = 0x5C # ddd b"
    by (auto simp: txt_escape_def isDigit_def txt_unescape_def)
  then show ?thesis using that by blast
qed

lemma txt_loop_escape: "off + length l \<le> length msg \<Longrightarrow> txt_loop (concat (map txt_escape l)) msg off = Inr (put msg off l, off + length l)"
proof (induction l arbitrary: msg off)
  case Nil
  then show ?case by (simp add: txt_loop.simps)
next
  case (Cons b l)
  have "txt_loop (concat (map txt_escape (b # l))) msg off = txt_loop (concat (map txt_escape l)) (put msg off [b]) (Suc off)"
  proof (cases rule: txt_escape_cases[of b])
    case 3
    then show ?thesis using ddd_digits[of b] Cons.prems by (subst txt_loop.simps) (simp add: ddd_def numeral_3_eq_3)
  qed (use Cons.prems in \<open>(subst txt_loop.simps, simp)+\<close>)
  then show ?case using Cons.IH[of "Suc off" "put msg off [b]"] Cons.prems put_put[of off "[b]" msg l] by simp
qed

definition text_wire :: "bytes \<Rightarrow> bytes" where
  "text_wire l = of_nat (length l) # l"

definition text_string :: "bytes \<Rightarrow> string" where
  "text_string l = str (concat (map txt_escape l))"

lemma length_txt_escape: "length (txt_escape b) \<le> 4"
  by (simp add: txt_escape_def ddd_def)

lemma length_text_string: "length l < 256 \<Longrightarrow> length (text_string l) \<le> 1025"
proof -
  have "length (concat (map txt_escape l)) \<le> 4 * length l"
    using length_txt_escape by (induction l) (auto simp: add_le_mono)
  then show "length l < 256 \<Longrightarrow> length (text_string l) \<le> 1025" by (simp add: text_string_def)
qed

lemma packTxtString_text:
  assumes "length l < 256" "off + length (text_wire l) \<le> length msg"
  shows "packTxtString (text_string l) msg off = Ret (Inr (put msg off (text_wire l), off + length (text_wire l)))"
proof -
  have "put (put msg (Suc off) l) off [of_nat (length l)] = put msg off (text_wire l)"
    using assms(2) by (simp add: put_def text_wire_def min_def)
  then show ?thesis
    using assms txt_loop_escape[of "Suc off" l msg] length_text_string[OF assms(1)]
    by (auto simp: packTxtString_def text_wire_def text_string_def Let_def)
qed

lemma pack_texts_texts:
  assumes "\<forall>l\<in>set ls. length l < 256" "off + length (concat (map text_wire ls)) \<le> length msg"
  shows "pack_texts (map text_string ls) msg off = Ret (Inr (put msg off (concat (map text_wire ls)), off + length (concat (map text_wire ls))))"
  using assms
proof (induction ls arbitrary: off msg)
  case (Cons l ls)
  then show ?case
    using packTxtString_text[of l off msg] length_text_string[of l] put_put[of off "text_wire l" msg "concat (map text_wire ls)"]
    by (simp add: add.assoc)
qed simp

lemma unat_text_byte: "n < 256 \<Longrightarrow> unat (of_nat n :: byte) = n"
  by (simp add: unat_of_nat take_bit_nat_eq_self_iff)

lemma unpackTxt_texts:
  assumes "\<forall>l\<in>set ls. length l < 256" "rdend = length pre + length (concat (map text_wire ls))"
  shows "unpackTxt (pre @ concat (map text_wire ls) @ post) (length pre) rdend ss = Inr (ss @ map text_string ls, rdend)"
  using assms
proof (induction ls arbitrary: pre ss)
  case Nil
  then show ?case by (simp add: unpackTxt.simps)
next
  case (Cons l ls)
  have 1: "unpackTxtString (pre @ concat (map text_wire (l # ls)) @ post) (length pre) = Inr (text_string l, length (pre @ text_wire l))"
    using Cons.prems unat_text_byte[of "length l"] by (simp add: unpackTxtString_def text_wire_def text_string_def nth_append Let_def)
  have "length pre < rdend" using Cons.prems(2) by (simp add: text_wire_def)
  then have "unpackTxt (pre @ concat (map text_wire (l # ls)) @ post) (length pre) rdend ss =
      unpackTxt ((pre @ text_wire l) @ concat (map text_wire ls) @ post) (length (pre @ text_wire l)) rdend (ss @ [text_string l])"
    by (subst unpackTxt.simps) (simp only: 1 if_True sum.case prod.case, simp)
  then show ?case using Cons.IH[of "pre @ text_wire l" "ss @ [text_string l]"] Cons.prems by simp
qed

end
