(* ===== verification/DnsTypes.thy ===== *)
theory DnsTypes
  imports DnsName GoNet
begin

section \<open>Resource records (miekg/dns, types.go, edns.go, tsig.go)\<close>

text \<open>
  The Go types of the resource records.  Packing and unpacking go over the fields of a
  struct by reflection; what they see of a field is its type with its tag, a \<open>wire_kind\<close>.
  A struct that only embeds another one has its fields.  All records begin with the
  header.
\<close>

datatype wire_kind =
    K_uint8 | K_uint16 | K_uint32 | K_uint64 | K_uint48
  | K_name | K_cname | K_names
  | K_txt | K_txts
  | K_a | K_aaaa
  | K_hex | K_base64 | K_size_hex | K_size_base32
  | K_nsec | K_wks | K_opt

datatype EDNS0 =
    EDNS0_NSID string
  | EDNS0_SUBNET "16 word" byte byte bytes bool
  | EDNS0_UL "32 word"
  | EDNS0_LLQ "16 word" "16 word" "16 word" "64 word" "32 word"
  | EDNS0_DAU bytes
  | EDNS0_DHU bytes
  | EDNS0_N3U bytes
  | EDNS0_EXPIRE "32 word"

text \<open>The value of a field, which has the type that its kind is for.\<close>

datatype field =
    F_u8 (f_u8: byte) | F_u16 (f_u16: "16 word") | F_u32 (f_u32: "32 word") | F_u64 (f_u64: "64 word")
  | F_str (f_str: string) | F_strs (f_strs: "string list") | F_ip (f_ip: bytes)
  | F_u16s (f_u16s: "16 word list") | F_opts (f_opts: "EDNS0 list")

definition zero_field :: "wire_kind \<Rightarrow> field" where
  "zero_field k = (case k of
       K_uint8 \<Rightarrow> F_u8 0 | K_uint16 \<Rightarrow> F_u16 0 | K_uint32 \<Rightarrow> F_u32 0 | K_uint64 \<Rightarrow> F_u64 0 | K_uint48 \<Rightarrow> F_u64 0
     | K_names \<Rightarrow> F_strs [] | K_txts \<Rightarrow> F_strs [] | K_a \<Rightarrow> F_ip [] | K_aaaa \<Rightarrow> F_ip []
     | K_nsec \<Rightarrow> F_u16s [] | K_wks \<Rightarrow> F_u16s [] | K_opt \<Rightarrow> F_opts []
     | _ \<Rightarrow> F_str [])"

record RR_Header =
  h_Name :: string
  h_Rrtype :: "16 word"
  h_Class :: "16 word"
  h_Ttl :: "32 word"
  h_Rdlength :: "16 word"

definition RR_Header_fields :: "wire_kind list" where
  "RR_Header_fields = [K_cname, K_uint16, K_uint16, K_uint32, K_uint16]"

definition Question_fields :: "wire_kind list" where
  "Question_fields = [K_cname, K_uint16, K_uint16]"

definition Header_fields :: "wire_kind list" where
  "Header_fields = [K_uint16, K_uint16, K_uint16, K_uint16, K_uint16, K_uint16]"

definition A_fields :: "wire_kind list" where
  "A_fields = [K_a]"

definition AAAA_fields :: "wire_kind list" where
  "AAAA_fields = [K_aaaa]"

definition AFSDB_fields :: "wire_kind list" where
  "AFSDB_fields = [K_uint16, K_cname]"

definition DS_fields :: "wire_kind list" where
  "DS_fields = [K_uint16, K_uint8, K_uint8, K_hex]"

definition CDS_fields :: "wire_kind list" where
  "CDS_fields = DS_fields"

definition CERT_fields :: "wire_kind list" where
  "CERT_fields = [K_uint16, K_uint16, K_uint8, K_base64]"

definition CNAME_fields :: "wire_kind list" where
  "CNAME_fields = [K_cname]"

definition DHCID_fields :: "wire_kind list" where
  "DHCID_fields = [K_base64]"

definition DLV_fields :: "wire_kind list" where
  "DLV_fields = DS_fields"

definition DNAME_fields :: "wire_kind list" where
  "DNAME_fields = [K_name]"

definition DNSKEY_fields :: "wire_kind list" where
  "DNSKEY_fields = [K_uint16, K_uint8, K_uint8, K_base64]"

definition KEY_fields :: "wire_kind list" where
  "KEY_fields = DNSKEY_fields"

definition EUI48_fields :: "wire_kind list" where
  "EUI48_fields = [K_uint48]"

definition EUI64_fields :: "wire_kind list" where
  "EUI64_fields = [K_uint64]"

definition GID_fields :: "wire_kind list" where
  "GID_fields = [K_uint32]"

definition GPOS_fields :: "wire_kind list" where
  "GPOS_fields = [K_txt, K_txt, K_txt]"

definition EID_fields :: "wire_kind list" where
  "EID_fields = [K_hex]"

definition HINFO_fields :: "wire_kind list" where
  "HINFO_fields = [K_txt, K_txt]"

definition HIP_fields :: "wire_kind list" where
  "HIP_fields = [K_uint8, K_uint8, K_uint16, K_hex, K_base64, K_names]"

definition KX_fields :: "wire_kind list" where
  "KX_fields = [K_uint16, K_name]"

definition L32_fields :: "wire_kind list" where
  "L32_fields = [K_uint16, K_a]"

definition L64_fields :: "wire_kind list" where
  "L64_fields = [K_uint16, K_uint64]"

definition LOC_fields :: "wire_kind list" where
  "LOC_fields = [K_uint8, K_uint8, K_uint8, K_uint8, K_uint32, K_uint32, K_uint32]"

definition LP_fields :: "wire_kind list" where
  "LP_fields = [K_uint16, K_name]"

definition MB_fields :: "wire_kind list" where
  "MB_fields = [K_cname]"

definition MD_fields :: "wire_kind list" where
  "MD_fields = [K_cname]"

definition MF_fields :: "wire_kind list" where
  "MF_fields = [K_cname]"

definition MG_fields :: "wire_kind list" where
  "MG_fields = [K_cname]"

definition MINFO_fields :: "wire_kind list" where
  "MINFO_fields = [K_cname, K_cname]"

definition MR_fields :: "wire_kind list" where
  "MR_fields = [K_cname]"

definition MX_fields :: "wire_kind list" where
  "MX_fields = [K_uint16, K_cname]"

definition NAPTR_fields :: "wire_kind list" where
  "NAPTR_fields = [K_uint16, K_uint16, K_txt, K_txt, K_txt, K_name]"

definition NID_fields :: "wire_kind list" where
  "NID_fields = [K_uint16, K_uint64]"

definition NINFO_fields :: "wire_kind list" where
  "NINFO_fields = [K_txts]"

definition NIMLOC_fields :: "wire_kind list" where
  "NIMLOC_fields = [K_hex]"

definition NS_fields :: "wire_kind list" where
  "NS_fields = [K_cname]"

definition NSAP_fields :: "wire_kind list" where
  "NSAP_fields = [K_uint8, K_txt]"

definition NSAPPTR_fields :: "wire_kind list" where
  "NSAPPTR_fields = [K_name]"

definition NSEC3_fields :: "wire_kind list" where
  "NSEC3_fields = [K_uint8, K_uint8, K_uint16, K_uint8, K_size_hex, K_uint8, K_size_base32, K_nsec]"

definition NSEC3PARAM_fields :: "wire_kind list" where
  "NSEC3PARAM_fields = [K_uint8, K_uint8, K_uint16, K_uint8, K_hex]"

definition NSEC_fields :: "wire_kind list" where
  "NSEC_fields = [K_name, K_nsec]"

definition OPENPGPKEY_fields :: "wire_kind list" where
  "OPENPGPKEY_fields = [K_base64]"

definition OPT_fields :: "wire_kind list" where
  "OPT_fields = [K_opt]"

definition PTR_fields :: "wire_kind list" where
  "PTR_fields = [K_cname]"

definition RKEY_fields :: "wire_kind list" where
  "RKEY_fields = [K_uint16, K_uint8, K_uint8, K_base64]"

definition RP_fields :: "wire_kind list" where
  "RP_fields = [K_name, K_name]"

definition PX_fields :: "wire_kind list" where
  "PX_fields = [K_uint16, K_name, K_name]"

definition RRSIG_fields :: "wire_kind list" where
  "RRSIG_fields = [K_uint16, K_uint8, K_uint8, K_uint32, K_uint32, K_uint32, K_uint16, K_name, K_base64]"

definition SIG_fields :: "wire_kind list" where
  "SIG_fields = RRSIG_fields"

definition RT_fields :: "wire_kind list" where
  "RT_fields = [K_uint16, K_cname]"

definition SOA_fields :: "wire_kind list" where
  "SOA_fields = [K_cname, K_cname, K_uint32, K_uint32, K_uint32, K_uint32, K_uint32]"

definition SPF_fields :: "wire_kind list" where
  "SPF_fields = [K_txts]"

definition SRV_fields :: "wire_kind list" where
  "SRV_fields = [K_uint16, K_uint16, K_uint16, K_name]"

definition SSHFP_fields :: "wire_kind list" where
  "SSHFP_fields = [K_uint8, K_uint8, K_hex]"

definition TA_fields :: "wire_kind list" where
  "TA_fields = [K_uint16, K_uint8, K_uint8, K_hex]"

definition TALINK_fields :: "wire_kind list" where
  "TALINK_fields = [K_name, K_name]"

definition TKEY_fields :: "wire_kind list" where
  "TKEY_fields = [K_name, K_uint32, K_uint32, K_uint16, K_uint16, K_uint16, K_txt, K_uint16, K_txt]"

definition TLSA_fields :: "wire_kind list" where
  "TLSA_fields = [K_uint8, K_uint8, K_uint8, K_hex]"

definition TSIG_fields :: "wire_kind list" where
  "TSIG_fields = [K_name, K_uint48, K_uint16, K_uint16, K_size_hex, K_uint16, K_uint16, K_uint16, K_size_hex]"

definition TXT_fields :: "wire_kind list" where
  "TXT_fields = [K_txts]"

definition UID_fields :: "wire_kind list" where
  "UID_fields = [K_uint32]"

definition UINFO_fields :: "wire_kind list" where
  "UINFO_fields = [K_txt]"

definition URI_fields :: "wire_kind list" where
  "URI_fields = [K_uint16, K_uint16, K_txts]"

definition WKS_fields :: "wire_kind list" where
  "WKS_fields = [K_a, K_uint8, K_wks]"

definition X25_fields :: "wire_kind list" where
  "X25_fields = [K_txt]"

definition RFC3597_fields :: "wire_kind list" where
  "RFC3597_fields = [K_hex]"

text \<open>The Go type of a record with its fields behind the header, by the type in the header.\<close>

definition typeToRR :: "(16 word \<times> string \<times> wire_kind list) list" where
  "typeToRR =
     [(1, (''A'', A_fields)),
      (28, (''AAAA'', AAAA_fields)),
      (18, (''AFSDB'', AFSDB_fields)),
      (59, (''CDS'', CDS_fields)),
      (37, (''CERT'', CERT_fields)),
      (5, (''CNAME'', CNAME_fields)),
      (49, (''DHCID'', DHCID_fields)),
      (32769, (''DLV'', DLV_fields)),
      (39, (''DNAME'', DNAME_fields)),
      (25, (''KEY'', KEY_fields)),
      (48, (''DNSKEY'', DNSKEY_fields)),
      (43, (''DS'', DS_fields)),
      (108, (''EUI48'', EUI48_fields)),
      (109, (''EUI64'', EUI64_fields)),
      (102, (''GID'', GID_fields)),
      (27, (''GPOS'', GPOS_fields)),
      (31, (''EID'', EID_fields)),
      (13, (''HINFO'', HINFO_fields)),
      (55, (''HIP'', HIP_fields)),
      (36, (''KX'', KX_fields)),
      (105, (''L32'', L32_fields)),
      (106, (''L64'', L64_fields)),
      (29, (''LOC'', LOC_fields)),
      (107, (''LP'', LP_fields)),
      (7, (''MB'', MB_fields)),
      (3, (''MD'', MD_fields)),
      (4, (''MF'', MF_fields)),
      (8, (''MG'', MG_fields)),
      (14, (''MINFO'', MINFO_fields)),
      (9, (''MR'', MR_fields)),
      (15, (''MX'', MX_fields)),
      (35, (''NAPTR'', NAPTR_fields)),
      (104, (''NID'', NID_fields)),
      (56, (''NINFO'', NINFO_fields)),
      (32, (''NIMLOC'', NIMLOC_fields)),
      (2, (''NS'', NS_fields)),
      (22, (''NSAP'', NSAP_fields)),
      (23, (''NSAPPTR'', NSAPPTR_fields)),
      (50, (''NSEC3'', NSEC3_fields)),
      (51, (''NSEC3PARAM'', NSEC3PARAM_fields)),
      (47, (''NSEC'', NSEC_fields)),
      (61, (''OPENPGPKEY'', OPENPGPKEY_fields)),
      (41, (''OPT'', OPT_fields)),
      (12, (''PTR'', PTR_fields)),
      (57, (''RKEY'', RKEY_fields)),
      (17, (''RP'', RP_fields)),
      (26, (''PX'', PX_fields)),
      (24, (''SIG'', SIG_fields)),
      (46, (''RRSIG'', RRSIG_fields)),
      (21, (''RT'', RT_fields)),
      (6, (''SOA'', SOA_fields)),
      (99, (''SPF'', SPF_fields)),
      (33, (''SRV'', SRV_fields)),
      (44, (''SSHFP'', SSHFP_fields)),
      (32768, (''TA'', TA_fields)),
      (58, (''TALINK'', TALINK_fields)),
      (249, (''TKEY'', TKEY_fields)),
      (52, (''TLSA'', TLSA_fields)),
      (250, (''TSIG'', TSIG_fields)),
      (16, (''TXT'', TXT_fields)),
      (101, (''UID'', UID_fields)),
      (100, (''UINFO'', UINFO_fields)),
      (256, (''URI'', URI_fields)),
      (11, (''WKS'', WKS_fields)),
      (19, (''X25'', X25_fields))]"

subsection \<open>The estimated lengths of records\<close>

text \<open>
  \<open>Pack\<close> allocates what these say, and one byte more.  The fields are those behind the
  header.  The length of an OPT record is in theory DnsMsg, with its options.
\<close>

definition header_len :: "RR_Header \<Rightarrow> nat" where
  "header_len h = length (h_Name h) + 1 + 10"

definition f_len :: "field \<Rightarrow> nat" where
  "f_len v = length (f_str v)"

definition b64_DecodedLen :: "nat \<Rightarrow> nat" where
  "b64_DecodedLen n = n div 4 * 3"

text \<open>
  33 bytes for each window of the bitmap.  The loop starts with the window
  \<open>2 ^ 32 + 1\<close>, in which Go's operator is the exclusive or: 35.
\<close>

fun bitmap_len :: "nat \<Rightarrow> 16 word list \<Rightarrow> nat" where
  "bitmap_len lastwindow [] = 0"
| "bitmap_len lastwindow (t # ts) = (if unat t div 256 \<noteq> lastwindow then 1 + 32 else 0) + bitmap_len (unat t div 256) ts"

definition A_len :: "RR_Header \<Rightarrow> field list \<Rightarrow> nat" where
  "A_len h fs = header_len h + 4"

definition AAAA_len :: "RR_Header \<Rightarrow> field list \<Rightarrow> nat" where
  "AAAA_len h fs = header_len h + 16"

definition AFSDB_len :: "RR_Header \<Rightarrow> field list \<Rightarrow> nat" where
  "AFSDB_len h fs = header_len h + f_len (fs ! 1) + 1 + 2"

definition DS_len :: "RR_Header \<Rightarrow> field list \<Rightarrow> nat" where
  "DS_len h fs = header_len h + 4 + f_len (fs ! 3) div 2"

definition CERT_len :: "RR_Header \<Rightarrow> field list \<Rightarrow> nat" where
  "CERT_len h fs = header_len h + 5 + b64_DecodedLen (f_len (fs ! 3))"

definition CNAME_len :: "RR_Header \<Rightarrow> field list \<Rightarrow> nat" where
  "CNAME_len h fs = header_len h + f_len (fs ! 0) + 1"

definition DHCID_len :: "RR_Header \<Rightarrow> field list \<Rightarrow> nat" where
  "DHCID_len h fs = header_len h + b64_DecodedLen (f_len (fs ! 0))"

definition DNAME_len :: "RR_Header \<Rightarrow> field list \<Rightarrow> nat" where
  "DNAME_len h fs = header_len h + f_len (fs ! 0) + 1"

definition DNSKEY_len :: "RR_Header \<Rightarrow> field list \<Rightarrow> nat" where
  "DNSKEY_len h fs = header_len h + 4 + b64_DecodedLen (f_len (fs ! 3))"

definition EID_len :: "RR_Header \<Rightarrow> field list \<Rightarrow> nat" where
  "EID_len h fs = header_len h + f_len (fs ! 0) div 2"

definition EUI48_len :: "RR_Header \<Rightarrow> field list \<Rightarrow> nat" where
  "EUI48_len h fs = header_len h + 6"

definition EUI64_len :: "RR_Header \<Rightarrow> field list \<Rightarrow> nat" where
  "EUI64_len h fs = header_len h + 8"

definition GID_len :: "RR_Header \<Rightarrow> field list \<Rightarrow> nat" where
  "GID_len h fs = header_len h + 4"

definition GPOS_len :: "RR_Header \<Rightarrow> field list \<Rightarrow> nat" where
  "GPOS_len h fs = header_len h + f_len (fs ! 0) + f_len (fs ! 1) + f_len (fs ! 2) + 3"

definition HINFO_len :: "RR_Header \<Rightarrow> field list \<Rightarrow> nat" where
  "HINFO_len h fs = header_len h + f_len (fs ! 0) + f_len (fs ! 1)"

definition HIP_len :: "RR_Header \<Rightarrow> field list \<Rightarrow> nat" where
  "HIP_len h fs = header_len h + 4 + f_len (fs ! 3) div 2 + b64_DecodedLen (f_len (fs ! 4)) + sum_list (map (\<lambda>d. length d + 1) (f_strs (fs ! 5)))"

definition KX_len :: "RR_Header \<Rightarrow> field list \<Rightarrow> nat" where
  "KX_len h fs = header_len h + 2 + f_len (fs ! 1) + 1"

definition L32_len :: "RR_Header \<Rightarrow> field list \<Rightarrow> nat" where
  "L32_len h fs = header_len h + 4"

definition L64_len :: "RR_Header \<Rightarrow> field list \<Rightarrow> nat" where
  "L64_len h fs = header_len h + 2 + 8"

definition LOC_len :: "RR_Header \<Rightarrow> field list \<Rightarrow> nat" where
  "LOC_len h fs = header_len h + 4 + 12"

definition LP_len :: "RR_Header \<Rightarrow> field list \<Rightarrow> nat" where
  "LP_len h fs = header_len h + 2 + f_len (fs ! 1) + 1"

definition MB_len :: "RR_Header \<Rightarrow> field list \<Rightarrow> nat" where
  "MB_len h fs = header_len h + f_len (fs ! 0) + 1"

definition MD_len :: "RR_Header \<Rightarrow> field list \<Rightarrow> nat" where
  "MD_len h fs = header_len h + f_len (fs ! 0) + 1"

definition MF_len :: "RR_Header \<Rightarrow> field list \<Rightarrow> nat" where
  "MF_len h fs = header_len h + f_len (fs ! 0) + 1"

definition MG_len :: "RR_Header \<Rightarrow> field list \<Rightarrow> nat" where
  "MG_len h fs = header_len h + f_len (fs ! 0) + 1"

definition MINFO_len :: "RR_Header \<Rightarrow> field list \<Rightarrow> nat" where
  "MINFO_len h fs = header_len h + f_len (fs ! 0) + 1 + f_len (fs ! 1) + 1"

definition MR_len :: "RR_Header \<Rightarrow> field list \<Rightarrow> nat" where
  "MR_len h fs = header_len h + f_len (fs ! 0) + 1"

definition MX_len :: "RR_Header \<Rightarrow> field list \<Rightarrow> nat" where
  "MX_len h fs = header_len h + f_len (fs ! 1) + 1 + 2"

definition NAPTR_len :: "RR_Header \<Rightarrow> field list \<Rightarrow> nat" where
  "NAPTR_len h fs = header_len h + 4 + f_len (fs ! 2) + 1 + f_len (fs ! 3) + 1 + f_len (fs ! 4) + 1 + f_len (fs ! 5) + 1"

definition NID_len :: "RR_Header \<Rightarrow> field list \<Rightarrow> nat" where
  "NID_len h fs = header_len h + 2 + 8"

definition NIMLOC_len :: "RR_Header \<Rightarrow> field list \<Rightarrow> nat" where
  "NIMLOC_len h fs = header_len h + f_len (fs ! 0) div 2"

definition NINFO_len :: "RR_Header \<Rightarrow> field list \<Rightarrow> nat" where
  "NINFO_len h fs = header_len h + sum_list (map (\<lambda>t. length t + 1) (f_strs (fs ! 0)))"

definition NS_len :: "RR_Header \<Rightarrow> field list \<Rightarrow> nat" where
  "NS_len h fs = header_len h + f_len (fs ! 0) + 1"

definition NSAP_len :: "RR_Header \<Rightarrow> field list \<Rightarrow> nat" where
  "NSAP_len h fs = header_len h + 1 + f_len (fs ! 1) + 1"

definition NSAPPTR_len :: "RR_Header \<Rightarrow> field list \<Rightarrow> nat" where
  "NSAPPTR_len h fs = header_len h + f_len (fs ! 0)"

definition NSEC_len :: "RR_Header \<Rightarrow> field list \<Rightarrow> nat" where
  "NSEC_len h fs = header_len h + f_len (fs ! 0) + 1 + bitmap_len 35 (f_u16s (fs ! 1))"

definition NSEC3_len :: "RR_Header \<Rightarrow> field list \<Rightarrow> nat" where
  "NSEC3_len h fs = header_len h + 6 + f_len (fs ! 4) div 2 + 1 + f_len (fs ! 6) + 1 + bitmap_len 35 (f_u16s (fs ! 7))"

definition NSEC3PARAM_len :: "RR_Header \<Rightarrow> field list \<Rightarrow> nat" where
  "NSEC3PARAM_len h fs = header_len h + 2 + 4 + 1 + f_len (fs ! 4) div 2"

definition OPENPGPKEY_len :: "RR_Header \<Rightarrow> field list \<Rightarrow> nat" where
  "OPENPGPKEY_len h fs = header_len h + b64_DecodedLen (f_len (fs ! 0))"

definition PTR_len :: "RR_Header \<Rightarrow> field list \<Rightarrow> nat" where
  "PTR_len h fs = header_len h + f_len (fs ! 0) + 1"

definition PX_len :: "RR_Header \<Rightarrow> field list \<Rightarrow> nat" where
  "PX_len h fs = header_len h + 2 + f_len (fs ! 1) + 1 + f_len (fs ! 2) + 1"

definition RFC3597_len :: "RR_Header \<Rightarrow> field list \<Rightarrow> nat" where
  "RFC3597_len h fs = header_len h + f_len (fs ! 0) div 2 + 2"

definition RKEY_len :: "RR_Header \<Rightarrow> field list \<Rightarrow> nat" where
  "RKEY_len h fs = header_len h + 4 + b64_DecodedLen (f_len (fs ! 3))"

definition RP_len :: "RR_Header \<Rightarrow> field list \<Rightarrow> nat" where
  "RP_len h fs = header_len h + f_len (fs ! 0) + 1 + f_len (fs ! 1) + 1"

definition RRSIG_len :: "RR_Header \<Rightarrow> field list \<Rightarrow> nat" where
  "RRSIG_len h fs = header_len h + f_len (fs ! 7) + 1 + b64_DecodedLen (f_len (fs ! 8)) + 18"

definition RT_len :: "RR_Header \<Rightarrow> field list \<Rightarrow> nat" where
  "RT_len h fs = header_len h + f_len (fs ! 1) + 1 + 2"

definition SOA_len :: "RR_Header \<Rightarrow> field list \<Rightarrow> nat" where
  "SOA_len h fs = header_len h + f_len (fs ! 0) + 1 + f_len (fs ! 1) + 1 + 20"

definition SPF_len :: "RR_Header \<Rightarrow> field list \<Rightarrow> nat" where
  "SPF_len h fs = header_len h + sum_list (map (\<lambda>t. length t + 1) (f_strs (fs ! 0)))"

definition SRV_len :: "RR_Header \<Rightarrow> field list \<Rightarrow> nat" where
  "SRV_len h fs = header_len h + f_len (fs ! 3) + 1 + 6"

definition SSHFP_len :: "RR_Header \<Rightarrow> field list \<Rightarrow> nat" where
  "SSHFP_len h fs = header_len h + 2 + f_len (fs ! 2) div 2"

definition TA_len :: "RR_Header \<Rightarrow> field list \<Rightarrow> nat" where
  "TA_len h fs = header_len h + 4 + f_len (fs ! 3) div 2"

definition TALINK_len :: "RR_Header \<Rightarrow> field list \<Rightarrow> nat" where
  "TALINK_len h fs = header_len h + f_len (fs ! 0) + f_len (fs ! 1) + 2"

definition TKEY_len :: "RR_Header \<Rightarrow> field list \<Rightarrow> nat" where
  "TKEY_len h fs = header_len h + f_len (fs ! 0) + 1 + 4 + 4 + 6 + f_len (fs ! 6) + 2 + f_len (fs ! 8)"

definition TLSA_len :: "RR_Header \<Rightarrow> field list \<Rightarrow> nat" where
  "TLSA_len h fs = header_len h + 3 + f_len (fs ! 3) div 2"

definition TSIG_len :: "RR_Header \<Rightarrow> field list \<Rightarrow> nat" where
  "TSIG_len h fs = header_len h + f_len (fs ! 0) + 1 + 6 + 4 + f_len (fs ! 4) div 2 + 1 + 6 + f_len (fs ! 8) div 2 + 1"

definition TXT_len :: "RR_Header \<Rightarrow> field list \<Rightarrow> nat" where
  "TXT_len h fs = header_len h + sum_list (map (\<lambda>t. length t + 1) (f_strs (fs ! 0)))"

definition UID_len :: "RR_Header \<Rightarrow> field list \<Rightarrow> nat" where
  "UID_len h fs = header_len h + 4"

definition UINFO_len :: "RR_Header \<Rightarrow> field list \<Rightarrow> nat" where
  "UINFO_len h fs = header_len h + f_len (fs ! 0) + 1"

definition URI_len :: "RR_Header \<Rightarrow> field list \<Rightarrow> nat" where
  "URI_len h fs = header_len h + 4 + sum_list (map (\<lambda>t. length t + 1) (f_strs (fs ! 2)))"

definition WKS_len :: "RR_Header \<Rightarrow> field list \<Rightarrow> nat" where
  "WKS_len h fs = header_len h + 4 + 1"

definition X25_len :: "RR_Header \<Rightarrow> field list \<Rightarrow> nat" where
  "X25_len h fs = header_len h + f_len (fs ! 0) + 1"

definition len_table :: "(string \<times> (RR_Header \<Rightarrow> field list \<Rightarrow> nat)) list" where
  "len_table =
     [(''A'', A_len),
      (''AAAA'', AAAA_len),
      (''AFSDB'', AFSDB_len),
      (''CDS'', DS_len),
      (''CERT'', CERT_len),
      (''CNAME'', CNAME_len),
      (''DHCID'', DHCID_len),
      (''DLV'', DS_len),
      (''DNAME'', DNAME_len),
      (''DNSKEY'', DNSKEY_len),
      (''DS'', DS_len),
      (''EID'', EID_len),
      (''EUI48'', EUI48_len),
      (''EUI64'', EUI64_len),
      (''GID'', GID_len),
      (''GPOS'', GPOS_len),
      (''HINFO'', HINFO_len),
      (''HIP'', HIP_len),
      (''KEY'', DNSKEY_len),
      (''KX'', KX_len),
      (''L32'', L32_len),
      (''L64'', L64_len),
      (''LOC'', LOC_len),
      (''LP'', LP_len),
      (''MB'', MB_len),
      (''MD'', MD_len),
      (''MF'', MF_len),
      (''MG'', MG_len),
      (''MINFO'', MINFO_len),
      (''MR'', MR_len),
      (''MX'', MX_len),
      (''NAPTR'', NAPTR_len),
      (''NID'', NID_len),
      (''NIMLOC'', NIMLOC_len),
      (''NINFO'', NINFO_len),
      (''NS'', NS_len),
      (''NSAP'', NSAP_len),
      (''NSAPPTR'', NSAPPTR_len),
      (''NSEC'', NSEC_len),
      (''NSEC3'', NSEC3_len),
      (''NSEC3PARAM'', NSEC3PARAM_len),
      (''OPENPGPKEY'', OPENPGPKEY_len),
      (''PTR'', PTR_len),
      (''PX'', PX_len),
      (''RFC3597'', RFC3597_len),
      (''RKEY'', RKEY_len),
      (''RP'', RP_len),
      (''RRSIG'', RRSIG_len),
      (''RT'', RT_len),
      (''SIG'', RRSIG_len),
      (''SOA'', SOA_len),
      (''SPF'', SPF_len),
      (''SRV'', SRV_len),
      (''SSHFP'', SSHFP_len),
      (''TA'', TA_len),
      (''TALINK'', TALINK_len),
      (''TKEY'', TKEY_len),
      (''TLSA'', TLSA_len),
      (''TSIG'', TSIG_len),
      (''TXT'', TXT_len),
      (''UID'', UID_len),
      (''UINFO'', UINFO_len),
      (''URI'', URI_len),
      (''WKS'', WKS_len),
      (''X25'', X25_len)]"

subsection \<open>Records and messages\<close>

definition known_rr :: "16 word \<Rightarrow> string \<times> wire_kind list" where
  "known_rr rrtype = (case map_of typeToRR rrtype of None \<Rightarrow> (''RFC3597'', RFC3597_fields) | Some mk \<Rightarrow> mk)"

lemmas typeToRR_fields = A_fields_def AAAA_fields_def PTR_fields_def SRV_fields_def TXT_fields_def

text \<open>A record: the name of its Go type, its header, and its other fields in order.\<close>

record wire_RR =
  w_type :: string
  w_Hdr :: RR_Header
  w_fields :: "field list"

record Question =
  q_Name :: string
  q_Qtype :: "16 word"
  q_Qclass :: "16 word"

record MsgHdr =
  mh_Id :: "16 word"
  mh_Response :: bool
  mh_Opcode :: int
  mh_Authoritative :: bool
  mh_Truncated :: bool
  mh_RecursionDesired :: bool
  mh_RecursionAvailable :: bool
  mh_Zero :: bool
  mh_AuthenticatedData :: bool
  mh_CheckingDisabled :: bool
  mh_Rcode :: int

definition MsgHdr_zero :: MsgHdr where
  "MsgHdr_zero = \<lparr>mh_Id = 0, mh_Response = False, mh_Opcode = 0, mh_Authoritative = False, mh_Truncated = False, mh_RecursionDesired = False,
     mh_RecursionAvailable = False, mh_Zero = False, mh_AuthenticatedData = False, mh_CheckingDisabled = False, mh_Rcode = 0\<rparr>"

record wire_Msg =
  wm_Hdr :: MsgHdr
  wm_Compress :: bool
  wm_Question :: "Question list"
  wm_Answer :: "wire_RR list"
  wm_Ns :: "wire_RR list"
  wm_Extra :: "wire_RR list"

end
