(* ===== verification/DnsMsg.thy ===== *)
theory DnsMsg
  imports DnsTypes
begin

section \<open>The wire format of DNS messages (miekg/dns, msg.go, rawmsg.go, edns.go)\<close>

text \<open>
  Packing a message into a packet and reading a packet, for every type of record that
  miekg/dns knows.

  A loop over names in a record need not end, so reading takes a number of steps;
  \<open>NoReturn\<close> means that they are used up.
\<close>

definition dns_err :: "string \<Rightarrow> gerror" where
  "dns_err text = Err (''dns: '' @ text)"

definition slice :: "bytes \<Rightarrow> nat \<Rightarrow> nat \<Rightarrow> bytes outcome" where
  "slice msg a b = (if a \<le> b \<and> b \<le> length msg then Ret (take (b - a) (drop a msg)) else slice_panic)"

subsection \<open>Big-endian numbers\<close>

definition packUint32 :: "32 word \<Rightarrow> bytes" where
  "packUint32 i = [ucast (drop_bit 24 i), ucast (drop_bit 16 i), ucast (drop_bit 8 i), ucast i]"

definition packUint64 :: "64 word \<Rightarrow> bytes" where
  "packUint64 i = map (\<lambda>k. ucast (drop_bit k i)) [56, 48, 40, 32, 24, 16, 8, 0]"

definition packUint48 :: "64 word \<Rightarrow> bytes" where
  "packUint48 i = map (\<lambda>k. ucast (drop_bit k i)) [40, 32, 24, 16, 8, 0]"

definition be_word :: "bytes \<Rightarrow> 'a::len word" where
  "be_word bs = foldl (\<lambda>a b. push_bit 8 a OR ucast b) 0 bs"

subsection \<open>The encodings of the standard library\<close>

definition decode_hex_error :: gerror where
  "decode_hex_error = Err ''encoding/hex: invalid byte''"

fun hex_pairs :: "string \<Rightarrow> gerror + bytes" where
  "hex_pairs (a # b # r) = (case (hex_val a, hex_val b) of
       (Some x, Some y) \<Rightarrow> (case hex_pairs r of Inl err \<Rightarrow> Inl err | Inr bs \<Rightarrow> Inr (of_int (16 * x + y) # bs))
     | _ \<Rightarrow> Inl decode_hex_error)"
| "hex_pairs _ = Inr []"

definition hex_DecodeString :: "string \<Rightarrow> gerror + bytes" where
  "hex_DecodeString s = (if odd (length s) then Inl (Err ''encoding/hex: odd length hex string'') else hex_pairs s)"

definition fromBase64 :: "string \<Rightarrow> gerror + bytes" where
  "fromBase64 s = (let (bs, ok) = decode64 s in if ok then Inr bs else Inl (Err ''illegal base64 data''))"

text \<open>The encoding of base 32 with the digits of hexadecimal.\<close>

definition b32_char :: "nat \<Rightarrow> char" where
  "b32_char n = (if n < 10 then char_of (48 + n) else char_of (65 + (n - 10)))"

definition b32_val :: "char \<Rightarrow> nat option" where
  "b32_val c = (let k = code c in if 48 \<le> k \<and> k \<le> 57 then Some (k - 48) else if 65 \<le> k \<and> k \<le> 86 then Some (k - 65 + 10) else None)"

definition b32_group :: "bytes \<Rightarrow> string" where
  "b32_group bs =
     (let v = foldl (\<lambda>v b. 256 * v + unat b) 0 (bs @ replicate (5 - length bs) 0);
          n = (8 * length bs + 4) div 5 in
      map (\<lambda>k. b32_char (v div 32 ^ k mod 32)) (take n [7, 6, 5, 4, 3, 2, 1, 0]) @ replicate (8 - n) (CHR ''=''))"

function toBase32 :: "bytes \<Rightarrow> string" where
  "toBase32 bs = (if bs = [] then [] else b32_group (take 5 bs) @ toBase32 (drop 5 bs))"
  by pat_completeness auto
termination
  by (relation "measure length") auto

declare toBase32.simps [simp del]

definition b32_bytes :: "string \<Rightarrow> bytes" where
  "b32_bytes cs =
     (let v = foldl (\<lambda>v c. 32 * v + the (b32_val c)) 0 cs * 32 ^ (8 - length cs) in
      map (\<lambda>k. of_nat (v div 256 ^ k mod 256)) (take (length cs * 5 div 8) [4, 3, 2, 1, 0]))"

function decode32 :: "string \<Rightarrow> bytes option" where
  "decode32 src =
     (if src = [] then Some []
      else let ds = takeWhile (\<lambda>c. b32_val c \<noteq> None) (take 8 src); j = length ds in
        if j = 8 then map_option (\<lambda>bs. b32_bytes ds @ bs) (decode32 (drop 8 src))
        else case drop j src of
            [] \<Rightarrow> None
          | c # r \<Rightarrow>
              if c = CHR ''='' \<and> j \<ge> 2 \<and> length r < 8 \<and> length r + j \<ge> 7 \<and> list_all ((=) (CHR ''='')) (take (7 - j) r) \<and> j \<notin> {3, 6}
              then Some (b32_bytes ds) else None)"
  by pat_completeness auto
termination
  by (relation "measure length") auto

declare decode32.simps [simp del]

definition fromBase32 :: "string \<Rightarrow> gerror + bytes" where
  "fromBase32 s = (case decode32 (filter (\<lambda>c. c \<noteq> CHR 0x0D \<and> c \<noteq> CHR 0x0A) s) of
       None \<Rightarrow> Inl (Err ''illegal base32 data'') | Some bs \<Rightarrow> Inr bs)"

subsection \<open>The options of EDNS0\<close>

fun edns_Option :: "EDNS0 \<Rightarrow> 16 word" where
  "edns_Option (EDNS0_LLQ _ _ _ _ _) = 1"
| "edns_Option (EDNS0_UL _) = 2"
| "edns_Option (EDNS0_NSID _) = 3"
| "edns_Option (EDNS0_DAU _) = 5"
| "edns_Option (EDNS0_DHU _) = 6"
| "edns_Option (EDNS0_N3U _) = 7"
| "edns_Option (EDNS0_SUBNET _ _ _ _ draft) = (if draft then 0x50fa else 8)"
| "edns_Option (EDNS0_EXPIRE _) = 9"

text \<open>The bytes of the address \<open>a\<close>, masked, of an address \<open>ip\<close>, \<open>n\<close> of them at most.\<close>

definition subnet_address :: "nat \<Rightarrow> bytes \<Rightarrow> bytes \<Rightarrow> byte \<Rightarrow> bytes packed" where
  "subnet_address n ip a netmask =
     (let k = min n (length ip); need = unat netmask div 8 + (if unat netmask mod 8 > 0 then 1 else 0) in
      if k \<le> length a then Ret (Inr (take need (take k a @ replicate (n - k) 0))) else index_panic)"

definition subnet_pack :: "16 word \<Rightarrow> byte \<Rightarrow> byte \<Rightarrow> bytes \<Rightarrow> bytes packed" where
  "subnet_pack family netmask scope ip =
     (let b = packUint16 family @ [netmask, scope] in
      if family = 1 then
        (if netmask > 32 then Ret (Inl (dns_err ''bad netmask''))
         else bindP (subnet_address 4 ip (ip_Mask (To4 ip) (CIDRMask (unat netmask) 32)) netmask) (\<lambda>a. Ret (Inr (b @ a))))
      else if family = 2 then
        (if netmask > 128 then Ret (Inl (dns_err ''bad netmask''))
         else bindP (subnet_address 16 ip (ip_Mask ip (CIDRMask (unat netmask) 128)) netmask) (\<lambda>a. Ret (Inr (b @ a))))
      else Ret (Inl (dns_err ''bad address family'')))"

fun edns_pack :: "EDNS0 \<Rightarrow> bytes packed" where
  "edns_pack (EDNS0_NSID nsid) = Ret (hex_DecodeString nsid)"
| "edns_pack (EDNS0_SUBNET family netmask scope ip draft) = subnet_pack family netmask scope ip"
| "edns_pack (EDNS0_UL lease) = Ret (Inr (packUint32 lease))"
| "edns_pack (EDNS0_LLQ version opcode err ident life) =
     Ret (Inr (packUint16 version @ packUint16 opcode @ packUint16 err @ packUint64 ident @ packUint32 life))"
| "edns_pack (EDNS0_DAU codes) = Ret (Inr codes)"
| "edns_pack (EDNS0_DHU codes) = Ret (Inr codes)"
| "edns_pack (EDNS0_N3U codes) = Ret (Inr codes)"
| "edns_pack (EDNS0_EXPIRE expire) = Ret (Inr (packUint32 expire))"

text \<open>The loop over \<open>netmask / 8\<close> bytes of the address in \<open>b\<close>.\<close>

definition subnet_bytes :: "nat \<Rightarrow> byte \<Rightarrow> bytes \<Rightarrow> gerror + bytes" where
  "subnet_bytes n netmask b =
     (let k = unat netmask div 8 in
      if k > n \<or> k + 4 > length b then Inl ErrBuf else Inr (take k (drop 4 b) @ replicate (n - k) 0))"

definition subnet_unpack :: "bool \<Rightarrow> bytes \<Rightarrow> gerror + EDNS0" where
  "subnet_unpack draft b =
     (if length b < 4 then Inl ErrBuf
      else let family = be_word (take 2 b) in
        if family = 1 then
          (case subnet_bytes 4 (b ! 2) b of Inl err \<Rightarrow> Inl err
           | Inr a \<Rightarrow> Inr (EDNS0_SUBNET family (b ! 2) (b ! 3) (IPv4 (a ! 0) (a ! 1) (a ! 2) (a ! 3)) draft))
        else if family = 2 then
          (case subnet_bytes 16 (b ! 2) b of Inl err \<Rightarrow> Inl err
           | Inr a \<Rightarrow> Inr (EDNS0_SUBNET family (b ! 2) (b ! 3) a draft))
        else Inr (EDNS0_SUBNET family (b ! 2) (b ! 3) [] draft))"

definition llq_unpack :: "bytes \<Rightarrow> gerror + EDNS0" where
  "llq_unpack b =
     (if length b < 18 then Inl ErrBuf
      else Inr (EDNS0_LLQ (be_word (take 2 b)) (be_word (take 2 (drop 2 b))) (be_word (take 2 (drop 4 b)))
             (be_word (take 8 (drop 6 b))) (be_word (take 4 (drop 14 b)))))"

text \<open>An option by its code; there is none for a code that is not known.\<close>

definition edns_unpack :: "16 word \<Rightarrow> bytes \<Rightarrow> gerror + EDNS0 list" where
  "edns_unpack c b =
     (if c = 3 then Inr [EDNS0_NSID (hexString b)]
      else if c = 8 \<or> c = 0x50fa then map_sum id (\<lambda>e. [e]) (subnet_unpack (c = 0x50fa) b)
      else if c = 2 then (if length b < 4 then Inl ErrBuf else Inr [EDNS0_UL (be_word (take 4 b))])
      else if c = 1 then map_sum id (\<lambda>e. [e]) (llq_unpack b)
      else if c = 5 then Inr [EDNS0_DAU b]
      else if c = 6 then Inr [EDNS0_DHU b]
      else if c = 7 then Inr [EDNS0_N3U b]
      else Inr [])"

subsection \<open>Writing\<close>

definition put_checked :: "string \<Rightarrow> bytes \<Rightarrow> nat \<Rightarrow> bytes \<Rightarrow> (bytes \<times> nat) packed" where
  "put_checked what msg off bs = (if off + length bs > length msg then Ret (Inl (dns_err (''overflow packing '' @ what)))
     else Ret (Inr (put msg off bs, off + length bs)))"

definition pack_a :: "bytes \<Rightarrow> bytes \<Rightarrow> nat \<Rightarrow> (bytes \<times> nat) packed" where
  "pack_a ip msg off =
     (if off + 4 > length msg then Ret (Inl (dns_err ''overflow packing a''))
      else if length ip = 16 then Ret (Inr (put msg off (drop 12 ip), off + 4))
      else if length ip = 4 then Ret (Inr (put msg off ip, off + 4))
      else if length ip = 0 then Ret (Inr (msg, off))
      else Ret (Inl (dns_err ''overflow packing a'')))"

text \<open>The loop reads 16 bytes of the address, however long it is.\<close>

definition pack_aaaa :: "bytes \<Rightarrow> bytes \<Rightarrow> nat \<Rightarrow> (bytes \<times> nat) packed" where
  "pack_aaaa ip msg off =
     (if length ip = 0 then Ret (Inr (msg, off))
      else if length ip > 16 \<or> off + length ip > length msg then Ret (Inl (dns_err ''overflow packing aaaa''))
      else if length ip < 16 then index_panic
      else Ret (Inr (put msg off ip, off + 16)))"

text \<open>The bytes of a slice that the copy goes to must be there.\<close>

definition put_slice :: "bytes \<Rightarrow> nat \<Rightarrow> bytes \<Rightarrow> (bytes \<times> nat) packed" where
  "put_slice msg off bs = (if off + length bs \<le> length msg then Ret (Inr (put msg off bs, off + length bs)) else slice_panic)"

definition pack_hex :: "string \<Rightarrow> bytes \<Rightarrow> nat \<Rightarrow> (bytes \<times> nat) packed" where
  "pack_hex s msg off = (case hex_DecodeString s of Inl err \<Rightarrow> Ret (Inl err) | Inr h \<Rightarrow> put_checked ''hex'' msg off h)"

definition pack_base64 :: "string \<Rightarrow> bytes \<Rightarrow> nat \<Rightarrow> (bytes \<times> nat) packed" where
  "pack_base64 s msg off = (case fromBase64 s of Inl err \<Rightarrow> Ret (Inl err) | Inr b \<Rightarrow> put_slice msg off b)"

definition pack_size_base32 :: "string \<Rightarrow> bytes \<Rightarrow> nat \<Rightarrow> (bytes \<times> nat) packed" where
  "pack_size_base32 s msg off =
     (if off = 0 \<or> off - 1 \<ge> length msg then index_panic
      else case fromBase32 s of Inl err \<Rightarrow> Ret (Inl err) | Inr b \<Rightarrow> put_slice (put msg (off - 1) [20]) off b)"

primrec pack_opts :: "EDNS0 list \<Rightarrow> bytes \<Rightarrow> nat \<Rightarrow> (bytes \<times> nat) packed" where
  "pack_opts [] msg off = Ret (Inr (msg, off))"
| "pack_opts (e # es) msg off =
     bindO (edns_pack e) (\<lambda>r. case r of
         Inl err \<Rightarrow> Ret (Inl (dns_err ''overflow packing opt''))
       | Inr b \<Rightarrow>
           if off + 3 \<ge> length msg then index_panic
           else let msg = put msg off (packUint16 (edns_Option e) @ packUint16 (of_nat (length b))); off = off + 4 in
             if off + length b > length msg then pack_opts es (take (length msg) (put msg off b)) (length msg)
             else pack_opts es (put msg off b) (off + length b))"

text \<open>The bitmap of a WKS record goes to the start of the message.\<close>

primrec pack_wks_loop :: "16 word list \<Rightarrow> nat \<Rightarrow> bytes \<Rightarrow> (bytes \<times> nat) packed" where
  "pack_wks_loop [] bitmapbyte msg = Ret (Inr (msg, bitmapbyte))"
| "pack_wks_loop (serv # servs) prev msg =
     (let bitmapbyte = unat serv div 8; bit1 = unat serv - bitmapbyte * 8 in
      if bitmapbyte > length msg then Ret (Inl (dns_err ''overflow packing wks''))
      else if bitmapbyte = length msg then index_panic
      else pack_wks_loop servs bitmapbyte (msg[bitmapbyte := push_bit (7 - bit1) 1]))"

definition pack_wks :: "16 word list \<Rightarrow> bytes \<Rightarrow> nat \<Rightarrow> (bytes \<times> nat) packed" where
  "pack_wks servs msg off =
     (if off = length msg \<or> servs = [] then Ret (Inr (msg, off))
      else bindP (pack_wks_loop servs 0 msg) (\<lambda>(msg, bitmapbyte). Ret (Inr (msg, off + bitmapbyte))))"

primrec pack_nsec_loop :: "16 word list \<Rightarrow> nat \<Rightarrow> nat \<Rightarrow> bytes \<Rightarrow> nat \<Rightarrow> (bytes \<times> nat) packed" where
  "pack_nsec_loop [] lastwindow len msg off =
     (if off + 2 + len + 1 > length msg then Ret (Inl (dns_err ''overflow packing nsecx bitmap'')) else Ret (Inr (msg, off + 2 + len + 1)))"
| "pack_nsec_loop (t # ts) lastwindow len msg off =
     (let window = unat t div 256; off = (if lastwindow \<noteq> window then off + len + 3 else off);
          len = (unat t - window * 256) div 8; bit1 = unat t - window * 256 - len * 8 in
      if off + 2 + len > length msg then Ret (Inl (dns_err ''overflow packing nsecx bitmap''))
      else if off + 2 + len = length msg then index_panic
      else let msg = put msg off [of_nat window, of_nat (len + 1)] in
        pack_nsec_loop ts window len (msg[off + 2 + len := msg ! (off + 2 + len) OR push_bit (7 - bit1) 1]) off)"

definition pack_nsec :: "16 word list \<Rightarrow> bytes \<Rightarrow> nat \<Rightarrow> (bytes \<times> nat) packed" where
  "pack_nsec ts msg off =
     (if ts = [] then Ret (Inr (msg, off))
      else if off + 2 > length msg then Ret (Inl (dns_err ''overflow packing nsecx''))
      else pack_nsec_loop ts 0 0 msg off)"

fun pack_names :: "string list \<Rightarrow> bytes \<Rightarrow> nat \<Rightarrow> compression \<Rightarrow> (bytes \<times> nat \<times> compression) packed" where
  "pack_names [] msg off cm = Ret (Inr (msg, off, cm))"
| "pack_names (s # ss) msg off cm = bindP (packDomainName False s msg off cm) (\<lambda>(msg, off, cm). pack_names ss msg off cm)"

definition keep_map :: "compression \<Rightarrow> (bytes \<times> nat) packed \<Rightarrow> (bytes \<times> nat \<times> compression) packed" where
  "keep_map cm m = bindP m (\<lambda>(msg, off). Ret (Inr (msg, off, cm)))"

definition pack_field :: "bool \<Rightarrow> wire_kind \<Rightarrow> field \<Rightarrow> bytes \<Rightarrow> nat \<Rightarrow> compression \<Rightarrow> (bytes \<times> nat \<times> compression) packed" where
  "pack_field compress k v msg off cm = (case k of
       K_uint8 \<Rightarrow> keep_map cm (put_checked ''uint8'' msg off [f_u8 v])
     | K_uint16 \<Rightarrow> keep_map cm (put_checked ''uint16'' msg off (packUint16 (f_u16 v)))
     | K_uint32 \<Rightarrow> keep_map cm (put_checked ''uint32'' msg off (packUint32 (f_u32 v)))
     | K_uint64 \<Rightarrow> keep_map cm (put_checked ''uint64'' msg off (packUint64 (f_u64 v)))
     | K_uint48 \<Rightarrow> keep_map cm (put_checked ''uint64 as uint48'' msg off (packUint48 (f_u64 v)))
     | K_name \<Rightarrow> packDomainName False (f_str v) msg off cm
     | K_cname \<Rightarrow> packDomainName compress (f_str v) msg off cm
     | K_names \<Rightarrow> pack_names (f_strs v) msg off cm
     | K_txt \<Rightarrow> keep_map cm (packTxtString (f_str v) msg off)
     | K_txts \<Rightarrow> keep_map cm (packTxt (f_strs v) msg off)
     | K_a \<Rightarrow> keep_map cm (pack_a (f_ip v) msg off)
     | K_aaaa \<Rightarrow> keep_map cm (pack_aaaa (f_ip v) msg off)
     | K_hex \<Rightarrow> keep_map cm (pack_hex (f_str v) msg off)
     | K_size_hex \<Rightarrow> keep_map cm (pack_hex (f_str v) msg off)
     | K_base64 \<Rightarrow> keep_map cm (pack_base64 (f_str v) msg off)
     | K_size_base32 \<Rightarrow> keep_map cm (pack_size_base32 (f_str v) msg off)
     | K_opt \<Rightarrow> keep_map cm (pack_opts (f_opts v) msg off)
     | K_wks \<Rightarrow> keep_map cm (pack_wks (f_u16s v) msg off)
     | K_nsec \<Rightarrow> keep_map cm (pack_nsec (f_u16s v) msg off))"

fun packStructValue :: "bool \<Rightarrow> wire_kind list \<Rightarrow> field list \<Rightarrow> bytes \<Rightarrow> nat \<Rightarrow> compression \<Rightarrow> (bytes \<times> nat \<times> compression) packed" where
  "packStructValue compress (k # ks) (v # vs) msg off cm =
     bindP (pack_field compress k v msg off cm) (\<lambda>(msg, off, cm). packStructValue compress ks vs msg off cm)"
| "packStructValue compress _ _ msg off cm = Ret (Inr (msg, off, cm))"

definition RR_Header_values :: "RR_Header \<Rightarrow> field list" where
  "RR_Header_values h = [F_str (h_Name h), F_u16 (h_Rrtype h), F_u16 (h_Class h), F_u32 (h_Ttl h), F_u16 (h_Rdlength h)]"

text \<open>The end of the name in the header of a record.\<close>

function skip_name :: "bytes \<Rightarrow> nat \<Rightarrow> nat option" where
  "skip_name msg off =
     (if off + 1 > length msg then None
      else let c = msg ! off; off = Suc off in
        if c AND 0xC0 = 0 then
          (if c = 0 then Some off
           else if off + unat c > length msg then None
           else skip_name msg (off + unat c))
        else if c AND 0xC0 = 0xC0 then Some (Suc off)
        else skip_name msg off)"
  by pat_completeness auto
termination
  by (relation "measure (\<lambda>(msg, off). length msg - off)") auto

declare skip_name.simps [simp del]

definition rawSetRdlength :: "bytes \<Rightarrow> nat \<Rightarrow> nat \<Rightarrow> bytes option" where
  "rawSetRdlength msg off end1 = (case skip_name msg off of
       None \<Rightarrow> None
     | Some off \<Rightarrow>
         (let off = off + 2 + 2 + 4 in
          if off + 2 > length msg then None
          else let rdatalen = int end1 - int (off + 2) in
            if rdatalen > 0xFFFF then None
            else Some (put msg off (packUint16 (of_int rdatalen)))))"

definition fields_of :: "string \<Rightarrow> wire_kind list" where
  "fields_of t = (case map_of (map snd typeToRR) t of None \<Rightarrow> RFC3597_fields | Some ks \<Rightarrow> ks)"

definition PackRR :: "bool \<Rightarrow> wire_RR \<Rightarrow> bytes \<Rightarrow> nat \<Rightarrow> compression \<Rightarrow> (bytes \<times> nat \<times> compression) packed" where
  "PackRR compress rr msg off cm =
     bindP (packStructValue compress (RR_Header_fields @ fields_of (w_type rr)) (RR_Header_values (w_Hdr rr) @ w_fields rr) msg off cm)
       (\<lambda>(msg, off1, cm). case rawSetRdlength msg off off1 of
          Some msg \<Rightarrow> Ret (Inr (msg, off1, cm))
        | None \<Rightarrow> Ret (Inl ErrRdata))"

fun pack_rrs :: "bool \<Rightarrow> wire_RR list \<Rightarrow> bytes \<Rightarrow> nat \<Rightarrow> compression \<Rightarrow> (bytes \<times> nat \<times> compression) packed" where
  "pack_rrs compress [] msg off cm = Ret (Inr (msg, off, cm))"
| "pack_rrs compress (rr # rrs) msg off cm =
     bindP (PackRR compress rr msg off cm) (\<lambda>(msg, off, cm). pack_rrs compress rrs msg off cm)"

fun pack_questions :: "bool \<Rightarrow> Question list \<Rightarrow> bytes \<Rightarrow> nat \<Rightarrow> compression \<Rightarrow> (bytes \<times> nat \<times> compression) packed" where
  "pack_questions compress [] msg off cm = Ret (Inr (msg, off, cm))"
| "pack_questions compress (q # qs) msg off cm =
     bindP (packStructValue compress Question_fields [F_str (q_Name q), F_u16 (q_Qtype q), F_u16 (q_Qclass q)] msg off cm)
       (\<lambda>(msg, off, cm). pack_questions compress qs msg off cm)"

subsection \<open>Lengths\<close>

definition question_len :: "Question \<Rightarrow> nat" where
  "question_len q = length (q_Name q) + 1 + 4"

fun opts_len :: "EDNS0 list \<Rightarrow> nat outcome" where
  "opts_len [] = Ret 0"
| "opts_len (e # es) = bindO (edns_pack e) (\<lambda>r. bindO (opts_len es) (\<lambda>n. Ret ((case r of Inl _ \<Rightarrow> 2 | Inr lo \<Rightarrow> 2 + length lo) + n)))"

definition rr_len :: "wire_RR \<Rightarrow> nat outcome" where
  "rr_len rr =
     (if w_type rr = ''OPT'' then bindO (opts_len (f_opts (w_fields rr ! 0))) (\<lambda>n. Ret (header_len (w_Hdr rr) + n))
      else Ret (the (map_of len_table (w_type rr)) (w_Hdr rr) (w_fields rr)))"

fun rrs_len :: "wire_RR list \<Rightarrow> nat outcome" where
  "rrs_len [] = Ret 0"
| "rrs_len (rr # rrs) = bindO (rr_len rr) (\<lambda>n. bindO (rrs_len rrs) (\<lambda>l. Ret (n + l)))"

text \<open>The length of a message that is not compressed.\<close>

definition Msg_Len :: "wire_Msg \<Rightarrow> nat outcome" where
  "Msg_Len m = bindO (rrs_len (wm_Answer m @ wm_Ns m @ wm_Extra m))
     (\<lambda>n. Ret (12 + sum_list (map question_len (wm_Question m)) + n))"

subsection \<open>Packing a message\<close>

definition flag_bits :: "MsgHdr \<Rightarrow> 16 word" where
  "flag_bits h = (if mh_Response h then 0x8000 else 0) OR (if mh_Authoritative h then 0x0400 else 0) OR (if mh_Truncated h then 0x0200 else 0) OR
     (if mh_RecursionDesired h then 0x0100 else 0) OR (if mh_RecursionAvailable h then 0x0080 else 0) OR (if mh_Zero h then 0x0040 else 0) OR
     (if mh_AuthenticatedData h then 0x0020 else 0) OR (if mh_CheckingDisabled h then 0x0010 else 0)"

definition header_bits :: "MsgHdr \<Rightarrow> 16 word" where
  "header_bits h = push_bit 11 (of_int (mh_Opcode h)) OR of_int (mh_Rcode h) OR flag_bits h"

text \<open>The extended part of the code goes into the first OPT record.\<close>

fun set_extended_rcode :: "byte \<Rightarrow> wire_RR list \<Rightarrow> wire_RR list packed" where
  "set_extended_rcode v [] = Ret (Inl (dns_err ''bad extended rcode''))"
| "set_extended_rcode v (rr # rrs) =
     (if h_Rrtype (w_Hdr rr) = 41 then
        if w_type rr \<noteq> ''OPT'' then Panic ''interface conversion''
        else Ret (Inr (rr\<lparr>w_Hdr := (w_Hdr rr)\<lparr>h_Ttl := (h_Ttl (w_Hdr rr) AND 0x00FFFFFF) OR push_bit 24 (ucast v)\<rparr>\<rparr> # rrs))
      else bindP (set_extended_rcode v rrs) (\<lambda>rrs. Ret (Inr (rr # rrs))))"

definition pack_sections :: "wire_Msg \<Rightarrow> bytes packed" where
  "pack_sections m =
     (let compress = wm_Compress m;
          dh = [F_u16 (mh_Id (wm_Hdr m)), F_u16 (header_bits (wm_Hdr m)),
                F_u16 (of_nat (length (wm_Question m))), F_u16 (of_nat (length (wm_Answer m))),
                F_u16 (of_nat (length (wm_Ns m))), F_u16 (of_nat (length (wm_Extra m)))] in
      bindO (Msg_Len m) (\<lambda>len.
      bindP (packStructValue compress Header_fields dh (replicate (len + 1) 0) 0 []) (\<lambda>(msg, off, cm).
      bindP (pack_questions compress (wm_Question m) msg off cm) (\<lambda>(msg, off, cm).
      bindP (pack_rrs compress (wm_Answer m) msg off cm) (\<lambda>(msg, off, cm).
      bindP (pack_rrs compress (wm_Ns m) msg off cm) (\<lambda>(msg, off, cm).
      bindP (pack_rrs compress (wm_Extra m) msg off cm) (\<lambda>(msg, off, cm).
      bindO (slice msg 0 off) (\<lambda>bs. Ret (Inr bs)))))))))"

definition Msg_Pack :: "wire_Msg \<Rightarrow> bytes packed" where
  "Msg_Pack m =
     (let rcode = mh_Rcode (wm_Hdr m) in
      if rcode < 0 \<or> rcode > 0xFFF then Ret (Inl (dns_err ''bad rcode''))
      else if rcode > 0xF then
        bindP (set_extended_rcode (of_int (rcode div 16)) (wm_Extra m)) (\<lambda>extra.
          pack_sections (m\<lparr>wm_Extra := extra, wm_Hdr := (wm_Hdr m)\<lparr>mh_Rcode := rcode mod 16\<rparr>\<rparr>))
      else pack_sections m)"

subsection \<open>Reading\<close>

text \<open>
  A packet is the front of a buffer.  \<open>spare\<close> is what the buffer holds behind it: Go lets
  a slice of the packet reach there.
\<close>

text \<open>The names at the end of a HIP record.  A name need not be behind the one before it.\<close>

fun unpack_names :: "nat \<Rightarrow> bytes \<Rightarrow> nat \<Rightarrow> nat \<Rightarrow> string list \<Rightarrow> (field \<times> nat) packed" where
  "unpack_names fuel msg lenrd off servers =
     (if off < lenrd then
        (case fuel of
           0 \<Rightarrow> NoReturn
         | Suc fuel \<Rightarrow>
             (case UnpackDomainName msg off of
                Inl err \<Rightarrow> Ret (Inl err)
              | Inr (s, off) \<Rightarrow> unpack_names fuel msg lenrd off (servers @ [s])))
      else Ret (Inr (F_strs servers, off)))"

declare unpack_names.simps [simp del]

definition opt_overflow :: gerror where
  "opt_overflow = dns_err ''overflow unpacking opt''"

function unpack_opts :: "bytes \<Rightarrow> bytes \<Rightarrow> nat \<Rightarrow> nat \<Rightarrow> EDNS0 list \<Rightarrow> (field \<times> nat) packed" where
  "unpack_opts spare msg lenrd off edns =
     (if off + 2 > length msg then Ret (Inl opt_overflow)
      else if off + 3 \<ge> length msg then index_panic
      else let c = be_word (take 2 (drop off msg)); optlen = unat (be_word (take 2 (drop (off + 2) msg)) :: 16 word); off1 = off + 4 in
        if off1 + optlen > lenrd then Ret (Inl opt_overflow)
        else if off1 + optlen > length msg + length spare \<and> c \<in> {1, 2, 3, 5, 6, 7, 8, 0x50fa} then slice_panic
        else case edns_unpack c (take optlen (drop off1 (msg @ spare))) of
            Inl err \<Rightarrow> Ret (Inl err)
          | Inr es \<Rightarrow>
              if off1 + optlen < lenrd then unpack_opts spare msg lenrd (off1 + optlen) (edns @ es)
              else Ret (Inr (F_opts (edns @ es), off1 + optlen)))"
  by pat_completeness auto
termination
  by (relation "measure (\<lambda>(spare, msg, lenrd, off, edns). lenrd - off)") auto

declare unpack_opts.simps [simp del]

text \<open>The numbers of the bits in a byte, from the highest on.\<close>

definition byte_bits :: "nat \<Rightarrow> byte \<Rightarrow> 16 word list" where
  "byte_bits base b = map (\<lambda>i. of_nat (base + i)) (filter (\<lambda>i. bit b (7 - i)) [0..<8])"

function unpack_wks :: "bytes \<Rightarrow> nat \<Rightarrow> nat \<Rightarrow> nat \<Rightarrow> 16 word list \<Rightarrow> (field \<times> nat) packed" where
  "unpack_wks msg lenrd off j serv =
     (if off < lenrd then
        (if off + 1 > length msg then Ret (Inl (dns_err ''overflow unpacking wks''))
         else unpack_wks msg lenrd (off + 1) (j + 1) (serv @ byte_bits (j * 8) (msg ! off)))
      else Ret (Inr (F_u16s serv, off)))"
  by pat_completeness auto
termination
  by (relation "measure (\<lambda>(msg, lenrd, off, rest). lenrd - off)") auto

declare unpack_wks.simps [simp del]

definition nsec_overflow :: gerror where
  "nsec_overflow = dns_err ''overflow unpacking nsecx''"

function unpack_nsec :: "bytes \<Rightarrow> nat \<Rightarrow> nat \<Rightarrow> 16 word list \<Rightarrow> (field \<times> nat) packed" where
  "unpack_nsec msg lenrd off nsec =
     (if off + 2 < lenrd then
        (if off + 1 \<ge> length msg then index_panic
         else let window = unat (msg ! off); len = unat (msg ! (off + 1)) in
           if len = 0 \<or> len > 32 \<or> off + 2 + len > length msg then Ret (Inl nsec_overflow)
           else unpack_nsec msg lenrd (off + 2 + len)
             (nsec @ concat (map (\<lambda>j. byte_bits (window * 256 + j * 8) (msg ! (off + 2 + j))) [0..<len])))
      else Ret (Inr (F_u16s nsec, off)))"
  by pat_completeness auto
termination
  by (relation "measure (\<lambda>(msg, lenrd, off, rest). lenrd - off)") auto

declare unpack_nsec.simps [simp del]

text \<open>A number, \<open>n\<close> bytes.\<close>

definition unpack_number :: "string \<Rightarrow> nat \<Rightarrow> (bytes \<Rightarrow> field) \<Rightarrow> bytes \<Rightarrow> nat \<Rightarrow> (field \<times> nat) packed" where
  "unpack_number what n f msg off =
     (if off + n > length msg then Ret (Inl (dns_err (''overflow unpacking '' @ what)))
      else Ret (Inr (f (take n (drop off msg)), off + n)))"

definition unpack_name_field :: "bytes \<Rightarrow> nat \<Rightarrow> (field \<times> nat) packed" where
  "unpack_name_field msg off = (case UnpackDomainName msg off of Inl err \<Rightarrow> Ret (Inl err) | Inr (s, off) \<Rightarrow> Ret (Inr (F_str s, off)))"

text \<open>An error of a single text is not looked at.\<close>

definition unpack_text_field :: "bytes \<Rightarrow> nat \<Rightarrow> (field \<times> nat) packed" where
  "unpack_text_field msg off = (case unpackTxtString msg off of Inl _ \<Rightarrow> Ret (Inr (F_str [], off)) | Inr (s, off) \<Rightarrow> Ret (Inr (F_str s, off)))"

definition unpack_texts_field :: "nat \<Rightarrow> bytes \<Rightarrow> nat \<Rightarrow> (field \<times> nat) packed" where
  "unpack_texts_field lenrd msg off =
     (if off = length msg \<or> lenrd = off then Ret (Inr (F_strs [], off))
      else case unpackTxt msg off lenrd [] of Inl err \<Rightarrow> Ret (Inl err) | Inr (txt, off) \<Rightarrow> Ret (Inr (F_strs txt, off)))"

text \<open>The rest of the record, or up to the end that is given, as text.\<close>

definition unpack_rest :: "string \<Rightarrow> (bytes \<Rightarrow> string) \<Rightarrow> nat \<Rightarrow> nat \<Rightarrow> bytes \<Rightarrow> nat \<Rightarrow> (field \<times> nat) packed" where
  "unpack_rest what f end1 lenrd msg off =
     (if end1 > lenrd \<or> end1 > length msg then Ret (Inl (dns_err (''overflow unpacking '' @ what)))
      else bindO (slice msg off end1) (\<lambda>b. Ret (Inr (F_str (f b), end1))))"

definition unpack_address :: "string \<Rightarrow> nat \<Rightarrow> (bytes \<Rightarrow> bytes) \<Rightarrow> nat \<Rightarrow> bytes \<Rightarrow> nat \<Rightarrow> (field \<times> nat) packed" where
  "unpack_address what n f lenrd msg off =
     (if off = lenrd then Ret (Inr (F_ip [], off))
      else if off + n > lenrd \<or> off + n > length msg then Ret (Inl (dns_err (''overflow unpacking '' @ what)))
      else Ret (Inr (F_ip (f (take n (drop off msg))), off + n)))"

fun f_nat :: "field \<Rightarrow> nat" where
  "f_nat (F_u8 i) = unat i"
| "f_nat (F_u16 i) = unat i"
| "f_nat _ = 0"

text \<open>
  A field at \<open>off\<close>, of a struct of type \<open>t\<close> whose fields \<open>done\<close> were read, with the
  record ending at \<open>lenrd\<close>.  The length of a sized string is in the field before it, for
  NSEC3 and TSIG.
\<close>

definition unpack_field :: "nat \<Rightarrow> bytes \<Rightarrow> string \<Rightarrow> nat \<Rightarrow> bytes \<Rightarrow> field list \<Rightarrow> wire_kind \<Rightarrow> nat \<Rightarrow> (field \<times> nat) packed" where
  "unpack_field fuel spare t lenrd msg done k off =
     (let size = (if t = ''NSEC3'' \<or> t = ''TSIG'' then f_nat (last done) else 0) in
      case k of
        K_names \<Rightarrow> unpack_names fuel msg lenrd off []
      | K_txts \<Rightarrow> unpack_texts_field lenrd msg off
      | K_opt \<Rightarrow> if off = lenrd then Ret (Inr (F_opts [], off)) else unpack_opts spare msg lenrd off []
      | K_a \<Rightarrow> unpack_address ''a'' 4 (\<lambda>b. IPv4 (b ! 0) (b ! 1) (b ! 2) (b ! 3)) lenrd msg off
      | K_aaaa \<Rightarrow> unpack_address ''aaaa'' 16 id lenrd msg off
      | K_wks \<Rightarrow> unpack_wks msg lenrd off 0 []
      | K_nsec \<Rightarrow>
          if off = lenrd then Ret (Inr (F_u16s [], off))
          else if off + 2 > lenrd \<or> off + 2 > length msg then Ret (Inl nsec_overflow)
          else unpack_nsec msg lenrd off []
      | K_uint64 \<Rightarrow> unpack_number ''uint64'' 8 (\<lambda>b. F_u64 (be_word b)) msg off
      | K_uint48 \<Rightarrow> unpack_number ''uint64 as uint48'' 6 (\<lambda>b. F_u64 (be_word b)) msg off
      | _ \<Rightarrow>
          if off = length msg then Ret (Inr (zero_field k, off))
          else (case k of
            K_uint8 \<Rightarrow> unpack_number ''uint8'' 1 (\<lambda>b. F_u8 (b ! 0)) msg off
          | K_uint16 \<Rightarrow> unpack_number ''uint16'' 2 (\<lambda>b. F_u16 (be_word b)) msg off
          | K_uint32 \<Rightarrow> unpack_number ''uint32'' 4 (\<lambda>b. F_u32 (be_word b)) msg off
          | K_hex \<Rightarrow> unpack_rest ''hex'' hexString (if t = ''HIP'' then off + f_nat (done ! 0) else lenrd) lenrd msg off
          | K_base64 \<Rightarrow> unpack_rest ''base64'' encode64 (if t = ''HIP'' then off + f_nat (done ! 2) else lenrd) lenrd msg off
          | K_size_base32 \<Rightarrow> unpack_number ''base32'' size (\<lambda>b. F_str (toBase32 b)) msg off
          | K_size_hex \<Rightarrow> unpack_number ''hex'' size (\<lambda>b. F_str (hexString b)) msg off
          | K_txt \<Rightarrow> unpack_text_field msg off
          | _ \<Rightarrow> unpack_name_field msg off))"

fun unpack_fields :: "nat \<Rightarrow> bytes \<Rightarrow> string \<Rightarrow> nat \<Rightarrow> bytes \<Rightarrow> field list \<Rightarrow> wire_kind list \<Rightarrow> nat \<Rightarrow> (field list \<times> nat) packed" where
  "unpack_fields fuel spare t lenrd msg done [] off = Ret (Inr (done, off))"
| "unpack_fields fuel spare t lenrd msg done (k # ks) off =
     (if lenrd \<noteq> 0 \<and> lenrd = off then Ret (Inr (done @ map zero_field (k # ks), off))
      else if off > length msg then Ret (Inl (dns_err ''bad offset unpacking''))
      else bindP (unpack_field fuel spare t lenrd msg done k off) (\<lambda>(v, off). unpack_fields fuel spare t lenrd msg (done @ [v]) ks off))"

definition RR_Header_of :: "field list \<Rightarrow> RR_Header" where
  "RR_Header_of vs = \<lparr>h_Name = f_str (vs ! 0), h_Rrtype = f_u16 (vs ! 1), h_Class = f_u16 (vs ! 2), h_Ttl = f_u32 (vs ! 3), h_Rdlength = f_u16 (vs ! 4)\<rparr>"

definition unpack_header :: "bytes \<Rightarrow> nat \<Rightarrow> (RR_Header \<times> nat) packed" where
  "unpack_header msg off =
     bindP (unpack_fields 0 [] ''RR_Header'' 0 msg [] RR_Header_fields off) (\<lambda>(vs, off). Ret (Inr (RR_Header_of vs, off)))"

text \<open>A struct with its header, from which the end of the record is.\<close>

definition unpackStructValue :: "nat \<Rightarrow> bytes \<Rightarrow> string \<Rightarrow> wire_kind list \<Rightarrow> bytes \<Rightarrow> nat \<Rightarrow> (wire_RR \<times> nat) packed" where
  "unpackStructValue fuel spare t ks msg off =
     bindP (unpack_header msg off) (\<lambda>(h, off).
     bindP (unpack_fields fuel spare t (off + unat (h_Rdlength h)) msg [] ks off) (\<lambda>(vs, off).
     Ret (Inr (\<lparr>w_type = t, w_Hdr = h, w_fields = vs\<rparr>, off))))"

definition bad_rdlength :: gerror where
  "bad_rdlength = dns_err ''bad rdlength''"

text \<open>After an error, the offset is the end of the message.\<close>

definition UnpackRR :: "nat \<Rightarrow> bytes \<Rightarrow> bytes \<Rightarrow> nat \<Rightarrow> (wire_RR \<times> nat) packed" where
  "UnpackRR fuel spare msg off0 =
     bindP (unpack_header msg off0) (\<lambda>(h, off).
       let end1 = off + unat (h_Rdlength h); (t, ks) = known_rr (h_Rrtype h) in
       bindO (unpackStructValue fuel spare t ks msg off0) (\<lambda>r. case r of
           Inl err \<Rightarrow> Ret (Inl (if length msg \<noteq> end1 then bad_rdlength else err))
         | Inr (rr, off) \<Rightarrow> if off \<noteq> end1 then Ret (Inl bad_rdlength) else Ret (Inr (rr, off))))"

fun unpack_rrs :: "nat \<Rightarrow> bytes \<Rightarrow> bytes \<Rightarrow> nat \<Rightarrow> nat \<Rightarrow> (wire_RR list \<times> nat) packed" where
  "unpack_rrs fuel spare msg 0 off = Ret (Inr ([], off))"
| "unpack_rrs fuel spare msg (Suc n) off =
     bindP (UnpackRR fuel spare msg off) (\<lambda>(rr, off). bindP (unpack_rrs fuel spare msg n off) (\<lambda>(rrs, off). Ret (Inr (rr # rrs, off))))"

definition Question_of :: "field list \<Rightarrow> Question" where
  "Question_of vs = \<lparr>q_Name = f_str (vs ! 0), q_Qtype = f_u16 (vs ! 1), q_Qclass = f_u16 (vs ! 2)\<rparr>"

fun unpack_questions :: "bytes \<Rightarrow> nat \<Rightarrow> nat \<Rightarrow> (Question list \<times> nat) packed" where
  "unpack_questions msg 0 off = Ret (Inr ([], off))"
| "unpack_questions msg (Suc n) off =
     bindP (unpack_fields 0 [] ''Question'' 0 msg [] Question_fields off) (\<lambda>(vs, off).
     bindP (unpack_questions msg n off) (\<lambda>(qs, off). Ret (Inr (Question_of vs # qs, off))))"

definition MsgHdr_of :: "16 word \<Rightarrow> 16 word \<Rightarrow> MsgHdr" where
  "MsgHdr_of ident b = \<lparr>mh_Id = ident, mh_Response = bit b 15, mh_Opcode = uint (drop_bit 11 b) mod 16, mh_Authoritative = bit b 10,
     mh_Truncated = bit b 9, mh_RecursionDesired = bit b 8, mh_RecursionAvailable = bit b 7, mh_Zero = bit b 6,
     mh_AuthenticatedData = bit b 5, mh_CheckingDisabled = bit b 4, mh_Rcode = uint (b AND 0xF)\<rparr>"

definition Msg_Unpack :: "nat \<Rightarrow> bytes \<Rightarrow> bytes \<Rightarrow> wire_Msg packed" where
  "Msg_Unpack fuel spare msg =
     bindP (unpack_fields 0 [] ''Header'' 0 msg [] Header_fields 0) (\<lambda>(dh, off).
       let n = (\<lambda>i. f_nat (dh ! i)); hdr = MsgHdr_of (of_nat (n 0)) (of_nat (n 1)) in
       bindP (unpack_questions msg (n 2) off) (\<lambda>(question, off).
       if mh_Truncated hdr then
         Ret (Inr \<lparr>wm_Hdr = hdr, wm_Compress = False, wm_Question = question, wm_Answer = [], wm_Ns = [], wm_Extra = []\<rparr>)
       else
         bindP (unpack_rrs fuel spare msg (n 3) off) (\<lambda>(answer, off).
         bindP (unpack_rrs fuel spare msg (n 4) off) (\<lambda>(ns, off).
         bindP (unpack_rrs fuel spare msg (n 5) off) (\<lambda>(extra, off).
         Ret (Inr \<lparr>wm_Hdr = hdr, wm_Compress = False, wm_Question = question, wm_Answer = answer, wm_Ns = ns, wm_Extra = extra\<rparr>))))))"

end
