(* ===== verification/DnsWire.thy ===== *)
theory DnsWire
  imports DnsMsg
begin

section \<open>What is written is what is read\<close>

text \<open>
  The bytes of a message, said independently of the routines that write and read them,
  and that both agree with it: a message that is packed is unpacked as it was.
\<close>

unbundle bit_operations_syntax

subsection \<open>Numbers\<close>

lemma be_step: "k' = k + 8 \<Longrightarrow> push_bit 8 (drop_bit k' i) OR ucast (ucast (drop_bit k i) :: byte) = drop_bit k (i :: 'a::len word)"
  by (rule bit_word_eqI) (auto simp: bit_simps intro: arg_cong[of _ _ "bit i"])

lemma be_first: "drop_bit (k + 8) i = 0 \<Longrightarrow> ucast (ucast (drop_bit k i) :: byte) = drop_bit k (i :: 'a::len word)"
  using be_step[of "k + 8" k i] by simp

lemma drop_all [simp]: "LENGTH('a::len) \<le> n \<Longrightarrow> drop_bit n (i :: 'a word) = 0"
  by (rule bit_word_eqI) (auto simp: bit_simps dest: bit_imp_le_length)

lemma be_word_16 [simp]: "be_word (packUint16 i) = i"
  using be_step[of 8 0 i] be_first[of 8 i] by (simp add: be_word_def packUint16_def)

lemma be_word_32 [simp]: "be_word (packUint32 i) = i"
  using be_step[of 8 0 i] be_step[of 16 8 i] be_step[of 24 16 i] be_first[of 24 i] by (simp add: be_word_def packUint32_def)

lemma be_word_64 [simp]: "be_word (packUint64 i) = i"
  using be_step[of 8 0 i] be_step[of 16 8 i] be_step[of 24 16 i] be_step[of 32 24 i] be_step[of 40 32 i] be_step[of 48 40 i] be_step[of 56 48 i]
    be_first[of 56 i]
  by (simp add: be_word_def packUint64_def)

lemma be_word_48: "i < 2 ^ 48 \<Longrightarrow> be_word (packUint48 i) = i"
proof -
  assume "i < 2 ^ 48"
  then have "take_bit 48 i = i" by (simp add: less_mask_eq take_bit_eq_mask word_less_nat_alt)
  then have "drop_bit 48 i = 0" by (metis drop_bit_take_bit cancel_comm_monoid_add_class.diff_cancel take_bit_0)
  then show "be_word (packUint48 i) = i"
    using be_step[of 8 0 i] be_step[of 16 8 i] be_step[of 24 16 i] be_step[of 32 24 i] be_step[of 40 32 i] be_first[of 40 i]
    by (simp add: be_word_def packUint48_def)
qed

lemma length_packUint [simp]:
  "length (packUint16 i) = 2" "length (packUint32 j) = 4" "length (packUint64 k) = 8" "length (packUint48 k) = 6"
  by (simp_all add: packUint16_def packUint32_def packUint64_def packUint48_def)

subsection \<open>Fields\<close>

inductive field_wire :: "wire_kind \<Rightarrow> field \<Rightarrow> bytes \<Rightarrow> bool" where
  w_uint8: "field_wire K_uint8 (F_u8 i8) [i8]"
| w_uint16: "field_wire K_uint16 (F_u16 i16) (packUint16 i16)"
| w_uint32: "field_wire K_uint32 (F_u32 i32) (packUint32 i32)"
| w_uint64: "field_wire K_uint64 (F_u64 i64) (packUint64 i64)"
| w_uint48: "i64 < 2 ^ 48 \<Longrightarrow> field_wire K_uint48 (F_u64 i64) (packUint48 i64)"
| w_name: "good_labels labels \<Longrightarrow> field_wire K_name (F_str (str (name_text labels))) (name_wire labels)"
| w_cname: "good_labels labels \<Longrightarrow> field_wire K_cname (F_str (str (name_text labels))) (name_wire labels)"
| w_txt: "length l < 256 \<Longrightarrow> field_wire K_txt (F_str (text_string l)) (text_wire l)"
| w_txts: "ls \<noteq> [] \<Longrightarrow> \<forall>l\<in>set ls. length l < 256 \<Longrightarrow> field_wire K_txts (F_strs (map text_string ls)) (concat (map text_wire ls))"
| w_a: "length ip = 4 \<Longrightarrow> field_wire K_a (F_ip (v4InV6Prefix @ ip)) ip"
| w_aaaa: "length ip = 16 \<Longrightarrow> field_wire K_aaaa (F_ip ip) ip"

lemma field_wire_nonempty: "field_wire k v w \<Longrightarrow> w \<noteq> []"
proof (induction rule: field_wire.induct)
  case (w_txts ls)
  then show ?case by (cases ls) (simp_all add: text_wire_def)
qed (auto simp: packUint16_def packUint32_def packUint64_def packUint48_def name_wire_def text_wire_def)

lemma put_checked_wire: "off + length w \<le> length msg \<Longrightarrow> put_checked what msg off w = Ret (Inr (put msg off w, off + length w))"
  by (simp add: put_checked_def)

lemma length_v4Prefix [simp]: "length v4InV6Prefix = 12"
  by (simp add: v4InV6Prefix_def)

lemma pack_field_wire:
  assumes "field_wire k v w" "off + length w \<le> length msg"
  shows "pack_field False k v msg off cm = Ret (Inr (put msg off w, off + length w, cm))"
  using assms
proof (cases rule: field_wire.cases)
  case (w_txts ls)
  then show ?thesis using assms(2) pack_texts_texts[of ls off msg] by (simp add: pack_field_def keep_map_def packTxt_def)
qed (use assms(2) in \<open>simp_all add: pack_field_def keep_map_def put_checked_wire packDomainName_labels packTxtString_text pack_a_def pack_aaaa_def\<close>)

lemma IPv4_nth: "length ip = 4 \<Longrightarrow> IPv4 (ip ! 0) (ip ! Suc 0) (ip ! 2) (ip ! 3) = v4InV6Prefix @ ip"
  by (auto simp: IPv4_def eval_nat_numeral length_Suc_conv)

lemma take_drop_wire: "take (length w) (drop (length pre) (pre @ w @ post)) = w"
  by simp

lemma unpack_number_wire:
  "off = length pre \<Longrightarrow> n = length w \<Longrightarrow> unpack_number what n f (pre @ w @ post) off = Ret (Inr (f w, off + n))"
  by (simp add: unpack_number_def)

lemma unpack_name_field_wire:
  "good_labels labels \<Longrightarrow> off = length pre \<Longrightarrow>
    unpack_name_field (pre @ name_wire labels @ post) off = Ret (Inr (F_str (str (name_text labels)), off + length (name_wire labels)))"
  by (simp add: unpack_name_field_def UnpackDomainName_labels)

lemma unpackTxtString_wire:
  "length l < 256 \<Longrightarrow> off = length pre \<Longrightarrow> unpackTxtString (pre @ text_wire l @ post) off = Inr (text_string l, off + length (text_wire l))"
  using unat_text_byte[of "length l"] by (simp add: unpackTxtString_def text_wire_def text_string_def nth_append Let_def)

lemma unpack_field_wire:
  assumes "field_wire k v w" "off = length pre" "lenrd \<ge> off + length w" "k = K_txts \<Longrightarrow> lenrd = off + length w"
  shows "unpack_field fuel spare t lenrd (pre @ w @ post) done k off = Ret (Inr (v, off + length w))"
proof -
  have w: "w \<noteq> []" by (rule field_wire_nonempty[OF assms(1)])
  from assms(1) show ?thesis
  proof (cases rule: field_wire.cases)
    case (w_uint8 i8)
    then show ?thesis using assms(2) by (simp add: unpack_field_def unpack_number_def)
  next
    case (w_txts ls)
    then show ?thesis using assms w unpackTxt_texts[of ls lenrd pre post "[]"] by (simp add: unpack_field_def unpack_texts_field_def)
  qed (use assms w in \<open>simp_all add: unpack_field_def unpack_number_wire be_word_48 unpack_name_field_wire unpack_text_field_def
      unpackTxtString_wire unpack_address_def IPv4_nth\<close>)
qed

subsection \<open>Structs\<close>

text \<open>Texts that take the rest of a record are its last field.\<close>

inductive fields_wire :: "wire_kind list \<Rightarrow> field list \<Rightarrow> bytes \<Rightarrow> bool" where
  wires_Nil: "fields_wire [] [] []"
| wires_Cons: "field_wire k v w \<Longrightarrow> fields_wire ks vs ws \<Longrightarrow> (k = K_txts \<longrightarrow> ks = []) \<Longrightarrow> fields_wire (k # ks) (v # vs) (w @ ws)"

inductive_cases fields_wire_NilE: "fields_wire [] vs w"

lemma fields_wire_append: "fields_wire ks vs w \<Longrightarrow> K_txts \<notin> set ks \<Longrightarrow> fields_wire ks' vs' w' \<Longrightarrow> fields_wire (ks @ ks') (vs @ vs') (w @ w')"
  by (induction rule: fields_wire.induct) (auto intro: fields_wire.intros)

lemma packStructValue_wire:
  "fields_wire ks vs w \<Longrightarrow> off + length w \<le> length msg \<Longrightarrow> packStructValue False ks vs msg off cm = Ret (Inr (put msg off w, off + length w, cm))"
proof (induction arbitrary: msg off rule: fields_wire.induct)
  case (wires_Cons k v w ks vs ws)
  then show ?case using put_put[of off w msg ws] by (simp add: pack_field_wire add.assoc)
qed simp

text \<open>In a struct without a header, \<open>lenrd\<close> stays 0; otherwise it is where the record ends.\<close>

lemma unpack_fields_wire:
  assumes "fields_wire ks vs w" "off = length pre" "lenrd = off + length w"
  shows "unpack_fields fuel spare t lenrd (pre @ w @ post) done ks off = Ret (Inr (done @ vs, off + length w))"
  using assms
proof (induction arbitrary: pre off "done" rule: fields_wire.induct)
  case (wires_Cons k v w ks vs ws)
  have w: "w \<noteq> []" by (rule field_wire_nonempty[OF wires_Cons.hyps(1)])
  have k: "k = K_txts \<Longrightarrow> lenrd = off + length w" using wires_Cons.hyps(2,3) wires_Cons.prems(2) by (auto elim: fields_wire_NilE)
  have "unpack_field fuel spare t lenrd (pre @ w @ ws @ post) done k off = Ret (Inr (v, off + length w))"
    by (rule unpack_field_wire[OF wires_Cons.hyps(1) wires_Cons.prems(1) _ k]) (use wires_Cons.prems(2) in simp_all)
  then show ?case using wires_Cons.IH[of "off + length w" "pre @ w" "done @ [v]"] wires_Cons.prems w by (simp add: add.assoc)
qed simp

lemma unpack_fields_fixed:
  assumes "fields_wire ks vs w" "set ks \<subseteq> {K_cname, K_uint16, K_uint32}" "off = length pre"
  shows "unpack_fields fuel spare t 0 (pre @ w @ post) done ks off = Ret (Inr (done @ vs, off + length w))"
  using assms
proof (induction arbitrary: pre off "done" rule: fields_wire.induct)
  case (wires_Cons k v w ks vs ws)
  have w: "w \<noteq> []" by (rule field_wire_nonempty[OF wires_Cons.hyps(1)])
  from wires_Cons.hyps(1) have "unpack_field fuel spare t 0 (pre @ w @ ws @ post) done k off = Ret (Inr (v, off + length w))"
    by (cases rule: field_wire.cases)
      (use wires_Cons.prems w in \<open>simp_all add: unpack_field_def unpack_number_wire unpack_name_field_wire\<close>)
  then show ?case using wires_Cons.IH[of "off + length w" "pre @ w" "done @ [v]"] wires_Cons.prems by (simp add: add.assoc)
qed simp

subsection \<open>Records\<close>

definition header_wire :: "bytes list \<Rightarrow> RR_Header \<Rightarrow> bytes" where
  "header_wire labels h = name_wire labels @ packUint16 (h_Rrtype h) @ packUint16 (h_Class h) @ packUint32 (h_Ttl h) @ packUint16 (h_Rdlength h)"

definition forget_rdlength :: "wire_RR \<Rightarrow> wire_RR" where
  "forget_rdlength rr = rr\<lparr>w_Hdr := (w_Hdr rr)\<lparr>h_Rdlength := 0\<rparr>\<rparr>"

text \<open>The bytes of a record, whose length in its header need not be set.\<close>

definition rr_wire :: "wire_RR \<Rightarrow> bytes \<Rightarrow> bool" where
  "rr_wire rr bs \<longleftrightarrow> (\<exists>labels w. good_labels labels \<and> h_Name (w_Hdr rr) = str (name_text labels) \<and>
     fields_wire (fields_of (w_type rr)) (w_fields rr) w \<and> length w < 65536 \<and>
     known_rr (h_Rrtype (w_Hdr rr)) = (w_type rr, fields_of (w_type rr)) \<and>
     bs = header_wire labels ((w_Hdr rr)\<lparr>h_Rdlength := of_nat (length w)\<rparr>) @ w)"

lemma header_fields_wire: "good_labels labels \<Longrightarrow> h_Name h = str (name_text labels) \<Longrightarrow>
  fields_wire RR_Header_fields (RR_Header_values h) (header_wire labels h)"
  using fields_wire.intros(2)[OF field_wire.intros(7) fields_wire.intros(2)[OF field_wire.intros(2) fields_wire.intros(2)[OF field_wire.intros(2)
    fields_wire.intros(2)[OF field_wire.intros(3) fields_wire.intros(2)[OF field_wire.intros(2) wires_Nil]]]]]
  by (simp add: RR_Header_fields_def RR_Header_values_def header_wire_def)

lemma unpack_header_wire:
  assumes "good_labels labels" "h_Name h = str (name_text labels)" "off = length pre"
  shows "unpack_header (pre @ header_wire labels h @ post) off = Ret (Inr (h, off + length (header_wire labels h)))"
proof -
  have "unpack_fields 0 [] ''RR_Header'' 0 (pre @ header_wire labels h @ post) [] RR_Header_fields off =
      Ret (Inr (RR_Header_values h, off + length (header_wire labels h)))"
    using unpack_fields_fixed[OF header_fields_wire[OF assms(1,2)] _ assms(3)] by (simp add: RR_Header_fields_def)
  moreover have "RR_Header_of (RR_Header_values h) = h" by (simp add: RR_Header_of_def RR_Header_values_def)
  ultimately show ?thesis by (simp add: unpack_header_def)
qed

lemma UnpackRR_wire:
  assumes "rr_wire rr bs" "off = length pre"
  shows "\<exists>rr'. UnpackRR fuel spare (pre @ bs @ post) off = Ret (Inr (rr', off + length bs)) \<and> forget_rdlength rr' = forget_rdlength rr"
proof -
  obtain labels w where l: "good_labels labels" "h_Name (w_Hdr rr) = str (name_text labels)" and
    w: "fields_wire (fields_of (w_type rr)) (w_fields rr) w" "length w < 65536" and
    k: "known_rr (h_Rrtype (w_Hdr rr)) = (w_type rr, fields_of (w_type rr))" and
    bs: "bs = header_wire labels ((w_Hdr rr)\<lparr>h_Rdlength := of_nat (length w)\<rparr>) @ w"
    using assms(1) by (auto simp: rr_wire_def)
  let ?h = "(w_Hdr rr)\<lparr>h_Rdlength := of_nat (length w)\<rparr>" and ?n = "off + length (header_wire labels ((w_Hdr rr)\<lparr>h_Rdlength := of_nat (length w)\<rparr>))"
  have h: "unpack_header (pre @ bs @ post) off = Ret (Inr (?h, ?n))"
    using unpack_header_wire[of labels ?h off pre "w @ post"] l assms(2) by (simp add: bs)
  have len: "unat (of_nat (length w) :: 16 word) = length w"
    using w(2) by (simp add: unat_of_nat take_bit_nat_eq_self_iff)
  have "unpack_fields fuel spare (w_type rr) (?n + length w) (pre @ bs @ post) [] (fields_of (w_type rr)) ?n = Ret (Inr (w_fields rr, ?n + length w))"
    using unpack_fields_wire[OF w(1), of ?n "pre @ header_wire labels ?h" "?n + length w" fuel spare "w_type rr" post "[]"] assms(2) by (simp add: bs)
  then have "UnpackRR fuel spare (pre @ bs @ post) off = Ret (Inr (rr\<lparr>w_Hdr := ?h\<rparr>, off + length bs))"
    using h k by (simp add: UnpackRR_def unpackStructValue_def len Let_def bs)
  then show ?thesis by (simp add: forget_rdlength_def)
qed

lemma unpack_rrs_wire:
  assumes "list_all2 rr_wire rrs bss" "off = length pre"
  shows "\<exists>rrs'. unpack_rrs fuel spare (pre @ concat bss @ post) (length rrs) off = Ret (Inr (rrs', off + length (concat bss))) \<and>
    map forget_rdlength rrs' = map forget_rdlength rrs"
  using assms
proof (induction arbitrary: pre off rule: list_all2_induct)
  case (Cons rr rrs bs bss)
  obtain rr' where 1: "UnpackRR fuel spare (pre @ bs @ concat bss @ post) off = Ret (Inr (rr', off + length bs))" "forget_rdlength rr' = forget_rdlength rr"
    using UnpackRR_wire[OF Cons.hyps(1) Cons.prems] by blast
  obtain rrs' where "unpack_rrs fuel spare ((pre @ bs) @ concat bss @ post) (length rrs) (off + length bs) = Ret (Inr (rrs', off + length bs + length (concat bss)))"
    "map forget_rdlength rrs' = map forget_rdlength rrs"
    using Cons.IH[of "off + length bs" "pre @ bs"] Cons.prems by auto
  then show ?case using 1 by (simp add: add.assoc)
qed simp

lemma skip_name_wire: "good_labels labels \<Longrightarrow> off = length pre \<Longrightarrow> skip_name (pre @ name_wire labels @ post) off = Some (off + length (name_wire labels))"
proof (induction labels arbitrary: pre off)
  case Nil
  then show ?case by (subst skip_name.simps) (simp add: name_wire_def nth_append)
next
  case (Cons l labels)
  have l: "l \<noteq> []" "length l < 64" "good_labels labels" using Cons.prems by (auto simp: good_labels_def)
  have c: "(of_nat (length l) :: byte) \<noteq> 0" using l(1) unat_length_byte[OF l(2)] by auto
  have "skip_name (pre @ name_wire (l # labels) @ post) off = skip_name ((pre @ label_wire l) @ name_wire labels @ post) (off + length (label_wire l))"
    using l(2) c length_byte_clear[OF l(2)] unat_length_byte[OF l(2)] Cons.prems(2)
    by (subst skip_name.simps) (simp add: name_wire_Cons label_wire_def nth_append Let_def)
  then show ?case using Cons.IH[OF l(3), of "off + length (label_wire l)" "pre @ label_wire l"] Cons.prems(2) by (simp add: name_wire_Cons add.assoc)
qed

lemma put_within:
  assumes "length x = length y" "off + length (a @ x @ b) \<le> length msg"
  shows "put (put msg off (a @ x @ b)) (off + length a) y = put msg off (a @ y @ b)"
proof -
  have "length (take off msg) = off" using assms by simp
  then show ?thesis using assms(1) by (simp add: put_def del: length_take)
qed

lemma rawSetRdlength_wire:
  assumes "good_labels labels" "length w < 65536" "off + length (header_wire labels h @ w) \<le> length msg"
  shows "rawSetRdlength (put msg off (header_wire labels h @ w)) off (off + length (header_wire labels h @ w)) =
    Some (put msg off (header_wire labels (h\<lparr>h_Rdlength := of_nat (length w)\<rparr>) @ w))"
proof -
  let ?a = "name_wire labels @ packUint16 (h_Rrtype h) @ packUint16 (h_Class h) @ packUint32 (h_Ttl h)"
  have bs: "header_wire labels (h\<lparr>h_Rdlength := r\<rparr>) @ w = ?a @ packUint16 r @ w" for r by (simp add: header_wire_def)
  have hw: "header_wire labels h @ w = ?a @ packUint16 (h_Rdlength h) @ w" by (simp add: header_wire_def)
  have off: "off = length (take off msg)" using assms(3) by simp
  have "skip_name (put msg off (header_wire labels h @ w)) off = Some (off + length (name_wire labels))"
    using skip_name_wire[OF assms(1) off] by (simp add: put_def header_wire_def)
  moreover have "int (off + length (header_wire labels h @ w)) - int (off + length (name_wire labels) + 2 + 2 + 4 + 2) = int (length w)"
    by (simp add: header_wire_def)
  moreover have "put (put msg off (header_wire labels h @ w)) (off + length ?a) (packUint16 (of_nat (length w))) = put msg off (?a @ packUint16 (of_nat (length w)) @ w)"
    using put_within[of "packUint16 (h_Rdlength h)" "packUint16 (of_nat (length w))" off ?a w msg] assms(3) by (simp add: hw)
  ultimately show ?thesis using assms(2,3) by (simp add: rawSetRdlength_def bs Let_def ac_simps header_wire_def)
qed

lemma PackRR_wire:
  assumes "rr_wire rr bs" "off + length bs \<le> length msg"
  shows "PackRR False rr msg off cm = Ret (Inr (put msg off bs, off + length bs, cm))"
proof -
  obtain labels w where l: "good_labels labels" "h_Name (w_Hdr rr) = str (name_text labels)" and
    w: "fields_wire (fields_of (w_type rr)) (w_fields rr) w" "length w < 65536" and
    bs: "bs = header_wire labels ((w_Hdr rr)\<lparr>h_Rdlength := of_nat (length w)\<rparr>) @ w"
    using assms(1) by (auto simp: rr_wire_def)
  have len: "length bs = length (header_wire labels (w_Hdr rr) @ w)" by (simp add: bs header_wire_def)
  have "fields_wire (RR_Header_fields @ fields_of (w_type rr)) (RR_Header_values (w_Hdr rr) @ w_fields rr) (header_wire labels (w_Hdr rr) @ w)"
    by (rule fields_wire_append[OF header_fields_wire[OF l] _ w(1)]) (simp add: RR_Header_fields_def)
  then show ?thesis
    using assms(2) rawSetRdlength_wire[OF l(1) w(2), of off "w_Hdr rr" msg] len
    by (simp add: PackRR_def packStructValue_wire bs[symmetric])
qed

lemma pack_rrs_wire:
  "list_all2 rr_wire rrs bss \<Longrightarrow> off + length (concat bss) \<le> length msg \<Longrightarrow>
    pack_rrs False rrs msg off cm = Ret (Inr (put msg off (concat bss), off + length (concat bss), cm))"
proof (induction arbitrary: off msg rule: list_all2_induct)
  case (Cons rr rrs bs bss)
  then show ?case using put_put[of off bs msg "concat bss"] by (simp add: PackRR_wire add.assoc)
qed simp

subsection \<open>Messages\<close>

definition question_wire :: "Question \<Rightarrow> bytes \<Rightarrow> bool" where
  "question_wire q bs \<longleftrightarrow> (\<exists>labels. good_labels labels \<and> q_Name q = str (name_text labels) \<and>
     bs = name_wire labels @ packUint16 (q_Qtype q) @ packUint16 (q_Qclass q))"

lemma question_fields_wire: "question_wire q bs \<Longrightarrow> fields_wire Question_fields [F_str (q_Name q), F_u16 (q_Qtype q), F_u16 (q_Qclass q)] bs"
  using fields_wire.intros(2)[OF field_wire.intros(7) fields_wire.intros(2)[OF field_wire.intros(2) fields_wire.intros(2)[OF field_wire.intros(2) wires_Nil]]]
  by (auto simp: question_wire_def Question_fields_def)

lemma pack_questions_wire:
  "list_all2 question_wire qs bss \<Longrightarrow> off + length (concat bss) \<le> length msg \<Longrightarrow>
    pack_questions False qs msg off cm = Ret (Inr (put msg off (concat bss), off + length (concat bss), cm))"
proof (induction arbitrary: off msg rule: list_all2_induct)
  case (Cons q qs bs bss)
  then show ?case
    using put_put[of off bs msg "concat bss"] by (simp add: packStructValue_wire[OF question_fields_wire[OF Cons.hyps(1)]] add.assoc)
qed simp

lemma question_kinds: "set Question_fields \<subseteq> {K_cname, K_uint16, K_uint32}"
  by (simp add: Question_fields_def)

lemma unpack_questions_wire:
  "list_all2 question_wire qs bss \<Longrightarrow> off = length pre \<Longrightarrow>
    unpack_questions (pre @ concat bss @ post) (length qs) off = Ret (Inr (qs, off + length (concat bss)))"
proof (induction arbitrary: pre off rule: list_all2_induct)
  case (Cons q qs bs bss)
  have "unpack_fields 0 [] ''Question'' 0 (pre @ bs @ concat bss @ post) [] Question_fields off =
      Ret (Inr ([F_str (q_Name q), F_u16 (q_Qtype q), F_u16 (q_Qclass q)], off + length bs))"
    using unpack_fields_fixed[OF question_fields_wire[OF Cons.hyps(1)] question_kinds Cons.prems, of 0 "[]" "''Question''" "concat bss @ post" "[]"] by simp
  then show ?case using Cons.IH[of "off + length bs" "pre @ bs"] Cons.prems by (simp add: Question_of_def add.assoc)
qed simp

text \<open>The bits of the header of a message.\<close>

definition good_header :: "MsgHdr \<Rightarrow> bool" where
  "good_header h \<longleftrightarrow> 0 \<le> mh_Opcode h \<and> mh_Opcode h < 16 \<and> 0 \<le> mh_Rcode h \<and> mh_Rcode h < 16 \<and> \<not> mh_Truncated h"

lemma bit_small: "0 \<le> i \<Longrightarrow> i < 16 \<Longrightarrow> bit i n \<Longrightarrow> n < 4" for i :: int
proof (rule ccontr)
  assume i: "0 \<le> i" "i < 16" "bit i n" and n: "\<not> n < 4"
  have "i = take_bit 4 i" using i(1,2) by (simp add: take_bit_eq_mod)
  then show False using i(3) n by (metis bit_take_bit_iff)
qed

lemma bit_flag: "x = 2 ^ k \<Longrightarrow> k < 16 \<Longrightarrow> bit (if c then x else 0 :: 16 word) n \<longleftrightarrow> c \<and> n = k"
  by (auto simp: bit_simps)

lemma bit_flags:
  "bit (if c then 0x8000 else 0 :: 16 word) n \<longleftrightarrow> c \<and> n = 15" "bit (if c then 0x0400 else 0 :: 16 word) n \<longleftrightarrow> c \<and> n = 10"
  "bit (if c then 0x0200 else 0 :: 16 word) n \<longleftrightarrow> c \<and> n = 9" "bit (if c then 0x0100 else 0 :: 16 word) n \<longleftrightarrow> c \<and> n = 8"
  "bit (if c then 0x0080 else 0 :: 16 word) n \<longleftrightarrow> c \<and> n = 7" "bit (if c then 0x0040 else 0 :: 16 word) n \<longleftrightarrow> c \<and> n = 6"
  "bit (if c then 0x0020 else 0 :: 16 word) n \<longleftrightarrow> c \<and> n = 5" "bit (if c then 0x0010 else 0 :: 16 word) n \<longleftrightarrow> c \<and> n = 4"
  by (rule bit_flag; simp)+

lemma bit_header_bits: "bit (header_bits h) n \<longleftrightarrow>
    (11 \<le> n \<and> n < 16 \<and> bit (mh_Opcode h) (n - 11)) \<or> (n < 16 \<and> bit (mh_Rcode h) n) \<or>
    mh_Response h \<and> n = 15 \<or> mh_Authoritative h \<and> n = 10 \<or> mh_Truncated h \<and> n = 9 \<or> mh_RecursionDesired h \<and> n = 8 \<or>
    mh_RecursionAvailable h \<and> n = 7 \<or> mh_Zero h \<and> n = 6 \<or> mh_AuthenticatedData h \<and> n = 5 \<or> mh_CheckingDisabled h \<and> n = 4"
proof -
  have "bit (push_bit 11 (word_of_int (mh_Opcode h) :: 16 word)) n \<longleftrightarrow> 11 \<le> n \<and> n < 16 \<and> bit (mh_Opcode h) (n - 11)"
    by (auto simp: bit_push_bit_iff bit_word_of_int_iff)
  moreover have "bit (word_of_int (mh_Rcode h) :: 16 word) n \<longleftrightarrow> n < 16 \<and> bit (mh_Rcode h) n" by (simp add: bit_word_of_int_iff)
  ultimately show ?thesis by (simp only: header_bits_def flag_bits_def bit_or_iff bit_flags disj_assoc)
qed

lemma not_bit_small: "0 \<le> i \<Longrightarrow> i < 16 \<Longrightarrow> 4 \<le> n \<Longrightarrow> \<not> bit i n" for i :: int
  using bit_small[of i n] by auto

lemma header_flags:
  assumes "good_header h"
  shows "bit (header_bits h) 15 = mh_Response h" "bit (header_bits h) 10 = mh_Authoritative h" "bit (header_bits h) 9 = mh_Truncated h"
    "bit (header_bits h) 8 = mh_RecursionDesired h" "bit (header_bits h) 7 = mh_RecursionAvailable h" "bit (header_bits h) 6 = mh_Zero h"
    "bit (header_bits h) 5 = mh_AuthenticatedData h" "bit (header_bits h) 4 = mh_CheckingDisabled h"
  using assms unfolding bit_header_bits by (simp_all add: good_header_def not_bit_small)

lemma header_Rcode:
  assumes "good_header h"
  shows "uint (header_bits h AND 0xF) = mh_Rcode h"
proof -
  have c: "0 \<le> mh_Rcode h" "mh_Rcode h < 16" using assms by (simp_all add: good_header_def)
  have "header_bits h AND 0xF = take_bit 4 (header_bits h)" by (simp add: take_bit_eq_mask mask_numeral)
  also have "\<dots> = of_int (mh_Rcode h)"
  proof (rule bit_word_eqI)
    fix n
    show "bit (take_bit 4 (header_bits h)) n = bit (word_of_int (mh_Rcode h) :: 16 word) n"
      using not_bit_small[OF c, of n] by (cases "n < 4") (auto simp: bit_take_bit_iff bit_header_bits bit_word_of_int_iff)
  qed
  finally show ?thesis using c by (simp add: uint_word_of_int)
qed

lemma header_Opcode:
  assumes "good_header h"
  shows "uint (drop_bit 11 (header_bits h)) mod 16 = mh_Opcode h"
proof -
  have c: "0 \<le> mh_Opcode h" "mh_Opcode h < 16" "0 \<le> mh_Rcode h" "mh_Rcode h < 16" using assms by (simp_all add: good_header_def)
  have "uint (drop_bit 11 (header_bits h)) mod 16 = uint (take_bit 4 (drop_bit 11 (header_bits h)))"
    by (simp only: unsigned_take_bit_eq) (simp add: take_bit_eq_mod)
  also have "take_bit 4 (drop_bit 11 (header_bits h)) = of_int (mh_Opcode h)"
  proof (rule bit_word_eqI)
    fix n
    show "bit (take_bit 4 (drop_bit 11 (header_bits h))) n = bit (word_of_int (mh_Opcode h) :: 16 word) n"
      using not_bit_small[OF c(1,2), of n] not_bit_small[OF c(3,4), of "11 + n"]
      by (cases "n < 4") (auto simp: bit_take_bit_iff bit_drop_bit_eq bit_header_bits bit_word_of_int_iff)
  qed
  finally show ?thesis using c by (simp add: uint_word_of_int)
qed

lemma header_bits_back: "good_header h \<Longrightarrow> MsgHdr_of (mh_Id h) (header_bits h) = h"
  by (simp add: MsgHdr_of_def header_flags header_Rcode header_Opcode)

subsection \<open>The estimate of the length\<close>

lemma length_concat_map: "(\<And>x. 1 \<le> length (f x)) \<Longrightarrow> length l \<le> length (concat (map f l))"
proof (induction l)
  case (Cons a l)
  have "1 \<le> length (f a)" "length l \<le> length (concat (map f l))" using Cons by blast+
  then show ?case by simp
qed simp

lemma length_label_text: "Suc (length l) \<le> length (label_text l)"
  using length_concat_map[of name_escape l] by (simp add: label_text_def name_escape_def)

lemma length_name_wire: "length (name_wire labels) \<le> length (str (name_text labels)) + 1"
proof -
  have "length (concat (map label_wire labels)) \<le> length (concat (map label_text labels))"
  proof (induction labels)
    case (Cons l labels)
    then show ?case using length_label_text[of l] by simp
  qed simp
  then show ?thesis by (simp add: name_wire_def name_text_def str_def)
qed

lemma length_text_wire: "length (text_wire l) \<le> length (text_string l) + 1"
  using length_concat_map[of txt_escape l] by (simp add: text_wire_def text_string_def str_def txt_escape_def)

lemma question_fits: "question_wire q bs \<Longrightarrow> length bs \<le> question_len q"
  using length_name_wire by (auto simp: question_wire_def question_len_def) 

definition rr_fits :: "wire_RR \<Rightarrow> bytes \<Rightarrow> bool" where
  "rr_fits rr bs \<longleftrightarrow> rr_wire rr bs \<and> (\<exists>n. rr_len rr = Ret n \<and> length bs \<le> n)"

lemma rrs_len_fits: "list_all2 rr_fits rrs bss \<Longrightarrow> \<exists>n. rrs_len rrs = Ret n \<and> length (concat bss) \<le> n"
  by (induction rule: list_all2_induct) (auto simp: rr_fits_def intro: add_le_mono)

lemma questions_fit: "list_all2 question_wire qs bss \<Longrightarrow> length (concat bss) \<le> sum_list (map question_len qs)"
  by (induction rule: list_all2_induct) (auto intro: add_le_mono question_fits)

definition header12 :: "wire_Msg \<Rightarrow> bytes" where
  "header12 m = packUint16 (mh_Id (wm_Hdr m)) @ packUint16 (header_bits (wm_Hdr m)) @ packUint16 (of_nat (length (wm_Question m))) @
     packUint16 (of_nat (length (wm_Answer m))) @ packUint16 (of_nat (length (wm_Ns m))) @ packUint16 (of_nat (length (wm_Extra m)))"

definition header12_values :: "wire_Msg \<Rightarrow> field list" where
  "header12_values m = [F_u16 (mh_Id (wm_Hdr m)), F_u16 (header_bits (wm_Hdr m)), F_u16 (of_nat (length (wm_Question m))),
     F_u16 (of_nat (length (wm_Answer m))), F_u16 (of_nat (length (wm_Ns m))), F_u16 (of_nat (length (wm_Extra m)))]"

lemma header12_wire: "fields_wire Header_fields (header12_values m) (header12 m)"
  using fields_wire.intros(2)[OF field_wire.intros(2) fields_wire.intros(2)[OF field_wire.intros(2) fields_wire.intros(2)[OF field_wire.intros(2)
    fields_wire.intros(2)[OF field_wire.intros(2) fields_wire.intros(2)[OF field_wire.intros(2) fields_wire.intros(2)[OF field_wire.intros(2) wires_Nil]]]]]]
  by (simp add: Header_fields_def header12_values_def header12_def)

subsection \<open>Messages as a whole\<close>

text \<open>A message with the bytes of its parts.\<close>

definition msg_wire :: "wire_Msg \<Rightarrow> bytes list \<Rightarrow> bytes list \<Rightarrow> bytes list \<Rightarrow> bytes list \<Rightarrow> bool" where
  "msg_wire m qs as ns es \<longleftrightarrow> \<not> wm_Compress m \<and> good_header (wm_Hdr m) \<and>
     list_all2 question_wire (wm_Question m) qs \<and> list_all2 rr_fits (wm_Answer m) as \<and> list_all2 rr_fits (wm_Ns m) ns \<and> list_all2 rr_fits (wm_Extra m) es \<and>
     length (wm_Question m) < 65536 \<and> length (wm_Answer m) < 65536 \<and> length (wm_Ns m) < 65536 \<and> length (wm_Extra m) < 65536"

lemma fits_wire: "list_all2 rr_fits rrs bss \<Longrightarrow> list_all2 rr_wire rrs bss"
  by (erule list_all2_mono) (simp add: rr_fits_def)

lemma pack_questions_next:
  "list_all2 question_wire qs bss \<Longrightarrow> length w + length (concat bss) \<le> length msg \<Longrightarrow>
    pack_questions False qs (put msg 0 w) (length w) cm = Ret (Inr (put msg 0 (w @ concat bss), length (w @ concat bss), cm))"
  using pack_questions_wire[of qs bss "length w" "put msg 0 w" cm] put_put[of 0 w msg "concat bss"] by simp

lemma pack_rrs_next:
  "list_all2 rr_wire rrs bss \<Longrightarrow> length w + length (concat bss) \<le> length msg \<Longrightarrow>
    pack_rrs False rrs (put msg 0 w) (length w) cm = Ret (Inr (put msg 0 (w @ concat bss), length (w @ concat bss), cm))"
  using pack_rrs_wire[of rrs bss "length w" "put msg 0 w" cm] put_put[of 0 w msg "concat bss"] by simp

lemma Msg_Pack_wire:
  assumes "msg_wire m qs as ns es"
  shows "Msg_Pack m = Ret (Inr (header12 m @ concat qs @ concat as @ concat ns @ concat es))"
proof -
  note m = assms[unfolded msg_wire_def]
  have q: "list_all2 question_wire (wm_Question m) qs" and a: "list_all2 rr_wire (wm_Answer m) as" and
    n: "list_all2 rr_wire (wm_Ns m) ns" and e: "list_all2 rr_wire (wm_Extra m) es" using m fits_wire by auto
  have "list_all2 rr_fits (wm_Answer m @ wm_Ns m @ wm_Extra m) (as @ ns @ es)" using m by (simp add: list_all2_appendI)
  from rrs_len_fits[OF this] obtain len where len: "rrs_len (wm_Answer m @ wm_Ns m @ wm_Extra m) = Ret len" "length (concat (as @ ns @ es)) \<le> len" by blast
  define msg where "msg = replicate (12 + sum_list (map question_len (wm_Question m)) + len + 1) (0 :: byte)"
  let ?h = "header12 m" and ?w = "header12 m @ concat qs @ concat as @ concat ns @ concat es"
  have room: "length ?w \<le> length msg" using questions_fit[OF q] len(2) by (simp add: msg_def header12_def)
  have 1: "packStructValue False Header_fields (header12_values m) msg 0 [] = Ret (Inr (put msg 0 ?h, length ?h, []))"
    using packStructValue_wire[OF header12_wire, of 0 m msg "[]"] room by simp
  have 2: "pack_questions False (wm_Question m) (put msg 0 ?h) (length ?h) [] = Ret (Inr (put msg 0 (?h @ concat qs), length (?h @ concat qs), []))"
    by (rule pack_questions_next[OF q]) (use room in simp)
  have 3: "pack_rrs False (wm_Answer m) (put msg 0 (?h @ concat qs)) (length (?h @ concat qs)) [] =
      Ret (Inr (put msg 0 ((?h @ concat qs) @ concat as), length ((?h @ concat qs) @ concat as), []))"
    by (rule pack_rrs_next[OF a]) (use room in simp)
  have 4: "pack_rrs False (wm_Ns m) (put msg 0 ((?h @ concat qs) @ concat as)) (length ((?h @ concat qs) @ concat as)) [] =
      Ret (Inr (put msg 0 (((?h @ concat qs) @ concat as) @ concat ns), length (((?h @ concat qs) @ concat as) @ concat ns), []))"
    by (rule pack_rrs_next[OF n]) (use room in simp)
  have 5: "pack_rrs False (wm_Extra m) (put msg 0 (((?h @ concat qs) @ concat as) @ concat ns)) (length (((?h @ concat qs) @ concat as) @ concat ns)) [] =
      Ret (Inr (put msg 0 ?w, length ?w, []))"
    using pack_rrs_next[OF e, of "((?h @ concat qs) @ concat as) @ concat ns" msg "[]"] room by simp
  have 6: "slice (put msg 0 ?w) 0 (length ?w) = Ret ?w" using room by (simp add: slice_def put_def)
  have "pack_sections m = Ret (Inr ?w)"
    using m by (simp only: pack_sections_def Msg_Len_def len(1) bindO.simps Let_def header12_values_def[symmetric] msg_def[symmetric]
        1 2 3 4 5 6 bindP_simps prod.case simp_thms)
  then show ?thesis using m by (simp add: Msg_Pack_def good_header_def Let_def)
qed

definition forget_rdlengths :: "wire_Msg \<Rightarrow> wire_Msg" where
  "forget_rdlengths m = m\<lparr>wm_Answer := map forget_rdlength (wm_Answer m), wm_Ns := map forget_rdlength (wm_Ns m), wm_Extra := map forget_rdlength (wm_Extra m)\<rparr>"

lemma unpack_rrs_next:
  assumes "list_all2 rr_wire rrs bss" "n = length rrs"
  obtains rrs' where "unpack_rrs fuel spare (w @ concat bss @ post) n (length w) = Ret (Inr (rrs', length (w @ concat bss)))"
    "map forget_rdlength rrs' = map forget_rdlength rrs"
  using unpack_rrs_wire[OF assms(1) refl, of fuel spare w post] assms(2) by auto

lemma unat_count: "n < 65536 \<Longrightarrow> unat (of_nat n :: 16 word) = n"
  by (simp add: unat_of_nat take_bit_nat_eq_self_iff)

lemma Msg_Unpack_wire:
  assumes "msg_wire m qs as ns es"
  shows "\<exists>m'. Msg_Unpack fuel spare (header12 m @ concat qs @ concat as @ concat ns @ concat es) = Ret (Inr m') \<and> forget_rdlengths m' = forget_rdlengths m"
proof -
  note m = assms[unfolded msg_wire_def]
  let ?h = "header12 m" and ?msg = "header12 m @ concat qs @ concat as @ concat ns @ concat es"
  have q: "list_all2 question_wire (wm_Question m) qs" and a: "list_all2 rr_wire (wm_Answer m) as" and
    n: "list_all2 rr_wire (wm_Ns m) ns" and e: "list_all2 rr_wire (wm_Extra m) es" using m fits_wire by auto
  have 1: "unpack_fields 0 [] ''Header'' 0 ?msg [] Header_fields 0 = Ret (Inr (header12_values m, length ?h))"
    using unpack_fields_fixed[OF header12_wire[of m], of 0 "[]" 0 "[]" "''Header''" "concat qs @ concat as @ concat ns @ concat es" "[]"]
    by (simp add: Header_fields_def)
  have 2: "unpack_questions ?msg (length (wm_Question m)) (length ?h) = Ret (Inr (wm_Question m, length (?h @ concat qs)))"
    using unpack_questions_wire[OF q refl, of ?h "concat as @ concat ns @ concat es"] by simp
  obtain as' where 3: "unpack_rrs fuel spare ((?h @ concat qs) @ concat as @ concat ns @ concat es) (length (wm_Answer m)) (length (?h @ concat qs)) =
      Ret (Inr (as', length ((?h @ concat qs) @ concat as)))" "map forget_rdlength as' = map forget_rdlength (wm_Answer m)"
    by (rule unpack_rrs_next[OF a refl])
  obtain ns' where 4: "unpack_rrs fuel spare (((?h @ concat qs) @ concat as) @ concat ns @ concat es) (length (wm_Ns m)) (length ((?h @ concat qs) @ concat as)) =
      Ret (Inr (ns', length (((?h @ concat qs) @ concat as) @ concat ns)))" "map forget_rdlength ns' = map forget_rdlength (wm_Ns m)"
    by (rule unpack_rrs_next[OF n refl])
  obtain es' where 5: "unpack_rrs fuel spare ((((?h @ concat qs) @ concat as) @ concat ns) @ concat es @ []) (length (wm_Extra m))
        (length (((?h @ concat qs) @ concat as) @ concat ns)) =
      Ret (Inr (es', length ((((?h @ concat qs) @ concat as) @ concat ns) @ concat es)))" "map forget_rdlength es' = map forget_rdlength (wm_Extra m)"
    by (rule unpack_rrs_next[OF e refl])
  have "Msg_Unpack fuel spare ?msg = Ret (Inr (m\<lparr>wm_Answer := as', wm_Ns := ns', wm_Extra := es'\<rparr>))"
    using m 1 2 3(1) 4(1) 5(1) unat_count[of "length (wm_Question m)"] unat_count[of "length (wm_Answer m)"] unat_count[of "length (wm_Ns m)"]
      unat_count[of "length (wm_Extra m)"]
    by (simp add: Msg_Unpack_def header12_values_def Let_def header_bits_back good_header_def)
  then show ?thesis using 3(2) 4(2) 5(2) by (simp add: forget_rdlengths_def)
qed

subsection \<open>The records that bonjour sends\<close>

definition good_name :: "string \<Rightarrow> bool" where
  "good_name s \<longleftrightarrow> (\<exists>labels. good_labels labels \<and> s = str (name_text labels)) \<and> length s < 65000"

definition good_text :: "string \<Rightarrow> bool" where
  "good_text s \<longleftrightarrow> (\<exists>l. length l < 256 \<and> s = text_string l)"

inductive good_rdata :: "string \<Rightarrow> 16 word \<Rightarrow> field list \<Rightarrow> bool" where
  good_PTR: "good_name ptr \<Longrightarrow> good_rdata ''PTR'' 12 [F_str ptr]"
| good_SRV: "good_name target \<Longrightarrow> good_rdata ''SRV'' 33 [F_u16 prio, F_u16 weight, F_u16 port, F_str target]"
| good_TXT: "ts \<noteq> [] \<Longrightarrow> list_all good_text ts \<Longrightarrow> length ts < 256 \<Longrightarrow> good_rdata ''TXT'' 16 [F_strs ts]"
| good_A: "length v4 = 4 \<Longrightarrow> good_rdata ''A'' 1 [F_ip (v4InV6Prefix @ v4)]"
| good_AAAA: "length ip = 16 \<Longrightarrow> good_rdata ''AAAA'' 28 [F_ip ip]"

definition good_rr :: "wire_RR \<Rightarrow> bool" where
  "good_rr rr \<longleftrightarrow> good_name (h_Name (w_Hdr rr)) \<and> good_rdata (w_type rr) (h_Rrtype (w_Hdr rr)) (w_fields rr)"

lemma known_rr_bonjour:
  "known_rr 12 = (''PTR'', [K_cname])" "known_rr 33 = (''SRV'', [K_uint16, K_uint16, K_uint16, K_name])" "known_rr 16 = (''TXT'', [K_txts])"
  "known_rr 1 = (''A'', [K_a])" "known_rr 28 = (''AAAA'', [K_aaaa])"
  by (simp_all add: known_rr_def typeToRR_def typeToRR_fields)

lemma fields_of_bonjour:
  "fields_of ''PTR'' = [K_cname]" "fields_of ''SRV'' = [K_uint16, K_uint16, K_uint16, K_name]" "fields_of ''TXT'' = [K_txts]"
  "fields_of ''A'' = [K_a]" "fields_of ''AAAA'' = [K_aaaa]"
  by (simp_all add: fields_of_def typeToRR_def typeToRR_fields)

lemma len_bonjour:
  "map_of len_table ''PTR'' = Some PTR_len" "map_of len_table ''SRV'' = Some SRV_len" "map_of len_table ''TXT'' = Some TXT_len"
  "map_of len_table ''A'' = Some A_len" "map_of len_table ''AAAA'' = Some AAAA_len"
  by (simp_all add: len_table_def)

lemma good_nameE:
  assumes "good_name s"
  obtains labels where "good_labels labels" "s = str (name_text labels)" "length (name_wire labels) \<le> length s + 1" "length s < 65000"
  using assms length_name_wire by (auto simp: good_name_def)

lemma good_textsE:
  assumes "list_all good_text ts"
  obtains ls where "ts = map text_string ls" "\<forall>l\<in>set ls. length l < 256"
    "length (concat (map text_wire ls)) \<le> 256 * length ts" "length (concat (map text_wire ls)) \<le> sum_list (map (\<lambda>t. length t + 1) ts)"
proof -
  have "\<exists>ls. ts = map text_string ls \<and> (\<forall>l\<in>set ls. length l < 256)" using assms
  proof (induction ts)
    case (Cons t ts)
    then obtain l ls where "ts = map text_string ls" "\<forall>l\<in>set ls. length l < 256" "length l < 256" "t = text_string l" by (auto simp: good_text_def)
    then show ?case by (intro exI[of _ "l # ls"]) simp
  qed simp
  then obtain ls where ls: "ts = map text_string ls" "\<forall>l\<in>set ls. length l < 256" by blast
  have "length (concat (map text_wire ls)) \<le> 256 * length ls" using ls(2) by (induction ls) (auto simp: text_wire_def)
  moreover have "length (concat (map text_wire ls)) \<le> sum_list (map (\<lambda>l. length (text_string l) + 1) ls)"
  proof (induction ls)
    case (Cons l ls)
    then show ?case using length_text_wire[of l] by simp
  qed simp
  ultimately show ?thesis using that[of ls] ls by (simp add: comp_def)
qed

lemma length_header_wire: "good_labels labels \<Longrightarrow> h_Name h = str (name_text labels) \<Longrightarrow> length (header_wire labels (h\<lparr>h_Rdlength := r\<rparr>)) \<le> header_len h"
  using length_name_wire[of labels] by (simp add: header_wire_def header_len_def)

lemma rr_fitsI:
  assumes "good_name (h_Name (w_Hdr rr))" "fields_wire (fields_of (w_type rr)) (w_fields rr) w" "length w < 65536"
    "known_rr (h_Rrtype (w_Hdr rr)) = (w_type rr, fields_of (w_type rr))" "rr_len rr = Ret n" "header_len (w_Hdr rr) + length w \<le> n"
  shows "\<exists>bs. rr_fits rr bs"
proof -
  obtain labels where l: "good_labels labels" "h_Name (w_Hdr rr) = str (name_text labels)" using assms(1) by (rule good_nameE)
  let ?bs = "header_wire labels ((w_Hdr rr)\<lparr>h_Rdlength := of_nat (length w)\<rparr>) @ w"
  have "rr_wire rr ?bs" using assms l by (auto simp: rr_wire_def)
  moreover have "length ?bs \<le> n" using length_header_wire[OF l, of "of_nat (length w)"] assms(6) by simp
  ultimately show ?thesis using assms(5) by (auto simp: rr_fits_def)
qed

lemma good_rr_fits:
  assumes "good_rr rr"
  shows "\<exists>bs. rr_fits rr bs"
proof -
  have g: "good_name (h_Name (w_Hdr rr))" using assms by (simp add: good_rr_def)
  note known = known_rr_bonjour fields_of_bonjour len_bonjour rr_len_def f_len_def
  have "good_rdata (w_type rr) (h_Rrtype (w_Hdr rr)) (w_fields rr)" using assms by (simp add: good_rr_def)
  then show ?thesis
  proof (cases rule: good_rdata.cases)
    case (good_PTR ptr)
    obtain labels where l: "good_labels labels" "ptr = str (name_text labels)" "length (name_wire labels) \<le> length ptr + 1" "length ptr < 65000"
      using good_PTR(4) by (rule good_nameE)
    have w: "fields_wire [K_cname] [F_str ptr] (name_wire labels @ [])" unfolding l(2) by (intro fields_wire.intros field_wire.intros l(1)) simp
    show ?thesis by (rule rr_fitsI[OF g, of "name_wire labels" "PTR_len (w_Hdr rr) (w_fields rr)"]) (use good_PTR w l(3,4) in \<open>simp_all add: known PTR_len_def\<close>)
  next
    case (good_SRV target a b c)
    obtain labels where l: "good_labels labels" "target = str (name_text labels)" "length (name_wire labels) \<le> length target + 1" "length target < 65000"
      using good_SRV(4) by (rule good_nameE)
    have w: "fields_wire [K_uint16, K_uint16, K_uint16, K_name] [F_u16 a, F_u16 b, F_u16 c, F_str target]
        (packUint16 a @ packUint16 b @ packUint16 c @ name_wire labels @ [])"
      unfolding l(2) by (intro fields_wire.intros field_wire.intros l(1)) simp_all
    show ?thesis by (rule rr_fitsI[OF g, of "packUint16 a @ packUint16 b @ packUint16 c @ name_wire labels" "SRV_len (w_Hdr rr) (w_fields rr)"])
        (use good_SRV w l(3,4) in \<open>simp_all add: known SRV_len_def\<close>)
  next
    case (good_TXT ts)
    obtain ls where l: "ts = map text_string ls" "\<forall>l\<in>set ls. length l < 256"
      "length (concat (map text_wire ls)) \<le> 256 * length ts" "length (concat (map text_wire ls)) \<le> sum_list (map (\<lambda>t. length t + 1) ts)"
      using good_TXT(5) by (rule good_textsE)
    have w: "fields_wire [K_txts] [F_strs ts] (concat (map text_wire ls) @ [])"
      unfolding l(1) by (intro fields_wire.intros field_wire.intros) (use l(1,2) good_TXT(4) in auto)
    show ?thesis by (rule rr_fitsI[OF g, of "concat (map text_wire ls)" "TXT_len (w_Hdr rr) (w_fields rr)"]) (use good_TXT w l(3,4) in \<open>simp_all add: known TXT_len_def\<close>)
  next
    case (good_A v4)
    have w: "fields_wire [K_a] [F_ip (v4InV6Prefix @ v4)] (v4 @ [])" by (intro fields_wire.intros field_wire.intros good_A(4)) simp
    show ?thesis by (rule rr_fitsI[OF g, of v4 "A_len (w_Hdr rr) (w_fields rr)"]) (use good_A w in \<open>simp_all add: known A_len_def\<close>)
  next
    case (good_AAAA ip)
    have w: "fields_wire [K_aaaa] [F_ip ip] (ip @ [])" by (intro fields_wire.intros field_wire.intros good_AAAA(4)) simp
    show ?thesis by (rule rr_fitsI[OF g, of ip "AAAA_len (w_Hdr rr) (w_fields rr)"]) (use good_AAAA w in \<open>simp_all add: known AAAA_len_def\<close>)
  qed
qed

text \<open>
  A message of such records: it fits the counts of the header, is not truncated and has
  its codes in range.
\<close>

definition good_msg :: "wire_Msg \<Rightarrow> bool" where
  "good_msg m \<longleftrightarrow> \<not> wm_Compress m \<and> good_header (wm_Hdr m) \<and> list_all (\<lambda>q. good_name (q_Name q)) (wm_Question m) \<and>
     list_all good_rr (wm_Answer m @ wm_Ns m @ wm_Extra m) \<and>
     list_all (\<lambda>n. n < 65536) [length (wm_Question m), length (wm_Answer m), length (wm_Ns m), length (wm_Extra m)]"

lemma list_all2_choice: "list_all (\<lambda>x. \<exists>y. P x y) xs \<Longrightarrow> \<exists>ys. list_all2 P xs ys"
proof (induction xs)
  case (Cons x xs)
  then obtain y ys where "P x y" "list_all2 P xs ys" by auto
  then show ?case by (intro exI[of _ "y # ys"]) simp
qed (auto intro: exI[of _ "[]"])

lemma good_rrs_fit: "list_all good_rr rrs \<Longrightarrow> \<exists>bss. list_all2 rr_fits rrs bss"
  by (rule list_all2_choice) (simp add: good_rr_fits list_all_iff)

lemma good_msg_wire: "good_msg m \<Longrightarrow> \<exists>qs as ns es. msg_wire m qs as ns es"
proof -
  assume m: "good_msg m"
  have "\<exists>qs. list_all2 question_wire (wm_Question m) qs"
    by (rule list_all2_choice) (use m in \<open>auto simp: good_msg_def list_all_iff question_wire_def good_name_def\<close>)
  then show "\<exists>qs as ns es. msg_wire m qs as ns es"
    using good_rrs_fit[of "wm_Answer m"] good_rrs_fit[of "wm_Ns m"] good_rrs_fit[of "wm_Extra m"] m by (simp add: good_msg_def msg_wire_def)
qed

text \<open>C0. A message with records of the types that bonjour sends (PTR, SRV, TXT, A, AAAA) is
  packed without an error into the bytes of a packet, for which the estimate of its length
  leaves enough room, and what a receiver unpacks is the message, but for the
  lengths of the records that the packet has in their headers.
\<close>

theorem dns_message_roundtrip:
  assumes "good_msg m"
  shows "\<exists>bs m'. Msg_Pack m = Ret (Inr bs) \<and> Msg_Unpack fuel spare bs = Ret (Inr m') \<and> forget_rdlengths m' = forget_rdlengths m"
proof -
  obtain qs as ns es where w: "msg_wire m qs as ns es" using good_msg_wire[OF assms] by blast
  then show ?thesis using Msg_Pack_wire[OF w] Msg_Unpack_wire[OF w] by blast
qed

definition example_rr :: wire_RR where
  "example_rr = \<lparr>w_type = ''PTR'', w_Hdr = \<lparr>h_Name = ''_docker._cluster.local.'', h_Rrtype = 12, h_Class = 1, h_Ttl = 3200, h_Rdlength = 0\<rparr>,
     w_fields = [F_str (''a'' @ CHR 0x5C # ''.b.local.'')]\<rparr>"

definition example_msg :: wire_Msg where
  "example_msg = \<lparr>wm_Hdr = MsgHdr_zero\<lparr>mh_Id := 7, mh_Response := True\<rparr>, wm_Compress = False,
     wm_Question = [\<lparr>q_Name = ''_docker._cluster.local.'', q_Qtype = 12, q_Qclass = 1\<rparr>], wm_Answer = [example_rr], wm_Ns = [], wm_Extra = []\<rparr>"

lemma good_nameI: "unstr s = name_text labels \<Longrightarrow> good_labels labels \<Longrightarrow> length s < 65000 \<Longrightarrow> good_name s"
  by (metis good_name_def str_unstr)

lemma example_names: "good_name ''_docker._cluster.local.''" "good_name (''a'' @ CHR 0x5C # ''.b.local.'')"
proof -
  show "good_name ''_docker._cluster.local.''"
    by (rule good_nameI[of _ "[unstr ''_docker'', unstr ''_cluster'', unstr ''local'']"])
      (simp_all add: good_labels_def unstr_def name_text_def label_text_def name_escape_def)
  show "good_name (''a'' @ CHR 0x5C # ''.b.local.'')"
    by (rule good_nameI[of _ "[unstr ''a.b'', unstr ''local'']"])
      (simp_all add: good_labels_def unstr_def name_text_def label_text_def name_escape_def)
qed

theorem dns_message_roundtrip_witness:
  "good_msg example_msg \<and> (\<exists>bs m'. Msg_Pack example_msg = Ret (Inr bs) \<and> Msg_Unpack 0 [] bs = Ret (Inr m') \<and>
     forget_rdlengths m' = forget_rdlengths example_msg)"
proof -
  have "good_rr example_rr" using good_PTR[OF example_names(2)] example_names(1) by (simp add: good_rr_def example_rr_def)
  then have "good_msg example_msg" using example_names(1) by (simp add: good_msg_def example_msg_def good_header_def MsgHdr_zero_def)
  then show ?thesis using dns_message_roundtrip[of example_msg 0 "[]"] by blast
qed

end
