(* ===== verification/DnsPack.thy ===== *)
theory DnsPack
  imports DnsWire
begin

section \<open>Packing any message of bonjour\<close>

text \<open>
  Whatever its names and texts are, a message of records that bonjour sends is packed, or
  refused with an error: the buffer that \<open>Pack\<close> allocates by the estimated lengths is
  never too small for what it writes without a check.
\<close>

subsection \<open>Steps that write no more than estimated\<close>

definition steady :: "nat \<Rightarrow> bytes \<Rightarrow> nat \<Rightarrow> (bytes \<times> nat \<times> compression) packed \<Rightarrow> bool" where
  "steady n msg off m \<longleftrightarrow> (\<exists>x. m = Ret x \<and> (\<forall>msg' off' cm'. x = Inr (msg', off', cm') \<longrightarrow> length msg' = length msg \<and> off' \<le> off + n))"

lemma steady_Inl [simp]: "steady n msg off (Ret (Inl err))"
  by (simp add: steady_def)

lemma steady_Inr [simp]: "steady n msg off (Ret (Inr (msg', off', cm'))) \<longleftrightarrow> length msg' = length msg \<and> off' \<le> off + n"
  by (simp add: steady_def)

lemma steady_bind:
  assumes "steady n msg off m" "\<And>msg' off' cm'. length msg' = length msg \<Longrightarrow> off' \<le> off + n \<Longrightarrow> steady k msg' off' (f (msg', off', cm'))"
  shows "steady (n + k) msg off (bindP m f)"
proof -
  obtain x where x: "m = Ret x" "\<And>msg' off' cm'. x = Inr (msg', off', cm') \<Longrightarrow> length msg' = length msg \<and> off' \<le> off + n"
    using assms(1) by (auto simp: steady_def)
  show ?thesis
  proof (cases x)
    case (Inr r)
    obtain msg' off' cm' where r: "r = (msg', off', cm')" by (cases r) auto
    have l: "length msg' = length msg" "off' \<le> off + n" using x(2) Inr r by auto
    show ?thesis using assms(2)[OF l, of cm'] l x(1) Inr r by (fastforce simp: steady_def)
  qed (simp add: x(1))
qed

lemma steady_mono: "steady n msg off m \<Longrightarrow> n \<le> k \<Longrightarrow> steady k msg off m"
  by (fastforce simp: steady_def)

lemma unescape_at_ge: "i < ls \<Longrightarrow> i \<le> snd (unescape_at bs ls i)"
  by (auto simp: unescape_at_def Let_def)

lemma name_loop_bound:
  assumes "name_loop False bs ls i b off ro fresh ed msg cm = Inr (bs', off', msg', cm', p)" "b \<le> i" "b \<le> ls"
  shows "p = None \<and> length msg' = length msg \<and> off' \<le> off + (ls - b)"
  using assms
proof (induction "ls - i" arbitrary: bs ls i b off ro fresh ed msg rule: less_induct)
  case less
  note loop = less.prems(1)[unfolded name_loop.simps[of False bs ls i b off ro fresh ed msg cm]]
  show ?case
  proof (cases "i < ls")
    case True
    show ?thesis
    proof (cases "bs ! i = 0x5C")
      case esc: True
      obtain bs1 ls1 where u: "unescape_at bs ls i = (bs1, ls1)" by (cases "unescape_at bs ls i")
      have ls1: "ls1 < ls" "i \<le> ls1" using unescape_at_less[OF True, of bs] unescape_at_ge[OF True, of bs] u by simp_all
      have "name_loop False bs1 ls1 (Suc i) b off ro False (bs1 ! i = 0x2E) msg cm = Inr (bs', off', msg', cm', p)"
        using loop True esc u by (simp split: if_splits)
      from less.hyps[OF _ this] have "p = None" "length msg' = length msg" "off' \<le> off + (ls1 - b)" using ls1 less.prems(2) True by simp_all
      moreover have "ls1 - b \<le> ls - b" using ls1 by simp
      ultimately show ?thesis by simp
    next
      case False
      show ?thesis
      proof (cases "bs ! i = 0x2E")
        case dot: True
        let ?msg = "put msg off (of_nat (i - b) # take (i - b) (drop b bs))"
        have room: "off + 1 + (i - b) \<le> length msg" and
          "name_loop False bs ls (Suc i) (Suc i) (off + 1 + (i - b)) ro fresh False ?msg cm = Inr (bs', off', msg', cm', p)"
          using loop True False dot by (simp_all add: Let_def split: if_splits)
        from less.hyps[OF _ this(2)] have "p = None" "length msg' = length ?msg" "off' \<le> off + 1 + (i - b) + (ls - Suc i)" using True by auto
        moreover have "length ?msg = length msg" using room by (intro length_put) simp
        ultimately show ?thesis using less.prems(2) True by auto
      next
        case nodot: False
        have "name_loop False bs ls (Suc i) b off ro fresh False msg cm = Inr (bs', off', msg', cm', p)" using loop True False nodot by simp
        from less.hyps[OF _ this] show ?thesis using less.prems(2,3) True by simp
      qed
    qed
  qed (use loop in auto)
qed

lemma packDomainName_steady:
  assumes "off + length s < length msg"
  shows "steady (length s + 1) msg off (packDomainName False s msg off cm)"
proof (cases "name_loop False (unstr s) (length (unstr s)) 0 0 off (unstr s) True False msg cm")
  case (Inl err)
  then show ?thesis by (simp add: packDomainName_def Let_def)
next
  case (Inr r)
  obtain bs' off' msg' cm' p where r: "r = (bs', off', msg', cm', p)" by (cases r) auto
  have b: "p = None" "length msg' = length msg" "off' \<le> off + length s"
    using name_loop_bound[of "unstr s" "length (unstr s)" 0 0 off "unstr s" True False msg cm bs' off' msg' cm' p] Inr r by (simp_all add: unstr_def)
  then show ?thesis using Inr r assms by (simp add: packDomainName_def Let_def)
qed

lemma number_steady: "length bs = n \<Longrightarrow> steady n msg off (keep_map cm (put_checked what msg off bs))"
  by (auto simp: keep_map_def put_checked_def)

lemma txt_loop_bound: "txt_loop bs msg off = Inr (msg', off') \<Longrightarrow> length msg' = length msg \<and> off' \<le> off + length bs"
proof (induction bs msg off rule: txt_loop.induct)
  case (1 bs msg off)
  show ?case
  proof (cases bs)
    case (Cons c cs)
    note loop = 1(4)[unfolded Cons, unfolded txt_loop.simps[of "c # cs" msg off]]
    show ?thesis
    proof (cases "length msg \<le> off")
      case False
      have p: "length (put msg off [x]) = length msg" for x using False by simp
      show ?thesis
      proof (cases "c = 0x5C \<and> cs \<noteq> []")
        case True
        then show ?thesis
          using 1(1,2)[OF Cons False] loop False Cons p by (cases cs) (auto split: if_splits)
      next
        case nesc: False
        then show ?thesis using 1(3)[OF Cons False] loop False Cons p by (auto split: if_splits)
      qed
    qed (use loop in simp)
  qed (use 1(4) in \<open>simp add: txt_loop.simps\<close>)
qed

lemma pack_texts_steady: "steady (sum_list (map (\<lambda>t. length t + 1) ts)) msg off (keep_map cm (pack_texts ts msg off))"
proof (induction ts arbitrary: msg off)
  case (Cons t ts)
  show ?case
  proof (cases "length t > 1025 \<or> off \<ge> length msg")
    case False
    then have off: "off < length msg" by simp
    show ?thesis
    proof (cases "txt_loop (unstr t) msg (Suc off)")
      case (Inr r)
      obtain msg' off' where r: "r = (msg', off')" by (cases r)
      have b: "length msg' = length msg" "off' \<le> Suc off + length t"
        using txt_loop_bound[of "unstr t" msg "Suc off" msg' off'] Inr r by (simp_all add: unstr_def)
      show ?thesis
      proof (cases "off' - off - 1 > 255")
        case False
        let ?msg = "put msg' off [of_nat (off' - off - 1)]"
        have l: "length ?msg = length msg" using b(1) off by simp
        have "keep_map cm (pack_texts (t # ts) msg off) = keep_map cm (pack_texts ts ?msg off')"
          using \<open>\<not> (length t > 1025 \<or> off \<ge> length msg)\<close> Inr r False by (simp add: packTxtString_def Let_def)
        moreover have "steady (sum_list (map (\<lambda>t. length t + 1) ts)) ?msg off' (keep_map cm (pack_texts ts ?msg off'))" by (rule Cons)
        ultimately show ?thesis using l b(2) by (fastforce simp: steady_def)
      qed (use Inr r off in \<open>simp add: packTxtString_def keep_map_def Let_def\<close>)
    qed (use off in \<open>simp add: packTxtString_def keep_map_def\<close>)
  qed (auto simp: packTxtString_def keep_map_def)
qed (simp add: keep_map_def)

lemma packTxt_steady: "steady (sum_list (map (\<lambda>t. length t + 1) ts)) msg off (keep_map cm (packTxt ts msg off))"
  using pack_texts_steady[of ts msg off cm] by (auto simp: packTxt_def keep_map_def)

lemma pack_a_steady: "steady 4 msg off (keep_map cm (pack_a ip msg off))"
  by (auto simp: keep_map_def pack_a_def)

lemma pack_aaaa_steady: "ip = [] \<or> length ip \<ge> 16 \<Longrightarrow> steady 16 msg off (keep_map cm (pack_aaaa ip msg off))"
  by (auto simp: keep_map_def pack_aaaa_def)

subsection \<open>Structs and records\<close>

text \<open>The kinds of fields in the records of bonjour, with what is estimated for them.\<close>

definition field_est :: "wire_kind \<Rightarrow> field \<Rightarrow> nat" where
  "field_est k v = (case k of K_uint16 \<Rightarrow> 2 | K_uint32 \<Rightarrow> 4 | K_a \<Rightarrow> 4 | K_aaaa \<Rightarrow> 16 | K_txts \<Rightarrow> sum_list (map (\<lambda>t. length t + 1) (f_strs v))
     | _ \<Rightarrow> length (f_str v) + 1)"

definition plain_field :: "wire_kind \<Rightarrow> field \<Rightarrow> bool" where
  "plain_field k v \<longleftrightarrow> k \<in> {K_uint16, K_uint32, K_a, K_txts, K_name, K_cname} \<or> k = K_aaaa \<and> (f_ip v = [] \<or> 16 \<le> length (f_ip v))"

lemma pack_field_steady:
  assumes "plain_field k v" "off + field_est k v \<le> length msg"
  shows "steady (field_est k v) msg off (pack_field False k v msg off cm)"
proof -
  have n: "steady (length (f_str v) + 1) msg off (packDomainName False (f_str v) msg off cm)" if "k = K_name \<or> k = K_cname"
    using assms(2) that by (intro packDomainName_steady) (auto simp: field_est_def)
  consider "k = K_uint16" | "k = K_uint32" | "k = K_a" | "k = K_txts" | "k = K_name" | "k = K_cname" | "k = K_aaaa" "f_ip v = [] \<or> 16 \<le> length (f_ip v)"
    using assms(1) by (auto simp: plain_field_def)
  then show ?thesis
    by cases (use n packTxt_steady pack_a_steady pack_aaaa_steady in \<open>simp_all add: pack_field_def field_est_def number_steady\<close>)
qed

lemma packStructValue_steady:
  "list_all2 plain_field ks vs \<Longrightarrow> off + sum_list (map2 field_est ks vs) \<le> length msg \<Longrightarrow>
    steady (sum_list (map2 field_est ks vs)) msg off (packStructValue False ks vs msg off cm)"
proof (induction arbitrary: msg off cm rule: list_all2_induct)
  case (Cons k ks v vs)
  have "steady (field_est k v + sum_list (map2 field_est ks vs)) msg off (bindP (pack_field False k v msg off cm)
      (\<lambda>(msg, off, cm). packStructValue False ks vs msg off cm))"
    by (rule steady_bind[OF pack_field_steady]) (use Cons in auto)
  then show ?case by simp
qed simp

lemma rawSetRdlength_length: "rawSetRdlength msg off end1 = Some msg' \<Longrightarrow> length msg' = length msg"
  by (auto simp: rawSetRdlength_def Let_def split: option.splits if_splits)

inductive sendable :: "string \<Rightarrow> field list \<Rightarrow> bool" where
  send_PTR: "sendable ''PTR'' [F_str ptr]"
| send_SRV: "sendable ''SRV'' [F_u16 prio, F_u16 weight, F_u16 port, F_str target]"
| send_TXT: "sendable ''TXT'' [F_strs ts]"
| send_A: "sendable ''A'' [F_ip ip]"
| send_AAAA: "ip = [] \<or> 16 \<le> length ip \<Longrightarrow> sendable ''AAAA'' [F_ip ip]"

lemma sendable_est:
  assumes "sendable t vs"
  obtains "list_all2 plain_field (fields_of t) vs" "t \<noteq> ''OPT''" "the (map_of len_table t) h vs = header_len h + sum_list (map2 field_est (fields_of t) vs)"
  using assms by (cases rule: sendable.cases) (simp_all add: fields_of_bonjour len_bonjour plain_field_def field_est_def f_len_def PTR_len_def SRV_len_def
      TXT_len_def A_len_def AAAA_len_def)

lemma rr_len_sendable: "sendable (w_type rr) (w_fields rr) \<Longrightarrow>
  rr_len rr = Ret (header_len (w_Hdr rr) + sum_list (map2 field_est (fields_of (w_type rr)) (w_fields rr)))"
  by (erule sendable_est[where h = "w_Hdr rr"]) (simp add: rr_len_def)

lemma PackRR_steady:
  assumes "sendable (w_type rr) (w_fields rr)" "rr_len rr = Ret n" "off + n \<le> length msg"
  shows "steady n msg off (PackRR False rr msg off cm)"
proof -
  let ?ks = "RR_Header_fields @ fields_of (w_type rr)" and ?vs = "RR_Header_values (w_Hdr rr) @ w_fields rr"
  have h: "list_all2 plain_field RR_Header_fields (RR_Header_values (w_Hdr rr))" "sum_list (map2 field_est RR_Header_fields (RR_Header_values (w_Hdr rr))) = header_len (w_Hdr rr)"
    by (simp_all add: RR_Header_fields_def RR_Header_values_def plain_field_def field_est_def header_len_def)
  have f: "list_all2 plain_field (fields_of (w_type rr)) (w_fields rr)" using assms(1) by (rule sendable_est)
  have n: "n = sum_list (map2 field_est ?ks ?vs)" using rr_len_sendable[OF assms(1)] assms(2) h by (simp add: list_all2_lengthD)
  have "steady n msg off (packStructValue False ?ks ?vs msg off cm)"
    unfolding n by (rule packStructValue_steady[OF list_all2_appendI[OF h(1) f]]) (use assms(3) n in simp)
  then have "steady (n + 0) msg off (bindP (packStructValue False ?ks ?vs msg off cm) (\<lambda>(msg, off1, cm). case rawSetRdlength msg off off1 of
      Some msg \<Rightarrow> Ret (Inr (msg, off1, cm)) | None \<Rightarrow> Ret (Inl ErrRdata)))"
    by (rule steady_bind) (auto split: option.splits dest: rawSetRdlength_length)
  then show ?thesis by (simp add: PackRR_def)
qed

lemma pack_rrs_steady:
  "list_all (\<lambda>rr. sendable (w_type rr) (w_fields rr)) rrs \<Longrightarrow> rrs_len rrs = Ret n \<Longrightarrow> off + n \<le> length msg \<Longrightarrow> steady n msg off (pack_rrs False rrs msg off cm)"
proof (induction rrs arbitrary: n msg off cm)
  case (Cons rr rrs)
  obtain k l where kl: "rr_len rr = Ret k" "rrs_len rrs = Ret l" "n = k + l" using Cons.prems(2) by (auto simp: bindO_Ret_iff)
  have "steady (k + l) msg off (bindP (PackRR False rr msg off cm) (\<lambda>(msg, off, cm). pack_rrs False rrs msg off cm))"
    by (rule steady_bind[OF PackRR_steady]) (use Cons.prems Cons.IH kl in auto)
  then show ?case by (simp add: kl)
qed simp

lemma pack_questions_steady:
  "off + sum_list (map question_len qs) \<le> length msg \<Longrightarrow> steady (sum_list (map question_len qs)) msg off (pack_questions False qs msg off cm)"
proof (induction qs arbitrary: msg off cm)
  case (Cons q qs)
  let ?vs = "[F_str (q_Name q), F_u16 (q_Qtype q), F_u16 (q_Qclass q)]"
  have e: "list_all2 plain_field Question_fields ?vs" "sum_list (map2 field_est Question_fields ?vs) = question_len q"
    by (simp_all add: Question_fields_def plain_field_def field_est_def question_len_def)
  have "steady (question_len q) msg off (packStructValue False Question_fields ?vs msg off cm)"
    using packStructValue_steady[OF e(1), of off msg cm] Cons.prems by (simp add: e(2))
  then have "steady (question_len q + sum_list (map question_len qs)) msg off (bindP (packStructValue False Question_fields ?vs msg off cm)
      (\<lambda>(msg, off, cm). pack_questions False qs msg off cm))"
    by (rule steady_bind) (use Cons in auto)
  then show ?case by simp
qed simp

subsection \<open>Messages\<close>

lemma rrs_len_sendable: "list_all (\<lambda>rr. sendable (w_type rr) (w_fields rr)) rrs \<Longrightarrow> \<exists>n. rrs_len rrs = Ret n"
  by (induction rrs) (auto simp: rr_len_sendable)

lemma rrs_len_append: "rrs_len (xs @ ys) = bindO (rrs_len xs) (\<lambda>m. bindO (rrs_len ys) (\<lambda>n. Ret (m + n)))"
proof (induction xs)
  case (Cons x xs)
  then show ?case by (cases "rr_len x"; cases "rrs_len xs"; cases "rrs_len ys") simp_all
qed (cases "rrs_len ys"; simp)

lemma returns_slice:
  assumes "steady n msg off m" "off + n \<le> length msg"
  shows "returns (bindP m (\<lambda>(msg, off, cm). bindO (slice msg 0 off) (\<lambda>bs. Ret (Inr bs))))"
proof -
  obtain x where x: "m = Ret x" "\<forall>msg' off' cm'. x = Inr (msg', off', cm') \<longrightarrow> length msg' = length msg \<and> off' \<le> off + n"
    using assms(1) by (auto simp: steady_def)
  show ?thesis
  proof (cases x)
    case (Inr r)
    obtain msg' off' cm' where "r = (msg', off', cm')" by (cases r) auto
    then show ?thesis using x Inr assms(2) by (simp add: slice_def)
  qed (simp add: x(1))
qed

lemma bindP_assoc: "bindP (bindP m f) g = bindP m (\<lambda>a. bindP (f a) g)"
  by (cases m) (auto simp: bindP_def split: sum.splits)

lemma bindP_split: "bindP (case_prod (\<lambda>x. case_prod (f x)) a) g = case_prod (\<lambda>x. case_prod (\<lambda>y z. bindP (f x y z) g)) a"
  by (simp split: prod.splits)

definition sendable_msg :: "wire_Msg \<Rightarrow> bool" where
  "sendable_msg m \<longleftrightarrow> \<not> wm_Compress m \<and> 0 \<le> mh_Rcode (wm_Hdr m) \<and> mh_Rcode (wm_Hdr m) < 16 \<and>
     list_all (\<lambda>rr. sendable (w_type rr) (w_fields rr)) (wm_Answer m @ wm_Ns m @ wm_Extra m)"

lemma msg_pack_returns:
  assumes "sendable_msg m"
  shows "returns (Msg_Pack m)"
proof -
  note m = assms[unfolded sendable_msg_def]
  let ?send = "\<lambda>rr. sendable (w_type rr) (w_fields rr)"
  obtain a n e where l: "rrs_len (wm_Answer m) = Ret a" "rrs_len (wm_Ns m) = Ret n" "rrs_len (wm_Extra m) = Ret e"
    using m rrs_len_sendable[of "wm_Answer m"] rrs_len_sendable[of "wm_Ns m"] rrs_len_sendable[of "wm_Extra m"] by auto
  let ?q = "sum_list (map question_len (wm_Question m))"
  have len: "Msg_Len m = Ret (12 + ?q + (a + (n + e)))" by (simp add: Msg_Len_def rrs_len_append l)
  define msg where "msg = replicate (12 + ?q + (a + (n + e)) + 1) (0 :: byte)"
  have size: "length msg = 12 + ?q + a + n + e + 1" by (simp add: msg_def)
  have "list_all2 plain_field Header_fields (header12_values m)" "sum_list (map2 field_est Header_fields (header12_values m)) = 12"
    by (simp_all add: Header_fields_def header12_values_def plain_field_def field_est_def)
  then have 1: "steady 12 msg 0 (packStructValue False Header_fields (header12_values m) msg 0 [])"
    using packStructValue_steady[of Header_fields "header12_values m" 0 msg "[]"] size by simp
  let ?E = "\<lambda>(msg, off, cm). pack_rrs False (wm_Extra m) msg off cm"
  let ?N = "\<lambda>(msg, off, cm). bindP (pack_rrs False (wm_Ns m) msg off cm) ?E"
  let ?A = "\<lambda>(msg, off, cm). bindP (pack_rrs False (wm_Answer m) msg off cm) ?N"
  let ?Q = "\<lambda>(msg, off, cm). bindP (pack_questions False (wm_Question m) msg off cm) ?A"
  have E: "steady e msg' off' (?E (msg', off', cm))" if "length msg' = length msg" "off' \<le> 12 + ?q + a + n" for msg' off' cm
    using pack_rrs_steady[of "wm_Extra m" e off' msg' cm] m l(3) that size by simp
  have N: "steady (n + e) msg' off' (?N (msg', off', cm))" if "length msg' = length msg" "off' \<le> 12 + ?q + a" for msg' off' cm
    unfolding prod.case by (rule steady_bind[OF pack_rrs_steady E]) (use m l(2) that size in auto)
  have A: "steady (a + (n + e)) msg' off' (?A (msg', off', cm))" if "length msg' = length msg" "off' \<le> 12 + ?q" for msg' off' cm
    unfolding prod.case by (rule steady_bind[OF pack_rrs_steady N]) (use m l(1) that size in auto)
  have Q: "steady (?q + (a + (n + e))) msg' off' (?Q (msg', off', cm))" if "length msg' = length msg" "off' \<le> 12" for msg' off' cm
    unfolding prod.case by (rule steady_bind[OF pack_questions_steady A]) (use that size in auto)
  have "steady (12 + (?q + (a + (n + e)))) msg 0 (bindP (packStructValue False Header_fields (header12_values m) msg 0 []) ?Q)"
    by (rule steady_bind[OF 1 Q]) auto
  then have "returns (bindP (bindP (packStructValue False Header_fields (header12_values m) msg 0 []) ?Q)
      (\<lambda>(msg, off, cm). bindO (slice msg 0 off) (\<lambda>bs. Ret (Inr bs))))"
    by (rule returns_slice) (use size in simp)
  moreover have "wm_Compress m = False" using m by simp
  ultimately have "returns (pack_sections m)"
    by (simp only: pack_sections_def len bindO.simps Let_def header12_values_def[symmetric] msg_def[symmetric] bindP_assoc bindP_split)
  then show ?thesis using m by (simp add: Msg_Pack_def Let_def)
qed

end
