(* ===== verification/DnsRead.thy ===== *)
theory DnsRead
  imports DnsWire
begin

section \<open>Reading any packet\<close>

text \<open>
  What the reader does with packets that nobody who follows the standard would send: it
  returns for all types of records but some, and for those, that a packet makes
  it panic, or read forever.
\<close>

unbundle bit_operations_syntax

lemma be_word_two: "be_word [a, b] = (push_bit 8 (ucast a) OR ucast b :: 16 word)"
  by (simp add: be_word_def)

subsection \<open>When the reader returns\<close>

text \<open>
  Reading to the end of the record is safe in a record that has nothing else; the other
  kinds may start behind the end of the record.
\<close>

definition safe_layout :: "wire_kind list \<Rightarrow> bool" where
  "safe_layout ks \<longleftrightarrow> ks \<in> {[K_hex], [K_base64]} \<or> set ks \<inter> {K_names, K_hex, K_base64, K_opt, K_nsec} = {}"

lemma returns_bindP: "returns m \<Longrightarrow> (\<And>a. m = Ret (Inr a) \<Longrightarrow> returns (f a)) \<Longrightarrow> returns (bindP m f)"
  by (cases m) (auto simp: bindP_def split: sum.splits)

lemma returns_unpack_wks: "returns (unpack_wks msg lenrd off j serv)"
  by (induction msg lenrd off j serv rule: unpack_wks.induct) (subst unpack_wks.simps, simp)

lemma returns_simple:
  "returns (unpack_number what n f msg off)" "returns (unpack_name_field msg off)" "returns (unpack_text_field msg off)"
  "returns (unpack_texts_field lenrd msg off)" "returns (unpack_address what n g lenrd msg off)"
  by (simp_all add: unpack_number_def unpack_name_field_def unpack_text_field_def unpack_texts_field_def unpack_address_def split: sum.splits prod.splits)

lemma returns_unpack_rest: "off \<le> end1 \<Longrightarrow> returns (unpack_rest what f end1 lenrd msg off)"
  by (simp add: unpack_rest_def slice_def)

lemma returns_unpack_field: "k \<notin> {K_names, K_hex, K_base64, K_opt, K_nsec} \<Longrightarrow> returns (unpack_field fuel spare t lenrd msg done k off)"
  by (cases k) (simp_all add: unpack_field_def returns_simple returns_unpack_wks Let_def)

lemma returns_fields_step:
  "returns (bindP (unpack_field fuel spare t lenrd msg done k off) (\<lambda>(v, off). unpack_fields fuel spare t lenrd msg (done @ [v]) ks off)) \<Longrightarrow>
    returns (unpack_fields fuel spare t lenrd msg done (k # ks) off)"
  by (simp only: unpack_fields.simps returns.simps split: if_split) simp

lemma returns_unpack_fields:
  "set ks \<inter> {K_names, K_hex, K_base64, K_opt, K_nsec} = {} \<Longrightarrow> returns (unpack_fields fuel spare t lenrd msg done ks off)"
proof (induction ks arbitrary: "done" off)
  case (Cons k ks)
  have "k \<notin> {K_names, K_hex, K_base64, K_opt, K_nsec}" "set ks \<inter> {K_names, K_hex, K_base64, K_opt, K_nsec} = {}" using Cons.prems by auto
  then have "returns (bindP (unpack_field fuel spare t lenrd msg done k off) (\<lambda>(v, off). unpack_fields fuel spare t lenrd msg (done @ [v]) ks off))"
    by (intro returns_bindP returns_unpack_field) (simp_all add: Cons.IH split: prod.splits)
  then show ?case by (rule returns_fields_step)
qed simp

lemma returns_rest_fields: "t \<noteq> ''HIP'' \<Longrightarrow> off \<le> lenrd \<Longrightarrow> k = K_hex \<or> k = K_base64 \<Longrightarrow> returns (unpack_fields fuel spare t lenrd msg [] [k] off)"
proof -
  assume *: "t \<noteq> ''HIP''" "off \<le> lenrd" "k = K_hex \<or> k = K_base64"
  from *(3) have "returns (unpack_field fuel spare t lenrd msg [] k off)"
    by (elim disjE) (simp_all add: unpack_field_def returns_unpack_rest *(1,2) del: list.inject)
  then have "returns (bindP (unpack_field fuel spare t lenrd msg [] k off) (\<lambda>(v, off). unpack_fields fuel spare t lenrd msg ([] @ [v]) [] off))"
    by (rule returns_bindP) (simp split: prod.splits)
  then show "returns (unpack_fields fuel spare t lenrd msg [] [k] off)" by (rule returns_fields_step)
qed

lemma returns_unpack_header: "returns (unpack_header msg off)"
proof -
  have "returns (unpack_fields 0 [] ''RR_Header'' 0 msg [] RR_Header_fields off)" by (rule returns_unpack_fields) (simp add: RR_Header_fields_def)
  then show ?thesis unfolding unpack_header_def by (rule returns_bindP) (simp split: prod.splits)
qed

lemma HIP_unsafe: "known_rr t = (''HIP'', ks) \<Longrightarrow> ks \<notin> {[K_hex], [K_base64]}"
proof -
  have "list_all (\<lambda>(t, g, ks). g = ''HIP'' \<longrightarrow> ks \<notin> {[K_hex], [K_base64]}) typeToRR" by code_simp
  then show "known_rr t = (''HIP'', ks) \<Longrightarrow> ks \<notin> {[K_hex], [K_base64]}"
    by (auto simp: known_rr_def list_all_iff split: option.splits dest!: map_of_SomeD)
qed

text \<open>No place of the packet reads as the header of a record with another layout.\<close>

definition safe_headers :: "bytes \<Rightarrow> bool" where
  "safe_headers msg \<longleftrightarrow> list_all (\<lambda>off. case unpack_header msg off of
       Ret (Inr (h, off')) \<Rightarrow> safe_layout (snd (known_rr (h_Rrtype h))) | _ \<Rightarrow> True) [0..<Suc (length msg)]"

lemma unpack_header_bound: "unpack_header msg off = Ret (Inr r) \<Longrightarrow> off \<le> length msg"
  by (simp add: unpack_header_def RR_Header_fields_def split: if_splits)

lemma safe_headersD:
  assumes "safe_headers msg" "unpack_header msg off = Ret (Inr (h, off'))" "known_rr (h_Rrtype h) = (t, ks)"
  shows "safe_layout ks"
proof -
  have "off \<in> set [0..<Suc (length msg)]" using unpack_header_bound[OF assms(2)] by auto
  then have "case unpack_header msg off of Ret (Inr (h, off')) \<Rightarrow> safe_layout (snd (known_rr (h_Rrtype h))) | _ \<Rightarrow> True"
    using assms(1) unfolding safe_headers_def list_all_iff by blast
  then show ?thesis by (simp add: assms(2,3))
qed

lemma returns_UnpackRR: "safe_headers msg \<Longrightarrow> returns (UnpackRR fuel spare msg off)"
proof -
  assume s: "safe_headers msg"
  have "returns (unpackStructValue fuel spare t ks msg off)" if h: "unpack_header msg off = Ret (Inr (h, off'))" and k: "known_rr (h_Rrtype h) = (t, ks)" for h off' t ks
  proof -
    have ks: "safe_layout ks" by (rule safe_headersD[OF s h k])
    have "returns (unpack_fields fuel spare t (off' + unat (h_Rdlength h)) msg [] ks off')"
    proof (cases "ks \<in> {[K_hex], [K_base64]}")
      case True
      then have t: "t \<noteq> ''HIP''" using HIP_unsafe k by metis
      from True obtain k' where "ks = [k']" "k' = K_hex \<or> k' = K_base64" by auto
      then show ?thesis using returns_rest_fields[OF t, of off' "off' + unat (h_Rdlength h)" k' fuel spare msg] by simp
    next
      case False
      then show ?thesis using ks by (intro returns_unpack_fields) (simp add: safe_layout_def)
    qed
    then have "returns (bindP (unpack_fields fuel spare t (off' + unat (h_Rdlength h)) msg [] ks off')
        (\<lambda>(vs, off). Ret (Inr (\<lparr>w_type = t, w_Hdr = h, w_fields = vs\<rparr>, off))))"
      by (rule returns_bindP) (simp split: prod.splits)
    then show ?thesis by (simp add: unpackStructValue_def h)
  qed
  note 1 = this
  show ?thesis unfolding UnpackRR_def
  proof (rule returns_bindP[OF returns_unpack_header])
    fix hoff assume h: "unpack_header msg off = Ret (Inr hoff)"
    obtain h' off' t ks where e: "hoff = (h', off')" "known_rr (h_Rrtype h') = (t, ks)" by (metis surj_pair)
    obtain r where "unpackStructValue fuel spare t ks msg off = Ret r" using 1[of h' off' t ks] h e by (auto simp: returns_iff)
    then show "returns (case hoff of (h, offa) \<Rightarrow> let end1 = offa + unat (h_Rdlength h); (t, ks) = known_rr (h_Rrtype h) in
        bindO (unpackStructValue fuel spare t ks msg off) (\<lambda>r. case r of
            Inl err \<Rightarrow> Ret (Inl (if length msg \<noteq> end1 then bad_rdlength else err))
          | Inr (rr, off) \<Rightarrow> if off \<noteq> end1 then Ret (Inl bad_rdlength) else Ret (Inr (rr, off))))"
      by (simp add: e Let_def split: sum.splits prod.splits)
  qed
qed

lemma returns_unpack_rrs: "safe_headers msg \<Longrightarrow> returns (unpack_rrs fuel spare msg n off)"
proof (induction n arbitrary: off)
  case (Suc n)
  have "returns (bindP (UnpackRR fuel spare msg off) (\<lambda>(rr, off). bindP (unpack_rrs fuel spare msg n off) (\<lambda>(rrs, off). Ret (Inr (rr # rrs, off)))))"
  proof (rule returns_bindP[OF returns_UnpackRR[OF Suc.prems]])
    fix a
    show "returns (case a of (rr, off) \<Rightarrow> bindP (unpack_rrs fuel spare msg n off) (\<lambda>(rrs, off). Ret (Inr (rr # rrs, off))))"
      by (cases a) (auto intro!: returns_bindP Suc split: prod.splits)
  qed
  then show ?case by simp
qed simp

lemma returns_unpack_questions: "returns (unpack_questions msg n off)"
proof (induction n arbitrary: off)
  case (Suc n)
  have "returns (unpack_fields 0 [] ''Question'' 0 msg [] Question_fields off)" by (rule returns_unpack_fields) (simp add: Question_fields_def)
  then have "returns (bindP (unpack_fields 0 [] ''Question'' 0 msg [] Question_fields off) (\<lambda>(vs, off).
     bindP (unpack_questions msg n off) (\<lambda>(qs, off). Ret (Inr (Question_of vs # qs, off)))))"
  proof (rule returns_bindP)
    fix a
    show "returns (case a of (vs, off) \<Rightarrow> bindP (unpack_questions msg n off) (\<lambda>(qs, off). Ret (Inr (Question_of vs # qs, off))))"
      by (cases a) (auto intro!: returns_bindP Suc split: prod.splits)
  qed
  then show ?case by simp
qed simp

text \<open>C0. The reader of packets returns, with a message or an error, for every packet in which
  all records are of types whose layout is safe, those that miekg/dns does not know
  among them; in particular it never loops, however pointers are set in the names.
\<close>

theorem dns_reader_returns:
  assumes "safe_headers msg"
  shows "returns (Msg_Unpack fuel spare msg)"
proof -
  have h: "returns (unpack_fields 0 [] ''Header'' 0 msg [] Header_fields 0)" by (rule returns_unpack_fields) (simp add: Header_fields_def)
  show ?thesis unfolding Msg_Unpack_def
    by (rule returns_bindP[OF h])
      (auto simp: Let_def split: prod.splits intro!: returns_bindP returns_unpack_questions returns_unpack_rrs assms)
qed

definition ptr_packet :: bytes where
  "ptr_packet = [0, 7, 0x84, 0, 0, 0, 0, 1, 0, 0, 0, 0] @ [1, 0x61, 0] @ [0, 12, 0, 1, 0, 0, 0x0C, 0x80, 0, 2] @ [0xC0, 12]"

theorem dns_reader_returns_witness: "safe_headers ptr_packet \<and> returns (Msg_Unpack 0 [] ptr_packet)"
proof -
  have "safe_headers ptr_packet" by code_simp
  then show ?thesis using dns_reader_returns[of ptr_packet 0 "[]"] by blast
qed

text \<open>The types whose layout is not safe.\<close>

lemma unsafe_types: "map (\<lambda>(t, g, ks). g) (filter (\<lambda>(t, g, ks). \<not> safe_layout ks) typeToRR) =
  [''CDS'', ''CERT'', ''DLV'', ''KEY'', ''DNSKEY'', ''DS'', ''HIP'', ''NSEC3'', ''NSEC3PARAM'', ''NSEC'', ''OPT'', ''RKEY'', ''SIG'', ''RRSIG'',
   ''SSHFP'', ''TA'', ''TLSA'']"
  by code_simp

subsection \<open>A packet that makes the reader panic\<close>

definition one_extra :: bytes where
  "one_extra = [0, 0, 0, 0, 0, 0, 0, 0, 0, 0, 0, 1]"

lemma length_one_extra: "length one_extra = 12"
  by (simp add: one_extra_def)

text \<open>The header of the message, and the record behind it.\<close>

lemma Msg_Unpack_one_extra:
  assumes "\<not> returns (UnpackRR fuel spare (one_extra @ bs) 12)"
  shows "Msg_Unpack fuel spare (one_extra @ bs) = bindO (UnpackRR fuel spare (one_extra @ bs) 12) (\<lambda>r. Ret (Inl opt_overflow))"
proof -
  have w: "fields_wire Header_fields [F_u16 0, F_u16 0, F_u16 0, F_u16 0, F_u16 0, F_u16 1] one_extra"
    using fields_wire.intros(2)[OF field_wire.intros(2)[of 0] fields_wire.intros(2)[OF field_wire.intros(2)[of 0] fields_wire.intros(2)[OF field_wire.intros(2)[of 0]
      fields_wire.intros(2)[OF field_wire.intros(2)[of 0] fields_wire.intros(2)[OF field_wire.intros(2)[of 0] fields_wire.intros(2)[OF field_wire.intros(2)[of 1] wires_Nil]]]]]]
    by (simp add: Header_fields_def one_extra_def packUint16_def)
  have "unpack_fields 0 [] ''Header'' 0 (one_extra @ bs) [] Header_fields 0 = Ret (Inr ([F_u16 0, F_u16 0, F_u16 0, F_u16 0, F_u16 0, F_u16 1], 12))"
    using unpack_fields_fixed[OF w, of 0 "[]" 0 "[]" "''Header''" bs "[]"] by (simp add: Header_fields_def one_extra_def)
  then show ?thesis using assms
    by (cases "UnpackRR fuel spare (one_extra @ bs) 12") (simp_all add: Msg_Unpack_def Let_def MsgHdr_of_def bindP_def)
qed

lemma known_rr_41: "known_rr 41 = (''OPT'', [K_opt])"
  by (simp add: known_rr_def typeToRR_def OPT_fields_def)

text \<open>An OPT record whose data is too short for an option.\<close>

lemma UnpackRR_short_opt:
  assumes "good_labels labels" "h_Name h = str (name_text labels)" "h_Rrtype h = 41" "unat (h_Rdlength h) = length rdata" "length rdata = 2 \<or> length rdata = 3"
  shows "UnpackRR fuel spare (pre @ header_wire labels h @ rdata) (length pre) = index_panic"
proof -
  let ?off = "length (pre @ header_wire labels h)" and ?msg = "pre @ header_wire labels h @ rdata"
  have h: "unpack_header ?msg (length pre) = Ret (Inr (h, ?off))" using unpack_header_wire[OF assms(1,2) refl, of pre rdata] by simp
  have "unpack_opts spare ?msg (?off + length rdata) ?off [] = index_panic" using assms(5) by (subst unpack_opts.simps) auto
  then have "unpack_fields fuel spare ''OPT'' (?off + length rdata) ?msg [] [K_opt] ?off = index_panic"
    using assms(5) by (auto simp: unpack_field_def)
  then show ?thesis using h assms(3,4) by (simp add: UnpackRR_def unpackStructValue_def known_rr_41)
qed

lemma short_opt_panics:
  assumes "good_labels labels" "h_Name h = str (name_text labels)" "h_Rrtype h = 41" "unat (h_Rdlength h) = length rdata" "length rdata = 2 \<or> length rdata = 3"
  shows "Msg_Unpack fuel spare (one_extra @ header_wire labels h @ rdata) = index_panic"
proof -
  have "UnpackRR fuel spare (one_extra @ header_wire labels h @ rdata) 12 = index_panic"
    using UnpackRR_short_opt[OF assms, of fuel spare one_extra] by (simp add: length_one_extra)
  then show ?thesis using Msg_Unpack_one_extra[of fuel spare "header_wire labels h @ rdata"] by simp
qed

subsection \<open>A packet that is read forever\<close>

text \<open>
  A pointer to the end of a name: what follows is read from behind that end, and not
  from behind the pointer.
\<close>

lemma unpack_root_pointer:
  assumes "off + 1 < length msg" "msg ! off = 0xC0 OR of_nat (p div 256)" "msg ! (off + 1) = of_nat (p mod 256)" "p < 0x4000" "p < length msg" "msg ! p = 0"
  shows "UnpackDomainName msg off = Inr (str [0x2E], p + 1)"
proof -
  have hi: "p div 256 < 64" using assms(4) by auto
  have "list_all (\<lambda>n. (0xC0 OR of_nat n :: byte) AND 0xC0 = 0xC0 \<and> unat ((0xC0 OR of_nat n :: byte) XOR 0xC0) = n) [0..<64]" by code_simp
  then have c: "(0xC0 OR of_nat (p div 256) :: byte) AND 0xC0 = 0xC0" "unat ((0xC0 OR of_nat (p div 256) :: byte) XOR 0xC0) = p div 256"
    using hi by (simp_all add: list_all_iff)
  have lo: "unat (of_nat (p mod 256) :: byte) = p mod 256" by (rule unat_text_byte) simp
  have "unpack_name msg off [] 0 0 = unpack_name msg p [] (off + 2) 1"
    using assms c lo by (subst unpack_name.simps) (simp add: Let_def)
  also have "\<dots> = Inr ([0x2E], p + 1)" using assms(5,6) by (subst unpack_name.simps) simp
  finally show ?thesis by (simp add: UnpackDomainName_def)
qed

lemma unpack_names_forever: "UnpackDomainName msg off = Inr (s, off) \<Longrightarrow> off < lenrd \<Longrightarrow> unpack_names fuel msg lenrd off servers = NoReturn"
  by (induction fuel arbitrary: servers) (subst unpack_names.simps, simp)+

lemma known_rr_55: "known_rr 55 = (''HIP'', [K_uint8, K_uint8, K_uint16, K_hex, K_base64, K_names])"
  by (simp add: known_rr_def typeToRR_def HIP_fields_def)

text \<open>A HIP record without an identity and a key, with one server whose name is a pointer to the byte before it.\<close>

definition hip_rdata :: "byte \<Rightarrow> nat \<Rightarrow> bytes" where
  "hip_rdata alg p = [0, alg, 0, 0, 0xC0 OR of_nat (p div 256), of_nat (p mod 256)]"

lemma unpack_fields_Cons:
  "lenrd \<noteq> off \<Longrightarrow> off \<le> length msg \<Longrightarrow> unpack_field fuel spare t lenrd msg done k off = Ret (Inr (v, off')) \<Longrightarrow>
    unpack_fields fuel spare t lenrd msg done (k # ks) off = unpack_fields fuel spare t lenrd msg (done @ [v]) ks off'"
  by simp

lemma hip_fields:
  assumes "off = length pre" "off + 3 < 0x4000"
  shows "unpack_fields fuel spare ''HIP'' (off + 6) (pre @ hip_rdata alg (off + 3)) [] [K_uint8, K_uint8, K_uint16, K_hex, K_base64, K_names] off = NoReturn"
proof -
  let ?msg = "pre @ hip_rdata alg (off + 3)"
  have len: "length ?msg = off + 6" by (simp add: hip_rdata_def assms(1))
  have n: "drop (off + k) ?msg = drop k (hip_rdata alg (off + 3))" for k by (simp add: assms(1))
  have i: "?msg ! (off + k) = hip_rdata alg (off + 3) ! k" for k by (simp add: assms(1) nth_append)
  have "UnpackDomainName ?msg (off + 4) = Inr (str [0x2E], off + 3 + 1)"
    by (rule unpack_root_pointer) (use i[of 3] i[of 4] i[of 5] len assms(2) in \<open>simp_all add: hip_rdata_def add.commute[of 5]\<close>)
  then have names: "unpack_names fuel ?msg (off + 6) (off + 4) [] = NoReturn" by (intro unpack_names_forever) (simp_all add: numeral_eq_Suc)
  have f: "unpack_field fuel spare ''HIP'' (off + 6) ?msg [] K_uint8 off = Ret (Inr (F_u8 0, Suc off))"
    "unpack_field fuel spare ''HIP'' (off + 6) ?msg [F_u8 0] K_uint8 (Suc off) = Ret (Inr (F_u8 alg, Suc (Suc off)))"
    "unpack_field fuel spare ''HIP'' (off + 6) ?msg [F_u8 0, F_u8 alg] K_uint16 (Suc (Suc off)) = Ret (Inr (F_u16 0, off + 4))"
    "unpack_field fuel spare ''HIP'' (off + 6) ?msg [F_u8 0, F_u8 alg, F_u16 0] K_hex (off + 4) = Ret (Inr (F_str (hexString []), off + 4))"
    "unpack_field fuel spare ''HIP'' (off + 6) ?msg [F_u8 0, F_u8 alg, F_u16 0, F_str (hexString [])] K_base64 (off + 4) = Ret (Inr (F_str (encode64 []), off + 4))"
    using n[of 0] n[of 1] n[of 2] len
    by (simp_all only: unpack_field_def unpack_number_def unpack_rest_def slice_def wire_kind.case Let_def add_0_right)
      (simp_all add: hip_rdata_def be_word_def)
  show ?thesis
    by (simp add: unpack_fields_Cons[OF _ _ f(1)] unpack_fields_Cons[OF _ _ f(2)] unpack_fields_Cons[OF _ _ f(3)] unpack_fields_Cons[OF _ _ f(4)]
        unpack_fields_Cons[OF _ _ f(5)] len del: unpack_fields.simps append_assoc length_append) (simp add: unpack_field_def names bindP_def len del: length_append)
qed

text \<open>C0. One packet keeps a receiver busy forever: a message that ends with a HIP record
  whose server has for its name a pointer to the zero byte right before the pointer
  is read without end, since the next name is expected behind the byte that the pointer
  goes to; with each round another name is appended.
\<close>

theorem dns_packet_forever:
  assumes "good_labels labels" "h_Name h = str (name_text labels)" "h_Rrtype h = 55" "h_Rdlength h = 6" "length (header_wire labels h) < 0x3FF0"
  shows "Msg_Unpack fuel spare (one_extra @ header_wire labels h @ hip_rdata alg (12 + length (header_wire labels h) + 3)) = NoReturn"
proof -
  let ?pre = "one_extra @ header_wire labels h" and ?off = "12 + length (header_wire labels h)"
  have h: "unpack_header (?pre @ hip_rdata alg (?off + 3)) 12 = Ret (Inr (h, ?off))"
    using unpack_header_wire[OF assms(1,2) refl, of one_extra "hip_rdata alg (?off + 3)"] by (simp add: length_one_extra)
  have "unpack_fields fuel spare ''HIP'' (?off + 6) (?pre @ hip_rdata alg (?off + 3)) [] [K_uint8, K_uint8, K_uint16, K_hex, K_base64, K_names] ?off = NoReturn"
    by (rule hip_fields) (use assms(5) in \<open>simp_all add: length_one_extra\<close>)
  then have "UnpackRR fuel spare (?pre @ hip_rdata alg (?off + 3)) 12 = NoReturn"
    using h by (simp add: UnpackRR_def unpackStructValue_def known_rr_55 assms(3,4) bindP_def del: unpack_fields.simps append_assoc)
  then show ?thesis using Msg_Unpack_one_extra[of fuel spare "header_wire labels h @ hip_rdata alg (?off + 3)"] by simp
qed

theorem dns_packet_forever_witness:
  "Msg_Unpack 1000 [] [0, 0, 0, 0, 0, 0, 0, 0, 0, 0, 0, 1, 0, 0, 55, 0, 1, 0, 0, 0, 0, 0, 6, 0, 2, 0, 0, 0xC0, 26] = NoReturn"
  using dns_packet_forever[of "[]" "\<lparr>h_Name = str (name_text []), h_Rrtype = 55, h_Class = 1, h_Ttl = 0, h_Rdlength = 6\<rparr>" 1000 "[]" 2]
  by (simp add: one_extra_def header_wire_def name_wire_def good_labels_def packUint16_def packUint32_def hip_rdata_def)

subsection \<open>Records that are not there\<close>

definition empty_rr :: wire_RR where
  "empty_rr = \<lparr>w_type = ''RFC3597'', w_Hdr = \<lparr>h_Name = [], h_Rrtype = 0, h_Class = 0, h_Ttl = 0, h_Rdlength = 0\<rparr>, w_fields = [F_str []]\<rparr>"

lemma UnpackRR_at_end:
  assumes "msg \<noteq> []"
  shows "UnpackRR fuel spare msg (length msg) = Ret (Inr (empty_rr, length msg))"
proof -
  have h: "unpack_header msg (length msg) = Ret (Inr (\<lparr>h_Name = [], h_Rrtype = 0, h_Class = 0, h_Ttl = 0, h_Rdlength = 0\<rparr>, length msg))"
    using assms by (simp add: unpack_header_def RR_Header_fields_def unpack_field_def zero_field_def RR_Header_of_def)
  have "known_rr 0 = (''RFC3597'', [K_hex])" by (simp add: known_rr_def typeToRR_def RFC3597_fields_def)
  then show ?thesis using assms h by (simp add: UnpackRR_def unpackStructValue_def zero_field_def empty_rr_def)
qed

lemma unpack_rrs_at_end: "msg \<noteq> [] \<Longrightarrow> unpack_rrs fuel spare msg n (length msg) = Ret (Inr (replicate n empty_rr, length msg))"
  by (induction n) (simp_all add: UnpackRR_at_end)

text \<open>C0. Records that a packet announces and does not have are made up: a packet of twelve
  bytes, a header that says that \<open>n\<close> answers follow, is accepted as a message with \<open>n\<close>
  empty answers, 65535 of them at most.
\<close>

theorem dns_missing_records:
  "\<exists>m. Msg_Unpack fuel spare (packUint16 ident @ [0x84, 0, 0, 0] @ packUint16 n @ [0, 0, 0, 0]) = Ret (Inr m) \<and> wm_Answer m = replicate (unat n) empty_rr"
proof -
  let ?msg = "packUint16 ident @ [0x84, 0, 0, 0] @ packUint16 n @ [0, 0, 0, 0]"
  have e: "(0x8400 :: byte) = 0" by code_simp
  have w: "fields_wire Header_fields [F_u16 ident, F_u16 0x8400, F_u16 0, F_u16 n, F_u16 0, F_u16 0] ?msg"
    using fields_wire.intros(2)[OF field_wire.intros(2)[of ident] fields_wire.intros(2)[OF field_wire.intros(2)[of "0x8400"] fields_wire.intros(2)[OF field_wire.intros(2)[of 0]
      fields_wire.intros(2)[OF field_wire.intros(2)[of n] fields_wire.intros(2)[OF field_wire.intros(2)[of 0] fields_wire.intros(2)[OF field_wire.intros(2)[of 0] wires_Nil]]]]]]
    by (simp add: Header_fields_def packUint16_def e)
  have "unpack_fields 0 [] ''Header'' 0 ?msg [] Header_fields 0 = Ret (Inr ([F_u16 ident, F_u16 0x8400, F_u16 0, F_u16 n, F_u16 0, F_u16 0], length ?msg))"
    using unpack_fields_fixed[OF w, of 0 "[]" 0 "[]" "''Header''" "[]" "[]"] by (simp add: Header_fields_def)
  then show ?thesis
    using unpack_rrs_at_end[of ?msg fuel spare "unat n"]
    by (simp add: Msg_Unpack_def Let_def MsgHdr_of_def del: length_append)
qed

end
