(* ===== verification/Mdns.thy ===== *)
theory Mdns
  imports Watches DnsPack DnsRead "HOL-Library.Sublist" "HOL-Library.Multiset"
begin

section \<open>Multicast DNS (socketplane/bonjour)\<close>

text \<open>
  The service records of the discovery, as messages: how a server describes its service
  in the answers to queries, in announcements and in its farewell, and how a client
  turns what it receives into entries; the registration of a service and the requests
  of a client; the choice of an interface to bind to.

  A message is packed into a packet and read from one as theory DnsMsg says; the lookup of
  host names, random numbers and what is done with sockets are functions of the
  environment.  The names a service record caches are computed afresh, as the fields they
  are made of do not change after the first use.  A value sent to the channel
  that ends a client is taken by its main loop.
\<close>

subsection \<open>State\<close>

record ServiceEntry =
  se_Instance :: string
  se_Service :: string
  se_Domain :: string
  se_HostName :: string
  se_Port :: int
  se_Text :: "string list"
  se_TTL :: "32 word"
  se_AddrIPv4 :: bytes
  se_AddrIPv6 :: bytes

record LookupParams =
  lp_Instance :: string
  lp_Service :: string
  lp_Domain :: string

text \<open>The types of records that bonjour tells apart.\<close>

datatype RR =
    RR_PTR string "32 word" string
  | RR_SRV string "32 word" "16 word" string
  | RR_TXT string "32 word" "string list"
  | RR_A string "32 word" bytes
  | RR_AAAA string "32 word" bytes
  | OtherRR

definition ClassINET :: "16 word" where
  "ClassINET = 1"

definition TypeA :: "16 word" where
  "TypeA = 1"

definition TypePTR :: "16 word" where
  "TypePTR = 12"

definition TypeTXT :: "16 word" where
  "TypeTXT = 16"

definition TypeAAAA :: "16 word" where
  "TypeAAAA = 28"

definition TypeSRV :: "16 word" where
  "TypeSRV = 33"

lemmas dns_constants = ClassINET_def TypeA_def TypePTR_def TypeTXT_def TypeAAAA_def TypeSRV_def

text \<open>The struct that bonjour makes, and the type switch of its client.\<close>

definition new_header :: "string \<Rightarrow> 16 word \<Rightarrow> 32 word \<Rightarrow> RR_Header" where
  "new_header name t ttl = \<lparr>h_Name = name, h_Rrtype = t, h_Class = ClassINET, h_Ttl = ttl, h_Rdlength = 0\<rparr>"

fun new_RR :: "RR \<Rightarrow> wire_RR" where
  "new_RR (RR_PTR name ttl ptr) = \<lparr>w_type = ''PTR'', w_Hdr = new_header name TypePTR ttl, w_fields = [F_str ptr]\<rparr>"
| "new_RR (RR_SRV name ttl port target) =
     \<lparr>w_type = ''SRV'', w_Hdr = new_header name TypeSRV ttl, w_fields = [F_u16 0, F_u16 0, F_u16 port, F_str target]\<rparr>"
| "new_RR (RR_TXT name ttl txt) = \<lparr>w_type = ''TXT'', w_Hdr = new_header name TypeTXT ttl, w_fields = [F_strs txt]\<rparr>"
| "new_RR (RR_A name ttl ip) = \<lparr>w_type = ''A'', w_Hdr = new_header name TypeA ttl, w_fields = [F_ip ip]\<rparr>"
| "new_RR (RR_AAAA name ttl ip) = \<lparr>w_type = ''AAAA'', w_Hdr = new_header name TypeAAAA ttl, w_fields = [F_ip ip]\<rparr>"
| "new_RR OtherRR = empty_rr"

definition switch_RR :: "wire_RR \<Rightarrow> RR" where
  "switch_RR rr =
     (let name = h_Name (w_Hdr rr); ttl = h_Ttl (w_Hdr rr); fs = w_fields rr in
      if w_type rr = ''PTR'' then RR_PTR name ttl (f_str (fs ! 0))
      else if w_type rr = ''SRV'' then RR_SRV name ttl (f_u16 (fs ! 2)) (f_str (fs ! 3))
      else if w_type rr = ''TXT'' then RR_TXT name ttl (f_strs (fs ! 0))
      else if w_type rr = ''A'' then RR_A name ttl (f_ip (fs ! 0))
      else if w_type rr = ''AAAA'' then RR_AAAA name ttl (f_ip (fs ! 0))
      else OtherRR)"

lemma switch_new [simp]: "switch_RR (new_RR rr) = rr"
  by (cases rr) (simp_all add: switch_RR_def new_header_def empty_rr_def)

declare new_RR.simps [simp del]

lemma switch_forget [simp]: "switch_RR (forget_rdlength rr) = switch_RR rr"
  by (simp add: switch_RR_def forget_rdlength_def Let_def cong: if_cong)

definition dns_Msg_zero :: wire_Msg where
  "dns_Msg_zero = \<lparr>wm_Hdr = MsgHdr_zero, wm_Compress = False, wm_Question = [], wm_Answer = [], wm_Ns = [], wm_Extra = []\<rparr>"

definition SetQuestion :: "16 word \<Rightarrow> string \<Rightarrow> 16 word \<Rightarrow> wire_Msg \<Rightarrow> wire_Msg" where
  "SetQuestion ident z t m = m\<lparr>wm_Hdr := (wm_Hdr m)\<lparr>mh_Id := ident, mh_RecursionDesired := True\<rparr>,
     wm_Question := [\<lparr>q_Name = z, q_Qtype = t, q_Qclass = ClassINET\<rparr>]\<rparr>"

definition SetReply :: "wire_Msg \<Rightarrow> wire_Msg \<Rightarrow> wire_Msg" where
  "SetReply request m = m\<lparr>wm_Hdr := (wm_Hdr m)\<lparr>mh_Id := mh_Id (wm_Hdr request), mh_RecursionDesired := mh_RecursionDesired (wm_Hdr request),
       mh_Response := True, mh_Opcode := 0, mh_Rcode := 0\<rparr>,
     wm_Question := (if wm_Question request = [] then wm_Question m else [hd (wm_Question request)])\<rparr>"

text \<open>A socket is a number; the connections of a client or server that could not be opened are \<open>None\<close>.\<close>

record client =
  c_lookupParams :: "(string \<times> LookupParams) list"
  c_ipv4conn :: "nat option"
  c_ipv6conn :: "nat option"
  c_closed :: bool

record server =
  sv_service :: "ServiceEntry option"
  sv_ipv4conn :: "nat option"
  sv_ipv6conn :: "nat option"
  sv_shouldShutdown :: bool

record 'w mdns_env = "'w cluster_env" +
  net_Interfaces :: "'w \<Rightarrow> (gerror + NetInterface list) \<times> 'w"
  InterfaceAddrs :: "'w \<Rightarrow> (gerror + IPNet list) \<times> 'w"
  icmp_echo :: "string \<Rightarrow> bytes \<Rightarrow> 'w \<Rightarrow> (int \<times> gerror option) \<times> 'w"
  Hostname :: "'w \<Rightarrow> (gerror + string) \<times> 'w"
  LookupIP :: "string \<Rightarrow> 'w \<Rightarrow> (gerror + bytes list) \<times> 'w"
  ListenUDP :: "string \<Rightarrow> bytes \<Rightarrow> int \<Rightarrow> 'w \<Rightarrow> (gerror + nat) \<times> 'w"
  ListenMulticastUDP :: "string \<Rightarrow> NetInterface option \<Rightarrow> bytes \<Rightarrow> int \<Rightarrow> 'w \<Rightarrow> (gerror + nat) \<times> 'w"
  JoinGroup :: "nat \<Rightarrow> NetInterface \<Rightarrow> bytes \<Rightarrow> 'w \<Rightarrow> gerror option \<times> 'w"
  WriteTo :: "nat \<Rightarrow> bytes \<Rightarrow> bytes \<Rightarrow> int \<Rightarrow> 'w \<Rightarrow> gerror option \<times> 'w"
  UDP_Close :: "nat \<Rightarrow> 'w \<Rightarrow> gerror option \<times> 'w"
  dns_Id :: "'w \<Rightarrow> 16 word \<times> 'w"

record 'w mdns_state = "'w cluster_state" +
  resolver :: client                        \<comment> \<open>the client of the resolver that was made last\<close>
  servers :: "server list"
  serverCache :: "(string \<times> nat) list"    \<comment> \<open>the server of an interface\<close>
  probing :: "nat list"                     \<comment> \<open>the servers whose goroutine \<open>probe\<close> was started\<close>

subsection \<open>Interfaces\<close>

definition FlagUp :: uint where
  "FlagUp = 1"

definition FlagLoopback :: uint where
  "FlagLoopback = 4"

definition ECHO_REPLY :: int where
  "ECHO_REPLY = 0"

definition isMyAddress :: "('w, 'x) mdns_env_scheme \<Rightarrow> string \<Rightarrow> (('w, 'z) ecc_state_scheme, bool) comp" where
  "isMyAddress E address = bindM (outside (InterfaceAddrs E)) (\<lambda>r. case r of
       Inl err \<Rightarrow> retM False
     | Inr intAddrs \<Rightarrow> retM (\<exists>a\<in>set intAddrs. ip_String (IP a) = address))"

fun echo_any :: "('w, 'x) mdns_env_scheme \<Rightarrow> string list \<Rightarrow> (('w, 'z) ecc_state_scheme, bool) comp" where
  "echo_any E [] = retM False"
| "echo_any E (addr # addrs) = (case ParseCIDR addr of
       Inr (ip, _) \<Rightarrow>
         if To4 ip \<noteq> [] then bindM (outside (icmp_echo E ''224.0.0.1'' ip)) (\<lambda>(ret, err).
           if err = None \<and> ret = ECHO_REPLY then retM True else echo_any E addrs)
         else echo_any E addrs
     | Inl _ \<Rightarrow> echo_any E addrs)"

definition IsInterfaceEligible :: "('w, 'x) mdns_env_scheme \<Rightarrow> NetInterface \<Rightarrow> (('w, 'z) ecc_state_scheme, bool) comp" where
  "IsInterfaceEligible E bIntf =
     (if ni_Flags bIntf AND FlagLoopback = 0 then
        bindM (outside (intf_Addrs E bIntf)) (\<lambda>r. case r of Inl err \<Rightarrow> retM False | Inr addrs \<Rightarrow> echo_any E addrs)
      else retM False)"

text \<open>
  The appended pointers all point to the one loop variable, which holds the last
  interface when the loop is done.
\<close>

fun count_eligible :: "('w, 'x) mdns_env_scheme \<Rightarrow> NetInterface list \<Rightarrow> (('w, 'z) ecc_state_scheme, nat) comp" where
  "count_eligible E [] = retM 0"
| "count_eligible E (i # is1) = bindM (IsInterfaceEligible E i) (\<lambda>el.
     bindM (count_eligible E is1) (\<lambda>n. retM (if el then Suc n else n)))"

definition EligibleInterfacesToBind :: "('w, 'x) mdns_env_scheme \<Rightarrow> (('w, 'z) ecc_state_scheme, NetInterface list) comp" where
  "EligibleInterfacesToBind E = bindM (outside (net_Interfaces E)) (\<lambda>r. case r of
       Inl err \<Rightarrow> retM []
     | Inr ifaces \<Rightarrow> bindM (count_eligible E ifaces) (\<lambda>n. retM (if n = 0 then [] else replicate n (last ifaces))))"

fun first_eligible :: "('w, 'x) mdns_env_scheme \<Rightarrow> NetInterface list \<Rightarrow> (('w, 'z) ecc_state_scheme, NetInterface option) comp" where
  "first_eligible E [] = retM None"
| "first_eligible E (i # is1) = bindM (IsInterfaceEligible E i) (\<lambda>el. if el then retM (Some i) else first_eligible E is1)"

definition InterfaceToBind :: "('w, 'x) mdns_env_scheme \<Rightarrow> (('w, 'z) ecc_state_scheme, NetInterface option) comp" where
  "InterfaceToBind E = bindM (outside (net_Interfaces E)) (\<lambda>r. case r of
       Inl err \<Rightarrow> retM None
     | Inr ifaces \<Rightarrow> first_eligible E ifaces)"

subsection \<open>Sockets\<close>

definition mdnsGroupIPv4 :: bytes where
  "mdnsGroupIPv4 = IPv4 224 0 0 251"

definition mdnsGroupIPv6 :: bytes where
  "mdnsGroupIPv6 = ParseIP ''ff02::fb''"

definition mdnsWildcardAddrIPv4 :: bytes where
  "mdnsWildcardAddrIPv4 = ParseIP ''224.0.0.0''"

definition mdnsWildcardAddrIPv6 :: bytes where
  "mdnsWildcardAddrIPv6 = ParseIP ''[ff02::]''"

definition mdnsPort :: int where
  "mdnsPort = 5353"

definition opened :: "gerror + nat \<Rightarrow> nat option" where
  "opened r = (case r of Inl _ \<Rightarrow> None | Inr c \<Rightarrow> Some c)"

text \<open>Joining a group over a connection that is nil is an error.\<close>

definition join_group :: "('w, 'x) mdns_env_scheme \<Rightarrow> nat option \<Rightarrow> bytes \<Rightarrow> NetInterface \<Rightarrow> (('w, 'z) ecc_state_scheme, gerror option) comp" where
  "join_group E conn grp iface = (case conn of None \<Rightarrow> retM (Some (Err ''invalid conn type'')) | Some c \<Rightarrow> outside (JoinGroup E c iface grp))"

text \<open>The numbers of interfaces where the two groups could not be joined.\<close>

fun join_errors :: "('w, 'x) mdns_env_scheme \<Rightarrow> nat option \<Rightarrow> nat option \<Rightarrow> NetInterface list \<Rightarrow> (('w, 'z) ecc_state_scheme, nat \<times> nat) comp" where
  "join_errors E c4 c6 [] = retM (0, 0)"
| "join_errors E c4 c6 (iface # ifaces) =
     bindM (join_group E c4 mdnsGroupIPv4 iface) (\<lambda>err1.
     bindM (join_group E c6 mdnsGroupIPv6 iface) (\<lambda>err2.
     bindM (join_errors E c4 c6 ifaces) (\<lambda>(n1, n2).
       retM ((if err1 \<noteq> None then Suc n1 else n1), (if err2 \<noteq> None then Suc n2 else n2)))))"

definition join_all :: "('w, 'x) mdns_env_scheme \<Rightarrow> nat option \<Rightarrow> nat option \<Rightarrow> (('w, 'z) ecc_state_scheme, gerror option) comp" where
  "join_all E c4 c6 = tryM (outside (net_Interfaces E)) (\<lambda>ifaces.
     bindM (join_errors E c4 c6 ifaces) (\<lambda>(errCount1, errCount2).
       retM (if length ifaces = errCount1 \<and> length ifaces = errCount2 then Some (Err ''Failed to join multicast group on all interfaces!'') else None)))"

definition no_port :: gerror where
  "no_port = Err ''[ERR] bonjour: Failed to bind to any udp port!''"

definition write_opt :: "('w, 'x) mdns_env_scheme \<Rightarrow> nat option \<Rightarrow> bytes \<Rightarrow> bytes \<Rightarrow> (('w, 'z) ecc_state_scheme, unit) comp" where
  "write_opt E conn buf addr = (case conn of None \<Rightarrow> retM () | Some c \<Rightarrow> thenM (outside (WriteTo E c buf addr mdnsPort)) (retM ()))"

definition close_opt :: "('w, 'x) mdns_env_scheme \<Rightarrow> nat option \<Rightarrow> (('w, 'z) ecc_state_scheme, unit) comp" where
  "close_opt E conn = (case conn of None \<Rightarrow> retM () | Some c \<Rightarrow> thenM (outside (UDP_Close E c)) (retM ()))"

subsection \<open>Names\<close>

definition trimDot :: "string \<Rightarrow> string" where
  "trimDot s = rev (dropWhile (\<lambda>c. c = CHR ''.'') (rev (dropWhile (\<lambda>c. c = CHR ''.'') s)))"

definition ServiceName :: "string \<Rightarrow> string \<Rightarrow> string" where
  "ServiceName service domain1 = trimDot service @ ''.'' @ trimDot domain1 @ ''.''"

definition ServiceInstanceName :: "string \<Rightarrow> string \<Rightarrow> string \<Rightarrow> string" where
  "ServiceInstanceName instance1 service domain1 =
     (if instance1 = [] then [] else trimDot instance1 @ ''.'' @ ServiceName service domain1)"

definition NewServiceEntry :: "string \<Rightarrow> string \<Rightarrow> string \<Rightarrow> ServiceEntry" where
  "NewServiceEntry instance1 service domain1 = \<lparr>se_Instance = instance1, se_Service = service, se_Domain = domain1, se_HostName = [],
     se_Port = 0, se_Text = [], se_TTL = 0, se_AddrIPv4 = [], se_AddrIPv6 = []\<rparr>"

abbreviation entry_service :: "ServiceEntry \<Rightarrow> string" where
  "entry_service e \<equiv> ServiceName (se_Service e) (se_Domain e)"

abbreviation entry_instance :: "ServiceEntry \<Rightarrow> string" where
  "entry_instance e \<equiv> ServiceInstanceName (se_Instance e) (se_Service e) (se_Domain e)"

text \<open>\<open>strings.Replace(s, old, "", -1)\<close> and \<open>strings.Replace(s, old, "", 1)\<close>.\<close>

function remove_all :: "string \<Rightarrow> string \<Rightarrow> string" where
  "remove_all old s =
     (if old = [] \<or> s = [] then s
      else if prefix old s then remove_all old (drop (length old) s)
      else hd s # remove_all old (tl s))"
  by pat_completeness auto
termination
  by (relation "measure (\<lambda>(old, s). length s)") auto

declare remove_all.simps [simp del]

fun remove_first :: "string \<Rightarrow> string \<Rightarrow> string" where
  "remove_first old [] = []"
| "remove_first old (c # s) = (if prefix old (c # s) then drop (length old) (c # s) else c # remove_first old s)"

subsection \<open>The client\<close>

definition NewLookupParams :: "string \<Rightarrow> string \<Rightarrow> string \<Rightarrow> LookupParams" where
  "NewLookupParams instance1 service domain1 = \<lparr>lp_Instance = instance1, lp_Service = service, lp_Domain = domain1\<rparr>"

definition defaultParams :: "string \<Rightarrow> LookupParams" where
  "defaultParams service = NewLookupParams [] service ''local''"

definition addLookupParams :: "LookupParams \<Rightarrow> client \<Rightarrow> client" where
  "addLookupParams params c =
     (let inst = ServiceInstanceName (lp_Instance params) (lp_Service params) (lp_Domain params);
          key = (if inst \<noteq> [] then inst else ServiceName (lp_Service params) (lp_Domain params))
      in c\<lparr>c_lookupParams := AList.update key params (c_lookupParams c)\<rparr>)"

definition getMatchingParamsSuffix :: "('w, 'x) http_env_scheme \<Rightarrow> (string \<times> LookupParams) list \<Rightarrow> string \<Rightarrow> LookupParams option" where
  "getMatchingParamsSuffix E lps serviceName =
     (case find (\<lambda>key. suffix key serviceName) (range_order E (map fst lps)) of None \<Rightarrow> None | Some key \<Rightarrow> map_of lps key)"

definition find_params :: "('w, 'x) http_env_scheme \<Rightarrow> (string \<times> LookupParams) list \<Rightarrow> string \<Rightarrow> LookupParams option" where
  "find_params E lps name = (case map_of lps name of Some params \<Rightarrow> Some params | None \<Rightarrow> getMatchingParamsSuffix E lps name)"

definition newClient :: "('w, 'x) mdns_env_scheme \<Rightarrow> NetInterface option \<Rightarrow> (('w, 'z) ecc_state_scheme, gerror + client) comp" where
  "newClient E iface =
     bindM (outside (ListenUDP E ''udp4'' mdnsWildcardAddrIPv4 mdnsPort)) (\<lambda>r4.
     bindM (outside (ListenUDP E ''udp6'' mdnsWildcardAddrIPv6 mdnsPort)) (\<lambda>r6.
     let c4 = opened r4; c6 = opened r6 in
     if c4 = None \<and> c6 = None then retM (Inl no_port)
     else bindM (case iface of
                   Some i \<Rightarrow> guardM (join_group E c4 mdnsGroupIPv4 i) (join_group E c6 mdnsGroupIPv6 i)
                 | None \<Rightarrow> join_all E c4 c6) (\<lambda>err. case err of
         Some e \<Rightarrow> retM (Inl e)
       | None \<Rightarrow> retM (Inr \<lparr>c_lookupParams = [], c_ipv4conn = c4, c_ipv6conn = c6, c_closed = False\<rparr>))))"

definition NewResolver :: "('w, 'x) mdns_env_scheme \<Rightarrow> NetInterface option \<Rightarrow> (('w, 'z) mdns_state_scheme, gerror option) comp" where
  "NewResolver E iface = tryM (newClient E iface) (\<lambda>c. thenM (modifyM (\<lambda>s. s\<lparr>resolver := c\<rparr>)) (retM None))"

definition query_message :: "16 word \<Rightarrow> LookupParams \<Rightarrow> wire_Msg" where
  "query_message ident params =
     (let serviceName = trimDot (lp_Service params) @ ''.'' @ trimDot (lp_Domain params) @ ''.'';
          m = (if lp_Instance params \<noteq> [] then
                 (let serviceInstanceName = lp_Instance params @ ''.'' @ serviceName in
                  dns_Msg_zero\<lparr>wm_Question := [\<lparr>q_Name = serviceInstanceName, q_Qtype = TypeSRV, q_Qclass = ClassINET\<rparr>,
                    \<lparr>q_Name = serviceInstanceName, q_Qtype = TypeTXT, q_Qclass = ClassINET\<rparr>]\<rparr>)
               else SetQuestion ident serviceName TypePTR dns_Msg_zero)
      in m\<lparr>wm_Hdr := (wm_Hdr m)\<lparr>mh_RecursionDesired := False\<rparr>\<rparr>)"

definition sendQuery :: "('w, 'x) mdns_env_scheme \<Rightarrow> client \<Rightarrow> wire_Msg \<Rightarrow> (('w, 'z) ecc_state_scheme, gerror option) comp" where
  "sendQuery E c msg = bindM (liftO (Msg_Pack msg)) (\<lambda>r. case r of
       Inl err \<Rightarrow> retM (Some err)
     | Inr buf \<Rightarrow> thenM (write_opt E (c_ipv4conn c) buf mdnsGroupIPv4)
                 (thenM (write_opt E (c_ipv4conn c) buf mdnsGroupIPv6) (retM None)))"

definition client_query :: "('w, 'x) mdns_env_scheme \<Rightarrow> client \<Rightarrow> LookupParams \<Rightarrow> (('w, 'z) ecc_state_scheme, gerror option) comp" where
  "client_query E c params = bindM (if lp_Instance params \<noteq> [] then retM 0 else outside (dns_Id E)) (\<lambda>ident.
     sendQuery E c (query_message ident params))"

definition client_shutdown :: "('w, 'x) mdns_env_scheme \<Rightarrow> (('w, 'z) mdns_state_scheme, unit) comp" where
  "client_shutdown E = bindM (getM resolver) (\<lambda>c.
     if c_closed c then retM ()
     else thenM (modifyM (\<lambda>s. s\<lparr>resolver := c\<lparr>c_closed := True\<rparr>\<rparr>))
         (thenM (close_opt E (c_ipv4conn c)) (close_opt E (c_ipv6conn c))))"

text \<open>
  \<open>r.Exit <- true\<close>: the main loop takes the value and shuts the client down, which
  closes the channel; to send on a closed channel panics.
\<close>

definition send_Exit :: "('w, 'x) mdns_env_scheme \<Rightarrow> (('w, 'z) mdns_state_scheme, unit) comp" where
  "send_Exit E = bindM (getM resolver) (\<lambda>c. if c_closed c then liftO (Panic ''send on closed channel'') else client_shutdown E)"

definition Browse :: "('w, 'x) mdns_env_scheme \<Rightarrow> string \<Rightarrow> string \<Rightarrow> (('w, 'z) mdns_state_scheme, gerror option) comp" where
  "Browse E service domain1 =
     (let params = defaultParams service;
          params = (if domain1 \<noteq> [] then params\<lparr>lp_Domain := domain1\<rparr> else params) in
      thenM (modifyM (\<lambda>s. s\<lparr>resolver := addLookupParams params (resolver s)\<rparr>))
     (bindM (getM resolver) (\<lambda>c.
      bindM (client_query E c params) (\<lambda>err.
      if err \<noteq> None then thenM (send_Exit E) (retM err) else retM None))))"

definition Lookup :: "('w, 'x) mdns_env_scheme \<Rightarrow> string \<Rightarrow> string \<Rightarrow> string \<Rightarrow> (('w, 'z) mdns_state_scheme, gerror option) comp" where
  "Lookup E instance1 service domain1 =
     (let params = (defaultParams service)\<lparr>lp_Instance := instance1\<rparr>;
          params = (if domain1 \<noteq> [] then params\<lparr>lp_Domain := domain1\<rparr> else params) in
      thenM (modifyM (\<lambda>s. s\<lparr>resolver := addLookupParams params (resolver s)\<rparr>))
     (bindM (getM resolver) (\<lambda>c.
      bindM (client_query E c params) (\<lambda>err.
      if err \<noteq> None then thenM (send_Exit E) (retM err) else retM None))))"

text \<open>One answer of a message; \<open>entries\<close> are those found in the message so far.\<close>

type_synonym entries = "(string \<times> ServiceEntry) list"

definition entry_of :: "entries \<Rightarrow> string \<Rightarrow> ServiceEntry \<Rightarrow> ServiceEntry" where
  "entry_of entries name fresh = (case map_of entries name of None \<Rightarrow> fresh | Some e \<Rightarrow> e)"

definition named_entry :: "entries \<Rightarrow> string \<Rightarrow> LookupParams \<Rightarrow> ServiceEntry" where
  "named_entry entries name params = entry_of entries name (NewServiceEntry
     (trimDot (remove_first (ServiceName (lp_Service params) (lp_Domain params)) name)) (lp_Service params) (lp_Domain params))"

fun client_answer :: "('w, 'x) http_env_scheme \<Rightarrow> (string \<times> LookupParams) list \<Rightarrow> RR \<Rightarrow> entries \<Rightarrow> entries" where
  "client_answer E lps (RR_PTR name ttl ptr) entries = (case map_of lps name of
       None \<Rightarrow> entries
     | Some params \<Rightarrow> AList.update ptr ((entry_of entries ptr (NewServiceEntry (trimDot (remove_all name ptr))
         (lp_Service params) (lp_Domain params)))\<lparr>se_TTL := ttl\<rparr>) entries)"
| "client_answer E lps (RR_SRV name ttl port target) entries = (case find_params E lps name of
       None \<Rightarrow> entries
     | Some params \<Rightarrow> AList.update name ((named_entry entries name params)\<lparr>se_HostName := target, se_Port := uint port, se_TTL := ttl\<rparr>) entries)"
| "client_answer E lps (RR_TXT name ttl txt) entries = (case find_params E lps name of
       None \<Rightarrow> entries
     | Some params \<Rightarrow> AList.update name ((named_entry entries name params)\<lparr>se_Text := txt, se_TTL := ttl\<rparr>) entries)"
| "client_answer E lps (RR_A name ttl ip) entries =
     map (\<lambda>(k, e). (k, if se_HostName e = name \<and> se_AddrIPv4 e = [] then e\<lparr>se_AddrIPv4 := ip\<rparr> else e)) entries"
| "client_answer E lps (RR_AAAA name ttl ip) entries =
     map (\<lambda>(k, e). (k, if se_HostName e = name \<and> se_AddrIPv6 e = [] then e\<lparr>se_AddrIPv6 := ip\<rparr> else e)) entries"
| "client_answer E lps OtherRR entries = entries"

text \<open>The entries a message leads to, in the order they are sent to the channel of results.\<close>

definition client_message :: "('w, 'x) http_env_scheme \<Rightarrow> (string \<times> LookupParams) list \<Rightarrow> wire_Msg \<Rightarrow> ServiceEntry list" where
  "client_message E lps msg =
     (let sections = map switch_RR (wm_Answer msg @ wm_Ns msg @ wm_Extra msg);
          entries = foldl (\<lambda>entries rr. client_answer E lps rr entries) [] sections
      in List.map_filter (\<lambda>k. case map_of entries k of None \<Rightarrow> None | Some e \<Rightarrow> if se_TTL e = 0 then None else Some e)
           (range_order E (map fst entries)))"

text \<open>
  \<open>recv\<close> of a client: the messages that packets lead to, in the buffer that all of them
  are read into; \<open>Inl\<close> is an error of the connection.
\<close>

definition read_into :: "bytes \<Rightarrow> bytes \<Rightarrow> bytes" where
  "read_into buf packet = packet @ drop (length packet) buf"

fun client_recv :: "nat \<Rightarrow> bytes \<Rightarrow> (gerror + bytes) list \<Rightarrow> wire_Msg list outcome" where
  "client_recv fuel buf [] = Ret []"
| "client_recv fuel buf (Inl err # rs) = client_recv fuel buf rs"
| "client_recv fuel buf (Inr packet # rs) =
     bindO (Msg_Unpack fuel (drop (length packet) buf) packet) (\<lambda>r.
     bindO (client_recv fuel (read_into buf packet) rs) (\<lambda>msgs. Ret (case r of Inl err \<Rightarrow> msgs | Inr msg \<Rightarrow> msg # msgs)))"

subsection \<open>The server\<close>

definition address_answers :: "ServiceEntry \<Rightarrow> 32 word \<Rightarrow> wire_RR list" where
  "address_answers e ttl = (if se_AddrIPv4 e \<noteq> [] then [new_RR (RR_A (se_HostName e) ttl (se_AddrIPv4 e))] else []) @
     (if se_AddrIPv6 e \<noteq> [] then [new_RR (RR_AAAA (se_HostName e) ttl (se_AddrIPv6 e))] else [])"

definition composeBrowsingAnswers :: "ServiceEntry \<Rightarrow> 32 word \<Rightarrow> wire_Msg \<Rightarrow> wire_Msg" where
  "composeBrowsingAnswers e ttl resp =
     (let ptr = new_RR (RR_PTR (entry_service e) ttl (entry_instance e));
          txt = new_RR (RR_TXT (entry_instance e) ttl (se_Text e));
          srv = new_RR (RR_SRV (entry_instance e) ttl (of_int (se_Port e)) (se_HostName e))
      in resp\<lparr>wm_Answer := wm_Answer resp @ [ptr], wm_Extra := wm_Extra resp @ [srv, txt] @ address_answers e ttl\<rparr>)"

definition composeLookupAnswers :: "ServiceEntry \<Rightarrow> 32 word \<Rightarrow> wire_Msg \<Rightarrow> wire_Msg" where
  "composeLookupAnswers e ttl resp =
     (let ptr = new_RR (RR_PTR (entry_service e) ttl (entry_instance e));
          srv = new_RR (RR_SRV (entry_instance e) ttl (of_int (se_Port e)) (se_HostName e));
          txt = new_RR (RR_TXT (entry_instance e) ttl (se_Text e));
          dnssd = new_RR (RR_PTR (''_services._dns-sd._udp.'' @ trimDot (se_Domain e) @ ''.'') ttl (entry_service e))
      in resp\<lparr>wm_Answer := wm_Answer resp @ [srv, txt, ptr, dnssd], wm_Extra := wm_Extra resp @ address_answers e 120\<rparr>)"

definition handleQuestion :: "server \<Rightarrow> Question \<Rightarrow> wire_Msg \<Rightarrow> wire_Msg" where
  "handleQuestion sv q resp = (case sv_service sv of
       None \<Rightarrow> resp
     | Some e \<Rightarrow> if q_Name q = entry_service e then composeBrowsingAnswers e 3200 resp
                else if q_Name q = entry_instance e then composeLookupAnswers e 3200 resp
                else resp)"

definition multicastResponse :: "('w, 'x) mdns_env_scheme \<Rightarrow> server \<Rightarrow> wire_Msg \<Rightarrow> (('w, 'z) ecc_state_scheme, gerror option) comp" where
  "multicastResponse E sv msg = bindM (liftO (Msg_Pack msg)) (\<lambda>r. case r of
       Inl err \<Rightarrow> retM (Some err)
     | Inr buf \<Rightarrow> thenM (write_opt E (sv_ipv4conn sv) buf mdnsGroupIPv4)
                 (thenM (write_opt E (sv_ipv6conn sv) buf mdnsGroupIPv6) (retM None)))"

text \<open>The loop over the questions; an error that is returned is that of the last one.\<close>

fun handle_questions :: "('w, 'x) mdns_env_scheme \<Rightarrow> server \<Rightarrow> wire_Msg \<Rightarrow> Question list \<Rightarrow> gerror option \<Rightarrow>
    (('w, 'z) ecc_state_scheme, gerror option) comp" where
  "handle_questions E sv query [] err = retM err"
| "handle_questions E sv query (q # qs) err =
     (let resp = handleQuestion sv q (SetReply query dns_Msg_zero) in
      if wm_Answer resp \<noteq> [] then bindM (multicastResponse E sv resp) (handle_questions E sv query qs)
      else handle_questions E sv query qs None)"

definition handleQuery :: "('w, 'x) mdns_env_scheme \<Rightarrow> server \<Rightarrow> wire_Msg \<Rightarrow> (('w, 'z) ecc_state_scheme, gerror option) comp" where
  "handleQuery E sv query =
     (if wm_Answer query \<noteq> [] then retM None
      else if wm_Ns query \<noteq> [] then retM None
      else handle_questions E sv query (wm_Question query) None)"

definition parsePacket :: "nat \<Rightarrow> ('w, 'x) mdns_env_scheme \<Rightarrow> server \<Rightarrow> bytes \<Rightarrow> bytes \<Rightarrow> (('w, 'z) ecc_state_scheme, gerror option) comp" where
  "parsePacket fuel E sv spare packet = bindM (liftO (Msg_Unpack fuel spare packet)) (\<lambda>r. case r of
       Inl err \<Rightarrow> retM (Some err)
     | Inr msg \<Rightarrow> handleQuery E sv msg)"

text \<open>\<open>recv\<close> of a server, for the packets that come.\<close>

fun server_recv :: "nat \<Rightarrow> ('w, 'x) mdns_env_scheme \<Rightarrow> server \<Rightarrow> bytes \<Rightarrow> (gerror + bytes) list \<Rightarrow> (('w, 'z) ecc_state_scheme, unit) comp" where
  "server_recv fuel E sv buf [] = retM ()"
| "server_recv fuel E sv buf (Inl err # rs) = server_recv fuel E sv buf rs"
| "server_recv fuel E sv buf (Inr packet # rs) =
     thenM (parsePacket fuel E sv (drop (length packet) buf) packet) (server_recv fuel E sv (read_into buf packet) rs)"

definition probe_message :: "16 word \<Rightarrow> ServiceEntry \<Rightarrow> wire_Msg" where
  "probe_message ident e =
     (let q = SetQuestion ident (entry_instance e) TypePTR dns_Msg_zero;
          srv = new_RR (RR_SRV (entry_instance e) 3200 (of_int (se_Port e)) (se_HostName e));
          txt = new_RR (RR_TXT (entry_instance e) 3200 (se_Text e))
      in q\<lparr>wm_Hdr := (wm_Hdr q)\<lparr>mh_RecursionDesired := False\<rparr>, wm_Ns := [srv, txt]\<rparr>)"

definition probe :: "('w, 'x) mdns_env_scheme \<Rightarrow> server \<Rightarrow> (('w, 'z) ecc_state_scheme, unit) comp" where
  "probe E sv = (case sv_service sv of
       None \<Rightarrow> liftO (Panic ''runtime error: invalid memory address or nil pointer dereference'')
     | Some e \<Rightarrow> bindM (outside (dns_Id E)) (\<lambda>ident. notify_all (\<lambda>msg. thenM (multicastResponse E sv msg) (retM ()))
         (replicate 3 (probe_message ident e) @ replicate 3 (composeLookupAnswers e 3200 dns_Msg_zero))))"

definition unregister :: "('w, 'x) mdns_env_scheme \<Rightarrow> server \<Rightarrow> (('w, 'z) ecc_state_scheme, gerror option) comp" where
  "unregister E sv = (case sv_service sv of
       None \<Rightarrow> liftO (Panic ''runtime error: invalid memory address or nil pointer dereference'')
     | Some e \<Rightarrow> multicastResponse E sv (composeLookupAnswers e 0 dns_Msg_zero))"

definition server_shutdown :: "('w, 'x) mdns_env_scheme \<Rightarrow> nat \<Rightarrow> (('w, 'z) mdns_state_scheme, gerror option) comp" where
  "server_shutdown E n = bindM (getM (\<lambda>s. servers s ! n)) (\<lambda>sv.
     thenM (unregister E sv)
    (if sv_shouldShutdown sv then retM None
     else thenM (modifyM (\<lambda>s. s\<lparr>servers := (servers s)[n := sv\<lparr>sv_shouldShutdown := True\<rparr>]\<rparr>))
         (thenM (close_opt E (sv_ipv4conn sv)) (thenM (close_opt E (sv_ipv6conn sv)) (retM None)))))"

definition newServer :: "('w, 'x) mdns_env_scheme \<Rightarrow> NetInterface option \<Rightarrow> (('w, 'z) ecc_state_scheme, gerror + server) comp" where
  "newServer E iface =
     bindM (outside (ListenMulticastUDP E ''udp4'' iface mdnsWildcardAddrIPv4 mdnsPort)) (\<lambda>r4.
     bindM (outside (ListenMulticastUDP E ''udp6'' iface mdnsWildcardAddrIPv6 mdnsPort)) (\<lambda>r6.
     let c4 = opened r4; c6 = opened r6 in
     if c4 = None \<and> c6 = None then retM (Inl no_port)
     else bindM (case iface of
                   Some i \<Rightarrow> bindM (join_group E c4 mdnsGroupIPv4 i) (\<lambda>e1. bindM (join_group E c6 mdnsGroupIPv6 i) (\<lambda>e2.
                     retM (if e1 \<noteq> None \<and> e2 \<noteq> None then Some (Err ''Failed to join multicast group on both v4 and v6'') else None)))
                 | None \<Rightarrow> join_all E c4 c6) (\<lambda>err. case err of
         Some e \<Rightarrow> retM (Inl e)
       | None \<Rightarrow> retM (Inr \<lparr>sv_service = None, sv_ipv4conn = c4, sv_ipv6conn = c6, sv_shouldShutdown = False\<rparr>))))"

subsection \<open>Registration\<close>

definition To16 :: "bytes \<Rightarrow> bytes" where
  "To16 ip = (if length ip = 4 then v4InV6Prefix @ ip else if length ip = 16 then ip else [])"

definition IsLoopback :: "bytes \<Rightarrow> bool" where
  "IsLoopback ip \<longleftrightarrow> (To4 ip \<noteq> [] \<and> hd (To4 ip) = 127) \<or> ip = replicate 15 0 @ [1]"

fun set_addrs :: "bytes list \<Rightarrow> ServiceEntry \<Rightarrow> ServiceEntry" where
  "set_addrs [] e = e"
| "set_addrs (ip # ips) e = set_addrs ips
     (if To4 ip \<noteq> [] then e\<lparr>se_AddrIPv4 := ip\<rparr> else if To16 ip \<noteq> [] then e\<lparr>se_AddrIPv6 := ip\<rparr> else e)"

text \<open>The addresses of the host by its name, or those of its interfaces.\<close>

definition host_addrs :: "('w, 'x) mdns_env_scheme \<Rightarrow> string \<Rightarrow> string \<Rightarrow> (('w, 'z) ecc_state_scheme, gerror + bytes list) comp" where
  "host_addrs E host domain1 = bindM (outside (LookupIP E host)) (\<lambda>r. case r of
       Inr addrs \<Rightarrow> retM (Inr addrs)
     | Inl _ \<Rightarrow> bindM (outside (LookupIP E (host @ domain1 @ ''.''))) (\<lambda>r. case r of
         Inr addrs \<Rightarrow> retM (Inr addrs)
       | Inl _ \<Rightarrow> tryE (outside (InterfaceAddrs E)) (\<lambda>intAddrs.
           let addrs = filter (\<lambda>ip. \<not> IsLoopback ip) (map IP intAddrs) in
           if addrs = [] then retM (Inl (Err (''Could not determine host IP addresses for '' @ host))) else retM (Inr addrs))))"

text \<open>The addresses of an interface, without what cannot be parsed.\<close>

definition iface_addrs :: "('w, 'x) mdns_env_scheme \<Rightarrow> NetInterface \<Rightarrow> (('w, 'z) ecc_state_scheme, gerror + bytes list) comp" where
  "iface_addrs E iface = bindM (outside (intf_Addrs E iface)) (\<lambda>r. retM (Inr (case r of
       Inl _ \<Rightarrow> []
     | Inr addrs \<Rightarrow> filter (\<lambda>ip. ip \<noteq> []) (map (\<lambda>a. ParseIP (takeWhile (\<lambda>c. c \<noteq> CHR ''/'') a)) addrs))))"

definition add_server :: "server \<Rightarrow> (('w, 'z) mdns_state_scheme, nat) comp" where
  "add_server sv = bindM (getM (\<lambda>s. length (servers s))) (\<lambda>n.
     thenM (modifyM (\<lambda>s. s\<lparr>servers := servers s @ [sv]\<rparr>)) (retM n))"

text \<open>\<open>s.service = entry\<close> and the start of \<open>probe\<close>.\<close>

definition serve_entry :: "ServiceEntry \<Rightarrow> nat \<Rightarrow> (('w, 'z) mdns_state_scheme, unit) comp" where
  "serve_entry entry n = modifyM (\<lambda>s. s\<lparr>servers := (servers s)[n := (servers s ! n)\<lparr>sv_service := Some entry\<rparr>], probing := probing s @ [n]\<rparr>)"

definition server_of :: "('w, 'x) mdns_env_scheme \<Rightarrow> NetInterface option \<Rightarrow> (('w, 'z) mdns_state_scheme, gerror + nat) comp" where
  "server_of E iface =
     (let ifaceName = (case iface of None \<Rightarrow> [] | Some i \<Rightarrow> ni_Name i) in
      bindM (getM (\<lambda>s. map_of (serverCache s) ifaceName)) (\<lambda>known. case known of
        Some n \<Rightarrow> retM (Inr n)
      | None \<Rightarrow> tryE (newServer E iface) (\<lambda>sv. bindM (add_server sv) (\<lambda>n.
          thenM (modifyM (\<lambda>s. s\<lparr>serverCache := AList.update ifaceName n (serverCache s)\<rparr>)) (retM (Inr n))))))"

definition register_host :: "('w, 'x) mdns_env_scheme \<Rightarrow> ServiceEntry \<Rightarrow> NetInterface option \<Rightarrow> bool \<Rightarrow>
    (('w, 'z) mdns_state_scheme, gerror option) comp" where
  "register_host E entry iface bindToIntf =
     bindM (if iface = None \<and> bindToIntf then InterfaceToBind E else retM iface) (\<lambda>iface.
     tryM (case iface of None \<Rightarrow> host_addrs E (se_HostName entry) (se_Domain entry) | Some i \<Rightarrow> iface_addrs E i) (\<lambda>addrs.
     tryM (server_of E iface) (\<lambda>n.
     thenM (serve_entry (set_addrs addrs entry) n) (retM None))))"

definition bonjour_Register :: "('w, 'x) mdns_env_scheme \<Rightarrow> string \<Rightarrow> string \<Rightarrow> string \<Rightarrow> int \<Rightarrow> string list \<Rightarrow> NetInterface option \<Rightarrow> bool \<Rightarrow>
    (('w, 'z) mdns_state_scheme, gerror option) comp" where
  "bonjour_Register E instance1 service domain1 port text iface bindToIntf =
     (let entry = (NewServiceEntry instance1 service domain1)\<lparr>se_Port := port, se_Text := text\<rparr> in
      if se_Instance entry = [] then retM (Some (Err ''Missing service instance name''))
      else if se_Service entry = [] then retM (Some (Err ''Missing service name''))
      else let entry = (if se_Domain entry = [] then entry\<lparr>se_Domain := ''local''\<rparr> else entry) in
        if se_Port entry = 0 then retM (Some (Err ''Missing port''))
        else bindM (outside (Hostname E)) (\<lambda>r. case r of
            Inl _ \<Rightarrow> retM (Some (Err ''Could not determine host''))
          | Inr host \<Rightarrow> register_host E (entry\<lparr>se_HostName := trimDot host @ ''.''\<rparr>) iface bindToIntf))"

definition RegisterProxy :: "('w, 'x) mdns_env_scheme \<Rightarrow> string \<Rightarrow> string \<Rightarrow> string \<Rightarrow> int \<Rightarrow> string \<Rightarrow> string \<Rightarrow> string list \<Rightarrow> NetInterface option \<Rightarrow>
    (('w, 'z) mdns_state_scheme, gerror option) comp" where
  "RegisterProxy E instance1 service domain1 port host ip text iface =
     (let entry = (NewServiceEntry instance1 service domain1)\<lparr>se_Port := port, se_Text := text, se_HostName := host\<rparr> in
      if se_Instance entry = [] then retM (Some (Err ''Missing service instance name''))
      else if se_Service entry = [] then retM (Some (Err ''Missing service name''))
      else if se_HostName entry = [] then retM (Some (Err ''Missing host name''))
      else let entry = (if se_Domain entry = [] then entry\<lparr>se_Domain := ''local''\<rparr> else entry) in
        if se_Port entry = 0 then retM (Some (Err ''Missing port''))
        else let entry = (if \<not> suffix (se_Domain entry) (trimDot (se_HostName entry))
                          then entry\<lparr>se_HostName := trimDot (se_HostName entry) @ ''.'' @ trimDot (se_Domain entry) @ ''.''\<rparr> else entry);
                 ipAddr = ParseIP ip in
          if ipAddr = [] then retM (Some (Err (''Failed to parse given IP: '' @ ip)))
          else if To4 ipAddr \<noteq> [] \<or> To16 ipAddr \<noteq> [] then
            tryM (newServer E iface) (\<lambda>sv. bindM (add_server sv) (\<lambda>n.
              thenM (serve_entry (entry\<lparr>se_AddrIPv4 := ipAddr\<rparr>) n) (retM None)))
          else retM (Some (Err ''The IP is neither IPv4 nor IPv6'')))"


subsection \<open>From the answer of a server to an entry\<close>

lemma trimDot_dot [simp]: "trimDot (s @ ''.'') = trimDot s"
proof (cases "\<forall>c\<in>set s. c = CHR ''.''")
  case True
  have d: "dropWhile (\<lambda>c. c = CHR ''.'') t = []" if "\<forall>c\<in>set t. c = CHR ''.''" for t
    using that by (induction t) auto
  have "trimDot t = []" if "\<forall>c\<in>set t. c = CHR ''.''" for t
    unfolding trimDot_def d[OF that] by simp
  then show ?thesis using True by simp
next
  case False
  then obtain c where "c \<in> set s" "c \<noteq> CHR ''.''" by blast
  then have "dropWhile (\<lambda>c. c = CHR ''.'') (s @ ''.'') = dropWhile (\<lambda>c. c = CHR ''.'') s @ ''.''" by (simp add: dropWhile_append1)
  then show ?thesis by (simp add: trimDot_def)
qed

lemma remove_all_end:
  assumes "name \<noteq> []" "hd name \<notin> set pre"
  shows "remove_all name (pre @ name) = pre"
  using assms(2)
proof (induction pre)
  case Nil
  have "remove_all name [] = []" by (simp add: remove_all.simps)
  then show ?case using assms(1) by (subst remove_all.simps) simp
next
  case (Cons c pre)
  then have "\<not> prefix name (c # pre @ name)" using assms(1) by (cases name) auto
  then show ?case using Cons assms(1) by (subst remove_all.simps) simp
qed

lemma find_params_known:
  assumes "map_of lps key = Some p" "suffix key name" "\<And>ks. mset (range_order E ks) = mset ks"
  obtains q where "find_params E lps name = Some q"
proof (cases "map_of lps name")
  case None
  have k: "key \<in> set (range_order E (map fst lps))"
    using map_of_SomeD[OF assms(1)] assms(3)[of "map fst lps"] by (metis fst_conv image_eqI set_map set_mset_mset)
  then obtain key' where f: "find (\<lambda>key. suffix key name) (range_order E (map fst lps)) = Some key'"
    using assms(2) by (metis find_None_iff not_Some_eq)
  then have "key' \<in> set (range_order E (map fst lps))" by (metis find_Some_iff nth_mem)
  then have "key' \<in> set (map fst lps)" using assms(3)[of "map fst lps"] by (metis set_mset_mset)
  then obtain q where "map_of lps key' = Some q" by (metis list.set_map map_of_eq_None_iff not_Some_eq)
  then show ?thesis using that None f by (simp add: find_params_def getMatchingParamsSuffix_def)
qed (use that in \<open>simp add: find_params_def\<close>)

lemma ServiceName_hd: "trimDot service \<noteq> [] \<Longrightarrow> ServiceName service domain1 \<noteq> [] \<and> hd (ServiceName service domain1) = hd (trimDot service)"
  by (simp add: ServiceName_def)

definition well_named :: "ServiceEntry \<Rightarrow> bool" where
  "well_named e \<longleftrightarrow> se_Instance e \<noteq> [] \<and> trimDot (se_Instance e) = se_Instance e \<and> trimDot (se_Service e) \<noteq> [] \<and>
     hd (trimDot (se_Service e)) = CHR ''_'' \<and> CHR ''_'' \<notin> set (se_Instance e)"

lemma well_named_instance:
  assumes "well_named e"
  shows "entry_instance e = (se_Instance e @ ''.'') @ entry_service e"
    "trimDot (remove_all (entry_service e) (entry_instance e)) = se_Instance e" "suffix (entry_service e) (entry_instance e)"
proof -
  show i: "entry_instance e = (se_Instance e @ ''.'') @ entry_service e"
    using assms by (simp add: well_named_def ServiceInstanceName_def)
  have "remove_all (entry_service e) (entry_instance e) = se_Instance e @ ''.''"
    unfolding i using assms ServiceName_hd[of "se_Service e" "se_Domain e"] by (intro remove_all_end) (auto simp: well_named_def)
  then show "trimDot (remove_all (entry_service e) (entry_instance e)) = se_Instance e" using assms by (simp add: well_named_def)
  show "suffix (entry_service e) (entry_instance e)" unfolding i by (rule suffixI) simp
qed

lemma mset_single: "mset xs = mset [k] \<Longrightarrow> xs = [k]"
  by simp

lemma uint16: "0 \<le> i \<Longrightarrow> i < 65536 \<Longrightarrow> uint (of_int i :: 16 word) = i"
  by (simp add: uint_word_of_int take_bit_int_eq_self)

lemma browsing_answer_read:
  assumes "well_named e" "0 \<le> se_Port e" "se_Port e < 65536" "\<And>ks. mset (range_order E ks) = mset ks"
    and "map_of lps (entry_service e) = Some p" "lp_Service p = se_Service e" "lp_Domain p = se_Domain e"
  shows "client_message E lps (composeBrowsingAnswers e 3200 (SetReply query dns_Msg_zero)) = [e\<lparr>se_TTL := 3200\<rparr>]"
proof -
  define I where "I = entry_instance e"
  obtain q where q: "find_params E lps I = Some q"
    unfolding I_def by (rule find_params_known[OF assms(5) well_named_instance(3)[OF assms(1)] assms(4)])
  have r: "range_order E [I] = [I]" by (intro mset_single assms(4))
  have t: "trimDot (remove_all (entry_service e) I) = se_Instance e" unfolding I_def by (rule well_named_instance(2)[OF assms(1)])
  show ?thesis
    using q r t assms(2,3,5-7) uint16[OF assms(2,3)]
    by (simp add: client_message_def composeBrowsingAnswers_def address_answers_def dns_Msg_zero_def SetReply_def I_def[symmetric] named_entry_def entry_of_def
        NewServiceEntry_def map_filter_simps Let_def)
qed


lemma bindM_ret [simp]: "bindM m retM = m"
  by (auto simp: bindM_def retM_def fun_eq_iff split: prod.splits outcome.splits)

lemma handle_questions_nil [simp]: "handle_questions E sv query [] = retM"
  by (simp add: fun_eq_iff)

lemma handleQuery_browsing:
  assumes "sv_service sv = Some e"
  shows "handleQuery E sv (query_message ident (NewLookupParams [] (se_Service e) (se_Domain e))) =
    multicastResponse E sv (composeBrowsingAnswers e 3200 (SetReply (query_message ident (NewLookupParams [] (se_Service e) (se_Domain e))) dns_Msg_zero))"
  using assms
  by (simp add: handleQuery_def query_message_def NewLookupParams_def dns_Msg_zero_def handleQuestion_def ServiceName_def composeBrowsingAnswers_def SetQuestion_def
      Let_def)

text \<open>What a client takes from a message does not depend on the lengths in its headers.\<close>

lemma client_message_forget: "client_message E lps (forget_rdlengths m) = client_message E lps m"
  by (simp add: client_message_def forget_rdlengths_def comp_def)

text \<open>An entry whose names and texts are what the reader of a packet makes of them.\<close>

definition on_wire :: "ServiceEntry \<Rightarrow> bool" where
  "on_wire e \<longleftrightarrow> good_name (entry_service e) \<and> good_name (entry_instance e) \<and> good_name (se_HostName e) \<and>
     se_Text e \<noteq> [] \<and> list_all good_text (se_Text e) \<and> length (se_Text e) < 256 \<and>
     (se_AddrIPv4 e = [] \<or> length (se_AddrIPv4 e) = 16 \<and> take 12 (se_AddrIPv4 e) = v4InV6Prefix) \<and> (se_AddrIPv6 e = [] \<or> length (se_AddrIPv6 e) = 16)"

lemma good_A': "length ip = 16 \<Longrightarrow> take 12 ip = v4InV6Prefix \<Longrightarrow> good_rdata ''A'' 1 [F_ip ip]"
  using good_A[of "drop 12 ip"] append_take_drop_id[of 12 ip] by simp

lemma good_browsing_reply:
  assumes "on_wire e" "list_all (\<lambda>q. good_name (q_Name q)) (wm_Question query)"
  shows "good_msg (composeBrowsingAnswers e 3200 (SetReply query dns_Msg_zero))"
proof -
  note e = assms(1)[unfolded on_wire_def]
  have "list_all good_rr (address_answers e 3200)"
    using e by (auto simp: address_answers_def good_rr_def new_RR.simps new_header_def TypeA_def TypeAAAA_def intro: good_A' good_AAAA)
  moreover have "length (address_answers e 3200) \<le> 2" by (simp add: address_answers_def)
  ultimately show ?thesis
    using e assms(2)
    by (auto simp: good_msg_def composeBrowsingAnswers_def SetReply_def dns_Msg_zero_def good_header_def MsgHdr_zero_def good_rr_def new_RR.simps new_header_def
        TypePTR_def TypeSRV_def TypeTXT_def list_all_iff hd_in_set Let_def intro: good_PTR good_SRV good_TXT)
qed

lemma good_browsing_query:
  assumes "good_name (ServiceName service domain1)"
  shows "good_msg (query_message ident (NewLookupParams [] service domain1))"
  using assms by (simp add: good_msg_def query_message_def NewLookupParams_def SetQuestion_def dns_Msg_zero_def good_header_def MsgHdr_zero_def ServiceName_def Let_def)

text \<open>A message that is packed, and read.\<close>

lemma good_msg_sent:
  assumes "good_msg m"
  obtains bs where "Msg_Pack m = Ret (Inr bs)" "\<And>fuel spare. \<exists>m'. Msg_Unpack fuel spare bs = Ret (Inr m') \<and> forget_rdlengths m' = forget_rdlengths m"
proof -
  obtain qs as ns es where w: "msg_wire m qs as ns es" using good_msg_wire[OF assms] by blast
  show ?thesis by (rule that[OF Msg_Pack_wire[OF w] Msg_Unpack_wire[OF w]])
qed

lemma no_records_forget: "wm_Answer m = [] \<Longrightarrow> wm_Ns m = [] \<Longrightarrow> wm_Extra m = [] \<Longrightarrow> forget_rdlengths m' = forget_rdlengths m \<Longrightarrow> m' = m"
proof -
  assume m: "wm_Answer m = []" "wm_Ns m = []" "wm_Extra m = []" and e: "forget_rdlengths m' = forget_rdlengths m"
  have "wm_Answer m' = []" "wm_Ns m' = []" "wm_Extra m' = []"
    using m arg_cong[OF e, of wm_Answer] arg_cong[OF e, of wm_Ns] arg_cong[OF e, of wm_Extra] by (simp_all add: forget_rdlengths_def)
  then have "forget_rdlengths m' = m'" by (simp add: forget_rdlengths_def)
  moreover have "forget_rdlengths m = m" using m by (simp add: forget_rdlengths_def)
  ultimately show "m' = m" using e by metis
qed

subsection \<open>Servers\<close>

text \<open>
  The servers that are referred to exist, those that announce have a service, and an
  address of 16 bytes is in the AAAA record of a service.
\<close>

definition addr6_ok :: "ServiceEntry \<Rightarrow> bool" where
  "addr6_ok e \<longleftrightarrow> se_AddrIPv6 e = [] \<or> length (se_AddrIPv6 e) = 16"

definition servers_ok :: "('w, 'z) mdns_state_scheme \<Rightarrow> bool" where
  "servers_ok s \<longleftrightarrow> (\<forall>n\<in>ran (map_of (serverCache s)). n < length (servers s)) \<and> inj_on (map_of (serverCache s)) (dom (map_of (serverCache s))) \<and>
     (\<forall>n\<in>set (probing s). n < length (servers s) \<and> sv_service (servers s ! n) \<noteq> None) \<and>
     (\<forall>sv\<in>set (servers s). \<forall>e. sv_service sv = Some e \<longrightarrow> addr6_ok e)"

lemmas always_mdns = always_query always_then always_guard always_tryM

lemma join_group_always: "always only_world (join_group E c g i)"
  unfolding join_group_def by (auto intro!: always_mdns split: option.splits)

lemma join_all_always: "always only_world (join_all E c4 c6)"
proof -
  have "always only_world (join_errors E c4 c6 ifaces)" for ifaces
    by (induction ifaces) (auto intro!: always_mdns join_group_always split: prod.splits)
  then show ?thesis unfolding join_all_def by (auto intro!: always_mdns split: prod.splits)
qed

lemma newServer_always: "always only_world (newServer E iface)"
  unfolding newServer_def Let_def by (auto intro!: always_mdns join_group_always join_all_always split: option.splits)

lemma newClient_always: "always only_world (newClient E iface)"
  unfolding newClient_def Let_def by (auto intro!: always_mdns join_group_always join_all_always split: option.splits)

lemma InterfaceToBind_always: "always only_world (InterfaceToBind E)"
proof -
  have "always only_world (echo_any E addrs)" for addrs
    by (induction addrs) (auto intro!: always_mdns split: sum.splits prod.splits)
  then have "always only_world (IsInterfaceEligible E i)" for i
    unfolding IsInterfaceEligible_def by (auto intro!: always_mdns split: sum.splits)
  then have "always only_world (first_eligible E is1)" for is1
    by (induction is1) (auto intro!: always_mdns)
  then show ?thesis unfolding InterfaceToBind_def by (auto intro!: always_mdns split: sum.splits)
qed

lemma host_addrs_always: "always only_world (host_addrs E host d)"
  unfolding host_addrs_def Let_def by (auto intro!: always_mdns split: sum.splits)

lemma iface_addrs_always: "always only_world (iface_addrs E i)"
  unfolding iface_addrs_def by (auto intro!: always_mdns)

lemma only_worldE:
  assumes "always only_world m"
  obtains a w where "m s = (Ret a, s\<lparr>world := w\<rparr>)"
  using assms unfolding always_def only_world_def by blast

lemma servers_ok_world [simp]: "servers_ok (s\<lparr>world := w\<rparr>) \<longleftrightarrow> servers_ok s"
  by (simp add: servers_ok_def)

lemma newServer_service:
  assumes "newServer E iface s = (Ret (Inr sv), s')"
  shows "sv_service sv = None"
  using assms unfolding newServer_def Let_def
  by (auto simp: bindM_run retM_run split: prod.splits outcome.splits option.splits if_splits)

lemma servers_ok_add:
  assumes "servers_ok s" "sv_service sv = None"
  shows "servers_ok (s\<lparr>servers := servers s @ [sv]\<rparr>)"
    "map_of (serverCache s) name = None \<Longrightarrow> servers_ok (s\<lparr>servers := servers s @ [sv], serverCache := AList.update name (length (servers s)) (serverCache s)\<rparr>)"
proof -
  let ?m = "map_of (serverCache s)"
  have b: "\<And>k n. ?m k = Some n \<Longrightarrow> n < length (servers s)" using assms by (auto simp: servers_ok_def ran_def)
  show "servers_ok (s\<lparr>servers := servers s @ [sv]\<rparr>)" using assms by (auto simp: servers_ok_def nth_append ran_def less_Suc_eq)
  show "servers_ok (s\<lparr>servers := servers s @ [sv], serverCache := AList.update name (length (servers s)) (serverCache s)\<rparr>)" if "?m name = None"
    using assms b that by (fastforce simp: servers_ok_def nth_append ran_def AList.update_conv' inj_on_def less_Suc_eq)
qed

lemma serve_entry_ok:
  assumes "servers_ok s" "n < length (servers s)" "addr6_ok e"
  shows "servers_ok (s\<lparr>servers := (servers s)[n := (servers s ! n)\<lparr>sv_service := Some e\<rparr>], probing := probing s @ [n]\<rparr>)"
  using assms by (auto simp: servers_ok_def nth_list_update dest!: set_update_subset_insert[THEN subsetD])

lemma server_of_run:
  assumes "servers_ok s"
  obtains r s' where "server_of E iface s = (Ret r, s')" "servers_ok s'" "probing s' = probing s" "\<And>n. r = Inr n \<Longrightarrow> n < length (servers s')"
proof -
  define name where "name = (case iface of None \<Rightarrow> [] | Some i \<Rightarrow> ni_Name i)"
  obtain a w where a: "newServer E iface s = (Ret a, s\<lparr>world := w\<rparr>)" by (rule only_worldE[OF newServer_always])
  show ?thesis
  proof (cases "map_of (serverCache s) name")
    case None
    show ?thesis
    proof (cases a)
      case (Inl err)
      then show ?thesis using that a None assms by (simp add: server_of_def name_def[symmetric] run_simps)
    next
      case (Inr sv)
      have ok: "servers_ok (s\<lparr>world := w\<rparr>)" "map_of (serverCache (s\<lparr>world := w\<rparr>)) name = None" using assms None by simp_all
      show ?thesis using that a None Inr servers_ok_add(2)[OF ok(1) newServer_service[OF a[unfolded Inr]] ok(2)] by (simp add: server_of_def name_def[symmetric] add_server_def run_simps)
    qed
  next
    case (Some n)
    then have "n < length (servers s)" using assms by (auto simp: servers_ok_def ran_def)
    then show ?thesis using that Some assms by (simp add: server_of_def name_def[symmetric] run_simps)
  qed
qed

lemma set_addrs_ok: "addr6_ok e \<Longrightarrow> addr6_ok (set_addrs addrs e)"
proof (induction addrs arbitrary: e)
  case (Cons ip addrs)
  let ?e = "if To4 ip \<noteq> [] then e\<lparr>se_AddrIPv4 := ip\<rparr> else if To16 ip \<noteq> [] then e\<lparr>se_AddrIPv6 := ip\<rparr> else e"
  have "addr6_ok ?e"
  proof (cases "To4 ip = [] \<and> To16 ip \<noteq> []")
    case True
    then have "length ip \<noteq> 4" using To4_length4[of ip] by auto
    then have "length ip = 16" using True unfolding To16_def by metis
    then show ?thesis using True by (simp add: addr6_ok_def)
  qed (use Cons.prems in \<open>auto simp: addr6_ok_def\<close>)
  from Cons.IH[OF this] show ?case by simp
qed simp

lemma set_addrs_keeps:
  "se_Instance (set_addrs addrs e) = se_Instance e" "se_Service (set_addrs addrs e) = se_Service e" "se_Port (set_addrs addrs e) = se_Port e"
  by (induction addrs arbitrary: e) auto

definition announces :: "string \<Rightarrow> string \<Rightarrow> int \<Rightarrow> ('w, 'z) mdns_state_scheme \<Rightarrow> ('w, 'z) mdns_state_scheme \<Rightarrow> bool" where
  "announces instance1 service port s s' \<longleftrightarrow> (\<exists>n e. probing s' = probing s @ [n] \<and> sv_service (servers s' ! n) = Some e \<and>
     se_Instance e = instance1 \<and> se_Service e = service \<and> se_Port e = port)"

lemma register_host_ok:
  assumes "servers_ok s" "addr6_ok entry"
  shows "\<exists>r s'. register_host E entry iface b s = (Ret r, s') \<and> servers_ok s' \<and>
    (r = None \<longrightarrow> announces (se_Instance entry) (se_Service entry) (se_Port entry) s s')"
proof -
  have "always only_world (if iface = None \<and> b then InterfaceToBind E else retM iface)"
    by (auto intro!: always_mdns InterfaceToBind_always)
  then obtain i w where i: "(if iface = None \<and> b then InterfaceToBind E else retM iface) s = (Ret i, s\<lparr>world := w\<rparr>)" by (rule only_worldE)
  let ?addrs = "case i of None \<Rightarrow> host_addrs E (se_HostName entry) (se_Domain entry) | Some i \<Rightarrow> iface_addrs E i"
  have "always only_world ?addrs" by (auto intro!: host_addrs_always iface_addrs_always split: option.splits)
  then obtain a w2 where a: "?addrs (s\<lparr>world := w\<rparr>) = (Ret a, s\<lparr>world := w\<rparr>\<lparr>world := w2\<rparr>)" by (rule only_worldE)
  have ok: "servers_ok (s\<lparr>world := w\<rparr>\<lparr>world := w2\<rparr>)" using assms by simp
  obtain r s' where r: "server_of E i (s\<lparr>world := w\<rparr>\<lparr>world := w2\<rparr>) = (Ret r, s')" "servers_ok s'" "probing s' = probing s"
    "\<And>n. r = Inr n \<Longrightarrow> n < length (servers s')"
    by (rule server_of_run[OF ok, of E i]) simp
  show ?thesis
    using i a r ok serve_entry_ok[OF r(2) _ set_addrs_ok[OF assms(2)]]
    by (cases a; cases r) (simp_all add: register_host_def bindM_run tryM_run serve_entry_def announces_def set_addrs_keeps run_simps del: if_split)
qed

text \<open>Registering changes nothing of the state but the servers.\<close>

definition only_servers :: "('w, 'z) mdns_state_scheme \<Rightarrow> ('w, 'z) mdns_state_scheme \<Rightarrow> bool" where
  "only_servers s s' \<longleftrightarrow> (\<exists>w x c q. s' = s\<lparr>world := w, servers := x, serverCache := c, probing := q\<rparr>)"

lemma only_servers_refl: "reflp only_servers"
proof (rule reflpI)
  fix s :: "('w, 'z) mdns_state_scheme"
  have "s = s\<lparr>world := world s, servers := servers s, serverCache := serverCache s, probing := probing s\<rparr>" by simp
  then show "only_servers s s" unfolding only_servers_def by blast
qed

lemma only_servers_trans: "transp only_servers"
  by (auto simp: transp_def only_servers_def) blast

lemma always_only_servers: "always only_world m \<Longrightarrow> always only_servers m"
proof -
  have "only_servers s (s\<lparr>world := w\<rparr>)" for s :: "('w, 'z) mdns_state_scheme" and w
    unfolding only_servers_def by (intro exI[of _ w] exI[of _ "servers s"] exI[of _ "serverCache s"] exI[of _ "probing s"]) simp
  then show "always only_world m \<Longrightarrow> always only_servers m" unfolding always_def only_world_def by metis
qed

lemma only_servers_updates:
  "only_servers s (s\<lparr>servers := x\<rparr>)" "only_servers s (s\<lparr>serverCache := c\<rparr>)" "only_servers s (s\<lparr>servers := x, probing := q\<rparr>)"
  unfolding only_servers_def
  by (intro exI[of _ "world s"] exI[of _ x] exI[of _ "serverCache s"] exI[of _ "probing s"], simp)
    ((intro exI[of _ "world s"] exI[of _ "servers s"] exI[of _ c] exI[of _ "probing s"], simp),
     (intro exI[of _ "world s"] exI[of _ x] exI[of _ "serverCache s"] exI[of _ q], simp))

lemma always_modify [always_intros]: "(\<And>s. Q s (f s)) \<Longrightarrow> always Q (modifyM f)"
  by (simp add: always_def modifyM_run)

lemmas always_register = only_servers_refl only_servers_trans only_servers_updates always_bind always_then always_tryE always_tryM always_ret always_get
  always_modify always_only_servers[OF always_only_world] always_only_servers[OF newServer_always] always_only_servers[OF InterfaceToBind_always]
  always_only_servers[OF host_addrs_always] always_only_servers[OF iface_addrs_always]

lemma register_host_always: "always only_servers (register_host E entry iface b)"
proof -
  have "always only_servers (server_of E i)" for i
    unfolding server_of_def add_server_def Let_def by (auto intro!: always_register split: option.splits)
  then show ?thesis unfolding register_host_def serve_entry_def by (auto intro!: always_register split: option.splits)
qed

lemma bonjour_Register_always: "always only_servers (bonjour_Register E instance1 service domain1 port text iface b)"
  unfolding bonjour_Register_def Let_def by (auto intro!: always_register register_host_always split: sum.splits)

text \<open>Packing a message of bonjour returns, so that sending one only reads and changes the outside world.\<close>

lemma packed_always:
  assumes "returns (Msg_Pack msg)"
  shows "always only_world (bindM (liftO (Msg_Pack msg)) (\<lambda>r. case r of Inl err \<Rightarrow> retM (Some err)
    | Inr buf \<Rightarrow> thenM (write_opt E c4 buf mdnsGroupIPv4) (thenM (write_opt E c6 buf mdnsGroupIPv6) (retM None))))"
proof -
  obtain r where "Msg_Pack msg = Ret r" using assms by (auto simp: returns_iff)
  moreover have "always only_world (case r of Inl err \<Rightarrow> retM (Some err)
    | Inr buf \<Rightarrow> thenM (write_opt E c4 buf mdnsGroupIPv4) (thenM (write_opt E c6 buf mdnsGroupIPv6) (retM None)))" for r
    unfolding write_opt_def by (auto intro!: always_mdns split: sum.splits option.splits)
  ultimately show ?thesis by (simp add: always_def bindM_run liftO_run)
qed

lemma multicastResponse_always: "sendable_msg msg \<Longrightarrow> always only_world (multicastResponse E sv msg)"
  unfolding multicastResponse_def by (rule packed_always) (rule msg_pack_returns)

lemma sendable_query: "sendable_msg (query_message ident params)"
  by (simp add: sendable_msg_def query_message_def SetQuestion_def dns_Msg_zero_def MsgHdr_zero_def Let_def)

lemma client_query_always: "always only_world (client_query E c params)"
  unfolding client_query_def sendQuery_def by (auto intro!: always_mdns packed_always msg_pack_returns sendable_query)

lemma Browse_lookupParams:
  assumes "Browse E service domain1 s = (Ret None, s')" "domain1 \<noteq> []"
  shows "map_of (c_lookupParams (resolver s')) (ServiceName service domain1) = Some (NewLookupParams [] service domain1)"
proof -
  let ?p = "NewLookupParams [] service domain1"
  let ?t = "s\<lparr>resolver := addLookupParams ?p (resolver s)\<rparr>"
  obtain r w where q: "client_query E (resolver ?t) ?p ?t = (Ret r, ?t\<lparr>world := w\<rparr>)" by (rule only_worldE[OF client_query_always])
  have "r = None"
  proof (rule ccontr)
    assume "r \<noteq> None"
    then show False using assms q
      by (auto simp: Browse_def defaultParams_def NewLookupParams_def run_simps Let_def split: prod.splits outcome.splits)
  qed
  then have "s' = ?t\<lparr>world := w\<rparr>" using assms q by (simp add: Browse_def defaultParams_def NewLookupParams_def run_simps Let_def)
  then show ?thesis by (simp add: addLookupParams_def NewLookupParams_def ServiceInstanceName_def AList.update_conv' Let_def)
qed

lemma notify_all_always: "(\<And>x. x \<in> set xs \<Longrightarrow> always only_world (f x)) \<Longrightarrow> always only_world (notify_all f xs)"
  by (induction xs) (auto intro: always_mdns)

lemma sendable_zero: "sendable_msg dns_Msg_zero" "sendable_msg (SetReply query dns_Msg_zero)"
  by (simp_all add: sendable_msg_def SetReply_def dns_Msg_zero_def MsgHdr_zero_def)

lemma sendable_address_answers: "addr6_ok e \<Longrightarrow> list_all (\<lambda>rr. sendable (w_type rr) (w_fields rr)) (address_answers e ttl)"
  by (auto simp: addr6_ok_def address_answers_def new_RR.simps intro: sendable.intros)

lemma sendable_answers:
  assumes "sendable_msg m" "addr6_ok e"
  shows "sendable_msg (composeBrowsingAnswers e ttl m)" "sendable_msg (composeLookupAnswers e ttl m)"
  using assms sendable_address_answers[OF assms(2)]
  by (simp_all add: sendable_msg_def composeBrowsingAnswers_def composeLookupAnswers_def new_RR.simps sendable.intros Let_def)

lemma sendable_probe: "sendable_msg (probe_message ident e)"
  by (simp add: sendable_msg_def probe_message_def SetQuestion_def dns_Msg_zero_def MsgHdr_zero_def new_RR.simps sendable.intros Let_def)

lemma probe_returns:
  assumes "servers_ok s" "n \<in> set (probing s)"
  shows "\<exists>t'. probe E (servers s ! n) t = (Ret (), t')"
proof -
  obtain e where e: "sv_service (servers s ! n) = Some e" "n < length (servers s)" using assms by (auto simp: servers_ok_def)
  then have ok: "addr6_ok e" using assms(1) nth_mem[OF e(2)] unfolding servers_ok_def by blast
  have "always only_world (notify_all (\<lambda>msg. thenM (multicastResponse E (servers s ! n) msg) (retM ()))
      (replicate 3 (probe_message ident e) @ replicate 3 (composeLookupAnswers e 3200 dns_Msg_zero)))" for ident
    by (intro notify_all_always always_mdns multicastResponse_always) (auto intro: sendable_probe sendable_answers(2)[OF sendable_zero(1) ok])
  then have "always only_world (probe E (servers s ! n))" by (auto simp: probe_def e(1) intro!: always_mdns)
  then show ?thesis by (rule only_worldE[where s = t]) auto
qed

text \<open>The IPv6 wildcard address is written in brackets and does not parse.\<close>

lemma wildcard_IPv6_unparsed: "mdnsWildcardAddrIPv6 = []" "mdnsWildcardAddrIPv4 \<noteq> []"
  by code_simp+

text \<open>A proxy with an IPv6 address is announced with this address in an A record.\<close>

lemma proxy_IPv6_in_A_record:
  assumes "RegisterProxy E instance1 service domain1 port host ip text iface s = (Ret None, s')"
  shows "\<exists>e. sv_service (last (servers s')) = Some e \<and> new_RR (RR_A (se_HostName e) 120 (ParseIP ip)) \<in> set (wm_Extra (composeLookupAnswers e 3200 dns_Msg_zero))"
proof -
  obtain a w where a: "newServer E iface s = (Ret a, s\<lparr>world := w\<rparr>)" by (rule only_worldE[OF newServer_always])
  show ?thesis using assms a
    by (cases a) (auto simp: RegisterProxy_def add_server_def serve_entry_def composeLookupAnswers_def address_answers_def dns_Msg_zero_def run_simps Let_def
        split: if_splits)
qed

subsection \<open>The farewell of a server\<close>

text \<open>Entries all of which have been withdrawn, and answers that withdraw.\<close>

definition withdrawn :: "entries \<Rightarrow> bool" where
  "withdrawn entries \<longleftrightarrow> (\<forall>k x. map_of entries k = Some x \<longrightarrow> se_TTL x = 0)"

fun withdraws :: "RR \<Rightarrow> bool" where
  "withdraws (RR_PTR name ttl ptr) = (ttl = 0)"
| "withdraws (RR_SRV name ttl port target) = (ttl = 0)"
| "withdraws (RR_TXT name ttl txt) = (ttl = 0)"
| "withdraws rr = True"

lemma client_answer_withdraws: "withdraws rr \<Longrightarrow> withdrawn entries \<Longrightarrow> withdrawn (client_answer E lps rr entries)"
  by (cases rr) (auto simp: withdrawn_def AList.update_conv' map_of_map split: option.splits if_splits)

lemma client_answers_withdraw:
  "\<forall>rr\<in>set rrs. withdraws rr \<Longrightarrow> withdrawn entries \<Longrightarrow> withdrawn (foldl (\<lambda>entries rr. client_answer E lps rr entries) entries rrs)"
  by (induction rrs arbitrary: entries) (auto simp: client_answer_withdraws)

lemma client_message_alive: "e \<in> set (client_message E lps msg) \<Longrightarrow> se_TTL e \<noteq> 0"
  by (auto simp: client_message_def Let_def map_filter_def split: option.splits if_splits)

lemma client_message_farewell: "client_message E lps (composeLookupAnswers e 0 dns_Msg_zero) = []"
proof -
  let ?m = "composeLookupAnswers e 0 dns_Msg_zero"
  define entries where "entries = foldl (\<lambda>entries rr. client_answer E lps rr entries) [] (map switch_RR (wm_Answer ?m @ wm_Ns ?m @ wm_Extra ?m))"
  have "withdrawn entries"
    unfolding entries_def by (intro client_answers_withdraw) (auto simp: composeLookupAnswers_def dns_Msg_zero_def address_answers_def withdrawn_def)
  then have "List.map_filter (\<lambda>k. case map_of entries k of None \<Rightarrow> None | Some e \<Rightarrow> if se_TTL e = 0 then None else Some e) ks = []" for ks
    by (induction ks) (auto simp: withdrawn_def map_filter_simps split: option.splits)
  then show ?thesis unfolding client_message_def Let_def entries_def[symmetric] .
qed

subsection \<open>A request that cannot be sent\<close>

lemma close_opt_run: obtains w where "close_opt E c s = (Ret (), s\<lparr>world := w\<rparr>)"
proof -
  have "always only_world (close_opt E c)" unfolding close_opt_def by (auto intro!: always_mdns split: option.splits)
  then show ?thesis using that by (rule only_worldE[where s = s]) simp
qed

lemma send_Exit_run:
  "\<not> c_closed (resolver s) \<Longrightarrow> \<exists>s'. send_Exit E s = (Ret (), s') \<and> c_closed (resolver s')"
  "c_closed (resolver s) \<Longrightarrow> send_Exit E s = (Panic ''send on closed channel'', s)"
proof -
  assume c: "\<not> c_closed (resolver s)"
  define t where "t = s\<lparr>resolver := (resolver s)\<lparr>c_closed := True\<rparr>\<rparr>"
  obtain w where w: "close_opt E (c_ipv4conn (resolver s)) t = (Ret (), t\<lparr>world := w\<rparr>)" by (rule close_opt_run)
  obtain w2 where "close_opt E (c_ipv6conn (resolver s)) (t\<lparr>world := w\<rparr>) = (Ret (), t\<lparr>world := w\<rparr>\<lparr>world := w2\<rparr>)" by (rule close_opt_run)
  then show "\<exists>s'. send_Exit E s = (Ret (), s') \<and> c_closed (resolver s')"
    using c w by (simp add: send_Exit_def client_shutdown_def run_simps t_def)
qed (simp add: send_Exit_def run_simps)

text \<open>A name with a label of more than 63 characters is not packed.\<close>

lemma name_loop_plain:
  assumes "\<forall>c\<in>set (take k (drop i bs)). c \<noteq> 0x5C \<and> c \<noteq> 0x2E" "i + k < length bs" "ls = length bs"
  shows "\<exists>ed'. name_loop compress bs ls i b off ro fresh ed msg cm = name_loop compress bs ls (i + k) b off ro fresh ed' msg cm"
  using assms
proof (induction k arbitrary: i ed)
  case (Suc k)
  have i: "bs ! i \<noteq> 0x5C" "bs ! i \<noteq> 0x2E" using Suc.prems(1,2) by (simp_all add: Cons_nth_drop_Suc[symmetric])
  have "\<forall>c\<in>set (take k (drop (Suc i) bs)). c \<noteq> 0x5C \<and> c \<noteq> 0x2E" using Suc.prems(1,2) by (simp add: Cons_nth_drop_Suc[symmetric])
  then obtain ed' where "name_loop compress bs ls (Suc i) b off ro fresh False msg cm = name_loop compress bs ls (Suc i + k) b off ro fresh ed' msg cm"
    using Suc.IH[of "Suc i" False] Suc.prems(2,3) by auto
  moreover have "name_loop compress bs ls i b off ro fresh ed msg cm = name_loop compress bs ls (Suc i) b off ro fresh False msg cm"
    using i Suc.prems(2,3) by (subst name_loop.simps) simp
  ultimately show ?case by auto
qed auto

lemma long_label_refused:
  assumes "64 \<le> length inst" "\<forall>c\<in>set inst. c \<noteq> CHR 0x5C \<and> c \<noteq> CHR ''.''"
  shows "packDomainName compress (inst @ ''.'' @ rest @ ''.'') msg off cm = Ret (Inl ErrRdata)"
proof -
  let ?bs = "unstr (inst @ ''.'' @ rest @ ''.'')"
  have d: "unstr ''.'' = [0x2E]" by (simp add: unstr_def)
  have p: "\<forall>c\<in>set (take (length inst) ?bs). c \<noteq> 0x5C \<and> c \<noteq> 0x2E"
  proof
    fix b assume "b \<in> set (take (length inst) ?bs)"
    then obtain c where c: "c \<in> set inst" "b = of_nat (of_char c)" by (auto simp: unstr_def)
    have b: "char_of (unat b) = c" using str_unstr[of "[c]"] c(2) by (simp add: str_def unstr_def)
    have "char_of (unat (0x5C :: byte)) = CHR 0x5C" "char_of (unat (0x2E :: byte)) = CHR ''.''" by code_simp+
    then show "b \<noteq> 0x5C \<and> b \<noteq> 0x2E" using assms(2) c(1) b by metis
  qed
  have l: "length inst < length ?bs" by (simp add: unstr_def)
  obtain ed where "name_loop compress ?bs (length ?bs) 0 0 off ?bs True False msg cm = name_loop compress ?bs (length ?bs) (length inst) 0 off ?bs True ed msg cm"
    using name_loop_plain[of "length inst" 0 ?bs "length ?bs" compress 0 off ?bs True False msg cm] p l by auto
  moreover have "?bs ! length inst = 0x2E" by (simp add: unstr_def nth_append)
  moreover have "?bs ! (length inst - 1) \<noteq> 0x2E"
  proof -
    have i: "length inst - 1 < length inst" using assms(1) by simp
    have "take (length inst) ?bs ! (length inst - 1) \<in> set (take (length inst) ?bs)" by (rule nth_mem) (use i l in simp)
    then show ?thesis using p nth_take[OF i, of ?bs] by metis
  qed
  ultimately have "name_loop compress ?bs (length ?bs) 0 0 off ?bs True False msg cm = Inl ErrRdata"
    using assms(1) l by (simp only:, subst name_loop.simps) simp
  moreover have "last ?bs = 0x2E" "?bs \<noteq> []" by (simp_all add: unstr_def)
  ultimately show ?thesis by (simp add: packDomainName_def)
qed

lemma Lookup_refused:
  assumes "64 \<le> length inst" "\<forall>c\<in>set inst. c \<noteq> CHR 0x5C \<and> c \<noteq> CHR ''.''"
  shows "Msg_Pack (query_message ident (NewLookupParams inst service domain1)) = Ret (Inl ErrRdata)"
proof -
  let ?m = "query_message ident (NewLookupParams inst service domain1)"
  have i: "inst \<noteq> []" using assms(1) by auto
  have m: "\<not> wm_Compress ?m" "mh_Rcode (wm_Hdr ?m) = 0" "wm_Answer ?m = []" "wm_Ns ?m = []" "wm_Extra ?m = []"
    "\<exists>q qs. wm_Question ?m = q # qs \<and> q_Name q = inst @ ''.'' @ (trimDot service @ ''.'' @ trimDot domain1) @ ''.''"
    using i by (simp_all add: query_message_def NewLookupParams_def dns_Msg_zero_def MsgHdr_zero_def Let_def)
  then obtain q qs where q: "wm_Question ?m = q # qs" "q_Name q = inst @ ''.'' @ (trimDot service @ ''.'' @ trimDot domain1) @ ''.''" by blast
  let ?len = "12 + sum_list (map question_len (wm_Question ?m))"
  have len: "Msg_Len ?m = Ret ?len" using m by (simp add: Msg_Len_def)
  have h: "packStructValue False Header_fields (header12_values ?m) (replicate (?len + 1) 0) 0 [] =
      Ret (Inr (put (replicate (?len + 1) 0) 0 (header12 ?m), 12, []))"
    using packStructValue_wire[OF header12_wire, of 0 ?m "replicate (?len + 1) 0" "[]"] by (simp add: header12_def)
  have "pack_questions False (wm_Question ?m) msg 12 cm = Ret (Inl ErrRdata)" for msg cm
    using long_label_refused[OF assms, of False "trimDot service @ ''.'' @ trimDot domain1" msg 12 cm] by (simp add: q Question_fields_def pack_field_def)
  then have "pack_sections ?m = Ret (Inl ErrRdata)"
    using m(1) h by (simp only: pack_sections_def len bindO.simps Let_def header12_values_def[symmetric] bindP_simps prod.case simp_thms)
  then show ?thesis using m(2) by (simp add: Msg_Pack_def Let_def)
qed

lemma Lookup_fails:
  assumes "Msg_Pack (query_message 0 (NewLookupParams inst service domain1)) = Ret (Inl err)" "inst \<noteq> []" "domain1 \<noteq> []" "\<not> c_closed (resolver s)"
  obtains s' where "Lookup E inst service domain1 s = (Ret (Some err), s')" "c_closed (resolver s')"
proof -
  let ?t = "s\<lparr>resolver := addLookupParams (NewLookupParams inst service domain1) (resolver s)\<rparr>"
  have "\<not> c_closed (resolver ?t)" using assms(4) by (simp add: addLookupParams_def Let_def)
  then obtain s' where "send_Exit E ?t = (Ret (), s')" "c_closed (resolver s')" using send_Exit_run(1) by blast
  then show ?thesis using that assms by (simp add: Lookup_def defaultParams_def NewLookupParams_def client_query_def sendQuery_def run_simps Let_def)
qed

lemma Lookup_closed:
  assumes "Msg_Pack (query_message 0 (NewLookupParams inst service domain1)) = Ret (Inl err)" "inst \<noteq> []" "domain1 \<noteq> []" "c_closed (resolver s)"
  obtains s' where "Lookup E inst service domain1 s = (Panic ''send on closed channel'', s')"
proof -
  let ?t = "s\<lparr>resolver := addLookupParams (NewLookupParams inst service domain1) (resolver s)\<rparr>"
  have "c_closed (resolver ?t)" using assms(4) by (simp add: addLookupParams_def Let_def)
  from send_Exit_run(2)[OF this, of E] show ?thesis
    using that assms by (simp add: Lookup_def defaultParams_def NewLookupParams_def client_query_def sendQuery_def run_simps Let_def)
qed

subsection \<open>Properties\<close>

text \<open>C11. Discovery is faithful, packet by packet: when a client browses for a type of service,
  the packet with its question is read by a server, which answers with a packet from which
  the client takes exactly the service that was registered (instance, type, domain, host,
  port, text and addresses), alive.\<close>

theorem browse_discovers:
  assumes "Browse E (se_Service e) (se_Domain e) s = (Ret None, s')" "se_Domain e \<noteq> []" "sv_service sv = Some e"
    and "well_named e" "on_wire e" "0 \<le> se_Port e" "se_Port e < 65536" "\<And>ks. mset (range_order E ks) = mset ks"
  shows "\<exists>question answer. Msg_Pack (query_message ident (NewLookupParams [] (se_Service e) (se_Domain e))) = Ret (Inr question) \<and>
    (\<forall>fuel spare. parsePacket fuel E sv spare question =
       thenM (write_opt E (sv_ipv4conn sv) answer mdnsGroupIPv4) (thenM (write_opt E (sv_ipv6conn sv) answer mdnsGroupIPv6) (retM None))) \<and>
    (\<forall>fuel buf. \<exists>msg. client_recv fuel buf [Inr answer] = Ret [msg] \<and> client_message E (c_lookupParams (resolver s')) msg = [e\<lparr>se_TTL := 3200\<rparr>])"
proof -
  let ?q = "query_message ident (NewLookupParams [] (se_Service e) (se_Domain e))"
  let ?r = "composeBrowsingAnswers e 3200 (SetReply ?q dns_Msg_zero)"
  have gq: "good_msg ?q" using good_browsing_query[of "se_Service e" "se_Domain e" ident] assms(5) by (simp add: on_wire_def)
  have gr: "good_msg ?r" by (rule good_browsing_reply[OF assms(5)]) (use gq in \<open>simp add: good_msg_def\<close>)
  obtain question where question: "Msg_Pack ?q = Ret (Inr question)"
    "\<And>fuel spare. \<exists>m'. Msg_Unpack fuel spare question = Ret (Inr m') \<and> forget_rdlengths m' = forget_rdlengths ?q" by (rule good_msg_sent[OF gq]) blast
  obtain answer where answer: "Msg_Pack ?r = Ret (Inr answer)"
    "\<And>fuel spare. \<exists>m'. Msg_Unpack fuel spare answer = Ret (Inr m') \<and> forget_rdlengths m' = forget_rdlengths ?r" by (rule good_msg_sent[OF gr]) blast
  have read: "Msg_Unpack fuel spare question = Ret (Inr ?q)" for fuel spare
    using question(2)[of fuel spare] no_records_forget[of ?q] by (auto simp: query_message_def NewLookupParams_def SetQuestion_def dns_Msg_zero_def Let_def)
  have "\<exists>msg. client_recv fuel buf [Inr answer] = Ret [msg] \<and> client_message E (c_lookupParams (resolver s')) msg = [e\<lparr>se_TTL := 3200\<rparr>]" for fuel buf
  proof -
    obtain m' where m: "Msg_Unpack fuel (drop (length answer) buf) answer = Ret (Inr m')" "forget_rdlengths m' = forget_rdlengths ?r" using answer(2) by blast
    have "client_message E (c_lookupParams (resolver s')) m' = client_message E (c_lookupParams (resolver s')) ?r" using m(2) client_message_forget by metis
    also have "\<dots> = [e\<lparr>se_TTL := 3200\<rparr>]"
      using browsing_answer_read[OF assms(4,6,7,8) Browse_lookupParams[OF assms(1,2)]] by (simp add: NewLookupParams_def)
    finally show ?thesis using m(1) by simp
  qed
  moreover have "parsePacket fuel E sv spare question =
      thenM (write_opt E (sv_ipv4conn sv) answer mdnsGroupIPv4) (thenM (write_opt E (sv_ipv6conn sv) answer mdnsGroupIPv6) (retM None))" for fuel spare
    by (simp add: parsePacket_def read handleQuery_browsing[OF assms(3)] multicastResponse_def answer(1) fun_eq_iff bindM_run liftO_run)
  ultimately show ?thesis using question(1) by blast
qed

text \<open>C20. Registering a service always returns, keeps the servers consistent (those in the
  cache exist and differ from interface to interface) and, if it succeeds, announces the
  service that was registered; the goroutines that announce never find a server without
  a service.\<close>

theorem register_keeps_servers:
  assumes "servers_ok s"
  shows "\<exists>r s'. bonjour_Register E instance1 service domain1 port text iface b s = (Ret r, s') \<and> servers_ok s' \<and>
    (r = None \<longrightarrow> announces instance1 service port s s') \<and> (\<forall>n\<in>set (probing s'). \<exists>t'. probe E (servers s' ! n) t = (Ret (), t'))"
proof -
  have "\<exists>r s'. bonjour_Register E instance1 service domain1 port text iface b s = (Ret r, s') \<and> servers_ok s' \<and>
    (r = None \<longrightarrow> announces instance1 service port s s')"
  proof (cases "fst (Hostname E (world s))")
    case (Inl err)
    then show ?thesis using assms by (simp add: bonjour_Register_def run_simps Let_def)
  next
    case (Inr host)
    let ?s = "s\<lparr>world := snd (Hostname E (world s))\<rparr>"
    have a: "announces i v p ?s s' \<longleftrightarrow> announces i v p s s'" for i v p s' by (simp add: announces_def)
    have "servers_ok ?s" using assms by simp
    from register_host_ok[OF this, of "\<lparr>se_Instance = instance1, se_Service = service, se_Domain = (if domain1 = [] then ''local'' else domain1),
        se_HostName = trimDot host @ ''.'', se_Port = port, se_Text = text, se_TTL = 0, se_AddrIPv4 = [], se_AddrIPv6 = []\<rparr>" E iface b]
    show ?thesis using Inr assms by (auto simp: bonjour_Register_def run_simps Let_def NewServiceEntry_def addr6_ok_def a)
  qed
  then obtain r s' where r: "bonjour_Register E instance1 service domain1 port text iface b s = (Ret r, s')" "servers_ok s'"
    "r = None \<longrightarrow> announces instance1 service port s s'" by blast
  have "\<forall>n\<in>set (probing s'). \<exists>t'. probe E (servers s' ! n) t = (Ret (), t')" by (intro ballI probe_returns r(2))
  then show ?thesis using r by (intro exI[of _ r] exI[of _ s'] conjI)
qed

text \<open>C39. Two requests to look up services whose names have a label of more than 63 characters
  crash the daemon: the first one shuts the client down and returns its error, and the second
  one sends on the channel that the first one closed.\<close>

theorem failed_lookups_panic:
  assumes "\<And>inst. inst \<in> {i1, i2} \<Longrightarrow> 64 \<le> length inst \<and> (\<forall>c\<in>set inst. c \<noteq> CHR 0x5C \<and> c \<noteq> CHR ''.'')"
    and "domain1 \<noteq> []" "\<not> c_closed (resolver s)"
  shows "\<exists>s1 s2. Lookup E i1 service domain1 s = (Ret (Some ErrRdata), s1) \<and> Lookup E i2 service domain1 s1 = (Panic ''send on closed channel'', s2)"
proof -
  have refused: "Msg_Pack (query_message 0 (NewLookupParams inst service domain1)) = Ret (Inl ErrRdata)" if "inst \<in> {i1, i2}" for inst
    by (rule Lookup_refused) (use assms(1)[OF that] in blast)+
  have nonempty: "inst \<noteq> []" if "inst \<in> {i1, i2}" for inst using assms(1)[OF that] by (cases inst) simp_all
  obtain s1 where s1: "Lookup E i1 service domain1 s = (Ret (Some ErrRdata), s1)" "c_closed (resolver s1)"
    by (rule Lookup_fails[OF refused[of i1] nonempty[of i1] assms(2,3)]) blast+
  obtain s2 where "Lookup E i2 service domain1 s1 = (Panic ''send on closed channel'', s2)"
    by (rule Lookup_closed[OF refused[of i2] nonempty[of i2] assms(2) s1(2)]) blast+
  then show ?thesis using s1(1) by blast
qed

text \<open>C0. One packet crashes every daemon that hears it: reading a packet that ends with an OPT
  record with two or three bytes of data panics, in the goroutine of a server as in that
  of a client, whatever packets came before and whatever its name, class and time to live
  are; the length of an option is read without a check that it is there.\<close>

theorem packet_crashes_daemon:
  assumes "good_labels labels" "h_Name h = str (name_text labels)" "h_Rrtype h = 41" "unat (h_Rdlength h) = length rdata" "length rdata = 2 \<or> length rdata = 3"
    and "packet = one_extra @ header_wire labels h @ rdata"
  shows "server_recv fuel E sv buf (Inr packet # rs) s = (index_panic, s) \<and> client_recv fuel buf (Inr packet # rs) = index_panic"
proof -
  have "Msg_Unpack fuel spare packet = index_panic" for spare unfolding assms(6) by (rule short_opt_panics[OF assms(1-5)])
  then show ?thesis by (simp add: parsePacket_def thenM_def bindM_run liftO_run index_panic_def)
qed

text \<open>C0. No service makes a server or a client panic when it packs its messages, whatever bytes
  the names and texts of the service have (labels that are too long or empty, escapes, texts of
  any length), as long as its IPv6 address has 16 bytes: the questions, the
  probe, the announcements, the answers and the farewell are packed or refused.\<close>

theorem bonjour_pack_total:
  assumes "addr6_ok e"
  shows "returns (Msg_Pack (query_message ident params)) \<and> returns (Msg_Pack (probe_message ident e)) \<and>
    returns (Msg_Pack (composeLookupAnswers e ttl dns_Msg_zero)) \<and> returns (Msg_Pack (composeBrowsingAnswers e ttl (SetReply query dns_Msg_zero))) \<and>
    returns (Msg_Pack (composeLookupAnswers e ttl (SetReply query dns_Msg_zero)))"
  using assms by (intro conjI msg_pack_returns sendable_query sendable_probe sendable_answers sendable_zero)

text \<open>A host whose packets get lost.\<close>

definition quiet_mdns :: "kvs_store mdns_env" where
  "quiet_mdns = cluster_env.extend (watch_env.extend (conn_env.extend quiet_conn
       (watch_env.fields (\<lambda>url w. (Inl (Err ''refused''), w)) (\<lambda>fn i w. (Inl (Err ''refused''), w))))
       (cluster_env.fields (\<lambda>n w. (Inr \<lparr>ni_Name = n, ni_Flags = 1\<rparr>, w)) (\<lambda>i w. (Inr [''10.0.0.1/8''], w)) (\<lambda>args w. (Inr 0, w)) (\<lambda>args w. (None, w))
         (\<lambda>d w. (None, w))))
       (mdns_env.fields (\<lambda>w. (Inr [], w)) (\<lambda>w. (Inr [], w)) (\<lambda>a i w. ((0, None), w)) (\<lambda>w. (Inr ''host'', w)) (\<lambda>n w. (Inl (Err ''no such host''), w))
         (\<lambda>n a p w. (Inr 4, w)) (\<lambda>n i a p w. (Inr 5, w)) (\<lambda>c i g w. (None, w)) (\<lambda>c b a p w. (None, w)) (\<lambda>c w. (None, w)) (\<lambda>w. (7, w)))"

lemma quiet_mdns_simps:
  "range_order quiet_mdns ks = ks" "dns_Id quiet_mdns w = (7, w)" "Hostname quiet_mdns w = (Inr ''host'', w)"
  "WriteTo quiet_mdns c b a p w = (None, w)"
  by (simp_all add: quiet_mdns_def quiet_conn_def quiet_consul_def quiet_env_def bridge_env.defs conn_env.defs watch_env.defs cluster_env.defs mdns_env.defs)

definition mdns_node :: "kvs_store mdns_state" where
  "mdns_node = cluster_state.extend (watch_state.extend watch_node (cluster_state.fields [] [] []))
     (mdns_state.fields \<lparr>c_lookupParams = [], c_ipv4conn = Some 4, c_ipv6conn = None, c_closed = False\<rparr> [] [] [])"

lemma mdns_node_simps: "resolver mdns_node = \<lparr>c_lookupParams = [], c_ipv4conn = Some 4, c_ipv6conn = None, c_closed = False\<rparr>"
  "servers mdns_node = []" "serverCache mdns_node = []" "probing mdns_node = []"
  by (simp_all add: mdns_node_def cluster_state.defs watch_state.defs mdns_state.defs)

definition peer_entry :: "32 word \<Rightarrow> ServiceEntry" where
  "peer_entry ttl = \<lparr>se_Instance = ''b'', se_Service = ''_docker._cluster'', se_Domain = ''local'', se_HostName = ''b.'', se_Port = 9999,
     se_Text = [''txtv=1''], se_TTL = ttl, se_AddrIPv4 = IPv4 10 0 0 2, se_AddrIPv6 = []\<rparr>"

lemma well_named_peer: "well_named (peer_entry ttl)"
  by (simp add: well_named_def peer_entry_def trimDot_def)

lemma on_wire_peer: "on_wire (peer_entry ttl)"
proof -
  have names: "good_name (entry_service (peer_entry ttl))" "good_name (entry_instance (peer_entry ttl))" "good_name (se_HostName (peer_entry ttl))"
    by (rule good_nameI[of _ "[unstr ''_docker'', unstr ''_cluster'', unstr ''local'']"],
        simp_all add: peer_entry_def ServiceName_def ServiceInstanceName_def trimDot_def good_labels_def unstr_def name_text_def label_text_def name_escape_def)
      ((rule good_nameI[of _ "[unstr ''b'', unstr ''_docker'', unstr ''_cluster'', unstr ''local'']"],
        simp_all add: good_labels_def unstr_def name_text_def label_text_def name_escape_def),
       (rule good_nameI[of _ "[unstr ''b'']"], simp_all add: good_labels_def unstr_def name_text_def label_text_def name_escape_def))
  have "good_text ''txtv=1''"
    unfolding good_text_def by (intro exI[of _ "unstr ''txtv=1''"]) (simp add: text_string_def txt_escape_def unstr_def str_def, code_simp)
  then show ?thesis using names by (simp add: on_wire_def peer_entry_def IPv4_def v4InV6Prefix_def)
qed

theorem browse_discovers_witness:
  "\<exists>s' question answer. Browse quiet_mdns ''_docker._cluster'' ''local'' mdns_node = (Ret None, s') \<and>
     Msg_Pack (query_message 7 (NewLookupParams [] ''_docker._cluster'' ''local'')) = Ret (Inr question) \<and>
     (\<exists>msg. client_recv 0 [] [Inr answer] = Ret [msg] \<and> client_message quiet_mdns (c_lookupParams (resolver s')) msg = [peer_entry 3200])"
proof -
  let ?e = "peer_entry 0"
  let ?sv = "\<lparr>sv_service = Some ?e, sv_ipv4conn = Some 5, sv_ipv6conn = None, sv_shouldShutdown = False\<rparr>"
  let ?p = "NewLookupParams [] ''_docker._cluster'' ''local''"
  have e: "se_Service ?e = ''_docker._cluster''" "se_Domain ?e = ''local''" "?e\<lparr>se_TTL := 3200\<rparr> = peer_entry 3200" by (simp_all add: peer_entry_def)
  have "good_msg (query_message 7 ?p)" using good_browsing_query[of "''_docker._cluster''" "''local''" 7] on_wire_peer[of 0] by (simp add: on_wire_def e)
  then obtain question where q: "Msg_Pack (query_message 7 ?p) = Ret (Inr question)" by (rule good_msg_sent)
  then obtain s' where b: "Browse quiet_mdns (se_Service ?e) (se_Domain ?e) mdns_node = (Ret None, s')"
    unfolding e by (simp add: Browse_def defaultParams_def NewLookupParams_def client_query_def sendQuery_def write_opt_def run_simps quiet_mdns_simps
        mdns_node_simps addLookupParams_def Let_def)
  have hyps: "se_Domain ?e \<noteq> []" "sv_service ?sv = Some ?e" "0 \<le> se_Port ?e" "se_Port ?e < 65536" "\<And>ks. mset (range_order quiet_mdns ks) = mset ks"
    by (simp_all add: peer_entry_def quiet_mdns_simps)
  obtain answer where "\<forall>fuel buf. \<exists>msg. client_recv fuel buf [Inr answer] = Ret [msg] \<and>
      client_message quiet_mdns (c_lookupParams (resolver s')) msg = [?e\<lparr>se_TTL := 3200\<rparr>]"
    using browse_discovers[OF b hyps(1,2) well_named_peer on_wire_peer hyps(3-5), of 7] by blast
  then show ?thesis using b q unfolding e by blast
qed

theorem register_keeps_servers_witness:
  "\<exists>r s'. bonjour_Register quiet_mdns ''a'' ''_docker._cluster'' ''local'' 9999 [] (Some \<lparr>ni_Name = ''eth0'', ni_Flags = 1\<rparr>) True mdns_node = (Ret r, s') \<and>
     servers_ok s' \<and> (r = None \<longrightarrow> announces ''a'' ''_docker._cluster'' 9999 mdns_node s')"
proof -
  have "servers_ok mdns_node" by (simp add: servers_ok_def mdns_node_simps)
  from register_keeps_servers[OF this, where t = mdns_node] show ?thesis by blast
qed

theorem failed_lookups_panic_witness:
  "\<exists>s1 s2. Lookup quiet_mdns (replicate 64 CHR ''a'') ''_docker._cluster'' ''local'' mdns_node = (Ret (Some ErrRdata), s1) \<and>
     Lookup quiet_mdns (replicate 65 CHR ''b'') ''_docker._cluster'' ''local'' s1 = (Panic ''send on closed channel'', s2)"
  by (rule failed_lookups_panic) (auto simp: mdns_node_simps)

theorem packet_crashes_daemon_witness:
  "\<forall>s :: kvs_store mdns_state. server_recv 9 quiet_mdns \<lparr>sv_service = None, sv_ipv4conn = Some 5, sv_ipv6conn = None, sv_shouldShutdown = False\<rparr> (replicate 65536 0)
     [Inr [0, 0, 0, 0, 0, 0, 0, 0, 0, 0, 0, 1, 0, 0, 41, 0, 1, 0, 0, 0, 0, 0, 2, 0, 3]] s = (index_panic, s)"
proof
  fix s :: "kvs_store mdns_state"
  let ?h = "\<lparr>h_Name = str (name_text []), h_Rrtype = 41, h_Class = 1, h_Ttl = 0, h_Rdlength = 2\<rparr>"
  have p: "[0, 0, 0, 0, 0, 0, 0, 0, 0, 0, 0, 1, 0, 0, 41, 0, 1, 0, 0, 0, 0, 0, 2, 0, 3] = one_extra @ header_wire [] ?h @ [0, 3]"
    by (simp add: one_extra_def header_wire_def name_wire_def packUint16_def packUint32_def)
  show "server_recv 9 quiet_mdns \<lparr>sv_service = None, sv_ipv4conn = Some 5, sv_ipv6conn = None, sv_shouldShutdown = False\<rparr> (replicate 65536 0)
     [Inr [0, 0, 0, 0, 0, 0, 0, 0, 0, 0, 0, 1, 0, 0, 41, 0, 1, 0, 0, 0, 0, 0, 2, 0, 3]] s = (index_panic, s)"
    by (rule packet_crashes_daemon[OF _ _ _ _ _ p, THEN conjunct1]) (simp_all add: good_labels_def)
qed

theorem bonjour_pack_total_witness:
  "returns (Msg_Pack (composeLookupAnswers ((peer_entry 0)\<lparr>se_HostName := ''..a.''\<rparr>) 3200 dns_Msg_zero))"
  using bonjour_pack_total[of "(peer_entry 0)\<lparr>se_HostName := ''..a.''\<rparr>"] by (simp add: addr6_ok_def peer_entry_def)

end
