(* ===== verification/Cluster.thy ===== *)
theory Cluster
  imports Mdns
begin

section \<open>The daemon in its cluster (daemon/daemon.go and socketplane/bonjour)\<close>

text \<open>
  Discovery of peers in the local network over multicast DNS, and the goroutines of
  daemon.go that bind to an interface, join a cluster and set up the default network.

  The clock is a function of the environment.  The channel \<open>serialChan\<close> has one receiver, the goroutine
  that creates the default network, and that receives once: \<open>serial_receiver\<close> says
  whether it is waiting.  A send without a receiver never returns.  A request to
  \<open>ClusterRPCHandler\<close> is one call.
\<close>

subsection \<open>State\<close>

record cacheEntry =
  ce_serviceEntry :: ServiceEntry
  ce_lastSeen :: int

record Bonjour =
  bj_ServiceName :: string
  bj_ServiceDomain :: string
  bj_ServicePort :: int
  bj_InterfaceName :: string
  bj_BindToIntf :: bool

record DaemonCfg =
  dc_Bootstrap :: bool
  dc_Debug :: bool

text \<open>What the daemon asks of the parsed command line.\<close>

record cli_Context =
  ctx_App :: bool
  ctx_IsSet :: "string \<Rightarrow> bool"
  ctx_Bool :: "string \<Rightarrow> bool"
  ctx_String :: "string \<Rightarrow> string"

record Configuration =
  cf_BridgeIP :: string
  cf_BridgeName :: string
  cf_BridgeCIDR :: string
  cf_BridgeMTU :: int

definition Configuration_zero :: Configuration where
  "Configuration_zero = \<lparr>cf_BridgeIP = [], cf_BridgeName = [], cf_BridgeCIDR = [], cf_BridgeMTU = 0\<rparr>"

record 'w daemon_env = "'w mdns_env" +
  time_Now :: "'w \<Rightarrow> int \<times> 'w"
  Mkdir :: "string \<Rightarrow> 'w \<Rightarrow> gerror option \<times> 'w"

record 'w daemon_state = "'w mdns_state" +
  dnsCache :: "(string \<times> cacheEntry) list"
  queryChan :: "ServiceEntry list"      \<comment> \<open>sent to the goroutine \<open>lookup\<close>\<close>
  bonjours :: "Bonjour list"            \<comment> \<open>the services whose goroutines run\<close>
  DaemonConfig :: Configuration         \<comment> \<open>\<open>d.Configuration\<close>\<close>
  clusterListener :: string
  bootstrapNode :: bool
  serial_receiver :: bool

subsection \<open>Discovery of peers\<close>

definition publishOnce :: "('w, 'x) mdns_env_scheme \<Rightarrow> Bonjour \<Rightarrow> (('w, 'z) mdns_state_scheme, unit) comp" where
  "publishOnce E b =
     bindM (if bj_InterfaceName b \<noteq> [] then
              bindM (outside (InterfaceByName E (bj_InterfaceName b))) (\<lambda>r.
                retM (case r of Inl err \<Rightarrow> None | Inr iface \<Rightarrow> Some iface))
            else retM None) (\<lambda>iface.
     bindM (outside (Hostname E)) (\<lambda>r.
     thenM (bonjour_Register E (case r of Inl err \<Rightarrow> [] | Inr name \<Rightarrow> name) (bj_ServiceName b) (bj_ServiceDomain b) (bj_ServicePort b)
              [''txtv=1'', ''key1=val1'', ''key2=val2''] iface (bj_BindToIntf b)) (retM ())))"

text \<open>One round of \<open>lookup\<close>: the next entry that has no address is asked for.\<close>

definition bonjour_lookup :: "('w, 'x) daemon_env_scheme \<Rightarrow> (('w, 'z) daemon_state_scheme, unit) comp" where
  "bonjour_lookup E = bindM (getM queryChan) (\<lambda>q. case q of
       [] \<Rightarrow> retM ()
     | e # es \<Rightarrow> thenM (modifyM (\<lambda>s. s\<lparr>queryChan := es\<rparr>))
         (thenM (Lookup E (se_Instance e) (se_Service e) (se_Domain e)) (retM ())))"

text \<open>One entry that was found; \<open>newMember\<close> and \<open>removeMember\<close> are the methods of \<open>b.Notify\<close>.\<close>

definition resolve_entry :: "('w, 'x) daemon_env_scheme \<Rightarrow> (bytes \<Rightarrow> (('w, 'z) daemon_state_scheme, unit) comp) \<Rightarrow>
    (bytes \<Rightarrow> (('w, 'z) daemon_state_scheme, unit) comp) \<Rightarrow> Bonjour \<Rightarrow> ServiceEntry \<Rightarrow> (('w, 'z) daemon_state_scheme, unit) comp" where
  "resolve_entry E newMember removeMember b e =
     (if se_AddrIPv4 e = [] then modifyM (\<lambda>s. s\<lparr>queryChan := queryChan s @ [e]\<rparr>)
      else let key = ip_String (se_AddrIPv4 e) in
        bindM (isMyAddress E key) (\<lambda>mine.
          if mine then retM ()
          else if se_TTL e > 0 then
            bindM (getM (\<lambda>s. map_of (dnsCache s) key)) (\<lambda>known.
            thenM (if known = None then thenM (publishOnce E b) (newMember (se_AddrIPv4 e)) else retM ())
           (bindM (outside (time_Now E)) (\<lambda>now.
            modifyM (\<lambda>s. s\<lparr>dnsCache := AList.update key \<lparr>ce_serviceEntry = e, ce_lastSeen = now\<rparr> (dnsCache s)\<rparr>))))
          else thenM (removeMember (se_AddrIPv4 e)) (modifyM (\<lambda>s. s\<lparr>dnsCache := AList.delete key (dnsCache s)\<rparr>))))"

text \<open>The loop over the entries that have been found so far.\<close>

definition bonjour_resolve :: "('w, 'x) daemon_env_scheme \<Rightarrow> (bytes \<Rightarrow> (('w, 'z) daemon_state_scheme, unit) comp) \<Rightarrow>
    (bytes \<Rightarrow> (('w, 'z) daemon_state_scheme, unit) comp) \<Rightarrow> Bonjour \<Rightarrow> ServiceEntry list \<Rightarrow> (('w, 'z) daemon_state_scheme, unit) comp" where
  "bonjour_resolve E newMember removeMember b results =
     thenM (Browse E (bj_ServiceName b) (bj_ServiceDomain b))
       (notify_all (resolve_entry E newMember removeMember b) results)"

text \<open>One round of \<open>keepAlive\<close>: entries not seen for a minute are removed.\<close>

definition expire :: "('w, 'x) daemon_env_scheme \<Rightarrow> (bytes \<Rightarrow> (('w, 'z) daemon_state_scheme, unit) comp) \<Rightarrow> string \<Rightarrow>
    (('w, 'z) daemon_state_scheme, unit) comp" where
  "expire E removeMember key = bindM (getM (\<lambda>s. map_of (dnsCache s) key)) (\<lambda>r. case r of
       None \<Rightarrow> retM ()
     | Some e \<Rightarrow> bindM (outside (time_Now E)) (\<lambda>now.
         if now - ce_lastSeen e > 60 * 1000000000 then
           thenM (removeMember (ParseIP key)) (modifyM (\<lambda>s. s\<lparr>dnsCache := AList.delete key (dnsCache s)\<rparr>))
         else retM ()))"

definition keepAlive_round :: "('w, 'x) daemon_env_scheme \<Rightarrow> (bytes \<Rightarrow> (('w, 'z) daemon_state_scheme, unit) comp) \<Rightarrow>
    (('w, 'z) daemon_state_scheme, unit) comp" where
  "keepAlive_round E removeMember = bindM (getM dnsCache) (\<lambda>c.
     notify_all (expire E removeMember) (range_order E (map fst c)))"

definition NewMember :: "('w, 'x) cluster_env_scheme \<Rightarrow> bytes \<Rightarrow> (('w, 'z) bridge_state_scheme, unit) comp" where
  "NewMember E addr = thenM (JoinDatastore E (ip_String addr)) (thenM (AddPeer E (ip_String addr)) (retM ()))"

definition RemoveMember :: "('w, 'x) cluster_env_scheme \<Rightarrow> bytes \<Rightarrow> (('w, 'z) bridge_state_scheme, unit) comp" where
  "RemoveMember E addr = thenM (DeletePeer E (ip_String addr)) (retM ())"

definition DOCKER_CLUSTER_SERVICE :: string where
  "DOCKER_CLUSTER_SERVICE = ''_docker._cluster''"

definition DOCKER_CLUSTER_SERVICE_PORT :: int where
  "DOCKER_CLUSTER_SERVICE_PORT = 9999"

definition DOCKER_CLUSTER_DOMAIN :: string where
  "DOCKER_CLUSTER_DOMAIN = ''local''"

text \<open>\<open>Start\<close>: the goroutines it starts belong to the service in \<open>bonjours\<close>.\<close>

definition bonjour_Start :: "('w, 'x) daemon_env_scheme \<Rightarrow> Bonjour \<Rightarrow> (('w, 'z) daemon_state_scheme, gerror option) comp" where
  "bonjour_Start E b = thenM (modifyM (\<lambda>s. s\<lparr>dnsCache := [], queryChan := []\<rparr>))
     (guardM (NewResolver E None) (thenM (modifyM (\<lambda>s. s\<lparr>bonjours := bonjours s @ [b]\<rparr>)) (retM None)))"

definition Bonjour_service :: "string \<Rightarrow> Bonjour" where
  "Bonjour_service intfName = \<lparr>bj_ServiceName = DOCKER_CLUSTER_SERVICE, bj_ServiceDomain = DOCKER_CLUSTER_DOMAIN,
     bj_ServicePort = DOCKER_CLUSTER_SERVICE_PORT, bj_InterfaceName = intfName, bj_BindToIntf = True\<rparr>"

definition daemon_Bonjour :: "('w, 'x) daemon_env_scheme \<Rightarrow> string \<Rightarrow> (('w, 'z) daemon_state_scheme, unit) comp" where
  "daemon_Bonjour E intfName = thenM (bonjour_Start E (Bonjour_service intfName)) (retM ())"


subsection \<open>The daemon\<close>

datatype cluster_action = ClusterBind | ClusterJoin | ClusterLeave

record ClusterContext =
  cl_Param :: string
  cl_Action :: cluster_action

definition NewDaemon :: "('w, 'z) daemon_state_scheme \<Rightarrow> ('w, 'z) daemon_state_scheme" where
  "NewDaemon s = s\<lparr>DaemonConfig := Configuration_zero, Connections := [], clusterListener := [], bootstrapNode := False\<rparr>"

definition isDebugEnabled :: "DaemonCfg \<Rightarrow> cli_Context \<Rightarrow> bool" where
  "isDebugEnabled cfg ctx = (if ctx_App ctx \<and> \<not> ctx_IsSet ctx ''debug'' then dc_Debug cfg else ctx_Bool ctx ''debug'')"

definition isBootstrapNode :: "DaemonCfg \<Rightarrow> cli_Context \<Rightarrow> bool" where
  "isBootstrapNode cfg ctx = (if ctx_App ctx \<and> \<not> ctx_IsSet ctx ''bootstrap'' then dc_Bootstrap cfg else ctx_Bool ctx ''bootstrap'')"

definition serial_send :: "(('w, 'z) daemon_state_scheme, unit) comp" where
  "serial_send = bindM (getM serial_receiver) (\<lambda>r.
     if r then modifyM (\<lambda>s. s\<lparr>serial_receiver := False\<rparr>) else liftO NoReturn)"

fun identifyInterfaceToBind :: "nat \<Rightarrow> ('w, 'x) daemon_env_scheme \<Rightarrow> (('w, 'z) daemon_state_scheme, NetInterface) comp" where
  "identifyInterfaceToBind 0 E = liftO NoReturn"
| "identifyInterfaceToBind (Suc n) E = bindM (getM clusterListener) (\<lambda>cl.
     bindM (if cl \<noteq> [] then
              bindM (outside (InterfaceByName E cl)) (\<lambda>r. retM (case r of Inl _ \<Rightarrow> None | Inr intf \<Rightarrow> Some intf))
            else InterfaceToBind E) (\<lambda>intf.
     case intf of Some i \<Rightarrow> retM i | None \<Rightarrow> identifyInterfaceToBind n E))"

definition daemon_unmarshal :: "Connection store \<Rightarrow> string \<Rightarrow> gerror + Connection" where
  "daemon_unmarshal st val = (case Unmarshal st val Connection_zero of (None, c) \<Rightarrow> Inr c | (Some err, _) \<Rightarrow> Inl err)"

text \<open>The field names of a connection in JSON.\<close>

definition OvsConnection_store :: "OvsConnection store" where
  "OvsConnection_store = store_struct ''daemon.OvsConnection''
     [(''name'', store_string (\<lambda>v c. c\<lparr>ovc_Name := v\<rparr>)),
      (''ip'', store_string (\<lambda>v c. c\<lparr>ovc_Ip := v\<rparr>)),
      (''subnet'', store_string (\<lambda>v c. c\<lparr>ovc_Subnet := v\<rparr>)),
      (''mac'', store_string (\<lambda>v c. c\<lparr>ovc_Mac := v\<rparr>)),
      (''gateway'', store_string (\<lambda>v c. c\<lparr>ovc_Gateway := v\<rparr>))]"

definition Connection_store :: "Connection store" where
  "Connection_store = store_struct ''daemon.Connection''
     [(''container_id'', store_string (\<lambda>v c. c\<lparr>con_ContainerID := v\<rparr>)),
      (''container_name'', store_string (\<lambda>v c. c\<lparr>con_ContainerName := v\<rparr>)),
      (''container_pid'', store_string (\<lambda>v c. c\<lparr>con_ContainerPID := v\<rparr>)),
      (''network'', store_string (\<lambda>v c. c\<lparr>con_Network := v\<rparr>)),
      (''ovs_port_id'', store_string (\<lambda>v c. c\<lparr>con_OvsPortID := v\<rparr>)),
      (''connection_details'', \<lambda>j c. let (e, d) = OvsConnection_store j (con_ConnectionDetails c) in (e, c\<lparr>con_ConnectionDetails := d\<rparr>))]"

definition populateConnections :: "('w, 'x) http_env_scheme \<Rightarrow> (('w, 'z) daemon_state_scheme, unit) comp" where
  "populateConnections E = bindM (getM ContextCache) (\<lambda>cache.
     notify_all (\<lambda>key. case map_of cache key of
         None \<Rightarrow> retM ()
       | Some val \<Rightarrow> (case daemon_unmarshal Connection_store val of
           Inl err \<Rightarrow> retM ()
         | Inr connection \<Rightarrow> modifyM (\<lambda>s. s\<lparr>Connections := AList.update key connection (Connections s)\<rparr>)))
       (range_order E (map fst cache)))"

text \<open>\<open>Run\<close> up to its goroutines; then the goroutine that binds, and the one that sets up the network.\<close>

definition Run_init :: "('w, 'x) daemon_env_scheme \<Rightarrow> DaemonCfg \<Rightarrow> cli_Context \<Rightarrow> (('w, 'z) daemon_state_scheme, unit) comp" where
  "Run_init E cfg ctx =
     thenM (modifyM (\<lambda>s. s\<lparr>bootstrapNode := isBootstrapNode cfg ctx, serial_receiver := \<not> isBootstrapNode cfg ctx\<rparr>))
    (thenM (outside (Mkdir E ''/var/run/netns'')) (retM ()))"

definition Run_bind :: "nat \<Rightarrow> ('w, 'x) daemon_env_scheme \<Rightarrow> cli_Context \<Rightarrow> (('w, 'z) daemon_state_scheme, unit) comp" where
  "Run_bind n E ctx =
     bindM (if ctx_String ctx ''iface'' \<noteq> ''auto'' then retM (ctx_String ctx ''iface'')
            else bindM (identifyInterfaceToBind n E) (\<lambda>intf. retM (ni_Name intf))) (\<lambda>bindInterface.
     thenM (if bindInterface \<noteq> [] then modifyM (\<lambda>s. s\<lparr>clusterListener := bindInterface\<rparr>) else retM ())
    (bindM (getM bootstrapNode) (\<lambda>boot.
     thenM (InitDatastore E bindInterface boot)
    (thenM (daemon_Bonjour E bindInterface)
    (bindM (getM bootstrapNode) (\<lambda>boot. if \<not> boot then serial_send else retM ()))))))"

text \<open>The receive has succeeded when the goroutine goes on.\<close>

definition Run_network :: "nat \<Rightarrow> ('w, 'x) daemon_env_scheme \<Rightarrow> (('w, 'z) daemon_state_scheme, unit) comp" where
  "Run_network f E = bindM (getM serial_receiver) (\<lambda>waiting.
     if waiting then liftO NoReturn
     else thenM (CreateBridge E)
         (thenM (populateConnections E)
         (thenM (CreateDefaultNetwork f E) (retM ()))))"

subsection \<open>Requests to the cluster\<close>

definition clusterBindRPC :: "('w, 'x) daemon_env_scheme \<Rightarrow> string \<Rightarrow> (('w, 'z) daemon_state_scheme, gerror option) comp" where
  "clusterBindRPC E bindInterface = bindM (getM clusterListener) (\<lambda>cl.
     if bindInterface = cl then retM (Some (Err ''Bind Interface is the same as currently bound interface''))
     else let once = (cl = []) in
       thenM (if cl \<noteq> [] then thenM (LeaveDatastore E) (retM ()) else retM ())
      (thenM (modifyM (\<lambda>s. s\<lparr>clusterListener := bindInterface\<rparr>))
      (bindM (getM bootstrapNode) (\<lambda>boot.
       thenM (InitDatastore E bindInterface boot)
      (bindM (getM bootstrapNode) (\<lambda>boot.
       thenM (if \<not> boot \<and> once then serial_send else retM ()) (retM None)))))))"

definition clusterJoinRPC :: "('w, 'x) daemon_env_scheme \<Rightarrow> string \<Rightarrow> (('w, 'z) daemon_state_scheme, gerror option) comp" where
  "clusterJoinRPC E joinAddress = tryM (GetIfaceForRoute E joinAddress) (\<lambda>bindInterface.
     bindM (getM clusterListener) (\<lambda>cl.
     thenM (if cl \<noteq> bindInterface then
              thenM (LeaveDatastore E)
             (thenM (modifyM (\<lambda>s. s\<lparr>bootstrapNode := False, clusterListener := bindInterface\<rparr>))
             (thenM (InitDatastore E bindInterface False) (retM ())))
            else retM ())
    (thenM (JoinDatastore E joinAddress) (retM None))))"

definition ClusterRPCHandler :: "('w, 'x) daemon_env_scheme \<Rightarrow> ClusterContext \<Rightarrow> (('w, 'z) daemon_state_scheme, unit) comp" where
  "ClusterRPCHandler E c = (case cl_Action c of
       ClusterBind \<Rightarrow> thenM (clusterBindRPC E (cl_Param c)) (retM ())
     | ClusterJoin \<Rightarrow> thenM (clusterJoinRPC E (cl_Param c)) (retM ())
     | ClusterLeave \<Rightarrow> thenM (LeaveDatastore E) (retM ()))"

text \<open>
  The two calls of the API.  They return when the handler has taken the request; the
  request itself is the last component.
\<close>

definition ConfigureClusterListenerPort :: "('w, 'x) cluster_env_scheme \<Rightarrow> string \<Rightarrow>
    (('w, 'z) ecc_state_scheme, gerror + ClusterContext) comp" where
  "ConfigureClusterListenerPort E listen = tryE (outside (InterfaceByName E listen)) (\<lambda>iface.
     if ni_Flags iface AND FlagUp = 0 then retM (Inl (Err ''Interface is down''))
     else retM (Inr \<lparr>cl_Param = listen, cl_Action = ClusterBind\<rparr>))"

definition JoinCluster :: "string \<Rightarrow> gerror + ClusterContext" where
  "JoinCluster address = (if ParseIP address = [] then Inl (Err ''Invalid IP address'')
     else Inr \<lparr>cl_Param = address, cl_Action = ClusterJoin\<rparr>)"


subsection \<open>Starting leaves the daemon's own fields alone\<close>

definition keeps_daemon :: "('w, 'z) daemon_state_scheme \<Rightarrow> ('w, 'z) daemon_state_scheme \<Rightarrow> bool" where
  "keeps_daemon s s' \<longleftrightarrow> clusterListener s' = clusterListener s \<and> bootstrapNode s' = bootstrapNode s \<and> serial_receiver s' = serial_receiver s"

lemma keeps_daemon_refl: "reflp keeps_daemon"
  by (simp add: reflp_def keeps_daemon_def)

lemma keeps_daemon_trans: "transp keeps_daemon"
  by (auto simp: transp_def keeps_daemon_def)

lemma always_notify_all [always_intros]:
  "reflp Q \<Longrightarrow> transp Q \<Longrightarrow> (\<And>x. always Q (f x)) \<Longrightarrow> always Q (notify_all f xs)"
  by (induction xs) (auto intro: always_ret always_then)

lemma always_keeps_outside: "always keeps_daemon (outside f)"
  by (intro always_outside) (simp add: keeps_daemon_def)

lemma always_keeps_go: "always keeps_daemon (go g)"
  unfolding go_def by (intro always_modify) (simp add: keeps_daemon_def)

lemmas always_daemon = keeps_daemon_refl keeps_daemon_trans always_ret always_bind always_then always_guard always_tryM always_tryE
  always_get always_notify_all always_keeps_outside always_keeps_go

lemma InitDatastore_always: "always keeps_daemon (InitDatastore E i b)"
proof -
  have w: "always keeps_daemon (watchForExistingRegisteredUpdates E)"
    unfolding watchForExistingRegisteredUpdates_def by (auto intro!: always_daemon split: WatchType.splits)
  have "always keeps_daemon (Start E b b i dataDir)"
    unfolding Start_def startConsul_def by (auto intro!: always_daemon w split: option.splits)
  then show ?thesis unfolding InitDatastore_def by (auto intro!: always_daemon)
qed

lemma daemon_Bonjour_always: "always keeps_daemon (daemon_Bonjour E i)"
proof -
  have "always keeps_daemon (newClient E None)"
    using newClient_always[of E None] unfolding always_def only_world_def keeps_daemon_def by fastforce
  then have "always keeps_daemon (NewResolver E None)"
    unfolding NewResolver_def by (auto intro!: always_daemon always_modify simp: keeps_daemon_def)
  then show ?thesis unfolding daemon_Bonjour_def bonjour_Start_def
    by (auto intro!: always_daemon always_modify simp: keeps_daemon_def)
qed

lemma alwaysE:
  assumes "always Q m"
  obtains a s' where "m s = (Ret a, s')" "Q s s'"
  using assms unfolding always_def by blast

subsection \<open>What the discovery tells\<close>

text \<open>A state that records the calls of \<open>NewMember\<close> (\<open>True\<close>) and \<open>RemoveMember\<close>.\<close>

record 'w member_state = "'w daemon_state" +
  member_log :: "(bool \<times> string) list"

definition log_member :: "bool \<Rightarrow> bytes \<Rightarrow> (('w, 'z) member_state_scheme, unit) comp" where
  "log_member new addr = modifyM (\<lambda>s. s\<lparr>member_log := member_log s @ [(new, ip_String addr)]\<rparr>)"

fun follow :: "(bool \<times> string) list \<Rightarrow> string set \<Rightarrow> string set" where
  "follow [] S = S"
| "follow ((new, a) # calls) S = follow calls (if new then insert a S else S - {a})"

lemma follow_append [simp]: "follow (xs @ ys) S = follow ys (follow xs S)"
  by (induction xs arbitrary: S) auto

datatype discovery = Found ServiceEntry | KeepAlive

definition discover :: "('w, 'x) daemon_env_scheme \<Rightarrow> Bonjour \<Rightarrow> discovery \<Rightarrow> (('w, 'z) member_state_scheme, unit) comp" where
  "discover E b ev = (case ev of
       Found e \<Rightarrow> resolve_entry E (log_member True) (log_member False) b e
     | KeepAlive \<Rightarrow> keepAlive_round E (log_member False))"

text \<open>The addresses in the cache are IPv4 addresses in text; the 16 bytes of an IPv4 address print as its four.\<close>

lemma ip_String_To4:
  assumes "To4 a \<noteq> []"
  shows "\<exists>b. length b = 4 \<and> ip_String a = ip_String b"
proof -
  have "length (To4 a) = 4" "To4 (To4 a) = To4 a" "a \<noteq> []" using assms by (auto simp: To4_def split: if_splits)
  moreover from this have "To4 a \<noteq> []" by auto
  ultimately show ?thesis by (intro exI[of _ "To4 a"]) (simp add: ip_String_def)
qed

definition members :: "('w, 'z) daemon_state_scheme \<Rightarrow> string set" where
  "members s = dom (map_of (dnsCache s))"

definition v4_members :: "('w, 'z) daemon_state_scheme \<Rightarrow> bool" where
  "v4_members s \<longleftrightarrow> (\<forall>k\<in>members s. \<exists>a. length a = 4 \<and> k = ip_String a)"

definition told_members :: "('w, 'z) member_state_scheme \<Rightarrow> ('w, 'z) member_state_scheme \<Rightarrow> bool" where
  "told_members s s' \<longleftrightarrow> (v4_members s \<longrightarrow> v4_members s' \<and>
     (\<exists>calls. member_log s' = member_log s @ calls \<and> follow calls (members s) = members s'))"

lemma told_members_refl: "reflp told_members"
  unfolding reflp_def told_members_def by (metis append_Nil2 follow.simps(1))

lemma told_members_trans: "transp told_members"
proof (rule transpI)
  fix s t u :: "('w, 'z) member_state_scheme"
  assume *: "told_members s t" "told_members t u"
  show "told_members s u"
    unfolding told_members_def
  proof
    assume "v4_members s"
    then obtain c d where "member_log t = member_log s @ c" "follow c (members s) = members t" "v4_members u"
      "member_log u = member_log t @ d" "follow d (members t) = members u"
      using * unfolding told_members_def by blast
    then show "v4_members u \<and> (\<exists>calls. member_log u = member_log s @ calls \<and> follow calls (members s) = members u)"
      by (intro conjI exI[of _ "c @ d"]) simp_all
  qed
qed

lemma isMyAddress_run: obtains mine w where "isMyAddress E key s = (Ret mine, s\<lparr>world := w\<rparr>)"
proof -
  have "always only_world (isMyAddress E key)" unfolding isMyAddress_def by (auto intro!: always_query split: sum.splits)
  then show ?thesis using that unfolding always_def only_world_def by blast
qed

lemma publishOnce_run:
  obtains s' where "publishOnce E b s = (Ret (), s')" "dnsCache s' = dnsCache s" "member_log s' = member_log s"
proof -
  have "always only_servers (publishOnce E b)"
    unfolding publishOnce_def by (auto intro!: always_register bonjour_Register_always)
  then obtain a s' where "publishOnce E b s = (Ret a, s')" "only_servers s s'" by (rule alwaysE)
  then show ?thesis using that by (auto simp: only_servers_def)
qed

lemma members_simps [simp]:
  "members (s\<lparr>world := w\<rparr>) = members s" "members (s\<lparr>dnsCache := AList.update k v (dnsCache t)\<rparr>) = insert k (members t)"
  "members (s\<lparr>dnsCache := AList.delete k (dnsCache t)\<rparr>) = members t - {k}"
  by (auto simp: members_def AList.update_conv' AList.delete_conv')

lemma resolve_entry_tells:
  assumes "se_AddrIPv4 e = [] \<or> To4 (se_AddrIPv4 e) \<noteq> []"
  shows "\<exists>s'. resolve_entry E (log_member True) (log_member False) b e s = (Ret (), s') \<and> told_members s s'"
proof (cases "se_AddrIPv4 e = []")
  case True
  then show ?thesis by (auto simp: resolve_entry_def run_simps told_members_def v4_members_def members_def intro!: exI[of _ "[]"])
next
  case False
  define key where "key = ip_String (se_AddrIPv4 e)"
  have a: "\<exists>b. length b = 4 \<and> key = ip_String b" unfolding key_def using assms False by (intro ip_String_To4) simp
  obtain mine w where m: "isMyAddress E key s = (Ret mine, s\<lparr>world := w\<rparr>)" by (rule isMyAddress_run)
  obtain s1 where p: "publishOnce E b (s\<lparr>world := w\<rparr>) = (Ret (), s1)" "dnsCache s1 = dnsCache s" "member_log s1 = member_log s"
    by (rule publishOnce_run[of E b "s\<lparr>world := w\<rparr>"]) simp
  have "members s1 = members s" using p(2) by (simp add: members_def)
  note p = p this
  have v: "v4_members s \<Longrightarrow> \<forall>k\<in>insert key (members s). \<exists>a. length a = 4 \<and> k = ip_String a"
    using a unfolding v4_members_def by auto
  show ?thesis
  proof (cases "map_of (dnsCache s) key")
    case None
    then show ?thesis using False m p v
      by (cases mine; cases "se_TTL e > 0")
        (auto simp: resolve_entry_def run_simps key_def[symmetric] log_member_def told_members_def v4_members_def Let_def
          intro!: exI[of _ "[]"] exI[of _ "[(True, key)]"] exI[of _ "[(False, key)]"])
  next
    case (Some ce)
    then have "insert key (members s) = members s" by (auto simp: members_def)
    then show ?thesis using False m Some v
      by (cases mine; cases "se_TTL e > 0")
        (auto simp: resolve_entry_def run_simps key_def[symmetric] log_member_def told_members_def v4_members_def Let_def
          intro!: exI[of _ "[]"] exI[of _ "[(False, key)]"])
  qed
qed

lemma ip_String_ParseIP: "length a = 4 \<Longrightarrow> ip_String (ParseIP (ip_String a)) = ip_String a"
proof -
  assume a: "length a = 4"
  then have "To4 (v4InV6Prefix @ a) = a" "v4InV6Prefix @ a \<noteq> []" by (simp, simp add: v4InV6Prefix_def)
  then have "ip_String (v4InV6Prefix @ a) = dotted a" using a by (simp add: ip_String_def)
  then show ?thesis unfolding ParseIP_ip_String[OF a] using a by (simp add: ip_String_v4)
qed

lemma expire_tells: "\<exists>s'. expire E (log_member False) key s = (Ret (), s') \<and> told_members s s'"
proof (cases "map_of (dnsCache s) key")
  case None
  then show ?thesis using told_members_refl by (auto simp: expire_def run_simps reflp_def)
next
  case (Some ce)
  then have k: "key \<in> members s" by (auto simp: members_def)
  have "ip_String (ParseIP key) = key" if "v4_members s"
    using that k ip_String_ParseIP unfolding v4_members_def by auto
  then show ?thesis using Some
    by (auto simp: expire_def run_simps log_member_def told_members_def v4_members_def intro!: exI[of _ "[]"] exI[of _ "[(False, key)]"])
qed

lemma keepAlive_tells: "\<exists>s'. keepAlive_round E (log_member False) s = (Ret (), s') \<and> told_members s s'"
proof -
  have "always told_members (expire E (log_member False) key)" for key
    using expire_tells[of E key] unfolding always_def by blast
  then have "always told_members (keepAlive_round E (log_member False))"
    unfolding keepAlive_round_def by (intro always_bind always_get always_notify_all told_members_refl told_members_trans)
  then obtain a s' where "keepAlive_round E (log_member False) s = (Ret a, s')" "told_members s s'" by (rule alwaysE)
  then show ?thesis by auto
qed

subsection \<open>Properties\<close>

text \<open>C10. What the discovery of peers reports is what it knows: after any sequence of service
  records (without an address or with an IPv4 address in four or sixteen bytes) and rounds of the keep-alive, the
  members reported as new and not reported as gone since are those in its cache.\<close>

theorem bonjour_members_tracked:
  assumes "v4_members s" "\<And>e. Found e \<in> set evs \<Longrightarrow> se_AddrIPv4 e = [] \<or> To4 (se_AddrIPv4 e) \<noteq> []"
  shows "\<exists>s' calls. notify_all (discover E b) evs s = (Ret (), s') \<and> member_log s' = member_log s @ calls \<and>
    follow calls (members s) = members s'"
proof -
  have "\<exists>s'. notify_all (discover E b) evs s = (Ret (), s') \<and> told_members s s'"
    using assms(2)
  proof (induction evs arbitrary: s)
    case Nil
    then show ?case using told_members_refl by (auto simp: run_simps reflp_def)
  next
    case (Cons ev evs)
    have "\<exists>s1. discover E b ev s = (Ret (), s1) \<and> told_members s s1"
    proof (cases ev)
      case (Found e)
      then show ?thesis using Cons.prems[of e] resolve_entry_tells[of e E b s] by (simp add: discover_def)
    qed (simp add: discover_def keepAlive_tells)
    then obtain s1 where 1: "discover E b ev s = (Ret (), s1)" "told_members s s1" by blast
    obtain s2 where 2: "notify_all (discover E b) evs s1 = (Ret (), s2)" "told_members s1 s2"
      using Cons.IH[of s1] Cons.prems by auto
    then show ?case using 1 transpD[OF told_members_trans 1(2) 2(2)] by (simp add: run_simps)
  qed
  then show ?thesis using assms(1) unfolding told_members_def by blast
qed

text \<open>C40. On a node that is not the bootstrap node and was started with an empty interface,
  the first request to bind to an interface never returns: the goroutine that would
  receive on the serial channel has received the one value it waits for, and with it
  the goroutine that serves all requests to the cluster is blocked for ever.\<close>

theorem cluster_bind_blocks:
  assumes "\<not> isBootstrapNode cfg ctx" "ctx_String ctx ''iface'' = []" "clusterListener s = []" "iface \<noteq> []"
  shows "\<exists>s1 s2. thenM (Run_init E cfg ctx) (Run_bind n E ctx) s = (Ret (), s1) \<and>
    ClusterRPCHandler E \<lparr>cl_Param = iface, cl_Action = ClusterBind\<rparr> s1 = (NoReturn, s2)"
proof -
  obtain t where t: "Run_init E cfg ctx s = (Ret (), t)" "clusterListener t = []" "\<not> bootstrapNode t" "serial_receiver t"
    using assms(1,3) by (simp add: Run_init_def run_simps)
  obtain e t1 where i: "InitDatastore E [] False t = (Ret e, t1)" "keeps_daemon t t1" by (rule alwaysE[OF InitDatastore_always])
  obtain t2 where j: "daemon_Bonjour E [] t1 = (Ret (), t2)" "keeps_daemon t1 t2" by (rule alwaysE[OF daemon_Bonjour_always]) simp
  define s1 where "s1 = t2\<lparr>serial_receiver := False\<rparr>"
  have run: "Run_bind n E ctx t = (Ret (), s1)"
    using assms(2) t i j by (simp add: Run_bind_def run_simps keeps_daemon_def serial_send_def s1_def)
  have s1: "clusterListener s1 = []" "\<not> bootstrapNode s1" "\<not> serial_receiver s1"
    using t i(2) j(2) by (simp_all add: s1_def keeps_daemon_def)
  obtain e2 u where k: "InitDatastore E iface False (s1\<lparr>clusterListener := iface\<rparr>) = (Ret e2, u)"
    "keeps_daemon (s1\<lparr>clusterListener := iface\<rparr>) u" by (rule alwaysE[OF InitDatastore_always])
  have "ClusterRPCHandler E \<lparr>cl_Param = iface, cl_Action = ClusterBind\<rparr> s1 = (NoReturn, u)"
    using s1 k assms(4) by (simp add: ClusterRPCHandler_def clusterBindRPC_def run_simps keeps_daemon_def serial_send_def Let_def)
  then show ?thesis using t(1) run by (simp add: run_simps)
qed


text \<open>C38. The farewell of a peer is never heard: its message, in which everything has the time
  to live 0, leads to no entry, and for no message of the network does the discovery take
  the branch for members that are gone, as what it would call there does not matter.  Members
  leave by the time-out alone.\<close>

theorem farewell_not_heard:
  "client_message E lps (composeLookupAnswers e 0 dns_Msg_zero) = [] \<and>
   notify_all (resolve_entry E newMember removeMember b) (client_message E lps msg) =
     notify_all (resolve_entry E newMember removeMember' b) (client_message E lps msg)"
proof
  have r: "resolve_entry E newMember removeMember b x = resolve_entry E newMember removeMember' b x" if "se_TTL x \<noteq> 0" for x
    using that by (simp add: resolve_entry_def Let_def word_neq_0_conv)
  have "notify_all (resolve_entry E newMember removeMember b) xs = notify_all (resolve_entry E newMember removeMember' b) xs"
    if "\<forall>x\<in>set xs. se_TTL x \<noteq> 0" for xs
    using that by (induction xs) (auto simp: r)
  then show "notify_all (resolve_entry E newMember removeMember b) (client_message E lps msg) =
     notify_all (resolve_entry E newMember removeMember' b) (client_message E lps msg)"
    using client_message_alive by blast
qed (rule client_message_farewell)

definition member_node :: "kvs_store member_state" where
  "member_node = daemon_state.extend (mdns_state.extend mdns_node (daemon_state.fields [] [] [] Configuration_zero [] False False)) (member_state.fields [])"

lemma member_node_simps: "dnsCache member_node = []" "member_log member_node = []" "clusterListener member_node = []"
  by (simp_all add: member_node_def mdns_node_def cluster_state.defs mdns_state.defs daemon_state.defs watch_state.defs member_state.defs)

theorem bonjour_members_tracked_witness:
  "\<forall>E :: kvs_store daemon_env. \<exists>s' calls. notify_all (discover E (Bonjour_service ''eth0'')) [Found (peer_entry 120), KeepAlive] member_node = (Ret (), s') \<and>
     member_log s' = calls \<and> follow calls {} = members s'"
proof
  fix E :: "kvs_store daemon_env"
  have m: "members member_node = {}" "v4_members member_node" by (simp_all add: members_def v4_members_def member_node_simps)
  show "\<exists>s' calls. notify_all (discover E (Bonjour_service ''eth0'')) [Found (peer_entry 120), KeepAlive] member_node = (Ret (), s') \<and>
     member_log s' = calls \<and> follow calls {} = members s'"
    using bonjour_members_tracked[OF m(2), of "[Found (peer_entry 120), KeepAlive]" E "Bonjour_service ''eth0''"] m(1)
    by (auto simp: peer_entry_def To4_def IPv4_def v4InV6Prefix_def member_node_simps simp del: notify_all.simps)
qed

definition plain_ctx :: "string \<Rightarrow> cli_Context" where
  "plain_ctx iface = \<lparr>ctx_App = True, ctx_IsSet = (\<lambda>f. f = ''iface''), ctx_Bool = (\<lambda>f. False), ctx_String = (\<lambda>f. if f = ''iface'' then iface else [])\<rparr>"

theorem cluster_bind_blocks_witness:
  "\<forall>E :: kvs_store daemon_env. \<exists>s1 s2.
     thenM (Run_init E \<lparr>dc_Bootstrap = False, dc_Debug = False\<rparr> (plain_ctx [])) (Run_bind 1 E (plain_ctx [])) member_node = (Ret (), s1) \<and>
     ClusterRPCHandler E \<lparr>cl_Param = ''eth0'', cl_Action = ClusterBind\<rparr> s1 = (NoReturn, s2)"
proof
  fix E :: "kvs_store daemon_env"
  show "\<exists>s1 s2.
     thenM (Run_init E \<lparr>dc_Bootstrap = False, dc_Debug = False\<rparr> (plain_ctx [])) (Run_bind 1 E (plain_ctx [])) member_node = (Ret (), s1) \<and>
     ClusterRPCHandler E \<lparr>cl_Param = ''eth0'', cl_Action = ClusterBind\<rparr> s1 = (NoReturn, s2)"
    by (rule cluster_bind_blocks) (simp_all add: isBootstrapNode_def plain_ctx_def member_node_simps)
qed

end
