(* ===== verification/Adapter.thy ===== *)
theory Adapter
  imports Cluster "HOL-Library.Sublist"
begin

section \<open>The Powerstrip adapter (powerstrip.go)\<close>

text \<open>
  The hooks Powerstrip calls before and after requests to Docker: the first rewrites
  the configuration of a container so that Docker gives it no network, the second
  connects the started container, or deletes its connection.

  The types of the Docker client are records with their JSON form.  A map is a list of
  pairs in the order of the keys, the order in which it is printed; a map or slice that
  is \<open>nil\<close> is \<open>None\<close>.  An element of an array that is \<open>null\<close> has the zero
  value.  The Docker daemon answers requests by the function \<open>docker_Do\<close> of the
  environment, and decoding the description of a container is the function
  \<open>unmarshal_info\<close>: it involves times, of which the program uses nothing.
\<close>

subsection \<open>Slices and maps in JSON\<close>

fun put_entry :: "string \<Rightarrow> 'v \<Rightarrow> (string \<times> 'v) list \<Rightarrow> (string \<times> 'v) list" where
  "put_entry k v [] = [(k, v)]"
| "put_entry k v ((k', v') # m) =
     (if k = k' then (k, v) # m else if k < k' then (k, v) # (k', v') # m else (k', v') # put_entry k v m)"

definition store_seq :: "'e \<Rightarrow> 'e store \<Rightarrow> ('e list option \<Rightarrow> 's \<Rightarrow> 's) \<Rightarrow> 's store" where
  "store_seq z st upd j s = (case j of
       JNull \<Rightarrow> (None, upd None s)
     | JArr js \<Rightarrow> (let (e, xs) = store_elems z st js in (e, upd (Some xs) s))
     | _ \<Rightarrow> (Some (JSONTypeError (kind j) ''slice''), s))"

fun store_entries :: "'v \<Rightarrow> 'v store \<Rightarrow> (string \<times> json) list \<Rightarrow> (string \<times> 'v) list \<Rightarrow> gerror option \<times> (string \<times> 'v) list" where
  "store_entries z st [] m = (None, m)"
| "store_entries z st ((k, j) # ms) m =
     (let (e, v) = st j z; (e', m') = store_entries z st ms (put_entry k v m) in (first_error e e', m'))"

definition store_dict :: "'v \<Rightarrow> 'v store \<Rightarrow> ('s \<Rightarrow> (string \<times> 'v) list option) \<Rightarrow> ((string \<times> 'v) list option \<Rightarrow> 's \<Rightarrow> 's) \<Rightarrow> 's store" where
  "store_dict z st get upd j s = (case j of
       JNull \<Rightarrow> (None, upd None s)
     | JObj ms \<Rightarrow> (let (e, m) = store_entries z st ms (case get s of None \<Rightarrow> [] | Some m \<Rightarrow> m) in (e, upd (Some m) s))
     | _ \<Rightarrow> (Some (JSONTypeError (kind j) ''map''), s))"

definition store_nested :: "'t store \<Rightarrow> ('s \<Rightarrow> 't) \<Rightarrow> ('t \<Rightarrow> 's \<Rightarrow> 's) \<Rightarrow> 's store" where
  "store_nested st get upd j s = (let (e, t) = st j (get s) in (e, upd t s))"

abbreviation store_strs :: "(string list option \<Rightarrow> 's \<Rightarrow> 's) \<Rightarrow> 's store" where
  "store_strs \<equiv> store_seq [] (store_string (\<lambda>v _. v))"

definition seq_json :: "('e \<Rightarrow> json) \<Rightarrow> 'e list option \<Rightarrow> json" where
  "seq_json f xs = (case xs of None \<Rightarrow> JNull | Some xs \<Rightarrow> JArr (map f xs))"

definition dict_json :: "('v \<Rightarrow> json) \<Rightarrow> (string \<times> 'v) list option \<Rightarrow> json" where
  "dict_json f m = (case m of None \<Rightarrow> JNull | Some m \<Rightarrow> JObj (map (\<lambda>(k, v). (k, f v)) m))"

definition int_json :: "int \<Rightarrow> json" where
  "int_json i = JNum (fmt_d i)"

subsection \<open>The types of the Docker client\<close>

record PortBinding =
  pb_HostIp :: string
  pb_HostPort :: string

record RestartPolicy =
  rp_Name :: string
  rp_MaximumRetryCount :: int

record HostConfig =
  hc_Binds :: "string list option"
  hc_ContainerIDFile :: string
  hc_LxcConf :: "(string \<times> string) list option list option"
  hc_Privileged :: bool
  hc_PortBindings :: "(string \<times> PortBinding list option) list option"
  hc_Links :: "string list option"
  hc_PublishAllPorts :: bool
  hc_Dns :: "string list option"
  hc_DnsSearch :: "string list option"
  hc_VolumesFrom :: "string list option"
  hc_NetworkMode :: string
  hc_RestartPolicy :: RestartPolicy

record ContainerConfig =
  cc_Hostname :: string
  cc_Domainname :: string
  cc_User :: string
  cc_Memory :: int
  cc_MemorySwap :: int
  cc_CpuShares :: int
  cc_Cpuset :: string
  cc_AttachStdin :: bool
  cc_AttachStdout :: bool
  cc_AttachStderr :: bool
  cc_PortSpecs :: "string list option"
  cc_ExposedPorts :: "(string \<times> unit) list option"
  cc_Tty :: bool
  cc_OpenStdin :: bool
  cc_StdinOnce :: bool
  cc_Env :: "string list option"
  cc_Cmd :: "string list option"
  cc_Image :: string
  cc_Volumes :: "(string \<times> unit) list option"
  cc_WorkingDir :: string
  cc_Entrypoint :: "string list option"
  cc_NetworkDisabled :: bool
  cc_OnBuild :: "string list option"
  cc_HostConfig :: HostConfig

text \<open>The fields of a container's description that the adapter reads.\<close>

record ContainerInfo =
  ci_Name :: string
  ci_Config :: "ContainerConfig option"
  ci_Pid :: int

definition PortBinding_zero :: PortBinding where
  "PortBinding_zero = \<lparr>pb_HostIp = [], pb_HostPort = []\<rparr>"

definition HostConfig_zero :: HostConfig where
  "HostConfig_zero = \<lparr>hc_Binds = None, hc_ContainerIDFile = [], hc_LxcConf = None, hc_Privileged = False, hc_PortBindings = None,
     hc_Links = None, hc_PublishAllPorts = False, hc_Dns = None, hc_DnsSearch = None, hc_VolumesFrom = None, hc_NetworkMode = [],
     hc_RestartPolicy = \<lparr>rp_Name = [], rp_MaximumRetryCount = 0\<rparr>\<rparr>"

definition ContainerConfig_zero :: ContainerConfig where
  "ContainerConfig_zero = \<lparr>cc_Hostname = [], cc_Domainname = [], cc_User = [], cc_Memory = 0, cc_MemorySwap = 0, cc_CpuShares = 0,
     cc_Cpuset = [], cc_AttachStdin = False, cc_AttachStdout = False, cc_AttachStderr = False, cc_PortSpecs = None,
     cc_ExposedPorts = None, cc_Tty = False, cc_OpenStdin = False, cc_StdinOnce = False, cc_Env = None, cc_Cmd = None, cc_Image = [],
     cc_Volumes = None, cc_WorkingDir = [], cc_Entrypoint = None, cc_NetworkDisabled = False, cc_OnBuild = None,
     cc_HostConfig = HostConfig_zero\<rparr>"

definition PortBinding_store :: "PortBinding store" where
  "PortBinding_store = store_struct ''dockerclient.PortBinding''
     [(''HostIp'', store_string (\<lambda>v b. b\<lparr>pb_HostIp := v\<rparr>)), (''HostPort'', store_string (\<lambda>v b. b\<lparr>pb_HostPort := v\<rparr>))]"

definition RestartPolicy_store :: "RestartPolicy store" where
  "RestartPolicy_store = store_struct ''dockerclient.RestartPolicy''
     [(''Name'', store_string (\<lambda>v b. b\<lparr>rp_Name := v\<rparr>)), (''MaximumRetryCount'', store_int (\<lambda>v b. b\<lparr>rp_MaximumRetryCount := v\<rparr>))]"

definition HostConfig_fields :: "(string \<times> HostConfig store) list" where
  "HostConfig_fields =
     [(''Binds'', store_strs (\<lambda>v c. c\<lparr>hc_Binds := v\<rparr>)),
      (''ContainerIDFile'', store_string (\<lambda>v c. c\<lparr>hc_ContainerIDFile := v\<rparr>)),
      (''LxcConf'', store_seq None (store_dict [] (store_string (\<lambda>v _. v)) id (\<lambda>m _. m)) (\<lambda>v c. c\<lparr>hc_LxcConf := v\<rparr>)),
      (''Privileged'', store_bool (\<lambda>v c. c\<lparr>hc_Privileged := v\<rparr>)),
      (''PortBindings'', store_dict None (store_seq PortBinding_zero PortBinding_store (\<lambda>v _. v)) hc_PortBindings
          (\<lambda>v c. c\<lparr>hc_PortBindings := v\<rparr>)),
      (''Links'', store_strs (\<lambda>v c. c\<lparr>hc_Links := v\<rparr>)),
      (''PublishAllPorts'', store_bool (\<lambda>v c. c\<lparr>hc_PublishAllPorts := v\<rparr>)),
      (''Dns'', store_strs (\<lambda>v c. c\<lparr>hc_Dns := v\<rparr>)),
      (''DnsSearch'', store_strs (\<lambda>v c. c\<lparr>hc_DnsSearch := v\<rparr>)),
      (''VolumesFrom'', store_strs (\<lambda>v c. c\<lparr>hc_VolumesFrom := v\<rparr>)),
      (''NetworkMode'', store_string (\<lambda>v c. c\<lparr>hc_NetworkMode := v\<rparr>)),
      (''RestartPolicy'', store_nested RestartPolicy_store hc_RestartPolicy (\<lambda>v c. c\<lparr>hc_RestartPolicy := v\<rparr>))]"

definition HostConfig_store :: "HostConfig store" where
  "HostConfig_store = store_struct ''dockerclient.HostConfig'' HostConfig_fields"

text \<open>The values of the maps to \<open>struct{}\<close>.\<close>

definition empty_store :: "unit store" where
  "empty_store = store_struct ''struct {}'' []"

definition ContainerConfig_fields :: "(string \<times> ContainerConfig store) list" where
  "ContainerConfig_fields =
     [(''Hostname'', store_string (\<lambda>v c. c\<lparr>cc_Hostname := v\<rparr>)),
      (''Domainname'', store_string (\<lambda>v c. c\<lparr>cc_Domainname := v\<rparr>)),
      (''User'', store_string (\<lambda>v c. c\<lparr>cc_User := v\<rparr>)),
      (''Memory'', store_int (\<lambda>v c. c\<lparr>cc_Memory := v\<rparr>)),
      (''MemorySwap'', store_int (\<lambda>v c. c\<lparr>cc_MemorySwap := v\<rparr>)),
      (''CpuShares'', store_int (\<lambda>v c. c\<lparr>cc_CpuShares := v\<rparr>)),
      (''Cpuset'', store_string (\<lambda>v c. c\<lparr>cc_Cpuset := v\<rparr>)),
      (''AttachStdin'', store_bool (\<lambda>v c. c\<lparr>cc_AttachStdin := v\<rparr>)),
      (''AttachStdout'', store_bool (\<lambda>v c. c\<lparr>cc_AttachStdout := v\<rparr>)),
      (''AttachStderr'', store_bool (\<lambda>v c. c\<lparr>cc_AttachStderr := v\<rparr>)),
      (''PortSpecs'', store_strs (\<lambda>v c. c\<lparr>cc_PortSpecs := v\<rparr>)),
      (''ExposedPorts'', store_dict () empty_store cc_ExposedPorts (\<lambda>v c. c\<lparr>cc_ExposedPorts := v\<rparr>)),
      (''Tty'', store_bool (\<lambda>v c. c\<lparr>cc_Tty := v\<rparr>)),
      (''OpenStdin'', store_bool (\<lambda>v c. c\<lparr>cc_OpenStdin := v\<rparr>)),
      (''StdinOnce'', store_bool (\<lambda>v c. c\<lparr>cc_StdinOnce := v\<rparr>)),
      (''Env'', store_strs (\<lambda>v c. c\<lparr>cc_Env := v\<rparr>)),
      (''Cmd'', store_strs (\<lambda>v c. c\<lparr>cc_Cmd := v\<rparr>)),
      (''Image'', store_string (\<lambda>v c. c\<lparr>cc_Image := v\<rparr>)),
      (''Volumes'', store_dict () empty_store cc_Volumes (\<lambda>v c. c\<lparr>cc_Volumes := v\<rparr>)),
      (''WorkingDir'', store_string (\<lambda>v c. c\<lparr>cc_WorkingDir := v\<rparr>)),
      (''Entrypoint'', store_strs (\<lambda>v c. c\<lparr>cc_Entrypoint := v\<rparr>)),
      (''NetworkDisabled'', store_bool (\<lambda>v c. c\<lparr>cc_NetworkDisabled := v\<rparr>)),
      (''OnBuild'', store_strs (\<lambda>v c. c\<lparr>cc_OnBuild := v\<rparr>)),
      (''HostConfig'', store_nested HostConfig_store cc_HostConfig (\<lambda>v c. c\<lparr>cc_HostConfig := v\<rparr>))]"

definition ContainerConfig_store :: "ContainerConfig store" where
  "ContainerConfig_store = store_struct ''dockerclient.ContainerConfig'' ContainerConfig_fields"

definition PortBinding_json :: "PortBinding \<Rightarrow> json" where
  "PortBinding_json b = JObj [(''HostIp'', JStr (pb_HostIp b)), (''HostPort'', JStr (pb_HostPort b))]"

definition RestartPolicy_json :: "RestartPolicy \<Rightarrow> json" where
  "RestartPolicy_json p = JObj [(''Name'', JStr (rp_Name p)), (''MaximumRetryCount'', int_json (rp_MaximumRetryCount p))]"

definition HostConfig_json :: "HostConfig \<Rightarrow> json" where
  "HostConfig_json c = JObj
     [(''Binds'', seq_json JStr (hc_Binds c)),
      (''ContainerIDFile'', JStr (hc_ContainerIDFile c)),
      (''LxcConf'', seq_json (dict_json JStr) (hc_LxcConf c)),
      (''Privileged'', JBool (hc_Privileged c)),
      (''PortBindings'', dict_json (seq_json PortBinding_json) (hc_PortBindings c)),
      (''Links'', seq_json JStr (hc_Links c)),
      (''PublishAllPorts'', JBool (hc_PublishAllPorts c)),
      (''Dns'', seq_json JStr (hc_Dns c)),
      (''DnsSearch'', seq_json JStr (hc_DnsSearch c)),
      (''VolumesFrom'', seq_json JStr (hc_VolumesFrom c)),
      (''NetworkMode'', JStr (hc_NetworkMode c)),
      (''RestartPolicy'', RestartPolicy_json (hc_RestartPolicy c))]"

definition ContainerConfig_json :: "ContainerConfig \<Rightarrow> json" where
  "ContainerConfig_json c = JObj
     [(''Hostname'', JStr (cc_Hostname c)),
      (''Domainname'', JStr (cc_Domainname c)),
      (''User'', JStr (cc_User c)),
      (''Memory'', int_json (cc_Memory c)),
      (''MemorySwap'', int_json (cc_MemorySwap c)),
      (''CpuShares'', int_json (cc_CpuShares c)),
      (''Cpuset'', JStr (cc_Cpuset c)),
      (''AttachStdin'', JBool (cc_AttachStdin c)),
      (''AttachStdout'', JBool (cc_AttachStdout c)),
      (''AttachStderr'', JBool (cc_AttachStderr c)),
      (''PortSpecs'', seq_json JStr (cc_PortSpecs c)),
      (''ExposedPorts'', dict_json (\<lambda>_. JObj []) (cc_ExposedPorts c)),
      (''Tty'', JBool (cc_Tty c)),
      (''OpenStdin'', JBool (cc_OpenStdin c)),
      (''StdinOnce'', JBool (cc_StdinOnce c)),
      (''Env'', seq_json JStr (cc_Env c)),
      (''Cmd'', seq_json JStr (cc_Cmd c)),
      (''Image'', JStr (cc_Image c)),
      (''Volumes'', dict_json (\<lambda>_. JObj []) (cc_Volumes c)),
      (''WorkingDir'', JStr (cc_WorkingDir c)),
      (''Entrypoint'', seq_json JStr (cc_Entrypoint c)),
      (''NetworkDisabled'', JBool (cc_NetworkDisabled c)),
      (''OnBuild'', seq_json JStr (cc_OnBuild c)),
      (''HostConfig'', HostConfig_json (cc_HostConfig c))]"

subsection \<open>The Docker client\<close>

record 'w adapter_env = "'w daemon_env" +
  docker_Do :: "string \<Rightarrow> string \<Rightarrow> 'w \<Rightarrow> (string + int \<times> string \<times> bytes) \<times> 'w"   \<comment> \<open>status code, status line, body\<close>
  unmarshal_info :: "bytes \<Rightarrow> gerror + ContainerInfo"

definition APIVersion :: string where
  "APIVersion = ''v1.15''"

definition ErrNotFound :: gerror where
  "ErrNotFound = Err ''Not found''"

text \<open>A request without a body or further headers; the path follows the URL of the client.\<close>

definition doRequest :: "('w, 'x) adapter_env_scheme \<Rightarrow> string \<Rightarrow> string \<Rightarrow> (('w, 'z) ecc_state_scheme, gerror + bytes) comp" where
  "doRequest E method path =
     (if \<not> url_ok path then retM (Inl (Err ''invalid URL escape''))
      else bindM (outside (docker_Do E method path)) (\<lambda>r. case r of
          Inl err \<Rightarrow> retM (Inl (Err (if sublist ''connection refused'' err then err
            else err @ ''. Are you trying to connect to a TLS-enabled daemon without TLS?'')))
        | Inr (status, status_line, data) \<Rightarrow>
            if status = 404 then retM (Inl ErrNotFound)
            else if status \<ge> 400 then retM (Inl (Err (status_line @ '': '' @ str data)))
            else retM (Inr data)))"

definition InspectContainer :: "('w, 'x) adapter_env_scheme \<Rightarrow> string \<Rightarrow> (('w, 'z) ecc_state_scheme, gerror + ContainerInfo) comp" where
  "InspectContainer E id1 = (let uri = ''/'' @ APIVersion @ ''/containers/'' @ id1 @ ''/json'' in
     tryE (doRequest E ''GET'' uri) (\<lambda>data. retM (unmarshal_info E data)))"

subsection \<open>Requests of Powerstrip\<close>

record ClientRequest =
  cr_Method :: string
  cr_Request :: string
  cr_Body :: string

record ServerResponse =
  sr_Body :: string
  sr_Code :: int
  sr_ContentType :: string

record adapterRequest =
  ar_PowerstripProtocolVersion :: int
  ar_Type :: string
  ar_ClientRequest :: ClientRequest
  ar_ServerResponse :: ServerResponse

record adapterPreResponse =
  pre_PowerstripProtocolVersion :: int
  pre_ModifiedClientRequest :: ClientRequest

record adapterPostResponse =
  post_PowerstripProtocolVersion :: int
  post_ModifiedServerResponse :: ServerResponse

definition adapterRequest_zero :: adapterRequest where
  "adapterRequest_zero = \<lparr>ar_PowerstripProtocolVersion = 0, ar_Type = [],
     ar_ClientRequest = \<lparr>cr_Method = [], cr_Request = [], cr_Body = []\<rparr>,
     ar_ServerResponse = \<lparr>sr_Body = [], sr_Code = 0, sr_ContentType = []\<rparr>\<rparr>"

definition adapterRequest_store :: "adapterRequest store" where
  "adapterRequest_store = store_struct ''daemon.adapterRequest''
     [(''PowerstripProtocolVersion'', store_int (\<lambda>v r. r\<lparr>ar_PowerstripProtocolVersion := v\<rparr>)),
      (''Type'', store_string (\<lambda>v r. r\<lparr>ar_Type := v\<rparr>)),
      (''ClientRequest'', store_nested (store_struct ''struct''
         [(''Method'', store_string (\<lambda>v r. r\<lparr>cr_Method := v\<rparr>)),
          (''Request'', store_string (\<lambda>v r. r\<lparr>cr_Request := v\<rparr>)),
          (''Body'', store_string (\<lambda>v r. r\<lparr>cr_Body := v\<rparr>))]) ar_ClientRequest (\<lambda>v r. r\<lparr>ar_ClientRequest := v\<rparr>)),
      (''ServerResponse'', store_nested (store_struct ''struct''
         [(''Body'', store_string (\<lambda>v r. r\<lparr>sr_Body := v\<rparr>)),
          (''Code'', store_int (\<lambda>v r. r\<lparr>sr_Code := v\<rparr>)),
          (''ContentType'', store_string (\<lambda>v r. r\<lparr>sr_ContentType := v\<rparr>))]) ar_ServerResponse (\<lambda>v r. r\<lparr>ar_ServerResponse := v\<rparr>))]"

definition adapterPreResponse_json :: "adapterPreResponse \<Rightarrow> json" where
  "adapterPreResponse_json r = (let q = pre_ModifiedClientRequest r in JObj
     [(''PowerstripProtocolVersion'', int_json (pre_PowerstripProtocolVersion r)),
      (''ModifiedClientRequest'', JObj [(''Method'', JStr (cr_Method q)), (''Request'', JStr (cr_Request q)), (''Body'', JStr (cr_Body q))])])"

definition adapterPostResponse_json :: "adapterPostResponse \<Rightarrow> json" where
  "adapterPostResponse_json r = (let q = post_ModifiedServerResponse r in JObj
     [(''PowerstripProtocolVersion'', int_json (post_PowerstripProtocolVersion r)),
      (''ModifiedServerResponse'', JObj [(''Body'', JStr (sr_Body q)), (''Code'', int_json (sr_Code q)),
         (''ContentType'', JStr (sr_ContentType q))])])"

subsection \<open>The hooks\<close>

text \<open>
  \<open>json.Unmarshal\<close> into the pointer: the document \<open>null\<close> makes the pointer
  \<open>nil\<close>.  Its error is only printed.
\<close>

definition psAdapterPreHook :: "adapterRequest \<Rightarrow> adapterPreResponse outcome" where
  "psAdapterPreHook reqParams =
     (let q = ar_ClientRequest reqParams;
          preResp = \<lparr>pre_PowerstripProtocolVersion = ar_PowerstripProtocolVersion reqParams, pre_ModifiedClientRequest = q\<rparr> in
      if cr_Body q \<noteq> [] then
        (case Unmarshal (store_ptr ContainerConfig_zero ContainerConfig_store) (cr_Body q) (Some ContainerConfig_zero) of
           (err, None) \<Rightarrow> nil_panic
         | (err, Some jsonBody) \<Rightarrow>
             (let jsonBody = jsonBody\<lparr>cc_HostConfig := (cc_HostConfig jsonBody)\<lparr>hc_NetworkMode := ''none''\<rparr>\<rparr>
              in Ret (preResp\<lparr>pre_ModifiedClientRequest := q\<lparr>cr_Body := print_json (ContainerConfig_json jsonBody)\<rparr>\<rparr>)))
      else Ret preResp)"

text \<open>\<open>Split\<close> of a regular expression that is one character, into at most \<open>n\<close> parts.\<close>

fun splitN :: "char \<Rightarrow> nat \<Rightarrow> string \<Rightarrow> string list" where
  "splitN c (Suc (Suc n)) s =
     (if c \<in> set s then takeWhile (\<lambda>x. x \<noteq> c) s # splitN c (Suc n) (tl (dropWhile (\<lambda>x. x \<noteq> c) s)) else [s])"
| "splitN c _ s = [s]"

definition Trim_spaces :: "string \<Rightarrow> string" where
  "Trim_spaces s = rev (dropWhile (\<lambda>c. c = CHR '' '') (rev (dropWhile (\<lambda>c. c = CHR '' '') s)))"

definition container_id :: "string \<Rightarrow> string outcome" where
  "container_id request = (let s = splitN (CHR ''/'') 5 request in
     if take 2 request = ''/v'' then slice_get s 3 else slice_get s 2)"

fun env_network :: "string list \<Rightarrow> string \<Rightarrow> string outcome" where
  "env_network [] network = Ret network"
| "env_network (env # envs) network = (let val = splitN (CHR ''='') 3 env in
     if hd val = ''SP_NETWORK'' then bindO (slice_get val 1) (\<lambda>v. env_network envs (Trim_spaces v)) else env_network envs network)"

text \<open>
  A request to the goroutine \<open>ConnectionRPCHandler\<close> and the wait for its answer,
  which does not come for \<open>ConnectionUpdate\<close>.
\<close>

definition connection_call :: "nat \<Rightarrow> ('w, 'x) conn_env_scheme \<Rightarrow> ConnectionContext \<Rightarrow> (('w, 'z) conn_state_scheme, Connection) comp" where
  "connection_call f E context = bindM (ConnectionRPCHandler f E context) (\<lambda>r. case r of None \<Rightarrow> liftO NoReturn | Some c \<Rightarrow> retM c)"

definition started_container :: "('w, 'x) adapter_env_scheme \<Rightarrow> string \<Rightarrow> (('w, 'z) ecc_state_scheme, gerror + Connection) comp" where
  "started_container E cid = tryE (InspectContainer E cid) (\<lambda>info.
     bindM (liftO (case ci_Config info of
         None \<Rightarrow> nil_panic
       | Some c \<Rightarrow> env_network (case cc_Env c of None \<Rightarrow> [] | Some envs \<Rightarrow> envs) DefaultNetworkName)) (\<lambda>network.
     retM (Inr (Connection_zero\<lparr>con_ContainerID := cid, con_ContainerName := ci_Name info, con_ContainerPID := fmt_d (ci_Pid info),
       con_Network := network\<rparr>))))"

definition psAdapterPostHook :: "nat \<Rightarrow> ('w, 'x) adapter_env_scheme \<Rightarrow> adapterRequest \<Rightarrow> (('w, 'z) conn_state_scheme, adapterPostResponse) comp" where
  "psAdapterPostHook f E reqParams =
     (let q = ar_ClientRequest reqParams;
          resp = \<lparr>sr_Body = sr_Body (ar_ServerResponse reqParams), sr_Code = sr_Code (ar_ServerResponse reqParams), sr_ContentType = ''application/json''\<rparr>;
          postResp = (\<lambda>r. \<lparr>post_PowerstripProtocolVersion = ar_PowerstripProtocolVersion reqParams, post_ModifiedServerResponse = r\<rparr>) in
      if cr_Method q \<noteq> ''POST'' \<and> cr_Method q \<noteq> ''DELETE'' then retM (postResp (resp\<lparr>sr_Code := 500\<rparr>))
      else if cr_Request q = [] then retM (postResp resp)
      else bindM (liftO (container_id (cr_Request q))) (\<lambda>cid.
        if cr_Method q = ''POST'' then
          bindM (started_container E cid) (\<lambda>r. case r of
            Inl err \<Rightarrow> retM (postResp (resp\<lparr>sr_Code := 404\<rparr>))
          | Inr cfg \<Rightarrow> thenM (connection_call f E \<lparr>cc_Action = ConnectionAdd, cc_Connection = cfg\<rparr>) (retM (postResp resp)))
        else
          bindM (getM Connections) (\<lambda>cs. case map_of cs cid of
            None \<Rightarrow> retM (postResp (resp\<lparr>sr_Code := 500\<rparr>))
          | Some cfg \<Rightarrow> thenM (connection_call f E \<lparr>cc_Action = ConnectionDelete, cc_Connection = cfg\<rparr>) (retM (postResp resp)))))"

text \<open>
  The handler of a request with the given body.  The error of the decoder is printed
  and what was decoded is used.
\<close>

definition psAdapter :: "nat \<Rightarrow> ('w, 'x) adapter_env_scheme \<Rightarrow> string option \<Rightarrow> (('w, 'z) conn_state_scheme, string) comp" where
  "psAdapter f E body = (case body of
       None \<Rightarrow> liftO nil_panic
     | Some text \<Rightarrow> (let (err, reqParams) = Decode adapterRequest_store text adapterRequest_zero in
         if ar_Type reqParams = ''pre-hook'' then
           bindM (liftO (psAdapterPreHook reqParams)) (\<lambda>r. retM (print_json (adapterPreResponse_json r)))
         else if ar_Type reqParams = ''post-hook'' then
           bindM (psAdapterPostHook f E reqParams) (\<lambda>r. retM (print_json (adapterPostResponse_json r)))
         else retM []))"

subsection \<open>Configurations survive printing and reading\<close>








































subsection \<open>Properties\<close>





text \<open>A request whose path has fewer parts than the hook expects makes it panic.\<close>

lemma posthook_short_path_panics:
  assumes "cr_Method (ar_ClientRequest r) = ''POST'' \<or> cr_Method (ar_ClientRequest r) = ''DELETE''"
    and "cr_Request (ar_ClientRequest r) \<noteq> []" "length (splitN (CHR ''/'') 5 (cr_Request (ar_ClientRequest r))) \<le> 2"
  shows "psAdapterPostHook f E r s = (index_panic, s)"
  using assms by (auto simp: psAdapterPostHook_def Let_def bindM_run liftO_run container_id_def slice_get_def index_panic_def)

text \<open>A body that is \<open>null\<close> makes the pre-hook dereference a nil pointer.\<close>

lemma prehook_null_panics: "cr_Body (ar_ClientRequest r) = ''null'' \<Longrightarrow> psAdapterPreHook r = nil_panic"
proof -
  have "parse_json ''null'' = Some JNull" by code_simp
  then show "cr_Body (ar_ClientRequest r) = ''null'' \<Longrightarrow> psAdapterPreHook r = nil_panic"
    by (simp add: psAdapterPreHook_def Unmarshal_def store_ptr_def)
qed

end
