(* ===== verification/Mux.thy ===== *)
theory Mux
  imports Connections "HOL-Library.Sublist"
begin

section \<open>The HTTP router (gorilla/mux)\<close>

text \<open>
  Routes with a path template and a method, and the router that gives a request to the
  first of its routes that matches, as far as the daemon uses them: no hosts, headers,
  queries, prefixes, subrouters or strict slashes.

  The regular expression of a template is a sequence of literals and groups.  The two
  patterns of groups that occur are modelled, the default one and \<open>.*\<close>; a
  template with another pattern counts as one that does not compile.  A group matches
  as much as it can, and less when the rest does not match.
\<close>

subsection \<open>Templates\<close>

datatype patt = NotSlash | AnyChars

definition compile_patt :: "string \<Rightarrow> patt option" where
  "compile_patt s = (if s = ''[^/]+'' then Some NotSlash else if s = ''.*'' then Some AnyChars else None)"

fun brace_from :: "string \<Rightarrow> nat \<Rightarrow> int \<Rightarrow> nat \<Rightarrow> (nat \<times> nat) list option" where
  "brace_from [] i level idx = (if level \<noteq> 0 then None else Some [])"
| "brace_from (c # s) i level idx =
     (if c = CHR ''{'' then brace_from s (Suc i) (level + 1) (if level + 1 = 1 then i else idx)
      else if c = CHR ''}'' then
        (if level - 1 = 0 then map_option ((#) (idx, Suc i)) (brace_from s (Suc i) 0 idx)
         else if level - 1 < 0 then None else brace_from s (Suc i) (level - 1) idx)
      else brace_from s (Suc i) level idx)"

definition braceIndices :: "string \<Rightarrow> (nat \<times> nat) list option" where
  "braceIndices s = brace_from s 0 0 0"

type_synonym segs = "(string \<times> string \<times> patt) list"

text \<open>\<open>end1\<close> is where the part of the template begins that is not used yet.\<close>

fun template_segs :: "string \<Rightarrow> nat \<Rightarrow> (nat \<times> nat) list \<Rightarrow> (segs \<times> string) option" where
  "template_segs tpl end1 [] = Some ([], drop end1 tpl)"
| "template_segs tpl end1 ((a, b) # idxs) =
     (let raw = take (a - end1) (drop end1 tpl);
          inner = take (b - 1 - Suc a) (drop (Suc a) tpl);
          name = takeWhile (\<lambda>c. c \<noteq> CHR '':'') inner;
          patt = (if CHR '':'' \<in> set inner then drop 1 (dropWhile (\<lambda>c. c \<noteq> CHR '':'') inner) else ''[^/]+'')
      in if name = [] \<or> patt = [] then None
         else (case compile_patt patt of
             None \<Rightarrow> None
           | Some p \<Rightarrow> map_option (\<lambda>(segs, rest). ((raw, name, p) # segs, rest)) (template_segs tpl b idxs)))"

definition newRouteRegexp :: "string \<Rightarrow> (segs \<times> string) option" where
  "newRouteRegexp tpl = (case braceIndices tpl of None \<Rightarrow> None | Some idxs \<Rightarrow> template_segs tpl 0 idxs)"

subsection \<open>Matching\<close>

definition patt_run :: "patt \<Rightarrow> string \<Rightarrow> nat" where
  "patt_run p s = length (takeWhile (\<lambda>c. case p of NotSlash \<Rightarrow> c \<noteq> CHR ''/'' | AnyChars \<Rightarrow> c \<noteq> CHR 0x0A) s)"

definition patt_min :: "patt \<Rightarrow> nat" where
  "patt_min p = (case p of NotSlash \<Rightarrow> 1 | AnyChars \<Rightarrow> 0)"

fun match_segs :: "segs \<Rightarrow> string \<Rightarrow> string \<Rightarrow> (string \<times> string) list option" where
  "match_segs [] rest s = (if s = rest then Some [] else None)"
| "match_segs ((raw, name, p) # segs) rest s =
     (if prefix raw s then
        (let t = drop (length raw) s in
         case List.map_filter (\<lambda>k. map_option ((#) (name, take k t)) (match_segs segs rest (drop k t)))
             (rev [patt_min p ..< Suc (patt_run p t)]) of
           [] \<Rightarrow> None
         | vars # _ \<Rightarrow> Some vars)
      else None)"

record 'h mux_Route =
  mr_regexp :: "segs \<times> string"
  mr_methods :: "string list"
  mr_handler :: 'h

text \<open>\<open>r.Path(tpl).Methods(method).Handler(handler)\<close>; a route with an error matches nothing.\<close>

definition new_route :: "string \<Rightarrow> string \<Rightarrow> 'h \<Rightarrow> 'h mux_Route option" where
  "new_route tpl method handler =
     (if tpl = [] \<or> hd tpl \<noteq> CHR ''/'' then None
      else map_option (\<lambda>re. \<lparr>mr_regexp = re, mr_methods = [method], mr_handler = handler\<rparr>) (newRouteRegexp tpl))"

definition Route_Match :: "'h mux_Route option \<Rightarrow> string \<Rightarrow> string \<Rightarrow> ('h \<times> (string \<times> string) list) option" where
  "Route_Match r method path = (case r of
       None \<Rightarrow> None
     | Some r \<Rightarrow> (case match_segs (fst (mr_regexp r)) (snd (mr_regexp r)) path of
         None \<Rightarrow> None
       | Some vars \<Rightarrow> if method \<in> set (mr_methods r) then Some (mr_handler r, vars) else None))"

fun Router_Match :: "'h mux_Route option list \<Rightarrow> string \<Rightarrow> string \<Rightarrow> ('h \<times> (string \<times> string) list) option" where
  "Router_Match [] method path = None"
| "Router_Match (r # rs) method path = (case Route_Match r method path of
       None \<Rightarrow> Router_Match rs method path | Some m \<Rightarrow> Some m)"

definition cleanPath :: "string \<Rightarrow> string" where
  "cleanPath p =
     (if p = [] then ''/''
      else let p = (if hd p \<noteq> CHR ''/'' then CHR ''/'' # p else p); np = path_Clean p
           in if last p = CHR ''/'' \<and> np \<noteq> ''/'' then np @ ''/'' else np)"

datatype 'h dispatch = Redirect string | Handle 'h "(string \<times> string) list" | NotFoundHandler

definition Router_dispatch :: "'h mux_Route option list \<Rightarrow> string \<Rightarrow> string \<Rightarrow> 'h dispatch" where
  "Router_dispatch rs method path =
     (let p = cleanPath path in
      if p \<noteq> path then Redirect p
      else (case Router_Match rs method path of None \<Rightarrow> NotFoundHandler | Some (h, vars) \<Rightarrow> Handle h vars))"

subsection \<open>Order of routes\<close>

lemma Router_Match_None: "Router_Match rs method path = None \<longleftrightarrow> (\<forall>r\<in>set rs. Route_Match r method path = None)"
  by (induction rs) (auto split: option.splits)

lemma Router_Match_Some: "Router_Match rs method path = Some m \<Longrightarrow> \<exists>r\<in>set rs. Route_Match r method path = Some m"
  by (induction rs) (auto split: option.splits)

text \<open>
  A router does what a specification says when its routes do: then the order of the
  routes does not matter.
\<close>

lemma Router_Match_spec:
  assumes "\<And>r m. r \<in> set rs \<Longrightarrow> Route_Match r method path = Some m \<Longrightarrow> spec = Some m"
    and "\<And>m. spec = Some m \<Longrightarrow> \<exists>r\<in>set rs. Route_Match r method path = Some m"
  shows "Router_Match rs method path = spec"
proof (cases "Router_Match rs method path")
  case None
  then show ?thesis using assms(2) by (cases spec) (auto simp: Router_Match_None)
next
  case (Some m)
  then obtain r where "r \<in> set rs" "Route_Match r method path = Some m" using Router_Match_Some by blast
  then show ?thesis using assms(1)[of r m] Some by simp
qed

lemma takeWhile_length: "length (takeWhile P xs) = length xs \<longleftrightarrow> (\<forall>x\<in>set xs. P x)"
proof
  assume *: "length (takeWhile P xs) = length xs"
  have "takeWhile P xs = take (length (takeWhile P xs)) xs" by (rule takeWhile_eq_take)
  then have "takeWhile P xs = xs" by (simp only: * take_all_iff order_refl)
  then show "\<forall>x\<in>set xs. P x" by (simp add: takeWhile_eq_all_conv)
next
  assume "\<forall>x\<in>set xs. P x"
  then have "takeWhile P xs = xs" by (simp add: takeWhile_eq_all_conv)
  then show "length (takeWhile P xs) = length xs" by (simp only:)
qed

text \<open>A literal template, and one that ends in a group \<open>.*\<close>.\<close>

lemma match_literal: "match_segs [] rest s = Some vars \<longleftrightarrow> s = rest \<and> vars = []"
  by auto

lemma match_any: "match_segs [(raw, name, AnyChars)] [] s = Some vars \<longleftrightarrow>
    (\<exists>v. s = raw @ v \<and> CHR 0x0A \<notin> set v \<and> vars = [(name, v)])"
proof (cases "prefix raw s")
  case False
  then show ?thesis by (auto simp: prefix_def)
next
  case True
  then obtain t where s: "s = raw @ t" by (auto simp: prefix_def)
  let ?n = "patt_run AnyChars t"
  have n: "?n \<le> length t" by (simp add: patt_run_def length_takeWhile_le)
  have full: "?n = length t \<longleftrightarrow> CHR 0x0A \<notin> set t"
    by (simp add: patt_run_def takeWhile_length) blast
  have none: "List.map_filter (\<lambda>k. map_option ((#) (name, take k t)) (match_segs [] [] (drop k t))) (rev [0 ..< ?n]) = []"
    using n by (auto simp: List.map_filter_def filter_empty_conv)
  have "List.map_filter (\<lambda>k. map_option ((#) (name, take k t)) (match_segs [] [] (drop k t))) (rev [0 ..< Suc ?n]) =
      (if ?n = length t then [[(name, t)]] else [])"
    using n none by (cases "?n = length t") (simp_all add: List.map_filter_simps)
  then show ?thesis using s full by (auto simp: patt_min_def)
qed

end
