(* ===== verification/Api.thy ===== *)
theory Api
  imports Adapter Mux
begin

section \<open>The HTTP interface of the daemon (api.go)\<close>

text \<open>
  The routes and handlers of the daemon's HTTP interface.  A handler is a computation
  of the request and the variables of its route; what it writes is the header fields it
  sets and the body, and what \<open>http.Error\<close> writes for it is the status with the
  error.  A panic in a handler stays in its goroutine, which the server recovers.

  A request to the goroutine \<open>ConnectionRPCHandler\<close> is answered before the handler
  goes on.  One to \<open>ClusterRPCHandler\<close> is only handed over: \<open>cluster_taken\<close> is
  the request that goroutine is at work on, and the next one is taken when it is done.
\<close>

subsection \<open>Requests, responses and state\<close>

definition API_VERSION :: string where
  "API_VERSION = ''/v0.1''"

record http_Request =
  rq_Method :: string
  rq_Path :: string
  rq_RawQuery :: string
  rq_Body :: "string option"

record http_Response =
  rs_Status :: int
  rs_Header :: params
  rs_Body :: "gerror + string"     \<comment> \<open>the text of an error, or what was written\<close>

text \<open>What a handler writes, or the \<open>apiError\<close> it returns.\<close>

datatype api_reply = Written params string | apiError int gerror

record 'w api_state = "'w daemon_state" +
  cluster_taken :: "ClusterContext option"

definition url_String :: "string \<Rightarrow> string \<Rightarrow> string" where
  "url_String path query = escape_path path @ (if query = [] then [] else ''?'' @ query)"

definition json_header :: params where
  "json_header = [(''Content-Type'', ''application/json; charset=utf-8'')]"

definition empty_body :: api_reply where
  "empty_body = apiError 400 (Err ''Request body is empty'')"

subsection \<open>Documents\<close>

definition Configuration_json :: "Configuration \<Rightarrow> json" where
  "Configuration_json c = JObj [(''bridge_ip'', JStr (cf_BridgeIP c)), (''bridge_name'', JStr (cf_BridgeName c)),
     (''bridge_cidr'', JStr (cf_BridgeCIDR c)), (''bridge_mtu'', int_json (cf_BridgeMTU c))]"

definition Configuration_store :: "Configuration store" where
  "Configuration_store = store_struct ''daemon.Configuration''
     [(''bridge_ip'', store_string (\<lambda>v c. c\<lparr>cf_BridgeIP := v\<rparr>)),
      (''bridge_name'', store_string (\<lambda>v c. c\<lparr>cf_BridgeName := v\<rparr>)),
      (''bridge_cidr'', store_string (\<lambda>v c. c\<lparr>cf_BridgeCIDR := v\<rparr>)),
      (''bridge_mtu'', store_int (\<lambda>v c. c\<lparr>cf_BridgeMTU := v\<rparr>))]"

definition OvsConnection_json :: "OvsConnection \<Rightarrow> json" where
  "OvsConnection_json c = JObj [(''name'', JStr (ovc_Name c)), (''ip'', JStr (ovc_Ip c)), (''subnet'', JStr (ovc_Subnet c)),
     (''mac'', JStr (ovc_Mac c)), (''gateway'', JStr (ovc_Gateway c))]"

definition Connection_json :: "Connection \<Rightarrow> json" where
  "Connection_json c = JObj [(''container_id'', JStr (con_ContainerID c)), (''container_name'', JStr (con_ContainerName c)),
     (''container_pid'', JStr (con_ContainerPID c)), (''network'', JStr (con_Network c)), (''ovs_port_id'', JStr (con_OvsPortID c)),
     (''connection_details'', OvsConnection_json (con_ConnectionDetails c))]"

text \<open>A map is printed in the order of its keys.\<close>

definition Connections_json :: "(string \<times> Connection) list \<Rightarrow> json" where
  "Connections_json cs = JObj (map (\<lambda>(k, c). (k, Connection_json c)) (sort_key fst cs))"

subsection \<open>Queries\<close>

fun QueryUnescape :: "string \<Rightarrow> string option" where
  "QueryUnescape [] = Some []"
| "QueryUnescape (c # s) =
     (if c = CHR ''%'' then
        (case s of
           a # b # r \<Rightarrow> (case (hex_val a, hex_val b) of
               (Some h, Some l) \<Rightarrow> map_option ((#) (char_of (16 * nat h + nat l))) (QueryUnescape r)
             | _ \<Rightarrow> None)
         | _ \<Rightarrow> None)
      else map_option ((#) (if c = CHR ''+'' then CHR '' '' else c)) (QueryUnescape s))"

text \<open>The parts of a query, separated by \<open>&\<close> or \<open>;\<close>.\<close>

fun query_parts :: "string \<Rightarrow> string \<Rightarrow> string list" where
  "query_parts [] part = [rev part]"
| "query_parts (c # s) part = (if c = CHR ''&'' \<or> c = CHR '';'' then rev part # query_parts s [] else query_parts s (c # part))"

definition query_part :: "string \<Rightarrow> (string \<times> string) option" where
  "query_part part =
     (case (QueryUnescape (takeWhile (\<lambda>c. c \<noteq> CHR ''='') part), QueryUnescape (drop 1 (dropWhile (\<lambda>c. c \<noteq> CHR ''='') part))) of
        (Some key, Some val) \<Rightarrow> Some (key, val)
      | _ \<Rightarrow> None)"

text \<open>\<open>url.ParseQuery\<close>: \<open>None\<close> when a part cannot be decoded, which all callers give up on.\<close>

definition ParseQuery :: "string \<Rightarrow> (string \<times> string) list option" where
  "ParseQuery query = (let parts = map query_part (filter (\<lambda>p. p \<noteq> []) (query_parts query [])) in
     if None \<in> set parts then None else Some (map the parts))"

subsection \<open>Handlers\<close>

definition getConfiguration :: "(('w, 'z) daemon_state_scheme, api_reply) comp" where
  "getConfiguration = bindM (getM DaemonConfig) (\<lambda>c. retM (Written json_header (print_json (Configuration_json c))))"

definition setConfiguration :: "http_Request \<Rightarrow> (('w, 'z) daemon_state_scheme, api_reply) comp" where
  "setConfiguration r = (case rq_Body r of
       None \<Rightarrow> retM empty_body
     | Some body \<Rightarrow> (case Decode Configuration_store body Configuration_zero of
         (Some err, _) \<Rightarrow> retM (apiError 500 err)
       | (None, cfg) \<Rightarrow> thenM (modifyM (\<lambda>s. s\<lparr>DaemonConfig := cfg\<rparr>)) (retM (Written [] []))))"

definition getConnections :: "(('w, 'z) conn_state_scheme, api_reply) comp" where
  "getConnections = bindM (getM Connections) (\<lambda>cs. retM (Written json_header (print_json (Connections_json cs))))"

definition getConnection :: "string \<Rightarrow> (('w, 'z) conn_state_scheme, api_reply) comp" where
  "getConnection containerID = bindM (getM Connections) (\<lambda>cs. case map_of cs containerID of
       None \<Rightarrow> retM (apiError 404 (Err (''Connection for container '' @ containerID @ '' not found'')))
     | Some connection \<Rightarrow> retM (Written json_header (print_json (Connection_json connection))))"

definition createConnection :: "nat \<Rightarrow> ('w, 'x) conn_env_scheme \<Rightarrow> http_Request \<Rightarrow> (('w, 'z) conn_state_scheme, api_reply) comp" where
  "createConnection f E r = (case rq_Body r of
       None \<Rightarrow> retM empty_body
     | Some body \<Rightarrow> (case Decode Connection_store body Connection_zero of
         (Some err, _) \<Rightarrow> retM (apiError 500 err)
       | (None, cfg) \<Rightarrow>
           (let cfg = (if con_Network cfg = [] then cfg\<lparr>con_Network := DefaultNetworkName\<rparr> else cfg) in
            bindM (connection_call f E \<lparr>cc_Action = ConnectionAdd, cc_Connection = cfg\<rparr>) (\<lambda>result.
            let location = url_String (rq_Path r) (rq_RawQuery r) @ ''/'' @ con_ContainerID cfg in
            retM (Written (json_header @ [(''Content-Location'', location)]) (print_json (Connection_json result)))))))"

definition deleteConnection :: "nat \<Rightarrow> ('w, 'x) conn_env_scheme \<Rightarrow> string \<Rightarrow> (('w, 'z) conn_state_scheme, api_reply) comp" where
  "deleteConnection f E containerID = bindM (getM Connections) (\<lambda>cs. case map_of cs containerID of
       None \<Rightarrow> retM (apiError 404 (Err ''Container Not Found''))
     | Some connection \<Rightarrow>
         thenM (connection_call f E \<lparr>cc_Action = ConnectionDelete, cc_Connection = connection\<rparr>) (retM (Written [] [])))"

definition getNetworks :: "('w, 'x) http_env_scheme \<Rightarrow> (('w, 'z) ecc_state_scheme, api_reply) comp" where
  "getNetworks E = bindM (GetNetworks E) (\<lambda>r. case r of
       Inl err \<Rightarrow> retM (apiError 500 err)
     | Inr networks \<Rightarrow> retM (Written json_header (print_json (JArr (map Network_json networks)))))"

definition getNetwork :: "('w, 'x) http_env_scheme \<Rightarrow> string \<Rightarrow> (('w, 'z) ecc_state_scheme, api_reply) comp" where
  "getNetwork E networkID = bindM (GetNetwork E networkID) (\<lambda>r. case r of
       Inl err \<Rightarrow> retM (apiError 500 err)
     | Inr network \<Rightarrow> retM (Written json_header (print_json (Network_json network))))"

definition createNetwork :: "nat \<Rightarrow> ('w, 'x) bridge_env_scheme \<Rightarrow> http_Request \<Rightarrow> (('w, 'z) bridge_state_scheme, api_reply) comp" where
  "createNetwork f E r = (case rq_Body r of
       None \<Rightarrow> retM empty_body
     | Some body \<Rightarrow> (case Decode Network_store body Network_zero of
         (Some err, _) \<Rightarrow> retM (apiError 500 err)
       | (None, networkRequest) \<Rightarrow> (case ParseCIDR (nw_Subnet networkRequest) of
           Inl err \<Rightarrow> retM (apiError 500 err)
         | Inr (_, cidr) \<Rightarrow> bindM (CreateNetwork f E (nw_ID networkRequest) cidr) (\<lambda>(newNetwork, err). case err of
             Some err \<Rightarrow> retM (apiError 500 err)
           | None \<Rightarrow> retM (Written json_header (print_json (case newNetwork of None \<Rightarrow> JNull | Some nw \<Rightarrow> Network_json nw)))))))"

definition deleteNetwork :: "nat \<Rightarrow> ('w, 'x) bridge_env_scheme \<Rightarrow> string \<Rightarrow> (('w, 'z) bridge_state_scheme, api_reply) comp" where
  "deleteNetwork f E networkID = bindM (DeleteNetwork f E networkID) (\<lambda>err. case err of
       Some err \<Rightarrow> retM (apiError 500 err)
     | None \<Rightarrow> retM (Written [] []))"

text \<open>The send on \<open>d.bindChan\<close> waits until the goroutine has dealt with the request before.\<close>

definition bind_send :: "('w, 'x) daemon_env_scheme \<Rightarrow> ClusterContext \<Rightarrow> (('w, 'z) api_state_scheme, unit) comp" where
  "bind_send E context = bindM (getM cluster_taken) (\<lambda>t.
     thenM (case t of None \<Rightarrow> retM () | Some c \<Rightarrow> ClusterRPCHandler E c)
       (modifyM (\<lambda>s. s\<lparr>cluster_taken := Some context\<rparr>)))"

text \<open>The first value of a parameter of the query, which must be there and not empty.\<close>

definition query_value :: "string \<Rightarrow> gerror \<Rightarrow> string \<Rightarrow> api_reply + string" where
  "query_value query missing name =
     (if query = [] then Inl (apiError 400 missing)
      else (case ParseQuery query of
          None \<Rightarrow> Inl (apiError 400 (Err ''Could not decode query parameters''))
        | Some values \<Rightarrow> (case map_of values name of
            None \<Rightarrow> Inl (apiError 400 missing)
          | Some v \<Rightarrow> if v = [] then Inl (apiError 400 missing) else Inr v)))"

definition clusterBind :: "('w, 'x) daemon_env_scheme \<Rightarrow> http_Request \<Rightarrow> (('w, 'z) api_state_scheme, api_reply) comp" where
  "clusterBind E r = (case query_value (rq_RawQuery r) (Err ''Please provide the interface parameter'') ''iface'' of
       Inl reply \<Rightarrow> retM reply
     | Inr iface \<Rightarrow> bindM (ConfigureClusterListenerPort E iface) (\<lambda>res. case res of
         Inl err \<Rightarrow> retM (apiError 500 err)
       | Inr context \<Rightarrow> thenM (bind_send E context) (retM (Written [] []))))"

definition clusterJoin :: "('w, 'x) daemon_env_scheme \<Rightarrow> http_Request \<Rightarrow> (('w, 'z) api_state_scheme, api_reply) comp" where
  "clusterJoin E r = (case query_value (rq_RawQuery r) (Err ''Please provide the address parameter'') ''address'' of
       Inl reply \<Rightarrow> retM reply
     | Inr addr \<Rightarrow> (case JoinCluster addr of
         Inl err \<Rightarrow> retM (apiError 500 err)
       | Inr context \<Rightarrow> thenM (bind_send E context) (retM (Written [] []))))"

definition clusterLeave :: "('s, api_reply) comp" where
  "clusterLeave = retM (Written [] [])"

subsection \<open>Routes\<close>

datatype HttpApiFunc =
    F_getConfiguration | F_setConfiguration | F_getConnections | F_getConnection | F_createConnection | F_deleteConnection
  | F_getNetworks | F_getNetwork | F_createNetwork | F_deleteNetwork | F_clusterBind | F_clusterJoin | F_clusterLeave | F_psAdapter

definition api_funcs :: "(string \<times> (string \<times> HttpApiFunc) list) list" where
  "api_funcs =
     [(''GET'',
        [(''/configuration'', F_getConfiguration), (''/connections'', F_getConnections), (''/connections/{id:.*}'', F_getConnection),
         (''/networks'', F_getNetworks), (''/networks/{id:.*}'', F_getNetwork)]),
      (''POST'',
        [(''/configuration'', F_setConfiguration), (''/connections'', F_createConnection), (''/networks'', F_createNetwork),
         (''/cluster/bind'', F_clusterBind), (''/cluster/join'', F_clusterJoin), (''/cluster/leave'', F_clusterLeave),
         (''/adapter'', F_psAdapter)]),
      (''DELETE'',
        [(''/connections/{id:.*}'', F_deleteConnection), (''/networks/{id:.*}'', F_deleteNetwork)])]"

definition routes_of :: "string \<Rightarrow> string \<Rightarrow> HttpApiFunc \<Rightarrow> HttpApiFunc mux_Route option list" where
  "routes_of method route fct = new_route (API_VERSION @ route) method fct #
     (if route = ''/adapter'' then [new_route route method fct] else [])"

text \<open>The two loops range over maps.\<close>

definition createRouter :: "('w, 'x) http_env_scheme \<Rightarrow> HttpApiFunc mux_Route option list" where
  "createRouter E = concat (map (\<lambda>method. case map_of api_funcs method of
       None \<Rightarrow> []
     | Some routes \<Rightarrow> concat (map (\<lambda>route. case map_of routes route of
         None \<Rightarrow> []
       | Some fct \<Rightarrow> routes_of method route fct) (range_order E (map fst routes)))) (range_order E (map fst api_funcs)))"

definition call_func :: "nat \<Rightarrow> ('w, 'x) adapter_env_scheme \<Rightarrow> HttpApiFunc \<Rightarrow> http_Request \<Rightarrow> params \<Rightarrow> (('w, 'z) api_state_scheme, api_reply) comp" where
  "call_func f E h r vars = (let id1 = header_Get vars ''id'' in case h of
       F_getConfiguration \<Rightarrow> getConfiguration
     | F_setConfiguration \<Rightarrow> setConfiguration r
     | F_getConnections \<Rightarrow> getConnections
     | F_getConnection \<Rightarrow> getConnection id1
     | F_createConnection \<Rightarrow> createConnection f E r
     | F_deleteConnection \<Rightarrow> deleteConnection f E id1
     | F_getNetworks \<Rightarrow> getNetworks E
     | F_getNetwork \<Rightarrow> getNetwork E id1
     | F_createNetwork \<Rightarrow> createNetwork f E r
     | F_deleteNetwork \<Rightarrow> deleteNetwork f E id1
     | F_clusterBind \<Rightarrow> clusterBind E r
     | F_clusterJoin \<Rightarrow> clusterJoin E r
     | F_clusterLeave \<Rightarrow> clusterLeave
     | F_psAdapter \<Rightarrow> bindM (psAdapter f E (rq_Body r)) (\<lambda>data. retM (Written json_header data)))"

definition appHandler_ServeHTTP :: "('s, api_reply) comp \<Rightarrow> ('s, http_Response) comp" where
  "appHandler_ServeHTTP h = bindM h (\<lambda>reply. retM (case reply of
       Written header body \<Rightarrow> \<lparr>rs_Status = 200, rs_Header = header, rs_Body = Inr body\<rparr>
     | apiError status message \<Rightarrow>
         \<lparr>rs_Status = status, rs_Header = [(''Content-Type'', ''text/plain; charset=utf-8'')], rs_Body = Inl message\<rparr>))"

definition not_found :: http_Response where
  "not_found = \<lparr>rs_Status = 404, rs_Header = [(''Content-Type'', ''text/plain; charset=utf-8'')], rs_Body = Inl (Err ''404 page not found'')\<rparr>"

text \<open>A request to the server with the router of the daemon.\<close>

definition ServeHTTP :: "nat \<Rightarrow> ('w, 'x) adapter_env_scheme \<Rightarrow> http_Request \<Rightarrow> (('w, 'z) api_state_scheme, http_Response) comp" where
  "ServeHTTP f E r = (case Router_dispatch (createRouter E) (rq_Method r) (rq_Path r) of
       Redirect p \<Rightarrow> retM \<lparr>rs_Status = 301, rs_Header = [(''Location'', url_String p (rq_RawQuery r))], rs_Body = Inr []\<rparr>
     | NotFoundHandler \<Rightarrow> retM not_found
     | Handle h vars \<Rightarrow> appHandler_ServeHTTP (call_func f E h r vars))"

subsection \<open>Routing\<close>

text \<open>What the interface offers, written out.\<close>

definition rest_of :: "string \<Rightarrow> string \<Rightarrow> params option" where
  "rest_of pre path = (if prefix pre path \<and> CHR 0x0A \<notin> set (drop (length pre) path) then Some [(''id'', drop (length pre) path)] else None)"

definition api_route :: "string \<Rightarrow> string \<Rightarrow> (HttpApiFunc \<times> params) option" where
  "api_route method path =
     (if method = ''GET'' then
        (if path = ''/v0.1/configuration'' then Some (F_getConfiguration, [])
         else if path = ''/v0.1/connections'' then Some (F_getConnections, [])
         else if path = ''/v0.1/networks'' then Some (F_getNetworks, [])
         else (case rest_of ''/v0.1/connections/'' path of
             Some v \<Rightarrow> Some (F_getConnection, v)
           | None \<Rightarrow> map_option (Pair F_getNetwork) (rest_of ''/v0.1/networks/'' path)))
      else if method = ''POST'' then
        map_option (\<lambda>h. (h, [])) (map_of
          [(''/v0.1/configuration'', F_setConfiguration), (''/v0.1/connections'', F_createConnection), (''/v0.1/networks'', F_createNetwork),
           (''/v0.1/cluster/bind'', F_clusterBind), (''/v0.1/cluster/join'', F_clusterJoin), (''/v0.1/cluster/leave'', F_clusterLeave),
           (''/v0.1/adapter'', F_psAdapter), (''/adapter'', F_psAdapter)] path)
      else if method = ''DELETE'' then
        (case rest_of ''/v0.1/connections/'' path of
           Some v \<Rightarrow> Some (F_deleteConnection, v)
         | None \<Rightarrow> map_option (Pair F_deleteNetwork) (rest_of ''/v0.1/networks/'' path))
      else None)"

definition literal_route :: "string \<Rightarrow> string \<Rightarrow> HttpApiFunc \<Rightarrow> HttpApiFunc mux_Route option" where
  "literal_route method path h = Some \<lparr>mr_regexp = ([], path), mr_methods = [method], mr_handler = h\<rparr>"

definition suffix_route :: "string \<Rightarrow> string \<Rightarrow> HttpApiFunc \<Rightarrow> HttpApiFunc mux_Route option" where
  "suffix_route method path h = Some \<lparr>mr_regexp = ([(path, ''id'', AnyChars)], []), mr_methods = [method], mr_handler = h\<rparr>"

lemma literal_match: "Route_Match (literal_route method path h) m p = Some x \<longleftrightarrow> m = method \<and> p = path \<and> x = (h, [])"
  by (auto simp: Route_Match_def literal_route_def)

lemma match_rest: "match_segs [(path, ''id'', AnyChars)] [] p = rest_of path p"
proof (cases "match_segs [(path, ''id'', AnyChars)] [] p")
  case None
  then have "\<not> (\<exists>v. p = path @ v \<and> CHR 0x0A \<notin> set v)" using match_any[of path "''id''" p] by (metis option.distinct(1))
  then show ?thesis unfolding None by (auto simp: rest_of_def prefix_def)
next
  case (Some vars)
  then show ?thesis using match_any[of path "''id''" p vars] by (auto simp: rest_of_def simp del: match_segs.simps)
qed

lemma suffix_match: "Route_Match (suffix_route method path h) m p = Some x \<longleftrightarrow> m = method \<and> (\<exists>v. rest_of path p = Some v \<and> x = (h, v))"
  by (auto simp: Route_Match_def suffix_route_def match_rest simp del: match_segs.simps split: option.splits)

definition api_routes :: "HttpApiFunc mux_Route option list" where
  "api_routes = [literal_route ''GET'' ''/v0.1/configuration'' F_getConfiguration, literal_route ''GET'' ''/v0.1/connections'' F_getConnections,
     suffix_route ''GET'' ''/v0.1/connections/'' F_getConnection, literal_route ''GET'' ''/v0.1/networks'' F_getNetworks,
     suffix_route ''GET'' ''/v0.1/networks/'' F_getNetwork, literal_route ''POST'' ''/v0.1/configuration'' F_setConfiguration,
     literal_route ''POST'' ''/v0.1/connections'' F_createConnection, literal_route ''POST'' ''/v0.1/networks'' F_createNetwork,
     literal_route ''POST'' ''/v0.1/cluster/bind'' F_clusterBind, literal_route ''POST'' ''/v0.1/cluster/join'' F_clusterJoin,
     literal_route ''POST'' ''/v0.1/cluster/leave'' F_clusterLeave, literal_route ''POST'' ''/v0.1/adapter'' F_psAdapter,
     literal_route ''POST'' ''/adapter'' F_psAdapter, suffix_route ''DELETE'' ''/v0.1/connections/'' F_deleteConnection,
     suffix_route ''DELETE'' ''/v0.1/networks/'' F_deleteNetwork]"

lemma routes_computed: "concat (map (\<lambda>(method, routes). concat (map (\<lambda>(route, fct). routes_of method route fct) routes)) api_funcs) = api_routes"
  by code_simp

lemma set_range_map:
  assumes "set ks = set (map fst m)" "distinct (map fst m)"
  shows "set (concat (map (\<lambda>k. case map_of m k of None \<Rightarrow> [] | Some v \<Rightarrow> g k v) ks)) = (\<Union>(k, v)\<in>set m. set (g k v))"
proof -
  have "set (concat (map (\<lambda>k. case map_of m k of None \<Rightarrow> [] | Some v \<Rightarrow> g k v) ks)) =
      (\<Union>(k, v)\<in>set m. set (case map_of m k of None \<Rightarrow> [] | Some v \<Rightarrow> g k v))"
    by (simp add: assms(1)) (simp add: case_prod_beta)
  also have "\<dots> = (\<Union>(k, v)\<in>set m. set (g k v))" using map_of_is_SomeI[OF assms(2)] by (intro SUP_cong) auto
  finally show ?thesis .
qed

lemma set_createRouter:
  assumes "\<And>xs. set (range_order E xs) = set xs"
  shows "set (createRouter E) = set api_routes"
proof -
  have d: "distinct (map fst api_funcs)" "\<forall>(m, routes)\<in>set api_funcs. distinct (map fst routes)"
    by (simp_all add: api_funcs_def)
  have "set (createRouter E) = (\<Union>(method, routes)\<in>set api_funcs.
      set (concat (map (\<lambda>route. case map_of routes route of None \<Rightarrow> [] | Some fct \<Rightarrow> routes_of method route fct) (range_order E (map fst routes)))))"
    unfolding createRouter_def by (rule set_range_map[OF assms d(1)])
  also have "\<dots> = (\<Union>(method, routes)\<in>set api_funcs. \<Union>(route, fct)\<in>set routes. set (routes_of method route fct))"
  proof (intro SUP_cong refl, clarify)
    fix meth routes
    assume "(meth, routes) \<in> set api_funcs"
    then have "distinct (map fst routes)" using d(2) by auto
    then show "set (concat (map (\<lambda>route. case map_of routes route of None \<Rightarrow> [] | Some fct \<Rightarrow> routes_of meth route fct)
        (range_order E (map fst routes)))) = (\<Union>(route, fct)\<in>set routes. set (routes_of meth route fct))"
      by (rule set_range_map[OF assms])
  qed
  also have "\<dots> = set api_routes" unfolding routes_computed[symmetric] by (simp add: case_prod_beta)
  finally show ?thesis .
qed

lemma api_route_literal:
  "list_all (\<lambda>(method, path, h). api_route method path = Some (h, []))
     [(''GET'', ''/v0.1/configuration'', F_getConfiguration), (''GET'', ''/v0.1/connections'', F_getConnections),
      (''GET'', ''/v0.1/networks'', F_getNetworks), (''POST'', ''/v0.1/configuration'', F_setConfiguration),
      (''POST'', ''/v0.1/connections'', F_createConnection), (''POST'', ''/v0.1/networks'', F_createNetwork),
      (''POST'', ''/v0.1/cluster/bind'', F_clusterBind), (''POST'', ''/v0.1/cluster/join'', F_clusterJoin),
      (''POST'', ''/v0.1/cluster/leave'', F_clusterLeave), (''POST'', ''/v0.1/adapter'', F_psAdapter), (''POST'', ''/adapter'', F_psAdapter)]"
  by code_simp

lemma rest_of_append: "rest_of pre path = Some v \<Longrightarrow> \<exists>w. path = pre @ w"
  by (auto simp: rest_of_def prefix_def split: if_splits)

lemma rest_of_connections: "rest_of ''/v0.1/networks/'' (''/v0.1/connections/'' @ w) = None"
  by (simp add: rest_of_def)

lemma rest_of_networks: "rest_of ''/v0.1/connections/'' (''/v0.1/networks/'' @ w) = None"
  by (simp add: rest_of_def)

lemma api_route_connections:
  assumes "rest_of ''/v0.1/connections/'' path = Some v"
  shows "api_route ''GET'' path = Some (F_getConnection, v)" "api_route ''DELETE'' path = Some (F_deleteConnection, v)"
proof -
  obtain w where w: "path = ''/v0.1/connections/'' @ w" using rest_of_append[OF assms] by blast
  have "path \<noteq> ''/v0.1/configuration''" "path \<noteq> ''/v0.1/connections''" "path \<noteq> ''/v0.1/networks''" by (simp_all add: w)
  then show "api_route ''GET'' path = Some (F_getConnection, v)" "api_route ''DELETE'' path = Some (F_deleteConnection, v)"
    using assms by (simp_all add: api_route_def)
qed

lemma api_route_networks:
  assumes "rest_of ''/v0.1/networks/'' path = Some v"
  shows "api_route ''GET'' path = Some (F_getNetwork, v)" "api_route ''DELETE'' path = Some (F_deleteNetwork, v)"
proof -
  obtain w where w: "path = ''/v0.1/networks/'' @ w" using rest_of_append[OF assms] by blast
  have "path \<noteq> ''/v0.1/configuration''" "path \<noteq> ''/v0.1/connections''" "path \<noteq> ''/v0.1/networks''" by (simp_all add: w)
  moreover have "rest_of ''/v0.1/connections/'' path = None" unfolding w by (rule rest_of_networks)
  ultimately show "api_route ''GET'' path = Some (F_getNetwork, v)" "api_route ''DELETE'' path = Some (F_deleteNetwork, v)"
    using assms by (simp_all add: api_route_def)
qed

lemma api_routes_spec:
  assumes "r \<in> set api_routes" "Route_Match r method path = Some x"
  shows "api_route method path = Some x"
  using assms(1)[unfolded api_routes_def, simplified] assms(2) api_route_literal api_route_connections[of path] api_route_networks[of path]
  by (elim disjE) (auto simp: literal_match suffix_match)

lemma api_route_methods: "api_route method path = Some x \<Longrightarrow> method \<in> {''GET'', ''POST'', ''DELETE''}"
  by (simp add: api_route_def split: if_splits)

lemma api_routes_complete:
  assumes "api_route method path = Some x"
  shows "\<exists>r\<in>set api_routes. Route_Match r method path = Some x"
proof -
  from api_route_methods[OF assms] consider (get) "method = ''GET''" | (post) "method = ''POST''" | (delete) "method = ''DELETE''" by blast
  then show ?thesis
  proof cases
    case get
    then show ?thesis using assms
      by (simp add: api_routes_def literal_match suffix_match api_route_def split: if_splits option.splits) blast
  next
    case post
    then show ?thesis using assms by (simp add: api_routes_def literal_match suffix_match api_route_def split: if_splits)
  next
    case delete
    then show ?thesis using assms
      by (simp add: api_routes_def literal_match suffix_match api_route_def split: option.splits) blast
  qed
qed

lemma createRouter_routes:
  assumes "\<And>xs. set (range_order E xs) = set xs"
  shows "Router_Match (createRouter E) method path = api_route method path"
  by (rule Router_Match_spec) (use api_routes_spec api_routes_complete set_createRouter[OF assms] in auto)

text \<open>A request with a clean path that the interface offers.\<close>

lemma ServeHTTP_run:
  assumes "\<And>xs. set (range_order E xs) = set xs" "cleanPath (rq_Path r) = rq_Path r" "api_route (rq_Method r) (rq_Path r) = Some (h, vars)"
  shows "ServeHTTP f E r = appHandler_ServeHTTP (call_func f E h r vars)"
  using assms(2,3) by (simp add: ServeHTTP_def Router_dispatch_def createRouter_routes[OF assms(1)])

subsection \<open>Properties\<close>

text \<open>C17. The order in which Go ranges over the maps of routes does not matter: the router the
  daemon builds gives every request to the handler that the table of the interface
  names for its method and path, with the rest of the path as the variable \<open>id\<close>, and
  every other request to no handler.\<close>

theorem api_routing:
  assumes "\<And>xs. set (range_order E xs) = set xs"
  shows "Router_Match (createRouter E) method path = api_route method path"
  by (rule createRouter_routes[OF assms])

theorem api_routing_witness:
  "Router_Match (createRouter (quiet_conn\<lparr>range_order := rev\<rparr>)) ''DELETE'' ''/v0.1/networks/web'' = Some (F_deleteNetwork, [(''id'', ''web'')])"
proof -
  have "api_route ''DELETE'' ''/v0.1/networks/web'' = Some (F_deleteNetwork, [(''id'', ''web'')])" by code_simp
  then show ?thesis using api_routing[of "quiet_conn\<lparr>range_order := rev\<rparr>"] by simp
qed

text \<open>C2. The life of a connection over HTTP, from the router down to the agent's store.  On a
  host where only the daemon writes to Consul, a \<open>POST\<close> of a connection to an IPv4
  network with room is answered with the document of a connection whose address lies in
  the network and was free, and is held now; a \<open>GET\<close> of the container returns the same
  document; its \<open>DELETE\<close> frees exactly that address, and a \<open>GET\<close> after that is
  answered with status 404.\<close>

theorem api_connection_lifecycle:
  fixes s :: "('x kvs_store_scheme, 'z) api_state_scheme"
  assumes "http E = consul_http other" "quiet_host E c" "\<And>xs. set (range_order E xs) = set xs"
    and "\<not> offline s" "consul_room 2 (world s)" "ovs_client s = Some c"
    and "Decode Connection_store body Connection_zero = (None, con)" "con_Network con \<noteq> []"
    and "cleanPath (''/v0.1/connections/'' @ con_ContainerID con) = ''/v0.1/connections/'' @ con_ContainerID con"
    and "CHR 0x0A \<notin> set (con_ContainerID con)"
    and "agent_key (networkStore @ ''/'' @ con_Network con)"
    and "agent_view consul_kv s networkStore (con_Network con) = Some (network_text nw)" "ascii_network nw"
    and "nw_Subnet nw = ipnet_String n" "v4_net p n" "10 \<le> p" "p \<le> 29"
    and "8 * length (agent_pool s n) = 2 ^ (32 - p)" "card (bits_of (agent_pool s n)) + 1 < 2 ^ (32 - p)"
  defines "item \<equiv> (\<lambda>m. \<lparr>rq_Method = m, rq_Path = ''/v0.1/connections/'' @ con_ContainerID con, rq_RawQuery = [], rq_Body = None\<rparr>)"
  shows "\<exists>con' h a k s1 s2.
    ServeHTTP (Suc f) E \<lparr>rq_Method = ''POST'', rq_Path = ''/v0.1/connections'', rq_RawQuery = [], rq_Body = Some body\<rparr> s =
      (Ret \<lparr>rs_Status = 200, rs_Header = h, rs_Body = Inr (print_json (Connection_json con'))\<rparr>, s1) \<and>
    ovc_Ip (con_ConnectionDetails con') = ip_String a \<and> Contains n a \<and> ip_nat a = ip_nat (IP n) + Suc k \<and>
    k \<notin> bits_of (agent_pool s n) \<and> bits_of (agent_pool s1 n) = insert k (bits_of (agent_pool s n)) \<and>
    ServeHTTP (Suc f) E (item ''GET'') s1 =
      (Ret \<lparr>rs_Status = 200, rs_Header = json_header, rs_Body = Inr (print_json (Connection_json con'))\<rparr>, s1) \<and>
    ServeHTTP (Suc f) E (item ''DELETE'') s1 = (Ret \<lparr>rs_Status = 200, rs_Header = [], rs_Body = Inr []\<rparr>, s2) \<and>
    bits_of (agent_pool s2 n) = bits_of (agent_pool s n) \<and>
    (\<exists>resp. ServeHTTP (Suc f) E (item ''GET'') s2 = (Ret resp, s2) \<and> rs_Status resp = 404)"
proof -
  obtain con' a k s1 where 1: "ConnectionRPCHandler (Suc f) E \<lparr>cc_Action = ConnectionAdd, cc_Connection = con\<rparr> s = (Ret (Some con'), s1)"
    "con_ContainerID con' = con_ContainerID con" "map_of (Connections s1) = (map_of (Connections s))(con_ContainerID con \<mapsto> con')"
    "ovc_Ip (con_ConnectionDetails con') = ip_String a" "ovc_Subnet (con_ConnectionDetails con') = ''/'' @ itod p"
    "length a = 4" "Contains n a" "ip_nat a = ip_nat (IP n) + Suc k" "Suc k < 2 ^ (32 - p)"
    "k \<notin> bits_of (agent_pool s n)" "bits_of (agent_pool s1 n) = insert k (bits_of (agent_pool s n))"
    "\<not> offline s1" "consul_room (Suc 0) (world s1)" "ovs_client s1 = Some c"
    "agent_view consul_kv s1 dataStore (ipnet_String n) = Some (agent_pool s1 n)" "8 * length (agent_pool s1 n) = 2 ^ (32 - p)"
    by (rule ConnectionRPCHandler_add[OF assms(1,2,4-6,8,11-19)]) (rule that)
  obtain s2 where 2: "ConnectionRPCHandler (Suc f) E \<lparr>cc_Action = ConnectionDelete, cc_Connection = con'\<rparr> s1 = (Ret (Some con'), s2)"
    "map_of (Connections s2) = (map_of (Connections s1))(con_ContainerID con' := None)"
    "bits_of (agent_pool s2 n) = bits_of (agent_pool s1 n) - {k}"
    by (rule ConnectionRPCHandler_delete[OF assms(1,2) 1(12-14) assms(15-17) 1(6-9,4,5,15,16)]) (rule that)
  have rest: "rest_of ''/v0.1/connections/'' (''/v0.1/connections/'' @ con_ContainerID con) = Some [(''id'', con_ContainerID con)]"
    using assms(10) by (simp add: rest_of_def)
  have clean: "cleanPath ''/v0.1/connections'' = ''/v0.1/connections''" by code_simp
  have post: "api_route ''POST'' ''/v0.1/connections'' = Some (F_createConnection, [])" by code_simp
  note serve = ServeHTTP_run[OF assms(3)] appHandler_ServeHTTP_def call_func_def run_simps item_def header_Get_def Let_def
  have "ServeHTTP (Suc f) E \<lparr>rq_Method = ''POST'', rq_Path = ''/v0.1/connections'', rq_RawQuery = [], rq_Body = Some body\<rparr> s =
      (Ret \<lparr>rs_Status = 200, rs_Header = json_header @ [(''Content-Location'', url_String ''/v0.1/connections'' [] @ ''/'' @ con_ContainerID con)],
        rs_Body = Inr (print_json (Connection_json con'))\<rparr>, s1)"
    using 1(1) assms(7,8) clean post by (simp add: serve createConnection_def connection_call_def Let_def)
  moreover have "ServeHTTP (Suc f) E (item ''GET'') s1 =
      (Ret \<lparr>rs_Status = 200, rs_Header = json_header, rs_Body = Inr (print_json (Connection_json con'))\<rparr>, s1)"
    using 1(3) assms(9) api_route_connections(1)[OF rest] by (simp add: serve getConnection_def)
  moreover have "ServeHTTP (Suc f) E (item ''DELETE'') s1 = (Ret \<lparr>rs_Status = 200, rs_Header = [], rs_Body = Inr []\<rparr>, s2)"
    using 1(3) 2(1) assms(9) api_route_connections(2)[OF rest] by (simp add: serve deleteConnection_def connection_call_def)
  moreover have "\<exists>resp. ServeHTTP (Suc f) E (item ''GET'') s2 = (Ret resp, s2) \<and> rs_Status resp = 404"
    using 1(2) 2(2) assms(9) api_route_connections(1)[OF rest] by (simp add: serve getConnection_def)
  moreover have "bits_of (agent_pool s2 n) = bits_of (agent_pool s n)" using 1(10,11) 2(3) by simp
  ultimately show ?thesis using 1(4,7,8,10,11) by blast
qed

text \<open>The host of the connections, extended by what the rest of the daemon uses.\<close>

definition quiet_adapter :: "kvs_store adapter_env" where
  "quiet_adapter = daemon_env.extend (mdns_env.extend quiet_mdns (daemon_env.fields (\<lambda>w. (0, w)) (\<lambda>d w. (None, w))))
     (adapter_env.fields (\<lambda>m u w. (Inl ''refused'', w)) (\<lambda>b. Inl (Err ''no document'')))"

lemma quiet_adapter_host: "http quiet_adapter = consul_http (\<lambda>m url body w. (None, w))" "quiet_host quiet_adapter c"
  "range_order quiet_adapter xs = xs"
  by (simp_all add: quiet_adapter_def quiet_mdns_def quiet_conn_def quiet_host_def spares_consul_def quiet_consul_def quiet_env_def bridge_env.defs conn_env.defs
      watch_env.defs cluster_env.defs mdns_env.defs daemon_env.defs adapter_env.defs)

definition api_node :: "kvs_store api_state" where
  "api_node = daemon_state.extend (mdns_state.extend mdns_node (daemon_state.fields [] [] [] Configuration_zero [] False False)) (api_state.fields None)"

lemma api_node_simps: "world api_node = world conn_node" "ovs_client api_node = Some 0" "\<not> offline api_node"
  by (simp_all add: api_node_def mdns_node_def watch_node_def conn_node_def cluster_state.defs mdns_state.defs daemon_state.defs watch_state.defs api_state.defs conn_state.defs
      bridge_state.defs bridge_node_def offline_def)

definition con1_body :: string where
  "con1_body = ''{'' @ quote_string ''container_id'' @ '':'' @ quote_string ''c1'' @ '','' @ quote_string ''container_pid'' @ '':'' @ quote_string ''17'' @
     '','' @ quote_string ''network'' @ '':'' @ quote_string ''web'' @ ''}''"

theorem api_connection_lifecycle_witness:
  "\<exists>con' h a s1. ServeHTTP 1 quiet_adapter \<lparr>rq_Method = ''POST'', rq_Path = ''/v0.1/connections'', rq_RawQuery = [], rq_Body = Some con1_body\<rparr> api_node =
      (Ret \<lparr>rs_Status = 200, rs_Header = h, rs_Body = Inr (print_json (Connection_json con'))\<rparr>, s1) \<and>
    ovc_Ip (con_ConnectionDetails con') = ip_String a \<and> Contains net24 a"
proof -
  note w = api_node_simps
  have d: "Decode Connection_store con1_body Connection_zero = (None, con1)" by code_simp
  have k: "agent_key (networkStore @ ''/'' @ con_Network con1)" by code_simp
  have v: "agent_view consul_kv api_node networkStore (con_Network con1) = Some (network_text nw24)"
    by (simp add: agent_view_def w conn_node_simps consul_kv_def KVSGet_def get_id_def node_def network_row_def nw24_def con1_def networkStore_def)
  have r: "consul_room 2 (world api_node)" unfolding w(1) by (rule conn_node_room) simp
  have a: "ascii_network nw24" by code_simp
  have cl: "cleanPath (''/v0.1/connections/'' @ con_ContainerID con1) = ''/v0.1/connections/'' @ con_ContainerID con1"
    "CHR 0x0A \<notin> set (con_ContainerID con1)" by code_simp+
  have "agent_view consul_kv api_node dataStore (ipnet_String net24) = None"
    by (simp add: agent_view_def w conn_node_simps consul_kv_def KVSGet_def get_id_def node_def network_row_def dataStore_def networkStore_def)
  then have p: "agent_pool api_node net24 = replicate 32 0" using poolBytes_v4[OF v4_nets(1)] by (simp add: agent_pool_def)
  show ?thesis
    using api_connection_lifecycle[OF quiet_adapter_host(1,2) _ w(3) r w(2) d _ cl k v a _ v4_nets(1), of 0]
    by (auto simp: p con1_def nw24_def quiet_adapter_host(3))
qed

end
