(* ===== verification/ApiState.thy ===== *)
theory ApiState
  imports Api
begin

section \<open>The table of connections under all requests\<close>

text \<open>
  Only the goroutine that serves connections changes the table of connections, and it
  keeps every connection under the identifier of its container.  The first part of the
  theory frames the rest of the daemon: whatever a computation below returns, and also
  when it panics or does not return, it leaves the table as it is.
\<close>

definition keeps_conns :: "(('w, 'z) conn_state_scheme, 'a) comp \<Rightarrow> bool" where
  "keeps_conns m \<longleftrightarrow> (\<forall>s. Connections (snd (m s)) = Connections s)"

named_theorems keeps_intros \<open>how the frame is proved, and the computations that have it\<close>

subsection \<open>Rules\<close>

lemma keeps_ret [keeps_intros]: "keeps_conns (retM a)"
  by (simp add: keeps_conns_def retM_def)

lemma keeps_lift [keeps_intros]: "keeps_conns (liftO r)"
  by (simp add: keeps_conns_def liftO_def)

lemma keeps_get [keeps_intros]: "keeps_conns (getM f)"
  by (simp add: keeps_conns_def getM_def)

lemma keeps_outside [keeps_intros]: "keeps_conns (outside f)"
  by (simp add: keeps_conns_def outside_def split: prod.splits)

lemma keeps_modify: "(\<And>s. Connections (f s) = Connections s) \<Longrightarrow> keeps_conns (modifyM f)"
  by (simp add: keeps_conns_def modifyM_def)

lemma keeps_bind [keeps_intros]: "keeps_conns m \<Longrightarrow> (\<And>a. keeps_conns (f a)) \<Longrightarrow> keeps_conns (bindM m f)"
  by (auto simp: keeps_conns_def bindM_def split: prod.splits outcome.splits) (metis snd_conv)+

lemma keeps_then [keeps_intros]: "keeps_conns m \<Longrightarrow> keeps_conns n \<Longrightarrow> keeps_conns (thenM m n)"
  unfolding thenM_def by (rule keeps_bind)

lemma keeps_if [keeps_intros]: "keeps_conns m \<Longrightarrow> keeps_conns n \<Longrightarrow> keeps_conns (if P then m else n)"
  by simp

lemma keeps_sum [keeps_intros]: "(\<And>a. keeps_conns (f a)) \<Longrightarrow> (\<And>b. keeps_conns (g b)) \<Longrightarrow> keeps_conns (case x of Inl a \<Rightarrow> f a | Inr b \<Rightarrow> g b)"
  by (cases x) simp_all

lemma keeps_option [keeps_intros]: "keeps_conns m \<Longrightarrow> (\<And>a. keeps_conns (f a)) \<Longrightarrow> keeps_conns (case x of None \<Rightarrow> m | Some a \<Rightarrow> f a)"
  by (cases x) simp_all

lemma keeps_prod [keeps_intros]: "(\<And>a b. keeps_conns (f a b)) \<Longrightarrow> keeps_conns (case x of (a, b) \<Rightarrow> f a b)"
  by (cases x) simp

lemma keeps_list [keeps_intros]: "keeps_conns m \<Longrightarrow> (\<And>a as. keeps_conns (f a as)) \<Longrightarrow> keeps_conns (case x of [] \<Rightarrow> m | a # as \<Rightarrow> f a as)"
  by (cases x) simp_all

lemma keeps_let [keeps_intros]: "keeps_conns (f x) \<Longrightarrow> keeps_conns (Let x f)"
  by simp

lemma keeps_tryE [keeps_intros]: "keeps_conns m \<Longrightarrow> (\<And>a. keeps_conns (f a)) \<Longrightarrow> keeps_conns (tryE m f)"
  unfolding tryE_def by (intro keeps_intros)

lemma keeps_tryM [keeps_intros]: "keeps_conns m \<Longrightarrow> (\<And>a. keeps_conns (f a)) \<Longrightarrow> keeps_conns (tryM m f)"
  unfolding tryM_def by (intro keeps_intros)

lemma keeps_guard [keeps_intros]: "keeps_conns m \<Longrightarrow> keeps_conns n \<Longrightarrow> keeps_conns (guardM m n)"
  unfolding guardM_def by (intro keeps_intros)

lemma keeps_defer [keeps_intros]: "keeps_conns d \<Longrightarrow> keeps_conns m \<Longrightarrow> keeps_conns (deferM d m)"
  by (auto simp: keeps_conns_def deferM_def split: prod.splits outcome.splits) (metis snd_conv)+

lemma keeps_notify_all [keeps_intros]: "(\<And>x. keeps_conns (f x)) \<Longrightarrow> keeps_conns (notify_all f xs)"
  by (induction xs) (auto intro: keeps_intros)

subsection \<open>The datastore\<close>

lemma keeps_http_do [keeps_intros]: "keeps_conns (http_do E m url body)"
  by (simp add: keeps_conns_def http_do_def split: prod.splits)

lemma keeps_http_Get [keeps_intros]: "keeps_conns (http_Get E url)"
  unfolding http_Get_def by (intro keeps_intros)

lemma keeps_client_Do [keeps_intros]: "keeps_conns (client_Do E m url body)"
  unfolding client_Do_def by (intro keeps_intros)

lemma keeps_Get [keeps_intros]: "keeps_conns (Get E st key)"
  unfolding Get_def by (intro keeps_intros)

lemma keeps_GetAll [keeps_intros]: "keeps_conns (GetAll E st)"
  unfolding GetAll_def by (intro keeps_intros)

lemma keeps_Put_cas [keeps_intros]: "keeps_conns (Put_cas E st key v i)"
  unfolding Put_cas_def by (intro keeps_intros)

lemma keeps_Put [keeps_intros]: "keeps_conns (Put E st key v old)"
  unfolding Put_def by (intro keeps_intros keeps_modify) simp_all

lemma keeps_Delete [keeps_intros]: "keeps_conns (Delete E st key)"
  unfolding Delete_def by (intro keeps_intros keeps_modify) simp_all

lemma keeps_write_through [keeps_intros]: "keeps_conns (write_through st key ok v)"
  unfolding write_through_def by (intro keeps_intros keeps_modify) simp_all

lemma keeps_IPAMRequest [keeps_intros]: "keeps_conns (IPAMRequest f E n)"
  by (induction f) (auto simp only: IPAMRequest.simps intro!: keeps_intros)

lemma keeps_IPAMRelease [keeps_intros]: "keeps_conns (IPAMRelease f E a n)"
  by (induction f) (auto simp only: IPAMRelease.simps intro!: keeps_intros)

subsection \<open>Interfaces, the OVS server and the firewall\<close>

lemma keeps_GetIfaceAddr [keeps_intros]: "keeps_conns (GetIfaceAddr E n)"
  unfolding GetIfaceAddr_def by (intro keeps_intros)

lemma keeps_GetIfaceForRoute [keeps_intros]: "keeps_conns (GetIfaceForRoute E a)"
  unfolding GetIfaceForRoute_def by (intro keeps_intros)

lemma keeps_InterfaceUp [keeps_intros]: "keeps_conns (InterfaceUp E n)"
  unfolding InterfaceUp_def by (intro keeps_intros)

lemma keeps_InterfaceDown [keeps_intros]: "keeps_conns (InterfaceDown E n)"
  unfolding InterfaceDown_def by (intro keeps_intros)

lemma keeps_ChangeInterfaceName [keeps_intros]: "keeps_conns (ChangeInterfaceName E a b)"
  unfolding ChangeInterfaceName_def by (intro keeps_intros)

lemma keeps_SetInterfaceInNamespaceFd [keeps_intros]: "keeps_conns (SetInterfaceInNamespaceFd E n fd)"
  unfolding SetInterfaceInNamespaceFd_def by (intro keeps_intros)

lemma keeps_SetDefaultGateway [keeps_intros]: "keeps_conns (SetDefaultGateway E a b)"
  unfolding SetDefaultGateway_def by (intro keeps_intros)

lemma keeps_SetInterfaceMac [keeps_intros]: "keeps_conns (SetInterfaceMac E a b)"
  unfolding SetInterfaceMac_def by (intro keeps_intros)

lemma keeps_SetInterfaceIp [keeps_intros]: "keeps_conns (SetInterfaceIp E a b)"
  unfolding SetInterfaceIp_def by (intro keeps_intros)

lemma keeps_SetMtu [keeps_intros]: "keeps_conns (SetMtu E a b)"
  unfolding SetMtu_def by (intro keeps_intros)

lemma keeps_Call [keeps_intros]: "keeps_conns (Call E c m args z st)"
  unfolding Call_def by (intro keeps_intros)

lemma keeps_Transact [keeps_intros]: "keeps_conns (Transact E c db ops)"
  unfolding Transact_def by (intro keeps_intros)

lemma keeps_transact [keeps_intros]: "keeps_conns (transact E c ops)"
  unfolding transact_def by (intro keeps_intros)

lemma keeps_portExists [keeps_intros]: "keeps_conns (portExists E c n)"
  unfolding portExists_def by (intro keeps_intros)

lemma keeps_deletePort [keeps_intros]: "keeps_conns (deletePort E c b n)"
  unfolding deletePort_def by (intro keeps_intros)

lemma keeps_AddInternalPort [keeps_intros]: "keeps_conns (AddInternalPort E c b n t)"
  unfolding AddInternalPort_def by (intro keeps_intros)

lemma keeps_GenerateRandomName [keeps_intros]: "keeps_conns (GenerateRandomName E p n)"
  unfolding GenerateRandomName_def by (intro keeps_intros)

lemma keeps_createOvsInternalPort [keeps_intros]: "keeps_conns (createOvsInternalPort E p b t)"
  unfolding createOvsInternalPort_def by (intro keeps_intros)

lemma keeps_installRule [keeps_intros]: "keeps_conns (installRule E args)"
  unfolding installRule_def by (intro keeps_intros)

lemma keeps_ruleExists [keeps_intros]: "keeps_conns (ruleExists E t c r)"
  unfolding ruleExists_def by (intro keeps_intros)

lemma keeps_ensure_rule [keeps_intros]: "keeps_conns (ensure_rule E w t c a r)"
  unfolding ensure_rule_def by (intro keeps_intros)

lemma keeps_setupIPTables [keeps_intros]: "keeps_conns (setupIPTables E b n)"
  unfolding setupIPTables_def by (intro keeps_intros)

subsection \<open>Networks and containers\<close>

lemma keeps_GetNetworks [keeps_intros]: "keeps_conns (GetNetworks E)"
  unfolding GetNetworks_def by (intro keeps_intros)

lemma keeps_GetNetwork [keeps_intros]: "keeps_conns (GetNetwork E n)"
  unfolding GetNetwork_def by (intro keeps_intros)

lemma keeps_allocateVlan [keeps_intros]: "keeps_conns (allocateVlan f E)"
  by (induction f) (auto simp only: allocateVlan.simps intro!: keeps_intros)

lemma keeps_releaseVlan [keeps_intros]: "keeps_conns (releaseVlan f E v)"
  by (induction f) (auto simp only: releaseVlan.simps intro!: keeps_intros)

lemma keeps_configure_gateway [keeps_intros]: "keeps_conns (configure_gateway E o1 n i)"
  unfolding configure_gateway_def by (intro keeps_intros)

lemma keeps_store_network [keeps_intros]: "keeps_conns again \<Longrightarrow> keeps_conns (store_network f E n g i again)"
  unfolding store_network_def by (intro keeps_intros)

lemma keeps_CreateNetwork [keeps_intros]: "keeps_conns (CreateNetwork f E n i)"
  by (induction f arbitrary: i) (auto simp only: CreateNetwork.simps intro!: keeps_intros)

lemma keeps_DeleteNetwork [keeps_intros]: "keeps_conns (DeleteNetwork f E n)"
  unfolding DeleteNetwork_def by (intro keeps_intros)

lemma keeps_configure_port [keeps_intros]: "keeps_conns (configure_port E a b c d)"
  unfolding configure_port_def by (intro keeps_intros)

lemma keeps_attach_port [keeps_intros]: "keeps_conns (attach_port E a b c d e)"
  unfolding attach_port_def by (intro keeps_intros)

lemma keeps_AddConnection [keeps_intros]: "keeps_conns (AddConnection f E p n)"
  unfolding AddConnection_def by (intro keeps_intros)

lemma keeps_DeleteConnection [keeps_intros]: "keeps_conns (DeleteConnection f E c)"
  unfolding DeleteConnection_def by (intro keeps_intros)

subsection \<open>The cluster\<close>

lemma keeps_go [keeps_intros]: "keeps_conns (go g)"
  unfolding go_def by (intro keeps_modify) simp

lemma keeps_watchForExistingRegisteredUpdates [keeps_intros]: "keeps_conns (watchForExistingRegisteredUpdates E)"
  unfolding watchForExistingRegisteredUpdates_def by (intro keeps_intros) (auto split: WatchType.split intro: keeps_intros)

lemma keeps_plan_Stop [keeps_intros]: "keeps_conns (plan_Stop p)"
  unfolding plan_Stop_def set_plan_def by (intro keeps_modify) simp

lemma keeps_stopWatches [keeps_intros]: "keeps_conns stopWatches"
  unfolding stopWatches_def by (intro keeps_intros)

lemma keeps_Execute [keeps_intros]: "keeps_conns (Execute E args)"
  unfolding Execute_def by (intro keeps_intros)

lemma keeps_startConsul [keeps_intros]: "keeps_conns (startConsul E a b c d)"
  unfolding startConsul_def by (intro keeps_intros)

lemma keeps_Start [keeps_intros]: "keeps_conns (Start E a b c d)"
  unfolding Start_def by (intro keeps_intros)

lemma keeps_Join [keeps_intros]: "keeps_conns (Join E a)"
  unfolding Join_def by (intro keeps_intros)

lemma keeps_Leave [keeps_intros]: "keeps_conns (Leave E)"
  unfolding Leave_def by (intro keeps_intros)

lemma keeps_InitDatastore [keeps_intros]: "keeps_conns (InitDatastore E a b)"
  unfolding InitDatastore_def by (intro keeps_intros)

lemma keeps_JoinDatastore [keeps_intros]: "keeps_conns (JoinDatastore E a)"
  unfolding JoinDatastore_def by (intro keeps_intros)

lemma keeps_LeaveDatastore [keeps_intros]: "keeps_conns (LeaveDatastore E)"
  unfolding LeaveDatastore_def by (intro keeps_intros)

lemma keeps_serial_send [keeps_intros]: "keeps_conns serial_send"
  unfolding serial_send_def by (intro keeps_intros keeps_modify) simp_all

lemma keeps_clusterBindRPC [keeps_intros]: "keeps_conns (clusterBindRPC E i)"
  unfolding clusterBindRPC_def by (intro keeps_intros keeps_modify) simp_all

lemma keeps_clusterJoinRPC [keeps_intros]: "keeps_conns (clusterJoinRPC E a)"
  unfolding clusterJoinRPC_def by (intro keeps_intros keeps_modify) simp_all

lemma keeps_ClusterRPCHandler [keeps_intros]: "keeps_conns (ClusterRPCHandler E c)"
  unfolding ClusterRPCHandler_def by (cases "cl_Action c") (auto intro: keeps_intros)

lemma keeps_ConfigureClusterListenerPort [keeps_intros]: "keeps_conns (ConfigureClusterListenerPort E i)"
  unfolding ConfigureClusterListenerPort_def by (intro keeps_intros)

lemma keeps_bind_send [keeps_intros]: "keeps_conns (bind_send E c)"
  unfolding bind_send_def by (intro keeps_intros keeps_modify) simp_all

subsection \<open>The table\<close>

text \<open>Every connection is in the table once, under the identifier of its container.\<close>

definition conns_ok :: "('w, 'z) conn_state_scheme \<Rightarrow> bool" where
  "conns_ok s \<longleftrightarrow> distinct (map fst (Connections s)) \<and> (\<forall>k c. map_of (Connections s) k = Some c \<longrightarrow> con_ContainerID c = k)"

definition safe_conns :: "(('w, 'z) conn_state_scheme, 'a) comp \<Rightarrow> bool" where
  "safe_conns m \<longleftrightarrow> (\<forall>s. conns_ok s \<longrightarrow> conns_ok (snd (m s)))"

named_theorems safe_intros \<open>computations that keep the table well formed\<close>

lemma safe_keeps: "keeps_conns m \<Longrightarrow> safe_conns m"
  by (simp add: safe_conns_def keeps_conns_def conns_ok_def)

lemma safe_bind [safe_intros]: "safe_conns m \<Longrightarrow> (\<And>a. safe_conns (f a)) \<Longrightarrow> safe_conns (bindM m f)"
  by (fastforce simp: safe_conns_def bindM_def split: prod.splits outcome.splits)

lemma safe_then [safe_intros]: "safe_conns m \<Longrightarrow> safe_conns n \<Longrightarrow> safe_conns (thenM m n)"
  unfolding thenM_def by (rule safe_bind)

lemma safe_if [safe_intros]: "safe_conns m \<Longrightarrow> safe_conns n \<Longrightarrow> safe_conns (if P then m else n)"
  by simp

lemma safe_option [safe_intros]: "safe_conns m \<Longrightarrow> (\<And>a. safe_conns (f a)) \<Longrightarrow> safe_conns (case x of None \<Rightarrow> m | Some a \<Rightarrow> f a)"
  by (cases x) simp_all

lemma safe_sum [safe_intros]: "(\<And>a. safe_conns (f a)) \<Longrightarrow> (\<And>b. safe_conns (g b)) \<Longrightarrow> safe_conns (case x of Inl a \<Rightarrow> f a | Inr b \<Rightarrow> g b)"
  by (cases x) simp_all

lemma safe_prod [safe_intros]: "(\<And>a b. safe_conns (f a b)) \<Longrightarrow> safe_conns (case x of (a, b) \<Rightarrow> f a b)"
  by (cases x) simp

lemma safe_let [safe_intros]: "safe_conns (f x) \<Longrightarrow> safe_conns (Let x f)"
  by simp

lemma safe_leaf [safe_intros]: "safe_conns (retM a)" "safe_conns (liftO r)" "safe_conns (getM f)"
  by (intro safe_keeps keeps_intros)+

lemma conns_ok_update: "conns_ok s \<Longrightarrow> con_ContainerID c = k \<Longrightarrow> conns_ok (s\<lparr>Connections := AList.update k c (Connections s)\<rparr>)"
  by (auto simp: conns_ok_def distinct_update AList.update_conv' split: if_splits)

lemma conns_ok_delete: "conns_ok s \<Longrightarrow> conns_ok (s\<lparr>Connections := AList.delete k (Connections s)\<rparr>)"
  by (auto simp: conns_ok_def distinct_delete AList.delete_conv' split: if_splits)

lemma safe_ConnectionRPCHandler [safe_intros]: "safe_conns (ConnectionRPCHandler f E c)"
proof -
  have update: "con_ContainerID d = k \<Longrightarrow> safe_conns (modifyM (\<lambda>s. s\<lparr>Connections := AList.update k d (Connections s)\<rparr>))" for d k
    by (simp add: safe_conns_def modifyM_def conns_ok_update)
  have delete: "safe_conns (modifyM (\<lambda>s. s\<lparr>Connections := AList.delete k (Connections s)\<rparr>))" for k
    by (simp add: safe_conns_def modifyM_def conns_ok_delete)
  show ?thesis
    unfolding ConnectionRPCHandler_def
    by (cases "cc_Action c") (auto intro!: safe_intros update delete safe_keeps[OF keeps_AddConnection] safe_keeps[OF keeps_DeleteConnection])
qed

lemma safe_connection_call [safe_intros]: "safe_conns (connection_call f E c)"
  unfolding connection_call_def by (intro safe_intros)

lemma keeps_started_container [keeps_intros]: "keeps_conns (started_container E cid)"
  unfolding started_container_def InspectContainer_def doRequest_def by (intro keeps_intros)

lemma safe_psAdapter [safe_intros]: "safe_conns (psAdapter f E body)"
  unfolding psAdapter_def psAdapterPostHook_def by (intro safe_intros safe_keeps[OF keeps_started_container])

lemma safe_connection_handlers [safe_intros]: "safe_conns (createConnection f E r)" "safe_conns (deleteConnection f E i)"
  "safe_conns getConnections" "safe_conns (getConnection i)"
  unfolding createConnection_def deleteConnection_def getConnections_def getConnection_def by (intro safe_intros)+

lemma keeps_handlers:
  "keeps_conns getConfiguration" "keeps_conns (setConfiguration r)" "keeps_conns (getNetworks E)" "keeps_conns (getNetwork E i)"
  "keeps_conns (createNetwork f E r)" "keeps_conns (deleteNetwork f E i)" "keeps_conns (clusterBind E r)" "keeps_conns (clusterJoin E r)"
  "keeps_conns clusterLeave"
  unfolding getConfiguration_def setConfiguration_def getNetworks_def getNetwork_def createNetwork_def deleteNetwork_def clusterBind_def
    clusterJoin_def clusterLeave_def
  by (intro keeps_intros keeps_modify; simp)+

lemma safe_call_func [safe_intros]: "safe_conns (call_func f E h r vars)"
  unfolding call_func_def Let_def by (cases h) (auto intro!: safe_intros safe_keeps[OF keeps_handlers(1)] intro: safe_keeps keeps_handlers)

lemma safe_ServeHTTP: "safe_conns (ServeHTTP f E r)"
  unfolding ServeHTTP_def appHandler_ServeHTTP_def
  by (cases "Router_dispatch (createRouter E) (rq_Method r) (rq_Path r)") (auto intro!: safe_intros)

subsection \<open>Properties\<close>

text \<open>C4. The table of connections stays well formed under every sequence of requests to the
  HTTP interface, whatever Consul, Docker, the OVS server and the kernel answer, and also
  when a request panics half way: every connection is in it once, under the identifier
  of its container.\<close>

theorem connections_well_formed:
  assumes "conns_ok s"
  shows "conns_ok (foldl (\<lambda>s r. snd (ServeHTTP f E r s)) s rs)"
  using assms
proof (induction rs arbitrary: s)
  case (Cons r rs)
  then show ?case by (simp add: safe_ServeHTTP[unfolded safe_conns_def, rule_format])
qed simp

theorem connections_well_formed_witness:
  "conns_ok (foldl (\<lambda>s r. snd (ServeHTTP 1 quiet_adapter r s)) api_node
     [\<lparr>rq_Method = ''POST'', rq_Path = ''/v0.1/connections'', rq_RawQuery = [], rq_Body = Some con1_body\<rparr>])"
proof -
  have "conns_ok api_node"
    by (simp add: conns_ok_def api_node_def mdns_node_def watch_node_def conn_node_def cluster_state.defs mdns_state.defs daemon_state.defs watch_state.defs api_state.defs
        conn_state.defs bridge_state.defs)
  from connections_well_formed[OF this] show ?thesis .
qed

end
