(* ===== verification/Spec2Isabelle.thy ===== *)
theory Spec2Isabelle
  imports Ipam_Concurrent ApiState
begin

text \<open>
  A verification development of the socketplane daemon: container networking with
  Open vSwitch (OVS) and an embedded Consul agent.

  \<^bold>\<open>The program.\<close>  The daemon (src/daemon) serves an HTTP interface (api.go,
  powerstrip.go) through the router gorilla/mux.  A request to connect a container goes
  to one goroutine (\<open>ConnectionRPCHandler\<close>, bridge.go), which looks up the
  network (network.go), takes an address for the container (ipam.go), adds a port to the
  OVS bridge over libovsdb (ovs_driver.go) and moves it into the namespace of the
  container with netlink (utils.go).  Networks, pools of addresses and the pool of VLANs
  are values in Consul, written with compare-and-set by the embedded client
  (socketplane/ecc), or in its cache as long as the node is alone.  Peers are found with
  mDNS (socketplane/bonjour) and by a watch on the members of the Consul cluster
  (consul/watch), and get a tunnel each.  Requests to bind to an interface or to join a
  cluster go to a second goroutine (\<open>ClusterRPCHandler\<close>, daemon.go).

  \<^bold>\<open>The model.\<close>  A function of the source that only computes is a HOL function,
  into \<open>outcome\<close> when it can panic; one with effects is a computation
  \<open>('s, 'a) comp\<close> over a state record, whose outcome is a value, a panic, or no
  return at all.  The state records extend each other in the order of the components
  (\<open>ecc_state\<close>, \<open>ovs_state\<close>, \<open>driver_state\<close>, \<open>bridge_state\<close>,
  \<open>conn_state\<close>, \<open>watch_state\<close>, \<open>cluster_state\<close>, \<open>mdns_state\<close>, \<open>daemon_state\<close>,
  \<open>api_state\<close>), each with the package variables of its component; the field
  \<open>world\<close> is all that lies outside of the process.  The environment records
  extend each other in the same way; their fields are the calls that leave the modelled
  code: HTTP exchanges with the agent, netlink requests, the OVS server, iptables, the
  Docker daemon, UDP sockets, the clock, and the order in which Go ranges over a map.  A property
  that needs something of one of them says so as a hypothesis.

  \<^bold>\<open>Theories, in the order of their dependence.\<close>
  \<^item> \<open>Prelude\<close>: machine types, outcomes, computations, slices.
  \<^item> \<open>BitArray\<close>: the bit arrays of utils.go.  They implement sets of positions;
    the locale \<open>position_pool\<close> is what allocators rely on.
  \<^item> \<open>GoNet\<close>, \<open>GoJson\<close>, \<open>Base64\<close>: the parts of Go's net,
    encoding/json and encoding/base64 that are used, with the round trips of printing
    and reading.
  \<^item> \<open>Addressing\<close>: positions and addresses (ipam.go): \<open>getIP\<close> and
    \<open>getBitPosition\<close> are inverse modulo the size of the subnet.
  \<^item> \<open>Ecc\<close>: the key-value operations of ecc.go.  The locale \<open>datastore\<close>
    is the contract its callers use, interpreted on the cache here and on the agent in
    \<open>Consul\<close>.
  \<^item> \<open>Consul\<close>: the agent's key-value endpoint, its dispatch to the state machine
    and the tables of the state store (hashicorp/consul), as one store that applies
    writes in order; the locale \<open>kv_service\<close> is the contract of its HTTP answers.
  \<^item> \<open>Ipam\<close>: \<open>IPAMRequest\<close> and \<open>IPAMRelease\<close>: distinct addresses,
    release after request, exhaustion, small and oversized subnets.
  \<^item> \<open>Ipam_Concurrent\<close>: any number of clients interleaved at their HTTP exchanges,
    as an inductive step relation: no address is held twice, nothing crashes, the stored
    pool is the set of held addresses, and an uninterrupted request returns.
  \<^item> \<open>NetUtils\<close>: ranges, overlap and sizes of networks, wrappers around netlink.
  \<^item> \<open>Libovsdb\<close>: OVSDB notation, schema check, client and notifications.
  \<^item> \<open>OvsDriver\<close>: transactions of ovs_driver.go and the cache of the OVS tables,
    which follows the database.
  \<^item> \<open>Gateway\<close>: choice of a subnet, bridge, tunnels, hardware addresses and firewall
    rules (bridge.go).
  \<^item> \<open>Network\<close>: networks and VLANs (network.go), and the proof rules for computations
    that always return (\<open>always\<close>).
  \<^item> \<open>Connections\<close>: connections of containers (bridge.go): what is connected can be
    deleted, which restores the pool.
  \<^item> \<open>ConsulWatch\<close>: Consul's client library, as far as watches use it: queries,
    parsing of a watch, the loop of a plan with its backoff and its end.
  \<^item> \<open>Watches\<close>: the agent, listeners and watches of ecc.go and datastore.go: what
    a listener hears adds up to the nodes of the cluster.
  \<^item> \<open>Mdns\<close>: multicast DNS (client.go, server.go and service.go of bonjour): names and
    messages, the client, the server and the registration of services. What a client reads
    from a server's answer is what was registered (\<open>browse_discovers\<close>); registering keeps
    the servers consistent; lookups that fail twice crash.
  \<^item> \<open>Cluster\<close>: discovery of peers (bonjour.go) and daemon.go: what the discovery reports
    adds up to the members it knows; farewells of peers are never heard; a bind request
    that blocks for ever.
  \<^item> \<open>Adapter\<close>: the Powerstrip hooks (powerstrip.go) with the types of dockerclient.
  \<^item> \<open>Mux\<close>: the router.  \<open>Api\<close>: the routes and handlers of api.go, and the life
    of a connection from the HTTP request down to the agent's store.  \<open>ApiState\<close>: the
    table of connections under all sequences of requests.

  \<^bold>\<open>Fuel and bounds.\<close>  Retries of the source are recursion on a number of attempts,
  and no attempt left is \<open>NoReturn\<close>; the properties that say a call returns show it for
  one attempt, which is enough when no other client writes in between.  The reader of
  JSON has fuel of twice the length of the text, more than it can use.  The loop of a
  watch counts its rounds; \<open>watch_stop_terminates\<close> holds for every bound beyond the
  round in which the plan is stopped.  Machine integers keep their width where the code
  depends on it: the counters of bit arrays, VLANs, durations and the sizes of networks;
  a Go \<open>int\<close> is an integer where its values are lengths or small.

  \<^bold>\<open>What is assumed.\<close>  The agent answers as the modelled handlers do
  (\<open>http E = consul_http other\<close>): one store, writes one after the other, as Raft
  provides.  Hosts on which the kernel and OVS do not write to Consul are
  \<open>quiet_host\<close>.  The program \<open>iptables\<close> reports the rules it was given
  (\<open>iptables_ok\<close>).  Ranging over a map visits every key once.  Every property with such a hypothesis has a witness with concrete
  functions.

  \<^bold>\<open>Not modelled.\<close>  Raft, serf and memberlist between the agents; the wire
  format of DNS, ICMP and sockets; netlink messages, namespaces and the rpc2 codec: all system calls or
  protocols with other processes, which are functions of the environment.  Access
  control, sessions, blocking queries and listings of Consul, and the parts of
  gorilla/mux, dockerclient and Consul's client library that the daemon never calls.
  The command line and the configuration file (socketplane.go, config).  Data races between goroutines
  on the maps of the daemon, which has no locks; log output.
\<close>

end
